(* ===== verification/Oak_Prelude.thy ===== *)
theory Oak_Prelude
  imports Main "HOL-Library.Word" "HOL-Library.Sublist"
begin

text \<open>
  Vocabulary shared by the component theories: machine integers and byte strings, Rust's
  \<^verbatim>\<open>Result\<close> (with panics as a second kind of failure), the \<^verbatim>\<open>?\<close> operator, \<^verbatim>\<open>anyhow\<close>
  contexts, little-endian conversions, slices, UTF-8 validation and the few functions of
  \<^verbatim>\<open>str\<close> and \<^verbatim>\<open>[T]\<close> that the modelled code calls.
\<close>

named_theorems result_simps \<open>rules that invert chains of fallible calls\<close>
named_theorems bytes_simps \<open>rules for slices and little-endian byte strings\<close>

section \<open>Machine integers and byte strings\<close>

type_synonym u8 = "8 word"
type_synonym u16 = "16 word"
type_synonym u32 = "32 word"
type_synonym u64 = "64 word"
type_synonym bytes = "u8 list"

text \<open>
  \<^verbatim>\<open>as u8\<close> truncates. A Rust string is its UTF-8 bytes, here a \<^typ>\<open>string\<close> with one
  \<^typ>\<open>char\<close> per byte, so that \<^verbatim>\<open>len()\<close> is \<^const>\<open>length\<close>.
\<close>

definition byte_of_char :: "char \<Rightarrow> u8" where
  "byte_of_char c = word_of_nat (of_char c)"

definition char_of_byte :: "u8 \<Rightarrow> char" where
  "char_of_byte b = char_of (unat b)"

definition as_bytes :: "string \<Rightarrow> bytes" where
  "as_bytes s = map byte_of_char s"

lemma char_of_byte_of_char [simp]: "char_of_byte (byte_of_char c) = c"
  by (simp add: char_of_byte_def byte_of_char_def unat_of_nat)

lemma byte_of_char_of_byte [simp]: "byte_of_char (char_of_byte b) = b"
proof -
  have "unat b < 256" using unsigned_less [of b] by simp
  then show ?thesis by (simp add: char_of_byte_def byte_of_char_def)
qed

lemma as_bytes_Nil [simp]: "as_bytes [] = []"
  by (simp add: as_bytes_def)

lemma as_bytes_append [simp]: "as_bytes (s @ t) = as_bytes s @ as_bytes t"
  by (simp add: as_bytes_def)

lemma as_bytes_Cons [simp]: "as_bytes (c # s) = byte_of_char c # as_bytes s"
  by (simp add: as_bytes_def)

lemma as_bytes_replicate [simp]: "as_bytes (replicate n c) = replicate n (byte_of_char c)"
  by (simp add: as_bytes_def)

lemma length_as_bytes [simp]: "length (as_bytes s) = length s"
  by (simp add: as_bytes_def)

lemma map_char_as_bytes [simp]: "map char_of_byte (as_bytes s) = s"
  by (simp add: as_bytes_def o_def)

lemma as_bytes_map_char [simp]: "as_bytes (map char_of_byte bs) = bs"
  by (simp add: as_bytes_def o_def)

lemma as_bytes_inject [simp]: "as_bytes s = as_bytes t \<longleftrightarrow> s = t"
  by (metis map_char_as_bytes)

section \<open>Results\<close>

text \<open>
  A Rust computation ends with a value, with an error value of type \<open>'e\<close> or with a panic.
  The two failures are kept apart: an error can be handled by the caller, a panic cannot.
  An \<^verbatim>\<open>anyhow::Error\<close> is its chain of messages, the outermost context first; arguments
  formatted into a message are left out.
\<close>

datatype 'e fault = Err 'e | Panic string

type_synonym ('a, 'e) result = "'e fault + 'a"
type_synonym 'a anyhow = "(string list) fault + 'a"

abbreviation Ok :: "'a \<Rightarrow> ('a, 'e) result" where
  "Ok \<equiv> Inr"

abbreviation Error :: "'e \<Rightarrow> ('a, 'e) result" where
  "Error e \<equiv> Inl (Err e)"

abbreviation panic :: "string \<Rightarrow> ('a, 'e) result" where
  "panic m \<equiv> Inl (Panic m)"

text \<open>The \<^verbatim>\<open>?\<close> operator: go on with the value, or return the failure.\<close>

definition and_then :: "('a, 'e) result \<Rightarrow> ('a \<Rightarrow> ('b, 'e) result) \<Rightarrow> ('b, 'e) result" where
  "and_then r f = (case r of Inl x \<Rightarrow> Inl x | Inr v \<Rightarrow> f v)"

text \<open>\<^verbatim>\<open>map_err\<close>, \<^verbatim>\<open>ok_or\<close>, \<^verbatim>\<open>anyhow::ensure!\<close> and \<^verbatim>\<open>Context::context\<close>.\<close>

definition map_err :: "('e \<Rightarrow> 'f) \<Rightarrow> ('a, 'e) result \<Rightarrow> ('a, 'f) result" where
  "map_err g r = (case r of Inl (Err e) \<Rightarrow> Inl (Err (g e)) | Inl (Panic m) \<Rightarrow> Inl (Panic m)
     | Inr v \<Rightarrow> Inr v)"

definition ok_or :: "'a option \<Rightarrow> 'e \<Rightarrow> ('a, 'e) result" where
  "ok_or x e = (case x of None \<Rightarrow> Error e | Some v \<Rightarrow> Ok v)"

definition expect :: "'a option \<Rightarrow> string \<Rightarrow> ('a, 'e) result" where
  "expect x m = (case x of None \<Rightarrow> panic m | Some v \<Rightarrow> Ok v)"

definition ensure :: "bool \<Rightarrow> 'e \<Rightarrow> (unit, 'e) result" where
  "ensure b e = (if b then Ok () else Error e)"

definition context_of :: "string \<Rightarrow> 'a anyhow \<Rightarrow> 'a anyhow" where
  "context_of m r = map_err (Cons m) r"

definition is_ok :: "('a, 'e) result \<Rightarrow> bool" where
  "is_ok r = (case r of Inl _ \<Rightarrow> False | Inr _ \<Rightarrow> True)"

definition no_panic :: "('a, 'e) result \<Rightarrow> bool" where
  "no_panic r = (case r of Inl (Panic _) \<Rightarrow> False | _ \<Rightarrow> True)"

lemma and_then_Ok [simp]: "and_then (Ok v) f = f v"
  by (simp add: and_then_def)

lemma and_then_Inl [simp]: "and_then (Inl x) f = Inl x"
  by (simp add: and_then_def)

lemma and_then_eq_Ok [result_simps]:
  "and_then r f = Ok v \<longleftrightarrow> (\<exists>u. r = Ok u \<and> f u = Ok v)"
  by (cases r) auto

lemma ok_or_eq_Ok [result_simps]: "ok_or x e = Ok v \<longleftrightarrow> x = Some v"
  by (cases x) (auto simp: ok_or_def)

lemma ok_or_Some [simp]: "ok_or (Some v) e = Ok v"
  by (simp add: ok_or_def)

lemma ok_or_None [simp]: "ok_or None e = Error e"
  by (simp add: ok_or_def)

lemma expect_eq_Ok [result_simps]: "expect x m = Ok v \<longleftrightarrow> x = Some v"
  by (cases x) (auto simp: expect_def)

lemma expect_Some [simp]: "expect (Some v) m = Ok v"
  by (simp add: expect_def)

lemma expect_None [simp]: "expect None m = panic m"
  by (simp add: expect_def)

lemma ensure_eq_Ok [result_simps]: "ensure b e = Ok v \<longleftrightarrow> b"
  by (simp add: ensure_def)

lemma ensure_True [simp]: "ensure True e = Ok ()"
  by (simp add: ensure_def)

lemma ensure_False [simp]: "ensure False e = Error e"
  by (simp add: ensure_def)

lemma map_err_eq_Ok [result_simps]: "map_err g r = Ok v \<longleftrightarrow> r = Ok v"
  by (auto simp: map_err_def split: sum.splits fault.splits)

lemma map_err_Ok [simp]: "map_err g (Ok v) = Ok v"
  by (simp add: map_err_def)

lemma map_err_Error [simp]: "map_err g (Error e) = Error (g e)"
  by (simp add: map_err_def)

lemma map_err_panic [simp]: "map_err g (panic m) = panic m"
  by (simp add: map_err_def)

lemma context_of_eq_Ok [result_simps]: "context_of m r = Ok v \<longleftrightarrow> r = Ok v"
  by (simp add: context_of_def result_simps)

lemma context_of_Ok [simp]: "context_of m (Ok v) = Ok v"
  by (simp add: context_of_def)

lemma is_ok_simps [simp]: "is_ok (Ok v)" "\<not> is_ok (Inl x)"
  by (simp_all add: is_ok_def)

lemma is_ok_iff: "is_ok r \<longleftrightarrow> (\<exists>v. r = Ok v)"
  by (cases r) auto

lemma no_panic_simps [simp]: "no_panic (Ok v)" "no_panic (Error e)" "\<not> no_panic (panic m)"
  by (simp_all add: no_panic_def)

lemma no_panic_and_then:
  "no_panic r \<Longrightarrow> (\<And>v. r = Ok v \<Longrightarrow> no_panic (f v)) \<Longrightarrow> no_panic (and_then r f)"
  by (cases r) (auto simp: no_panic_def)

lemma no_panic_map_err [simp]: "no_panic (map_err g r) = no_panic r"
  by (auto simp: no_panic_def map_err_def split: sum.splits fault.splits)

lemma no_panic_context [simp]: "no_panic (context_of m r) = no_panic r"
  by (simp add: context_of_def)

lemma no_panic_ok_or [simp]: "no_panic (ok_or x e)"
  by (cases x) auto

lemma no_panic_ensure [simp]: "no_panic (ensure b e)"
  by (cases b) auto

text \<open>\<^verbatim>\<open>Iterator::try_fold\<close> over a fallible step, and the fallible map of a list.\<close>

fun try_fold :: "('s \<Rightarrow> 'a \<Rightarrow> ('s, 'e) result) \<Rightarrow> 's \<Rightarrow> 'a list \<Rightarrow> ('s, 'e) result" where
  "try_fold f s [] = Ok s"
| "try_fold f s (x # xs) = and_then (f s x) (\<lambda>s'. try_fold f s' xs)"

fun try_map :: "('a \<Rightarrow> ('b, 'e) result) \<Rightarrow> 'a list \<Rightarrow> ('b list, 'e) result" where
  "try_map f [] = Ok []"
| "try_map f (x # xs) = and_then (f x) (\<lambda>y. and_then (try_map f xs) (\<lambda>ys. Ok (y # ys)))"

lemma try_fold_append:
  "try_fold f s (xs @ ys) = and_then (try_fold f s xs) (\<lambda>s'. try_fold f s' ys)"
proof (induction xs arbitrary: s)
  case (Cons x xs)
  then show ?case by (cases "f s x") auto
qed simp

lemma try_map_Ok_iff: "try_map f xs = Ok ys \<longleftrightarrow> list_all2 (\<lambda>x y. f x = Ok y) xs ys"
  by (induction xs arbitrary: ys) (auto simp: result_simps list_all2_Cons1)

text \<open>\<^verbatim>\<open>Iterator::find_map\<close>.\<close>

fun find_map :: "('a \<Rightarrow> 'b option) \<Rightarrow> 'a list \<Rightarrow> 'b option" where
  "find_map f [] = None"
| "find_map f (x # xs) = (case f x of None \<Rightarrow> find_map f xs | Some y \<Rightarrow> Some y)"

lemma find_map_SomeD: "find_map f xs = Some y \<Longrightarrow> \<exists>x \<in> set xs. f x = Some y"
  by (induction xs) (auto split: option.splits)

lemma find_map_None_iff: "find_map f xs = None \<longleftrightarrow> (\<forall>x \<in> set xs. f x = None)"
  by (induction xs) (auto split: option.splits)

lemma find_map_append:
  "find_map f (xs @ ys) = (case find_map f xs of None \<Rightarrow> find_map f ys | Some y \<Rightarrow> Some y)"
  by (induction xs) (auto split: option.splits)

section \<open>Slices and little-endian integers\<close>

text \<open>\<open>slice xs i n\<close> is \<^verbatim>\<open>xs[i..i + n]\<close>, for ranges that the code has checked.\<close>

definition slice :: "'a list \<Rightarrow> nat \<Rightarrow> nat \<Rightarrow> 'a list" where
  "slice xs i n = take n (drop i xs)"

lemma length_slice [simp]: "i + n \<le> length xs \<Longrightarrow> length (slice xs i n) = n"
  by (simp add: slice_def)

lemma slice_append_left [bytes_simps]: "i + n \<le> length xs \<Longrightarrow> slice (xs @ ys) i n = slice xs i n"
  by (simp add: slice_def)

lemma slice_append_right [bytes_simps]:
  "length xs \<le> i \<Longrightarrow> slice (xs @ ys) i n = slice ys (i - length xs) n"
  by (simp add: slice_def)

lemma slice_all [simp]: "n = length xs \<Longrightarrow> slice xs 0 n = xs"
  by (simp add: slice_def)

lemma slice_zero_append [bytes_simps]: "n = length xs \<Longrightarrow> slice (xs @ ys) 0 n = xs"
  by (simp add: slice_def)

fun le_bytes :: "nat \<Rightarrow> nat \<Rightarrow> bytes" where
  "le_bytes 0 n = []"
| "le_bytes (Suc k) n = word_of_nat n # le_bytes k (n div 256)"

fun le_value :: "bytes \<Rightarrow> nat" where
  "le_value [] = 0"
| "le_value (b # bs) = unat b + 256 * le_value bs"

lemma length_le_bytes [simp]: "length (le_bytes k n) = k"
  by (induction k arbitrary: n) auto

lemma unat_u8_of_nat [simp]: "unat (word_of_nat n :: u8) = n mod 256"
  by (simp add: unat_of_nat)

lemma unat_u8_less [simp]: "unat (b :: u8) < 256"
  using unsigned_less [of b] by simp

lemma le_value_le_bytes [simp]: "le_value (le_bytes k n) = n mod 256 ^ k"
  by (induction k arbitrary: n) (auto simp: mod_mult2_eq)

lemma le_value_less: "le_value bs < 256 ^ length bs"
proof (induction bs)
  case (Cons b bs)
  have "unat b + 256 * le_value bs < 256 * (le_value bs + 1)"
    using unat_u8_less [of b] by simp
  also have "\<dots> \<le> 256 * 256 ^ length bs"
    using Cons by simp
  finally show ?case by simp
qed simp

lemma le_bytes_le_value [simp]: "le_bytes (length bs) (le_value bs) = bs"
proof (induction bs)
  case (Cons b bs)
  have "unat b < 256" by simp
  moreover have "word_of_nat (unat b + 256 * le_value bs) = b"
  proof -
    have "unat (word_of_nat (unat b + 256 * le_value bs) :: u8) = unat b"
      by (simp only: unat_u8_of_nat) simp
    then show ?thesis by (simp only: word_unat_eq_iff)
  qed
  ultimately show ?case using Cons by simp
qed simp

lemma le_value_append:
  "le_value (xs @ ys) = le_value xs + 256 ^ length xs * le_value ys"
  by (induction xs) (auto simp: algebra_simps)

lemma le_value_replicate_0 [simp]: "le_value (replicate n 0) = 0"
  by (induction n) auto

text \<open>\<^verbatim>\<open>slice::chunks(n)\<close>: pieces of length \<open>n\<close>, the last one possibly shorter.\<close>

function chunks :: "nat \<Rightarrow> 'a list \<Rightarrow> 'a list list" where
  "chunks n xs = (if xs = [] \<or> n = 0 then [] else take n xs # chunks n (drop n xs))"
  by pat_completeness auto
termination
  by (relation "measure (\<lambda>(n, xs). length xs)") auto

declare chunks.simps [simp del]

lemma chunks_Nil [simp]: "chunks n [] = []"
  by (simp add: chunks.simps)

lemma chunks_step: "xs \<noteq> [] \<Longrightarrow> n > 0 \<Longrightarrow> chunks n xs = take n xs # chunks n (drop n xs)"
  by (simp add: chunks.simps [of n xs])

lemma concat_chunks [simp]: "n > 0 \<Longrightarrow> concat (chunks n xs) = xs"
proof (induction n xs rule: chunks.induct)
  case (1 n xs)
  then show ?case by (cases "xs = []") (auto simp: chunks_step)
qed

lemma chunks_lengths: "n > 0 \<Longrightarrow> c \<in> set (chunks n xs) \<Longrightarrow> 0 < length c \<and> length c \<le> n"
proof (induction n xs rule: chunks.induct)
  case (1 n xs)
  then show ?case by (cases "xs = []") (auto simp: chunks_step)
qed

lemma chunks_eq_Nil_iff [simp]: "n > 0 \<Longrightarrow> chunks n xs = [] \<longleftrightarrow> xs = []"
  by (cases "xs = []") (auto simp: chunks_step)

section \<open>UTF-8 and strings\<close>

text \<open>
  \<^verbatim>\<open>core::str::from_utf8\<close> accepts exactly the well-formed sequences of the Unicode
  standard (Table 3-7): no overlong encodings, no surrogates, nothing above U+10FFFF.
\<close>

definition utf8_cont :: "u8 \<Rightarrow> bool" where
  "utf8_cont b \<longleftrightarrow> 0x80 \<le> b \<and> b \<le> 0xBF"

definition utf8_two :: "u8 \<Rightarrow> u8 \<Rightarrow> bool" where
  "utf8_two a b \<longleftrightarrow> 0xC2 \<le> a \<and> a \<le> 0xDF \<and> utf8_cont b"

definition utf8_three :: "u8 \<Rightarrow> u8 \<Rightarrow> u8 \<Rightarrow> bool" where
  "utf8_three a b c \<longleftrightarrow> utf8_cont c \<and>
     (a = 0xE0 \<and> 0xA0 \<le> b \<and> b \<le> 0xBF \<or>
      (0xE1 \<le> a \<and> a \<le> 0xEC \<or> 0xEE \<le> a \<and> a \<le> 0xEF) \<and> utf8_cont b \<or>
      a = 0xED \<and> 0x80 \<le> b \<and> b \<le> 0x9F)"

definition utf8_four :: "u8 \<Rightarrow> u8 \<Rightarrow> u8 \<Rightarrow> u8 \<Rightarrow> bool" where
  "utf8_four a b c d \<longleftrightarrow> utf8_cont c \<and> utf8_cont d \<and>
     (a = 0xF0 \<and> 0x90 \<le> b \<and> b \<le> 0xBF \<or>
      0xF1 \<le> a \<and> a \<le> 0xF3 \<and> utf8_cont b \<or>
      a = 0xF4 \<and> 0x80 \<le> b \<and> b \<le> 0x8F)"

fun utf8_valid :: "bytes \<Rightarrow> bool" where
  "utf8_valid [] = True"
| "utf8_valid (a # as) =
     (if a < 0x80 then utf8_valid as
      else (case as of [] \<Rightarrow> False
        | b # bs \<Rightarrow> if utf8_two a b then utf8_valid bs
            else (case bs of [] \<Rightarrow> False
              | c # cs \<Rightarrow> if utf8_three a b c then utf8_valid cs
                  else (case cs of [] \<Rightarrow> False
                    | d # ds \<Rightarrow> utf8_four a b c d \<and> utf8_valid ds))))"

definition from_utf8 :: "bytes \<Rightarrow> string option" where
  "from_utf8 bs = (if utf8_valid bs then Some (map char_of_byte bs) else None)"

lemma from_utf8_SomeD: "from_utf8 bs = Some s \<Longrightarrow> as_bytes s = bs"
  by (auto simp: from_utf8_def split: if_splits)

lemma utf8_valid_ascii: "\<forall>b \<in> set bs. b < 0x80 \<Longrightarrow> utf8_valid bs"
  by (induction bs) auto

text \<open>
  \<^verbatim>\<open>str::trim\<close> removes characters with the Unicode \<^verbatim>\<open>White_Space\<close> property at both
  ends; each is listed by its UTF-8 encoding.
\<close>

definition white_space :: "bytes list" where
  "white_space = map (\<lambda>b. [b]) [0x09, 0x0A, 0x0B, 0x0C, 0x0D, 0x20]
     @ [[0xC2, 0x85], [0xC2, 0xA0], [0xE1, 0x9A, 0x80]]
     @ map (\<lambda>b. [0xE2, 0x80, b])
         [0x80, 0x81, 0x82, 0x83, 0x84, 0x85, 0x86, 0x87, 0x88, 0x89, 0x8A, 0xA8, 0xA9, 0xAF]
     @ [[0xE2, 0x81, 0x9F], [0xE3, 0x80, 0x80]]"

definition ws_prefix :: "string \<Rightarrow> nat" where
  "ws_prefix s = (case find (\<lambda>w. prefix w (as_bytes s)) white_space of
     None \<Rightarrow> 0 | Some w \<Rightarrow> length w)"

definition ws_suffix :: "string \<Rightarrow> nat" where
  "ws_suffix s = (case find (\<lambda>w. suffix w (as_bytes s)) white_space of
     None \<Rightarrow> 0 | Some w \<Rightarrow> length w)"

function trim_start :: "string \<Rightarrow> string" where
  "trim_start s = (if s = [] \<or> ws_prefix s = 0 then s else trim_start (drop (ws_prefix s) s))"
  by pat_completeness auto
termination
  by (relation "measure length") auto

function trim_end :: "string \<Rightarrow> string" where
  "trim_end s = (if s = [] \<or> ws_suffix s = 0 then s
     else trim_end (take (length s - ws_suffix s) s))"
  by pat_completeness auto
termination
  by (relation "measure length") auto

declare trim_start.simps [simp del] trim_end.simps [simp del]

definition trim :: "string \<Rightarrow> string" where
  "trim s = trim_end (trim_start s)"

definition strip_prefix :: "'a list \<Rightarrow> 'a list \<Rightarrow> 'a list option" where
  "strip_prefix p s = (if prefix p s then Some (drop (length p) s) else None)"

definition strip_suffix :: "'a list \<Rightarrow> 'a list \<Rightarrow> 'a list option" where
  "strip_suffix p s = (if suffix p s then Some (take (length s - length p) s) else None)"

lemma strip_prefix_append [simp]: "strip_prefix p (p @ s) = Some s"
  by (simp add: strip_prefix_def)

lemma strip_suffix_append [simp]: "strip_suffix p (s @ p) = Some s"
  by (simp add: strip_suffix_def suffix_def)

text \<open>Nothing is trimmed where no white-space encoding starts or ends.\<close>

lemma white_space_nonempty: "w \<in> set white_space \<Longrightarrow> w \<noteq> []"
  by (auto simp: white_space_def)

lemma ws_prefix_0:
  assumes "byte_of_char c \<notin> hd ` set white_space"
  shows "ws_prefix (c # s) = 0"
proof -
  have "\<not> prefix w (as_bytes (c # s))" if w: "w \<in> set white_space" for w
  proof
    assume "prefix w (as_bytes (c # s))"
    with white_space_nonempty [OF w] have "hd w = byte_of_char c"
      by (cases w) (auto simp: as_bytes_def)
    with assms w show False by (metis imageI)
  qed
  then have "find (\<lambda>w. prefix w (as_bytes (c # s))) white_space = None"
    by (simp add: find_None_iff)
  then show ?thesis by (simp add: ws_prefix_def)
qed

lemma ws_suffix_0:
  assumes "byte_of_char c \<notin> last ` set white_space"
  shows "ws_suffix (s @ [c]) = 0"
proof -
  have "\<not> suffix w (as_bytes (s @ [c]))" if w: "w \<in> set white_space" for w
  proof
    assume "suffix w (as_bytes (s @ [c]))"
    with white_space_nonempty [OF w] have "last w = byte_of_char c"
      by (cases w rule: rev_cases) (auto simp: as_bytes_def)
    with assms w show False by (metis imageI)
  qed
  then have "find (\<lambda>w. suffix w (as_bytes (s @ [c]))) white_space = None"
    by (simp add: find_None_iff)
  then show ?thesis by (simp add: ws_suffix_def)
qed

lemma trim_start_id: "byte_of_char c \<notin> hd ` set white_space \<Longrightarrow> trim_start (c # s) = c # s"
  by (simp add: trim_start.simps ws_prefix_0)

lemma trim_end_id: "byte_of_char c \<notin> last ` set white_space \<Longrightarrow> trim_end (s @ [c]) = s @ [c]"
  by (simp add: trim_end.simps ws_suffix_0)

definition newline :: char where
  "newline = CHR 0x0A"

lemma byte_of_newline [simp]: "byte_of_char newline = 0x0A"
  by (simp add: newline_def byte_of_char_def)

lemma trim_end_newline: "trim_end (s @ [newline]) = trim_end s"
proof -
  have "as_bytes (s @ [newline]) = as_bytes s @ [0x0A]"
    by (simp add: as_bytes_def)
  then have "ws_suffix (s @ [newline]) = 1"
    by (simp add: ws_suffix_def white_space_def)
  then show ?thesis by (subst trim_end.simps) simp
qed

text \<open>Text before the first occurrence of a separator is determined by the whole.\<close>

lemma separator_inject:
  "x \<notin> set xs \<Longrightarrow> x \<notin> set ys \<Longrightarrow> xs @ x # us = ys @ x # vs \<longleftrightarrow> xs = ys \<and> us = vs"
proof (induction xs arbitrary: ys)
  case Nil
  then show ?case by (cases ys) auto
next
  case (Cons a xs)
  then show ?case by (cases ys) auto
qed

section \<open>Formatting\<close>

text \<open>The decimal digits that \<^verbatim>\<open>format!\<close> prints for an unsigned integer.\<close>

definition digit_char :: "nat \<Rightarrow> char" where
  "digit_char n = char_of (48 + n)"

fun show_nat :: "nat \<Rightarrow> string" where
  "show_nat n = (if n < 10 then [digit_char n] else show_nat (n div 10) @ [digit_char (n mod 10)])"

declare show_nat.simps [simp del]

fun read_nat :: "nat \<Rightarrow> string \<Rightarrow> nat" where
  "read_nat acc [] = acc"
| "read_nat acc (c # cs) = read_nat (10 * acc + (of_char c - 48)) cs"

lemma read_nat_append: "read_nat acc (xs @ ys) = read_nat (read_nat acc xs) ys"
  by (induction xs arbitrary: acc) auto

lemma of_digit_char: "n < 10 \<Longrightarrow> of_char (digit_char n) = 48 + n"
  by (simp add: digit_char_def)

lemma read_show_nat: "read_nat 0 (show_nat n) = n"
proof (induction n rule: show_nat.induct)
  case (1 n)
  show ?case
  proof (cases "n < 10")
    case True
    then show ?thesis by (simp add: show_nat.simps [of n] of_digit_char)
  next
    case False
    with 1 show ?thesis
      by (simp add: show_nat.simps [of n] read_nat_append of_digit_char)
  qed
qed

lemma show_nat_inject [simp]: "show_nat m = show_nat n \<longleftrightarrow> m = n"
  by (metis read_show_nat)

lemma show_nat_digits: "c \<in> set (show_nat n) \<Longrightarrow> 48 \<le> (of_char c :: nat) \<and> (of_char c :: nat) < 58"
proof (induction n rule: show_nat.induct)
  case (1 n)
  show ?case
  proof (cases "n < 10")
    case True
    with "1.prems" show ?thesis by (simp add: show_nat.simps [of n] of_digit_char)
  next
    case False
    with 1 show ?thesis by (auto simp: show_nat.simps [of n] of_digit_char)
  qed
qed

section \<open>Integer division as Rust rounds it\<close>

text \<open>Signed division truncates towards zero.\<close>

definition rust_div :: "int \<Rightarrow> int \<Rightarrow> int" where
  "rust_div a b = (let q = \<bar>a\<bar> div \<bar>b\<bar> in if (a < 0) = (b < 0) then q else - q)"

lemma rust_div_nonneg: "0 \<le> a \<Longrightarrow> 0 < b \<Longrightarrow> rust_div a b = a div b"
  by (simp add: rust_div_def)

end
