(* ===== verification/Oak_Slices.thy ===== *)
theory Oak_Slices
  imports Oak_Prelude "HOL-Library.Log_Nat"
begin

text \<open>
  Rust's indexing of arrays, vectors and slices, where an index out of range ends with a panic, and
  the few integer functions of \<^verbatim>\<open>core\<close> that the components on raw memory use. A
  \<^verbatim>\<open>usize\<close> is a natural number; where the code can leave its range, the component says so.
\<close>

unbundle bit_operations_syntax

section \<open>Indexing\<close>

definition index_at :: "'a list \<Rightarrow> nat \<Rightarrow> ('a, 'e) result" where
  "index_at xs i = (if i < length xs then Ok (xs ! i) else panic ''index out of bounds'')"

definition set_at :: "'a list \<Rightarrow> nat \<Rightarrow> 'a \<Rightarrow> ('a list, 'e) result" where
  "set_at xs i v = (if i < length xs then Ok (xs[i := v]) else panic ''index out of bounds'')"

text \<open>\<^verbatim>\<open>&xs[i..j]\<close>, and \<^verbatim>\<open>xs[i..i + ys.len()].copy_from_slice(ys)\<close>.\<close>

definition sub_slice :: "'a list \<Rightarrow> nat \<Rightarrow> nat \<Rightarrow> ('a list, 'e) result" where
  "sub_slice xs i j = (if i \<le> j \<and> j \<le> length xs then Ok (take (j - i) (drop i xs))
     else panic ''range out of bounds'')"

definition overwrite :: "'a list \<Rightarrow> nat \<Rightarrow> 'a list \<Rightarrow> 'a list" where
  "overwrite xs i ys = take i xs @ ys @ drop (i + length ys) xs"

definition copy_at :: "'a list \<Rightarrow> nat \<Rightarrow> 'a list \<Rightarrow> ('a list, 'e) result" where
  "copy_at xs i ys = (if i + length ys \<le> length xs then Ok (overwrite xs i ys)
     else panic ''range out of bounds'')"

lemma length_overwrite [simp]: "i + length ys \<le> length xs \<Longrightarrow> length (overwrite xs i ys) = length xs"
  by (simp add: overwrite_def)

lemma drop_overwrite_at:
  "i + length ys \<le> length xs \<Longrightarrow> drop i (overwrite xs i ys) = ys @ drop (i + length ys) xs"
  by (simp add: overwrite_def)

lemma take_overwrite:
  "j \<le> i \<Longrightarrow> i + length ys \<le> length xs \<Longrightarrow> take j (overwrite xs i ys) = take j xs"
  by (simp add: overwrite_def)

lemma overwrite_append:
  "i + length ys + length zs \<le> length xs \<Longrightarrow>
     overwrite (overwrite xs i ys) (i + length ys) zs = overwrite xs i (ys @ zs)"
  by (simp add: overwrite_def add_ac)

lemma update_overwrite: "i < length xs \<Longrightarrow> xs[i := v] = overwrite xs i [v]"
  by (simp add: overwrite_def upd_conv_take_nth_drop)

lemma slice_overwrite_other:
  "i + length ys \<le> length xs \<Longrightarrow> j + len \<le> i \<or> i + length ys \<le> j \<Longrightarrow>
     slice (overwrite xs i ys) j len = slice xs j len"
  by (auto simp: slice_def overwrite_def drop_take min_def)

lemma slice_overwrite_same:
  "i + length ys \<le> length xs \<Longrightarrow> slice (overwrite xs i ys) i (length ys) = ys"
  by (simp add: slice_def overwrite_def)

lemma index_at_Ok [result_simps]: "index_at xs i = Ok v \<longleftrightarrow> i < length xs \<and> xs ! i = v"
  by (simp add: index_at_def)

lemma set_at_Ok [result_simps]: "set_at xs i v = Ok ys \<longleftrightarrow> i < length xs \<and> xs[i := v] = ys"
  by (simp add: set_at_def)

lemma sub_slice_Ok [result_simps]:
  "sub_slice xs i j = Ok ys \<longleftrightarrow> i \<le> j \<and> j \<le> length xs \<and> take (j - i) (drop i xs) = ys"
  by (auto simp: sub_slice_def)

lemma copy_at_Ok [result_simps]:
  "copy_at xs i ys = Ok zs \<longleftrightarrow> i + length ys \<le> length xs \<and> overwrite xs i ys = zs"
  by (simp add: copy_at_def)

section \<open>Integers\<close>

definition next_power_of_two :: "nat \<Rightarrow> nat" where
  "next_power_of_two n = (if n \<le> 1 then 1 else 2 ^ floorlog 2 (n - 1))"

definition ilog2 :: "nat \<Rightarrow> nat" where
  "ilog2 n = floorlog 2 n - 1"

lemma ilog2_power [simp]: "ilog2 (2 ^ k) = k"
  by (simp add: ilog2_def floorlog_def)

lemma next_power_of_two_power: "\<exists>k. next_power_of_two n = 2 ^ k"
  by (auto simp: next_power_of_two_def intro: exI [of _ 0])

lemma next_power_of_two_ge: "n \<le> next_power_of_two n"
  using floorlog_bounds [of "n - 1" 2] by (auto simp: next_power_of_two_def)

lemma next_power_of_two_le: "n \<le> 2 ^ k \<Longrightarrow> next_power_of_two n \<le> 2 ^ k"
proof (cases "n \<le> 1")
  case False
  assume n: "n \<le> 2 ^ k"
  have "floorlog 2 (n - 1) \<le> k"
    by (rule floorlog_leI) (use n False in auto)
  then show ?thesis using False by (simp add: next_power_of_two_def)
qed (simp add: next_power_of_two_def)

text \<open>A shift and a mask split an index into quotient and remainder.\<close>

lemma drop_bit_nat_div: "drop_bit k (n :: nat) = n div 2 ^ k"
  by (simp add: drop_bit_eq_div)

lemma and_mask_mod: "n AND (2 ^ k - 1 :: nat) = n mod 2 ^ k"
  using take_bit_eq_mask [of k n] by (simp add: take_bit_eq_mod mask_eq_exp_minus_1)

end
