(* ===== verification/Oak_Htbl.thy ===== *)
theory Oak_Htbl
  imports Oak_Slices
begin

text \<open>
  The hash table of the lookup data, \<^verbatim>\<open>oak_functions_service/src/lookup_htbl.rs\<close>: a table of
  entries with a hash byte and a 40-bit index, and chunks of bytes that hold the keys and values
  with compressed lengths. The one random number that a table draws is an argument. The probing
  loop is a partial function: that it returns is a theorem about the tables that the operations
  build.
\<close>

section \<open>Data\<close>

definition INDEX_SIZE :: nat where
  "INDEX_SIZE = 5"

record entry =
  hash_byte :: u8
  data_index :: bytes

definition entry_default :: entry where
  "entry_default = \<lparr>hash_byte = 0, data_index = replicate INDEX_SIZE 0\<rparr>"

record lookup_htbl =
  table :: "entry list"
  data_chunks :: "bytes list"
  max_entries :: nat
  used_data :: nat
  used_entries :: nat
  hash_secret :: u64
  chunk_bits :: nat
  chunk_size :: nat
  chunk_mask :: nat

definition htbl_default :: lookup_htbl where
  "htbl_default = \<lparr>table = [], data_chunks = [], max_entries = 0, used_data = 0, used_entries = 0,
     hash_secret = 0, chunk_bits = 0, chunk_size = 0, chunk_mask = 0\<rparr>"

datatype lookup_result = Found nat nat | NotFound nat u8

text \<open>A computation on a table panics, returns, or does not end; the last is \<open>None\<close>.\<close>

type_synonym 'a run = "('a, string) result option"

definition run_then :: "'a run \<Rightarrow> ('a \<Rightarrow> 'b run) \<Rightarrow> 'b run" where
  "run_then r f = Option.bind r (\<lambda>x. case x of Inl e \<Rightarrow> Some (Inl e) | Inr v \<Rightarrow> f v)"

section \<open>Indices, lengths and hashes\<close>

definition reduce :: "u64 \<Rightarrow> nat \<Rightarrow> nat" where
  "reduce h table_len = drop_bit 64 (unat h * table_len)"

definition read_index :: "entry \<Rightarrow> nat" where
  "read_index e = le_value (data_index e @ replicate (8 - INDEX_SIZE) 0)"

definition write_index :: "entry \<Rightarrow> nat \<Rightarrow> entry" where
  "write_index e v = e\<lparr>data_index := take INDEX_SIZE (le_bytes 8 v)\<rparr>"

definition read_len :: "bytes \<Rightarrow> nat \<Rightarrow> (nat \<times> nat, string) result" where
  "read_len data index =
     and_then (index_at data index) (\<lambda>b. let first_byte = unat b in
     if first_byte < 64 then Ok (first_byte, 1)
     else let num_bytes = drop_bit 6 first_byte in
       and_then (sub_slice data (index + 1) (index + 1 + num_bytes)) (\<lambda>low.
       Ok (le_value (low @ replicate (8 - num_bytes) 0)
             OR push_bit (8 * num_bytes) (first_byte AND 0x3f), 1 + num_bytes)))"

function write_len_loop :: "bytes \<Rightarrow> nat \<Rightarrow> nat \<Rightarrow> nat \<Rightarrow> (bytes \<times> nat \<times> nat, string) result" where
  "write_len_loop data index num_bytes len =
     (if len \<ge> 64 then
        and_then (set_at data (index + num_bytes) (word_of_nat len)) (\<lambda>data.
        write_len_loop data index (num_bytes + 1) (drop_bit 8 len))
      else Ok (data, num_bytes, len))"
  by pat_completeness auto
termination
  by (relation "measure (\<lambda>(data, index, num_bytes, len). len)") (auto simp: drop_bit_nat_div)

definition write_len :: "bytes \<Rightarrow> nat \<Rightarrow> nat \<Rightarrow> (bytes \<times> nat, string) result" where
  "write_len data index len =
     (if len < 64 then
        and_then (set_at data index (word_of_nat len)) (\<lambda>data. Ok (data, 1))
      else
        and_then (write_len_loop data index 1 len) (\<lambda>(data, num_bytes, len).
        and_then (set_at data index (word_of_nat (push_bit 6 (num_bytes - 1) OR len))) (\<lambda>data.
        Ok (data, num_bytes))))"

definition hash_u64 :: "u64 \<Rightarrow> u64 \<Rightarrow> u64" where
  "hash_u64 v secret =
     (let v1 = (v + secret) XOR word_rotl 32 v;
          v2 = ucast v1 * (0x9d460858ea81ac79 :: 128 word) in
      v XOR ucast v2 XOR ucast (drop_bit 64 v2))"

text \<open>The loop over whole words of eight bytes; \<open>buf\<close> holds the last one, and the tail overwrites
  only its beginning.\<close>

function hash_words :: "u64 \<Rightarrow> u64 \<Rightarrow> bytes \<Rightarrow> bytes \<Rightarrow> u64" where
  "hash_words secret val buf v =
     (if 8 \<le> length v then
        hash_words secret (hash_u64 (val XOR word_of_nat (le_value (take 8 v))) secret) (take 8 v) (drop 8 v)
      else if v \<noteq> [] then
        hash_u64 (val XOR word_of_nat (le_value (overwrite buf 0 v))) secret
      else val)"
  by pat_completeness auto
termination
  by (relation "measure (\<lambda>(secret, val, buf, v). length v)") auto

definition hash :: "bytes \<Rightarrow> u64 \<Rightarrow> u64" where
  "hash v secret = hash_words secret 0 (replicate 8 0) v"

declare write_len_loop.simps [simp del] hash_words.simps [simp del]

section \<open>Reading\<close>

definition read_key :: "lookup_htbl \<Rightarrow> nat \<Rightarrow> (bytes, string) result" where
  "read_key t d =
     and_then (index_at (data_chunks t) (drop_bit (chunk_bits t) d)) (\<lambda>chunk.
     let index = d AND chunk_mask t in
     and_then (read_len chunk index) (\<lambda>(key_len, key_len_size).
     let key_index = index + key_len_size in
     sub_slice chunk key_index (key_index + key_len)))"

definition read_value :: "lookup_htbl \<Rightarrow> nat \<Rightarrow> (bytes, string) result" where
  "read_value t d =
     and_then (index_at (data_chunks t) (drop_bit (chunk_bits t) d)) (\<lambda>chunk.
     let index = d AND chunk_mask t in
     and_then (read_len chunk index) (\<lambda>(key_len, key_len_size).
     let value_len_index = index + key_len_size + key_len in
     and_then (read_len chunk value_len_index) (\<lambda>(value_len, value_len_size).
     let value_index = value_len_index + value_len_size in
     sub_slice chunk value_index (value_index + value_len))))"

definition next_slot :: "lookup_htbl \<Rightarrow> nat \<Rightarrow> nat" where
  "next_slot t i = (if i + 1 = length (table t) then 0 else i + 1)"

partial_function (option) skip_entries :: "lookup_htbl \<Rightarrow> u8 \<Rightarrow> nat \<Rightarrow> nat option" where
  "skip_entries t key_hash_byte i =
     (if hash_byte (table t ! i) \<noteq> key_hash_byte \<and> hash_byte (table t ! i) \<noteq> 0
      then skip_entries t key_hash_byte (next_slot t i)
      else Some i)"

partial_function (option) lookup_loop :: "lookup_htbl \<Rightarrow> bytes \<Rightarrow> u8 \<Rightarrow> nat \<Rightarrow> lookup_result run" where
  "lookup_loop t key key_hash_byte i =
     Option.bind (skip_entries t key_hash_byte i) (\<lambda>i.
     let e = table t ! i; d = read_index e in
     if d = 0 then Some (Ok (NotFound i key_hash_byte))
     else if hash_byte e = key_hash_byte then
       (case read_key t d of
          Inl x \<Rightarrow> Some (Inl x)
        | Inr k \<Rightarrow> if key = k then Some (Ok (Found i d))
            else lookup_loop t key key_hash_byte (next_slot t i))
     else lookup_loop t key key_hash_byte (next_slot t i))"

definition lookup :: "lookup_htbl \<Rightarrow> bytes \<Rightarrow> lookup_result run" where
  "lookup t key =
     (if table t = [] then Some (panic ''Check for emtpy before calling lookup'')
      else
        let key_hash = hash key (hash_secret t) in
        lookup_loop t key (ucast (drop_bit 32 key_hash)) (reduce key_hash (length (table t))))"

definition contains_key :: "lookup_htbl \<Rightarrow> bytes \<Rightarrow> bool run" where
  "contains_key t key =
     (if table t = [] then Some (Ok False)
      else run_then (lookup t key) (\<lambda>r. Some (Ok (case r of Found _ _ \<Rightarrow> True | NotFound _ _ \<Rightarrow> False))))"

definition htbl_len :: "lookup_htbl \<Rightarrow> nat" where
  "htbl_len t = used_entries t"

definition htbl_is_empty :: "lookup_htbl \<Rightarrow> bool" where
  "htbl_is_empty t = (used_entries t = 0)"

definition htbl_get :: "lookup_htbl \<Rightarrow> bytes \<Rightarrow> bytes option run" where
  "htbl_get t key =
     (if htbl_is_empty t then Some (Ok None)
      else run_then (lookup t key) (\<lambda>r.
        case r of Found _ d \<Rightarrow> Some (and_then (read_value t d) (\<lambda>v. Ok (Some v)))
        | NotFound _ _ \<Rightarrow> Some (Ok None)))"

section \<open>Building\<close>

definition htbl_reserve :: "lookup_htbl \<Rightarrow> nat \<Rightarrow> u64 \<Rightarrow> (lookup_htbl, string) result" where
  "htbl_reserve t n random =
     (if used_entries t \<noteq> 0 then Ok t
      else if 5 * n + 1 \<ge> 2 ^ 64 then panic ''attempt to multiply with overflow''
      else
        let allocated_entries = (5 * n + 1) div 3 in
        if random = 0 then panic ''There is something very wrong with OsRng''
        else
          let size = next_power_of_two allocated_entries;
              size = (if size < push_bit 21 1 then push_bit 21 1 else size) in
          Ok (t\<lparr>max_entries := n, table := replicate allocated_entries entry_default,
            data_chunks := [], used_data := 1, used_entries := 0, hash_secret := random,
            chunk_size := size, chunk_mask := size - 1, chunk_bits := ilog2 size\<rparr>))"

definition new_data :: "lookup_htbl \<Rightarrow> bytes \<Rightarrow> bytes \<Rightarrow> (lookup_htbl \<times> nat, string) result" where
  "new_data t key val =
     (let additional_data_len = 2 * INDEX_SIZE + length key + length val in
      if \<not> additional_data_len < chunk_size t then panic ''assertion failed''
      else
        let end_index = used_data t + additional_data_len;
            chunk_index = drop_bit (chunk_bits t) end_index;
            t = (if length (data_chunks t) \<le> chunk_index
              then t\<lparr>data_chunks := data_chunks t @ [replicate (chunk_size t) 0],
                used_data := (if chunk_index = 0 then 1 else chunk_size t * chunk_index)\<rparr>
              else t) in
        and_then (index_at (data_chunks t) chunk_index) (\<lambda>chunk.
        let index = used_data t AND chunk_mask t in
        and_then (write_len chunk index (length key)) (\<lambda>(chunk, key_len_size).
        let key_index = index + key_len_size in
        and_then (copy_at chunk key_index key) (\<lambda>chunk.
        let value_len_index = key_index + length key in
        and_then (write_len chunk value_len_index (length val)) (\<lambda>(chunk, value_len_size).
        let value_index = value_len_index + value_len_size in
        and_then (copy_at chunk value_index val) (\<lambda>chunk.
        Ok (t\<lparr>data_chunks := (data_chunks t)[chunk_index := chunk],
              used_data := used_data t + (value_index + length val - index)\<rparr>, used_data t)))))))"

text \<open>One round of the loop of \<^verbatim>\<open>grow_table\<close>: an entry of the old table is entered in the
  new one.\<close>

definition move_entry :: "lookup_htbl \<Rightarrow> entry \<Rightarrow> lookup_htbl run" where
  "move_entry t e =
     (let raw_index = read_index e in
      if raw_index \<noteq> 0 then
        run_then (Some (read_key t raw_index)) (\<lambda>key.
        run_then (lookup t key) (\<lambda>r.
          case r of
            NotFound i b \<Rightarrow> Some (Ok (t\<lparr>table := (table t)[i :=
              write_index ((table t ! i)\<lparr>hash_byte := b\<rparr>) raw_index]\<rparr>))
          | Found _ _ \<Rightarrow> Some (panic ''New table should not already have this key'')))
      else Some (Ok t))"

fun move_entries :: "lookup_htbl \<Rightarrow> entry list \<Rightarrow> lookup_htbl run" where
  "move_entries t [] = Some (Ok t)"
| "move_entries t (e # es) = run_then (move_entry t e) (\<lambda>t. move_entries t es)"

definition grow_table :: "lookup_htbl \<Rightarrow> u64 \<Rightarrow> lookup_htbl run" where
  "grow_table t random =
     (if max_entries t = 0 then Some (htbl_reserve t 1 random)
      else move_entries (t\<lparr>table := replicate (push_bit 1 (length (table t))) entry_default,
        max_entries := push_bit 1 (max_entries t)\<rparr>) (table t))"

definition htbl_insert :: "lookup_htbl \<Rightarrow> u64 \<Rightarrow> bytes \<Rightarrow> bytes \<Rightarrow> (lookup_htbl \<times> bytes option) run" where
  "htbl_insert t random key val =
     run_then (if table t = [] then Some (htbl_reserve t 1 random)
       else if used_entries t \<ge> max_entries t then grow_table t random
       else Some (Ok t)) (\<lambda>t.
     run_then (Some (new_data t key val)) (\<lambda>(t, d).
     run_then (lookup t key) (\<lambda>r.
       case r of
         Found i old \<Rightarrow>
           let t = t\<lparr>table := (table t)[i := write_index (table t ! i) d]\<rparr> in
           Some (and_then (read_value t old) (\<lambda>v. Ok (t, Some v)))
       | NotFound i b \<Rightarrow>
           Some (Ok (t\<lparr>table := (table t)[i := write_index ((table t ! i)\<lparr>hash_byte := b\<rparr>) d],
             used_entries := used_entries t + 1\<rparr>, None)))))"

fun htbl_extend :: "lookup_htbl \<Rightarrow> u64 \<Rightarrow> (bytes \<times> bytes) list \<Rightarrow> lookup_htbl run" where
  "htbl_extend t random [] = Some (Ok t)"
| "htbl_extend t random ((key, val) # kvs) =
     run_then (htbl_insert t random key val) (\<lambda>(t, _). htbl_extend t random kvs)"

section \<open>Iteration\<close>

function iter_next :: "lookup_htbl \<Rightarrow> nat \<Rightarrow> ((bytes \<times> bytes) option \<times> nat, string) result" where
  "iter_next t i =
     (if i \<ge> length (table t) then Ok (None, i)
      else
        let raw_index = read_index (table t ! i) in
        if raw_index \<noteq> 0 then
          and_then (index_at (data_chunks t) (drop_bit (chunk_bits t) raw_index)) (\<lambda>chunk.
          let index = raw_index AND chunk_mask t in
          and_then (read_len chunk index) (\<lambda>(key_len, key_len_size).
          let key_index = index + key_len_size;
              value_len_index = key_index + key_len in
          and_then (read_len chunk value_len_index) (\<lambda>(value_len, value_len_size).
          let value_index = value_len_index + value_len_size in
          and_then (sub_slice chunk key_index (key_index + key_len)) (\<lambda>k.
          and_then (sub_slice chunk value_index (value_index + value_len)) (\<lambda>v.
          Ok (Some (k, v), i + 1))))))
        else iter_next t (i + 1))"
  by pat_completeness auto
termination
  by (relation "measure (\<lambda>(t, i). length (table t) - i)") auto

declare iter_next.simps [simp del]

section \<open>Compressed lengths\<close>

text \<open>A length takes one byte, followed by as many as its two top bits say.\<close>

definition len_extra :: "nat \<Rightarrow> nat" where
  "len_extra n = (if n < 64 then 0 else if n < 2 ^ 14 then 1 else if n < 2 ^ 22 then 2 else 3)"

definition len_enc :: "nat \<Rightarrow> bytes" where
  "len_enc n = word_of_nat (64 * len_extra n + n div 256 ^ len_extra n) # le_bytes (len_extra n) n"

lemma len_extra_less: "len_extra n < 4"
  by (simp add: len_extra_def)

lemma len_extra_div: "n < 2 ^ 30 \<Longrightarrow> n div 256 ^ len_extra n < 64"
  by (simp add: len_extra_def less_mult_imp_div_less)

lemma len_extra_step: "64 \<le> n \<Longrightarrow> n < 2 ^ 30 \<Longrightarrow> len_extra n = Suc (len_extra (n div 256))"
  by (auto simp: len_extra_def)

lemma length_len_enc: "length (len_enc n) = Suc (len_extra n)"
  by (simp add: len_enc_def)

lemma or_push_bit_add:
  assumes "x < 2 ^ k"
  shows "x OR push_bit k y = x + push_bit k (y :: nat)"
proof (rule disjunctive_add [symmetric])
  fix i
  from assms have "take_bit k x = x" by (simp add: take_bit_nat_eq_self)
  then have "bit x i \<Longrightarrow> i < k" by (metis bit_take_bit_iff)
  then show "\<not> bit x i \<or> \<not> bit (push_bit k y) i" by (auto simp: bit_push_bit_iff)
qed

lemma overwrite_Cons:
  "i + length ys < length xs \<Longrightarrow> overwrite xs i (y # ys) = (overwrite xs (Suc i) ys)[i := y]"
  "i + length ys < length xs \<Longrightarrow> overwrite xs i (y # ys) = overwrite (xs[i := y]) (Suc i) ys"
  by (simp_all add: overwrite_def list_update_append take_Suc_conv_app_nth take_update_swap)

lemma write_len_loop_enc:
  "n < 2 ^ 30 \<Longrightarrow> i + b + len_extra n \<le> length data \<Longrightarrow> write_len_loop data i b n =
     Ok (overwrite data (i + b) (le_bytes (len_extra n) n), b + len_extra n, n div 256 ^ len_extra n)"
proof (induction data i b n rule: write_len_loop.induct)
  case (1 data i b n)
  show ?case
  proof (cases "n < 64")
    case True
    then show ?thesis by (simp add: write_len_loop.simps [of data] len_extra_def overwrite_def)
  next
    case False
    with "1.prems" have k: "len_extra n = Suc (len_extra (n div 256))" by (simp add: len_extra_step)
    have "write_len_loop (data[i + b := word_of_nat n]) i (b + 1) (drop_bit 8 n) =
        Ok (overwrite (data[i + b := word_of_nat n]) (i + (b + 1))
          (le_bytes (len_extra (drop_bit 8 n)) (drop_bit 8 n)), b + 1 + len_extra (drop_bit 8 n),
          drop_bit 8 n div 256 ^ len_extra (drop_bit 8 n))"
      by (rule "1.IH") (use False "1.prems" k in \<open>auto simp: drop_bit_nat_div set_at_def\<close>)
    with False "1.prems" k show ?thesis
      by (simp add: write_len_loop.simps [of data] set_at_def overwrite_Cons(2) drop_bit_nat_div
          div_mult2_eq)
  qed
qed

lemma write_len_enc:
  assumes "n < 2 ^ 30" and "i + length (len_enc n) \<le> length data"
  shows "write_len data i n = Ok (overwrite data i (len_enc n), length (len_enc n))"
proof (cases "n < 64")
  case True
  with assms show ?thesis
    by (simp add: write_len_def set_at_def len_enc_def len_extra_def update_overwrite)
next
  case False
  let ?k = "len_extra n"
  have "push_bit 6 ?k OR n div 256 ^ ?k = 64 * ?k + n div 256 ^ ?k"
    using or_push_bit_add [of "n div 256 ^ ?k" 6 ?k] len_extra_div [OF assms(1)]
    by (simp add: or.commute push_bit_eq_mult)
  with False assms show ?thesis
    using write_len_loop_enc [of n i 1 data]
    by (simp add: write_len_def set_at_def length_len_enc len_enc_def overwrite_Cons(1))
qed

lemma nth_drop_Cons: "drop i xs = y # ys \<Longrightarrow> i < length xs \<and> xs ! i = y \<and> drop (Suc i) xs = ys"
  by (metis drop_Suc drop_eq_Nil list.distinct(1) list.sel(3) not_le_imp_less nth_via_drop tl_drop)

lemma read_len_enc:
  assumes "n < 2 ^ 30" and "drop i data = len_enc n @ rest"
  shows "read_len data i = Ok (n, length (len_enc n))"
proof -
  let ?k = "len_extra n" and ?q = "n div 256 ^ len_extra n"
  have q: "?q < 64" by (rule len_extra_div [OF assms(1)])
  from assms(2) have i: "i < length data" "data ! i = word_of_nat (64 * ?k + ?q)"
    "drop (Suc i) data = le_bytes ?k n @ rest"
    using nth_drop_Cons [of i data] by (simp_all add: len_enc_def)
  then have "length (drop (Suc i) data) = ?k + length rest" by simp
  with i(1) have len: "Suc i + ?k \<le> length data" by simp
  have first: "unat (data ! i) = 64 * ?k + ?q"
    unfolding i(2) unat_u8_of_nat using q len_extra_less [of n] by (intro mod_less) linarith
  show ?thesis
  proof (cases "?k = 0")
    case True
    with first q i(1) show ?thesis by (simp add: read_len_def index_at_def length_len_enc)
  next
    case False
    have "(64 * ?k + ?q) AND 63 = ?q" using and_mask_mod [of "64 * ?k + ?q" 6] q by simp
    moreover have "n mod 256 ^ ?k OR push_bit (8 * ?k) ?q = n"
    proof -
      have "n mod 256 ^ ?k < 2 ^ (8 * ?k)" by (simp add: power_mult)
      from or_push_bit_add [OF this, of ?q] show ?thesis
        by (simp add: push_bit_eq_mult power_mult mod_div_mult_eq)
    qed
    moreover have "(64 * ?k + ?q) div 64 = ?k" using q by simp
    ultimately show ?thesis using False first i len
      by (simp add: read_len_def index_at_def sub_slice_def drop_bit_nat_div Let_def
          length_len_enc le_value_append)
  qed
qed

section \<open>Stored pairs\<close>

definition pair_enc :: "bytes \<Rightarrow> bytes \<Rightarrow> bytes" where
  "pair_enc k v = len_enc (length k) @ k @ len_enc (length v) @ v"

text \<open>\<open>data_ok\<close>: the chunks are full-sized, and the next free index lies in the last one.
  \<open>stored\<close>: a pair lies at an index, below the free space.\<close>

definition data_ok :: "lookup_htbl \<Rightarrow> bool" where
  "data_ok t \<longleftrightarrow> chunk_size t = 2 ^ chunk_bits t \<and> chunk_mask t = 2 ^ chunk_bits t - 1 \<and>
     (\<forall>c \<in> set (data_chunks t). length c = chunk_size t) \<and> 0 < used_data t \<and>
     (if data_chunks t = [] then used_data t = 1
      else used_data t div chunk_size t = length (data_chunks t) - 1)"

definition stored :: "lookup_htbl \<Rightarrow> nat \<Rightarrow> bytes \<Rightarrow> bytes \<Rightarrow> bool" where
  "stored t d k v \<longleftrightarrow> d \<noteq> 0 \<and> length k < 2 ^ 30 \<and> length v < 2 ^ 30 \<and>
     d div chunk_size t < length (data_chunks t) \<and>
     slice (data_chunks t ! (d div chunk_size t)) (d mod chunk_size t) (length (pair_enc k v)) = pair_enc k v \<and>
     d + length (pair_enc k v) \<le> used_data t"

lemma drop_add_append: "drop i xs = ys @ zs \<Longrightarrow> drop (i + length ys) xs = zs"
  by (metis add.commute append_eq_conv_conj drop_drop)

lemma sub_slice_append:
  assumes "drop i xs = ys @ zs" "i \<le> length xs"
  shows "sub_slice xs i (i + length ys) = Ok ys"
proof -
  from assms have "length xs - i = length ys + length zs"
    by (metis length_append length_drop)
  with assms show ?thesis by (auto simp: sub_slice_def)
qed

lemma read_pair:
  assumes "drop i chunk = pair_enc k v @ rest" "length k < 2 ^ 30" "length v < 2 ^ 30"
  defines "ki \<equiv> i + length (len_enc (length k))"
  defines "vl \<equiv> ki + length k"
  defines "vi \<equiv> vl + length (len_enc (length v))"
  shows "read_len chunk i = Ok (length k, length (len_enc (length k)))"
    "sub_slice chunk ki (ki + length k) = (Ok k :: (bytes, string) result)"
    "read_len chunk vl = Ok (length v, length (len_enc (length v)))"
    "sub_slice chunk vi (vi + length v) = (Ok v :: (bytes, string) result)"
proof -
  have d1: "drop ki chunk = k @ len_enc (length v) @ v @ rest"
    using assms(1) unfolding ki_def pair_enc_def by (intro drop_add_append) simp
  have d2: "drop vl chunk = len_enc (length v) @ v @ rest"
    using d1 unfolding vl_def by (rule drop_add_append)
  have d3: "drop vi chunk = v @ rest"
    using d2 unfolding vi_def by (rule drop_add_append)
  have le: "vi \<le> length chunk"
  proof -
    have "len_enc (length v) @ v @ rest \<noteq> []" by (simp add: len_enc_def)
    with d2 have "vl < length chunk" by (metis drop_eq_Nil not_le_imp_less)
    moreover have "length (drop vl chunk) = length (len_enc (length v)) + length v + length rest"
      using d2 by simp
    ultimately show ?thesis unfolding vi_def by simp
  qed
  show "read_len chunk i = Ok (length k, length (len_enc (length k)))"
    using assms(1,2) by (intro read_len_enc) (auto simp: pair_enc_def)
  show "read_len chunk vl = Ok (length v, length (len_enc (length v)))"
    using assms(3) d2 by (rule read_len_enc)
  show "sub_slice chunk ki (ki + length k) = (Ok k :: (bytes, string) result)"
    using d1 le by (intro sub_slice_append) (auto simp: vi_def vl_def)
  show "sub_slice chunk vi (vi + length v) = (Ok v :: (bytes, string) result)"
    using d3 le by (intro sub_slice_append)
qed

lemma data_index_split:
  assumes "data_ok t"
  shows "drop_bit (chunk_bits t) d = d div chunk_size t" "d AND chunk_mask t = d mod chunk_size t"
  using assms by (simp_all add: data_ok_def drop_bit_nat_div and_mask_mod
      del: One_nat_def)

lemma stored_drop:
  assumes "stored t d k v"
  obtains rest where "drop (d mod chunk_size t) (data_chunks t ! (d div chunk_size t)) = pair_enc k v @ rest"
  using assms unfolding stored_def slice_def by (metis append_take_drop_id)

lemma stored_read:
  assumes "data_ok t" "stored t d k v"
  shows "read_key t d = Ok k" "read_value t d = Ok v"
proof -
  obtain rest where "drop (d mod chunk_size t) (data_chunks t ! (d div chunk_size t)) = pair_enc k v @ rest"
    using assms(2) by (rule stored_drop)
  from read_pair [OF this] assms(2) show "read_key t d = Ok k" "read_value t d = Ok v"
    by (simp_all add: read_key_def read_value_def data_index_split [OF assms(1)] index_at_def
        stored_def Let_def add.assoc)
qed

text \<open>Writing a pair in a chunk with room for it.\<close>

lemma length_pair_enc:
  "length (pair_enc k v) \<le> 8 + length k + length v" "0 < length (pair_enc k v)"
  using len_extra_less [of "length k"] len_extra_less [of "length v"]
  by (simp_all add: pair_enc_def length_len_enc)

lemma write_pair:
  assumes "length k < 2 ^ 30" "length v < 2 ^ 30" "i + length (pair_enc k v) \<le> length chunk"
  defines "ki \<equiv> i + length (len_enc (length k))"
  defines "vl \<equiv> ki + length k"
  defines "vi \<equiv> vl + length (len_enc (length v))"
  defines "c1 \<equiv> overwrite chunk i (len_enc (length k))"
  defines "c2 \<equiv> overwrite c1 ki k"
  defines "c3 \<equiv> overwrite c2 vl (len_enc (length v))"
  shows "write_len chunk i (length k) = Ok (c1, length (len_enc (length k)))"
    "copy_at c1 ki k = Ok c2"
    "write_len c2 vl (length v) = Ok (c3, length (len_enc (length v)))"
    "copy_at c3 vi v = Ok (overwrite chunk i (pair_enc k v))"
proof -
  have len: "i + length (len_enc (length k)) + length k + length (len_enc (length v)) + length v
      \<le> length chunk"
    using assms(3) by (simp add: pair_enc_def)
  then have lens: "length c1 = length chunk" "length c2 = length chunk" "length c3 = length chunk"
    by (simp_all add: c1_def c2_def c3_def ki_def vl_def)
  show "write_len chunk i (length k) = Ok (c1, length (len_enc (length k)))"
    unfolding c1_def using assms(1) len by (intro write_len_enc) auto
  show "copy_at c1 ki k = Ok c2"
    unfolding c2_def using len lens by (simp add: copy_at_def ki_def)
  show "write_len c2 vl (length v) = Ok (c3, length (len_enc (length v)))"
    unfolding c3_def using assms(2) len lens by (intro write_len_enc) (auto simp: vl_def ki_def)
  have "c2 = overwrite chunk i (len_enc (length k) @ k)"
    unfolding c2_def c1_def ki_def using len by (intro overwrite_append) simp
  then have "c3 = overwrite chunk i (len_enc (length k) @ k @ len_enc (length v))"
    unfolding c3_def vl_def ki_def
    using len overwrite_append [of i "len_enc (length k) @ k" "len_enc (length v)" chunk]
    by (simp add: add.assoc)
  then have "overwrite c3 vi v = overwrite chunk i (pair_enc k v)"
    unfolding vi_def vl_def ki_def pair_enc_def
    using len overwrite_append [of i "len_enc (length k) @ k @ len_enc (length v)" v chunk]
    by (simp add: add.assoc)
  then show "copy_at c3 vi v = Ok (overwrite chunk i (pair_enc k v))"
    using len lens by (simp add: copy_at_def vi_def vl_def ki_def)
qed

text \<open>\<open>fresh\<close>: the table that the pair is written to, with a new chunk where the last one is full.\<close>

definition fresh :: "lookup_htbl \<Rightarrow> bytes \<Rightarrow> bytes \<Rightarrow> lookup_htbl" where
  "fresh t key val =
     (let chunk_index = (used_data t + (2 * INDEX_SIZE + length key + length val)) div chunk_size t in
      if length (data_chunks t) \<le> chunk_index
      then t\<lparr>data_chunks := data_chunks t @ [replicate (chunk_size t) 0],
        used_data := (if chunk_index = 0 then 1 else chunk_size t * chunk_index)\<rparr>
      else t)"

lemma div_add_bound:
  assumes "(a :: nat) < c" "u div c = n" "0 < c"
  shows "(u + a) div c = n \<and> u mod c + a < c \<or> (u + a) div c = Suc n"
proof -
  have d: "(u + a) div c = n + (u mod c + a) div c"
    using div_add1_eq [of u a c] assms by simp
  have "u mod c < c" using assms(3) by simp
  then have "u mod c + a < 2 * c" using assms(1) by linarith
  then have "\<not> u mod c + a < c \<Longrightarrow> (u mod c + a) div c = 1"
    by (intro div_nat_eqI) simp_all
  with d show ?thesis by (cases "u mod c + a < c") simp_all
qed

lemma chunk_size_pos: "data_ok t \<Longrightarrow> 0 < chunk_size t"
  by (simp add: data_ok_def)

lemma fresh_ok:
  assumes ok: "data_ok t" and room: "2 * INDEX_SIZE + length k + length v + 1 < chunk_size t"
  defines "a \<equiv> 2 * INDEX_SIZE + length k + length v"
  shows "data_ok (fresh t k v)" (is ?ok)
    and "(used_data t + a) div chunk_size t = used_data (fresh t k v) div chunk_size t" (is ?index)
    and "used_data (fresh t k v) div chunk_size t < length (data_chunks (fresh t k v))" (is ?last)
    and "used_data (fresh t k v) mod chunk_size t + a < chunk_size t" (is ?fits)
    and "used_data t \<le> used_data (fresh t k v)" (is ?mono)
    and "used_data (fresh t k v) < used_data t + chunk_size t" (is ?bound)
proof -
  let ?c = "chunk_size t" and ?n = "length (data_chunks t)"
  have c: "0 < ?c" and a: "a + 1 < ?c" using chunk_size_pos [OF ok] room by (simp_all add: a_def)
  have "?ok \<and> ?index \<and> ?last \<and> ?fits \<and> ?mono \<and> ?bound"
  proof (cases "data_chunks t = []")
    case True
    then have "used_data t = 1" using ok by (simp add: data_ok_def)
    with True a ok show ?thesis by (auto simp: fresh_def a_def data_ok_def Let_def)
  next
    case False
    then have u: "used_data t div ?c = ?n - 1" using ok by (auto simp: data_ok_def)
    from div_add_bound [OF _ u c, of a] a
    consider "(used_data t + a) div ?c = ?n - 1" "used_data t mod ?c + a < ?c"
      | "(used_data t + a) div ?c = ?n" using False by fastforce
    then show ?thesis
    proof cases
      case 1
      then have "fresh t k v = t"
        using False by (cases "data_chunks t") (auto simp: fresh_def a_def Let_def)
      with 1 False u ok c show ?thesis by (simp add: a_def)
    next
      case 2
      then have f: "fresh t k v = t\<lparr>data_chunks := data_chunks t @ [replicate ?c 0],
          used_data := ?c * ?n\<rparr>"
        using False by (simp add: fresh_def a_def Let_def)
      have "used_data t < ?c * ?n"
        using u False c by (metis diff_less dividend_less_div_times dividend_less_times_div
            Suc_diff_1 length_greater_0_conv mult_Suc_right)
      moreover have "?c * ?n \<le> used_data t + a" using 2 by (metis div_times_less_eq_dividend mult.commute)
      ultimately show ?thesis using f 2 False ok c a by (auto simp: data_ok_def)
    qed
  qed
  then show ?ok ?index ?last ?fits ?mono ?bound by auto
qed

lemma fresh_fields [simp]:
  "table (fresh t k v) = table t" "max_entries (fresh t k v) = max_entries t"
  "used_entries (fresh t k v) = used_entries t" "hash_secret (fresh t k v) = hash_secret t"
  "chunk_bits (fresh t k v) = chunk_bits t" "chunk_size (fresh t k v) = chunk_size t"
  "chunk_mask (fresh t k v) = chunk_mask t"
  by (simp_all add: fresh_def Let_def)

lemma fresh_nth:
  "i < length (data_chunks t) \<Longrightarrow>
     data_chunks (fresh t k v) ! i = data_chunks t ! i \<and> i < length (data_chunks (fresh t k v))"
  by (simp add: fresh_def Let_def nth_append)

definition with_pair :: "lookup_htbl \<Rightarrow> bytes \<Rightarrow> bytes \<Rightarrow> lookup_htbl" where
  "with_pair t k v =
     (let t1 = fresh t k v; d = used_data t1; i = d div chunk_size t in
      t1\<lparr>data_chunks := (data_chunks t1)[i := overwrite (data_chunks t1 ! i) (d mod chunk_size t) (pair_enc k v)],
         used_data := d + length (pair_enc k v)\<rparr>)"

lemma with_pair_fields [simp]:
  "table (with_pair t k v) = table t" "max_entries (with_pair t k v) = max_entries t"
  "used_entries (with_pair t k v) = used_entries t" "hash_secret (with_pair t k v) = hash_secret t"
  "chunk_bits (with_pair t k v) = chunk_bits t" "chunk_size (with_pair t k v) = chunk_size t"
  "chunk_mask (with_pair t k v) = chunk_mask t"
  by (simp_all add: with_pair_def Let_def)

lemma new_data_with_pair:
  assumes ok: "data_ok t" and room: "2 * INDEX_SIZE + length k + length v + 1 < chunk_size t"
    and small: "length k < 2 ^ 30" "length v < 2 ^ 30"
  shows "new_data t k v = Ok (with_pair t k v, used_data (fresh t k v))"
proof -
  note f = fresh_ok [OF ok room]
  let ?t = "fresh t k v"
  let ?i = "used_data ?t div chunk_size t" and ?o = "used_data ?t mod chunk_size t"
  have len: "length (data_chunks ?t ! ?i) = chunk_size t"
    using f(1,3) by (simp add: data_ok_def)
  have fit: "?o + length (pair_enc k v) \<le> length (data_chunks ?t ! ?i)"
    using f(4) len length_pair_enc(1) [of k v] by (simp add: INDEX_SIZE_def)
  have split: "used_data ?t AND chunk_mask t = ?o"
    "drop_bit (chunk_bits t) n = n div chunk_size t" for n
    using data_index_split [OF ok] by simp_all
  have fr: "(if length (data_chunks t) \<le> (used_data t + (2 * INDEX_SIZE + length k + length v)) div chunk_size t
      then t\<lparr>data_chunks := data_chunks t @ [replicate (chunk_size t) 0],
        used_data := (if (used_data t + (2 * INDEX_SIZE + length k + length v)) div chunk_size t = 0 then 1
          else chunk_size t * ((used_data t + (2 * INDEX_SIZE + length k + length v)) div chunk_size t))\<rparr>
      else t) = ?t"
    by (simp add: fresh_def Let_def)
  have "length (pair_enc k v) = length (len_enc (length k)) + length k + length (len_enc (length v)) + length v"
    by (simp add: pair_enc_def)
  with room f(2,3) show ?thesis
    unfolding new_data_def Let_def split fr
    by (simp add: index_at_def split write_pair [OF small fit] with_pair_def Let_def)
qed

lemma pair_fits:
  assumes ok: "data_ok t" and room: "2 * INDEX_SIZE + length k + length v + 1 < chunk_size t"
  shows "used_data (fresh t k v) mod chunk_size t + length (pair_enc k v) < chunk_size t"
    and "length (data_chunks (fresh t k v) ! (used_data (fresh t k v) div chunk_size t)) = chunk_size t"
  using fresh_ok(1,3,4) [OF assms] length_pair_enc(1) [of k v]
  by (simp_all add: INDEX_SIZE_def data_ok_def)

lemma with_pair_ok:
  assumes ok: "data_ok t" and room: "2 * INDEX_SIZE + length k + length v + 1 < chunk_size t"
    and small: "length k < 2 ^ 30" "length v < 2 ^ 30"
  shows "data_ok (with_pair t k v)"
    and "stored (with_pair t k v) (used_data (fresh t k v)) k v"
    and "used_data (with_pair t k v) < used_data t + 2 * chunk_size t"
proof -
  note f = fresh_ok [OF ok room] and fits = pair_fits [OF ok room]
  let ?t = "fresh t k v" and ?c = "chunk_size t" and ?e = "pair_enc k v"
  let ?u = "used_data ?t"
  let ?i = "?u div ?c" and ?o = "?u mod ?c"
  have u': "(?u + length ?e) div ?c = ?i"
    using div_add1_eq [of ?u "length ?e" ?c] fits by simp
  have pos: "0 < ?u" using f(1) by (simp add: data_ok_def)
  have ne: "data_chunks ?t \<noteq> []" using f(3) by auto
  then have last: "?i = length (data_chunks ?t) - 1"
    using f(1) by (auto simp: data_ok_def)
  have chunks: "length c' = ?c" if "c' \<in> set ((data_chunks ?t)[?i := overwrite (data_chunks ?t ! ?i) ?o ?e])" for c'
    using that f(1) fits by (auto simp: data_ok_def dest!: set_update_subset_insert [THEN subsetD])
  show "data_ok (with_pair t k v)"
    using f(1) chunks u' last pos ne unfolding data_ok_def by (auto simp: with_pair_def Let_def)
  have "slice (overwrite (data_chunks ?t ! ?i) ?o ?e) ?o (length ?e) = ?e"
    using fits by (simp add: slice_def drop_overwrite_at)
  then show "stored (with_pair t k v) ?u k v"
    using small f(3) pos by (simp add: stored_def with_pair_def Let_def)
  show "used_data (with_pair t k v) < used_data t + 2 * ?c"
    using f(6) fits by (simp add: with_pair_def Let_def)
qed

lemma with_pair_keeps:
  assumes ok: "data_ok t" and room: "2 * INDEX_SIZE + length k + length v + 1 < chunk_size t"
    and st: "stored t d k' v'"
  shows "stored (with_pair t k v) d k' v'"
proof -
  note f = fresh_ok [OF ok room] and fits = pair_fits [OF ok room]
  let ?t = "fresh t k v" and ?c = "chunk_size t" and ?e = "pair_enc k v"
  let ?u = "used_data ?t"
  let ?i = "?u div ?c" and ?o = "?u mod ?c"
  let ?e' = "pair_enc k' v'"
  have i: "d div ?c < length (data_chunks t)" "d + length ?e' \<le> used_data t"
    "slice (data_chunks t ! (d div ?c)) (d mod ?c) (length ?e') = ?e'"
    using st by (simp_all add: stored_def)
  have same: "data_chunks ?t ! (d div ?c) = data_chunks t ! (d div ?c)"
    "d div ?c < length (data_chunks ?t)"
    using fresh_nth [OF i(1)] by simp_all
  have "slice (overwrite (data_chunks ?t ! ?i) ?o ?e) (d mod ?c) (length ?e') = ?e'" if "d div ?c = ?i"
  proof -
    have "?i * ?c + d mod ?c = d" by (metis that div_mult_mod_eq)
    then have "d mod ?c + length ?e' \<le> ?o"
      using i(2) f(5) div_mult_mod_eq [of ?u ?c] by linarith
    then have "take (length ?e') (drop (d mod ?c) (overwrite (data_chunks ?t ! ?i) ?o ?e))
        = take (length ?e') (drop (d mod ?c) (data_chunks ?t ! ?i))"
      using fits by (simp add: take_drop take_overwrite)
    then show ?thesis using i(3) same that by (simp add: slice_def)
  qed
  then show ?thesis
    using st i same f(5) by (cases "?i = d div ?c") (simp_all add: stored_def with_pair_def Let_def)
qed

end
