(* ===== verification/Oak_Htbl_Map.thy ===== *)
theory Oak_Htbl_Map
  imports Oak_Htbl
begin

text \<open>
  The hash table of the lookup data implements a finite map: open addressing in general, the
  invariant of the table, termination of the probing loop, and what insertion, lookup and iteration
  do to the map.
\<close>

section \<open>Open addressing\<close>

text \<open>A key sits at the first slot that was free when it was entered, counting cyclically from its
  home.\<close>

definition probe_ok :: "nat \<Rightarrow> ('k \<Rightarrow> nat) \<Rightarrow> (nat \<Rightarrow> 'k option) \<Rightarrow> bool" where
  "probe_ok n home slot \<longleftrightarrow>
     (\<forall>i < n. \<forall>k. slot i = Some k \<longrightarrow>
        (\<exists>m. i = (home k + m) mod n \<and> (\<forall>j < m. slot ((home k + j) mod n) \<noteq> None))) \<and>
     (\<forall>i < n. \<forall>j < n. slot i \<noteq> None \<longrightarrow> slot i = slot j \<longrightarrow> i = j)"

definition stops :: "nat \<Rightarrow> ('k \<Rightarrow> nat) \<Rightarrow> (nat \<Rightarrow> 'k option) \<Rightarrow> 'k \<Rightarrow> nat \<Rightarrow> bool" where
  "stops n home slot k m \<longleftrightarrow> slot ((home k + m) mod n) \<in> {None, Some k} \<and>
     (\<forall>j < m. slot ((home k + j) mod n) \<notin> {None, Some k})"

lemma cyclic_reach: "e < n \<Longrightarrow> \<exists>m. (h + m) mod n = (e :: nat)"
proof -
  assume e: "e < n"
  then have "h \<le> n * h" by simp
  then have "h + (n * h - h + e) = e + n * h" by linarith
  then show ?thesis using e by (intro exI [of _ "n * h - h + e"]) simp
qed

lemma stops_exists:
  assumes "e < n" "slot e = None"
  shows "\<exists>m. stops n home slot k m"
proof -
  let ?P = "\<lambda>m. slot ((home k + m) mod n) \<in> {None, Some k}"
  obtain m where "?P m" using cyclic_reach [OF assms(1)] assms(2) by (metis insertI1)
  then have "?P (Least ?P)" by (rule LeastI)
  then show ?thesis unfolding stops_def using not_less_Least by blast
qed

lemma stops_absent:
  assumes "probe_ok n home slot" "stops n home slot k m" "slot ((home k + m) mod n) = None" "i < n"
  shows "slot i \<noteq> Some k"
proof
  assume k: "slot i = Some k"
  with assms(1,4) obtain m' where m': "i = (home k + m') mod n"
    "\<forall>j < m'. slot ((home k + j) mod n) \<noteq> None"
    unfolding probe_ok_def by blast
  from m'(2) assms(3) have "m' \<le> m" using not_le by blast
  with assms(2) m'(1) k have "m' = m" unfolding stops_def by (metis insertCI le_neq_implies_less)
  with m'(1) k assms(3) show False by simp
qed

lemma probe_ok_place:
  assumes "probe_ok n home slot" "stops n home slot k m" "slot ((home k + m) mod n) = None"
  shows "probe_ok n home (slot((home k + m) mod n := Some k))" (is "probe_ok n home ?slot")
proof -
  have absent: "\<forall>i < n. slot i \<noteq> Some k" using stops_absent [OF assms] by blast
  have "\<exists>m'. i = (home k' + m') mod n \<and> (\<forall>j < m'. ?slot ((home k' + j) mod n) \<noteq> None)"
    if i: "i < n" "?slot i = Some k'" for i k'
  proof (cases "i = (home k + m) mod n")
    case True
    with i have "k' = k" by simp
    with True assms(2) show ?thesis unfolding stops_def by (intro exI [of _ m]) auto
  next
    case False
    with i have "slot i = Some k'" by simp
    with assms(1) i(1) obtain m' where "i = (home k' + m') mod n"
      "\<forall>j < m'. slot ((home k' + j) mod n) \<noteq> None"
      unfolding probe_ok_def by blast
    then show ?thesis by (intro exI [of _ m']) auto
  qed
  moreover have "i = j" if "i < n" "j < n" "?slot i \<noteq> None" "?slot i = ?slot j" for i j
    using that absent assms(1) unfolding probe_ok_def by (metis fun_upd_apply)
  ultimately show ?thesis unfolding probe_ok_def by blast
qed

lemma probe_ok_empty: "\<forall>i < n. slot i = None \<Longrightarrow> probe_ok n home slot"
  by (auto simp: probe_ok_def)

lemma probe_ok_cong:
  assumes "probe_ok n home slot" and eq: "\<And>i. i < n \<Longrightarrow> slot' i = slot i" and n: "0 < n"
  shows "probe_ok n home slot'"
proof -
  have "slot' (a mod n) = slot (a mod n)" for a using eq n by simp
  with assms(1) show ?thesis unfolding probe_ok_def by (simp add: eq cong: conj_cong imp_cong) blast
qed

section \<open>Slots of the table\<close>

definition key_byte :: "lookup_htbl \<Rightarrow> bytes \<Rightarrow> u8" where
  "key_byte t k = ucast (drop_bit 32 (hash k (hash_secret t)))"

definition home :: "lookup_htbl \<Rightarrow> bytes \<Rightarrow> nat" where
  "home t k = reduce (hash k (hash_secret t)) (length (table t))"

definition entry_ok :: "lookup_htbl \<Rightarrow> entry \<Rightarrow> bool" where
  "entry_ok t e \<longleftrightarrow> length (data_index e) = INDEX_SIZE \<and>
     (if read_index e = 0 then hash_byte e = 0
      else \<exists>k v. stored t (read_index e) k v \<and> hash_byte e = key_byte t k)"

definition entry_pair :: "lookup_htbl \<Rightarrow> entry \<Rightarrow> (bytes \<times> bytes) option" where
  "entry_pair t e =
     (if read_index e = 0 then None
      else case (read_key t (read_index e), read_value t (read_index e)) of
        (Inr k, Inr v) \<Rightarrow> Some (k, v) | _ \<Rightarrow> None)"

definition slot :: "lookup_htbl \<Rightarrow> nat \<Rightarrow> bytes option" where
  "slot t i = map_option fst (entry_pair t (table t ! i))"

lemma reduce_less: "0 < n \<Longrightarrow> reduce h n < n"
proof -
  assume "0 < n"
  moreover have "unat h < 2 ^ 64" using unsigned_less [of h] by simp
  ultimately have "unat h * n < 2 ^ 64 * n" by simp
  then show ?thesis by (simp add: reduce_def drop_bit_nat_div less_mult_imp_div_less mult.commute)
qed

lemma take_le_bytes: "m \<le> n \<Longrightarrow> take m (le_bytes n v) = le_bytes m v"
proof (induction m arbitrary: n v)
  case (Suc m)
  then show ?case by (cases n) auto
qed simp

lemma read_write_index [simp]:
  "v < 2 ^ 40 \<Longrightarrow> read_index (write_index e v) = v"
  "hash_byte (write_index e v) = hash_byte e"
  "length (data_index (write_index e v)) = INDEX_SIZE"
  by (simp_all add: read_index_def write_index_def INDEX_SIZE_def le_value_append take_le_bytes)

lemma entry_default_ok [simp]:
  "read_index entry_default = 0" "hash_byte entry_default = 0"
  "entry_ok t entry_default"
  by (simp_all add: read_index_def entry_default_def entry_ok_def le_value_append)

lemma entry_pair_None: "data_ok t \<Longrightarrow> entry_ok t e \<Longrightarrow> entry_pair t e = None \<longleftrightarrow> read_index e = 0"
  by (auto simp: entry_pair_def entry_ok_def stored_read)

lemma entry_pair_Some:
  assumes "data_ok t" "entry_ok t e" "entry_pair t e = Some (k, v)"
  shows "stored t (read_index e) k v" "hash_byte e = key_byte t k" "read_index e \<noteq> 0"
    "read_key t (read_index e) = Ok k" "read_value t (read_index e) = Ok v"
  using assms by (auto simp: entry_pair_def entry_ok_def stored_read split: if_splits)

section \<open>The probing loop returns\<close>

lemma lookup_loop_next:
  assumes "data_ok t" "entry_ok t (table t ! i)" "slot t i \<notin> {None, Some key}"
  shows "lookup_loop t key b i = lookup_loop t key b (next_slot t i)"
proof -
  from assms(3) obtain k v where p: "entry_pair t (table t ! i) = Some (k, v)" "k \<noteq> key"
    by (auto simp: slot_def)
  note e = entry_pair_Some [OF assms(1,2) p(1)]
  show ?thesis
  proof (cases "hash_byte (table t ! i) \<noteq> b \<and> hash_byte (table t ! i) \<noteq> 0")
    case True
    then have "skip_entries t b i = skip_entries t b (next_slot t i)"
      by (subst skip_entries.simps) simp
    then show ?thesis by (simp add: lookup_loop.simps [of t key b i] lookup_loop.simps [of t key b "next_slot t i"])
  next
    case False
    then have "skip_entries t b i = Some i"
      by (subst skip_entries.simps) auto
    with e p(2) show ?thesis by (simp add: lookup_loop.simps [of t key b i] Let_def)
  qed
qed

lemma lookup_loop_stop:
  assumes "data_ok t" "entry_ok t (table t ! i)" "slot t i \<in> {None, Some key}"
  shows "lookup_loop t key (key_byte t key) i = Some (Ok (if slot t i = None
    then NotFound i (key_byte t key) else Found i (read_index (table t ! i))))"
proof (cases "entry_pair t (table t ! i)")
  case None
  with entry_pair_None [OF assms(1,2)] have r: "read_index (table t ! i) = 0" by simp
  with assms(2) have "hash_byte (table t ! i) = 0" by (simp add: entry_ok_def)
  then have "skip_entries t (key_byte t key) i = Some i"
    by (subst skip_entries.simps) simp
  with r None show ?thesis by (subst lookup_loop.simps) (simp add: slot_def)
next
  case (Some p)
  with assms(3) obtain v where p: "entry_pair t (table t ! i) = Some (key, v)"
    by (cases p) (auto simp: slot_def)
  note e = entry_pair_Some [OF assms(1,2) p]
  have "skip_entries t (key_byte t key) i = Some i"
    using e by (subst skip_entries.simps) simp
  with e p show ?thesis by (subst lookup_loop.simps) (simp add: slot_def)
qed

definition entries_ok :: "lookup_htbl \<Rightarrow> bool" where
  "entries_ok t \<longleftrightarrow> table t \<noteq> [] \<and> data_ok t \<and> (\<forall>e \<in> set (table t). entry_ok t e) \<and>
     probe_ok (length (table t)) (home t) (slot t)"

lemma next_slot_mod:
  "i < length (table t) \<Longrightarrow> next_slot t i = (i + 1) mod length (table t)"
  by (simp add: next_slot_def)

lemma lookup_loop_stops:
  assumes "entries_ok t" "stops (length (table t)) (home t) (slot t) key m" "j \<le> m"
  defines "p \<equiv> (home t key + m) mod length (table t)"
  shows "lookup_loop t key (key_byte t key) ((home t key + j) mod length (table t)) =
    Some (Ok (if slot t p = None then NotFound p (key_byte t key) else Found p (read_index (table t ! p))))"
  using assms(3)
proof (induction rule: inc_induct)
  case base
  have "p < length (table t)" using assms(1) by (simp add: p_def entries_ok_def)
  then have "entry_ok t (table t ! p)" "data_ok t" using assms(1) by (simp_all add: entries_ok_def)
  moreover have "slot t p \<in> {None, Some key}" using assms(2) unfolding stops_def p_def by blast
  ultimately show ?case unfolding p_def [symmetric] by (intro lookup_loop_stop)
next
  case (step j)
  let ?i = "(home t key + j) mod length (table t)"
  have i: "?i < length (table t)" using assms(1) by (simp add: entries_ok_def)
  have "lookup_loop t key (key_byte t key) ?i = lookup_loop t key (key_byte t key) (next_slot t ?i)"
  proof (rule lookup_loop_next)
    show "data_ok t" "entry_ok t (table t ! ?i)" using assms(1) i by (simp_all add: entries_ok_def)
    show "slot t ?i \<notin> {None, Some key}" using assms(2) step.hyps unfolding stops_def by blast
  qed
  with step.IH show ?case by (simp add: next_slot_mod [OF i] mod_Suc_eq)
qed

lemma lookup_stops:
  assumes "entries_ok t" "stops (length (table t)) (home t) (slot t) key m"
  defines "p \<equiv> (home t key + m) mod length (table t)"
  shows "lookup t key =
    Some (Ok (if slot t p = None then NotFound p (key_byte t key) else Found p (read_index (table t ! p))))"
proof -
  have "home t key < length (table t)" using assms(1) by (simp add: home_def reduce_less entries_ok_def)
  then have "lookup t key = lookup_loop t key (key_byte t key) ((home t key + 0) mod length (table t))"
    using assms(1) by (simp add: lookup_def entries_ok_def home_def key_byte_def Let_def)
  also note lookup_loop_stops [OF assms(1,2) le0]
  finally show ?thesis unfolding p_def .
qed

section \<open>The map of a table\<close>

definition htbl_entries :: "lookup_htbl \<Rightarrow> (bytes \<times> bytes) list" where
  "htbl_entries t = List.map_filter (entry_pair t) (table t)"

definition htbl_map :: "lookup_htbl \<Rightarrow> bytes \<Rightarrow> bytes option" where
  "htbl_map t = map_of (htbl_entries t)"

definition filled :: "entry list \<Rightarrow> nat" where
  "filled es = length (filter (\<lambda>e. read_index e \<noteq> 0) es)"

definition htbl_ok :: "lookup_htbl \<Rightarrow> bool" where
  "htbl_ok t \<longleftrightarrow> (if table t = [] then used_entries t = 0
     else entries_ok t \<and> filled (table t) = used_entries t \<and> used_entries t \<le> max_entries t \<and>
       0 < max_entries t \<and> max_entries t < length (table t))"

lemma map_filter_Cons:
  "List.map_filter f (x # xs) = (case f x of None \<Rightarrow> [] | Some y \<Rightarrow> [y]) @ List.map_filter f xs"
  by (auto simp: List.map_filter_def split: option.splits)

lemma in_map_filter: "y \<in> set (List.map_filter f xs) \<longleftrightarrow> (\<exists>i < length xs. f (xs ! i) = Some y)"
  by (induction xs) (auto simp: map_filter_Cons List.map_filter_def less_Suc_eq_0_disj split: option.splits)

lemma distinct_map_filter:
  assumes "\<And>i j. i < length xs \<Longrightarrow> j < length xs \<Longrightarrow> map_option fst (f (xs ! i)) \<noteq> None \<Longrightarrow>
    map_option fst (f (xs ! i)) = map_option fst (f (xs ! j)) \<Longrightarrow> i = j"
  shows "distinct (map fst (List.map_filter f xs))"
  using assms
proof (induction xs)
  case Nil
  then show ?case by (simp add: List.map_filter_def)
next
  case (Cons x xs)
  have "distinct (map fst (List.map_filter f xs))"
  proof (rule Cons.IH)
    fix i j assume "i < length xs" "j < length xs" "map_option fst (f (xs ! i)) \<noteq> None"
      "map_option fst (f (xs ! i)) = map_option fst (f (xs ! j))"
    then show "i = j" using Cons.prems [of "Suc i" "Suc j"] by simp
  qed
  moreover have "fst y \<notin> fst ` set (List.map_filter f xs)" if y: "f x = Some y" for y
  proof
    assume "fst y \<in> fst ` set (List.map_filter f xs)"
    then obtain i where "i < length xs" "map_option fst (f (xs ! i)) = Some (fst y)"
      by (auto simp: in_map_filter)
    then show False using Cons.prems [of 0 "Suc i"] y by (auto simp del: map_option_eq_Some)
  qed
  ultimately show ?case by (auto simp: map_filter_Cons split: option.splits)
qed

lemma distinct_entries: "entries_ok t \<Longrightarrow> distinct (map fst (htbl_entries t))"
  unfolding htbl_entries_def
  by (rule distinct_map_filter) (auto simp: entries_ok_def probe_ok_def slot_def)

lemma htbl_map_Some:
  "entries_ok t \<Longrightarrow> htbl_map t k = Some v \<longleftrightarrow>
     (\<exists>i < length (table t). entry_pair t (table t ! i) = Some (k, v))"
  using distinct_entries [of t] by (simp add: htbl_map_def htbl_entries_def in_map_filter)

lemma htbl_map_None:
  assumes "entries_ok t"
  shows "htbl_map t k = None \<longleftrightarrow> (\<forall>i < length (table t). slot t i \<noteq> Some k)"
proof -
  have "slot t i = Some k \<longleftrightarrow> (\<exists>v. entry_pair t (table t ! i) = Some (k, v))" for i
    by (cases "entry_pair t (table t ! i)") (auto simp: slot_def)
  then show ?thesis using htbl_map_Some [OF assms, of k] by (metis not_Some_eq)
qed

lemma filled_le: "filled es \<le> length es"
  by (simp add: filled_def)

lemma filled_room: "filled es < length es \<Longrightarrow> \<exists>i < length es. read_index (es ! i) = 0"
proof (rule ccontr)
  assume "filled es < length es" "\<not> (\<exists>i < length es. read_index (es ! i) = 0)"
  then have "\<forall>e \<in> set es. read_index e \<noteq> 0" by (auto simp: in_set_conv_nth)
  then have "filled es = length es" by (simp add: filled_def)
  with \<open>filled es < length es\<close> show False by simp
qed

lemma filled_split:
  assumes "p < length es"
  shows "filled es = filled (take p es) + filled [es ! p] + filled (drop (Suc p) es)"
proof -
  have "filled (take p es @ es ! p # drop (Suc p) es)
      = filled (take p es) + filled [es ! p] + filled (drop (Suc p) es)"
    by (simp add: filled_def)
  then show ?thesis by (simp add: id_take_nth_drop [OF assms, symmetric])
qed

lemma filled_update:
  "p < length es \<Longrightarrow> read_index (es ! p) = 0 \<Longrightarrow> read_index e \<noteq> 0 \<Longrightarrow> filled (es[p := e]) = Suc (filled es)"
  "p < length es \<Longrightarrow> read_index (es ! p) \<noteq> 0 \<Longrightarrow> read_index e \<noteq> 0 \<Longrightarrow> filled (es[p := e]) = filled es"
  by (simp_all add: filled_split [of p es] filled_split [of p "es[p := e]"])
    (simp_all add: filled_def)

text \<open>The two outcomes of a lookup in a table with a free slot.\<close>

lemma lookup_absent:
  assumes ok: "entries_ok t" and room: "filled (table t) < length (table t)" and none: "htbl_map t key = None"
  obtains m p where "p = (home t key + m) mod length (table t)" "p < length (table t)"
    "stops (length (table t)) (home t) (slot t) key m" "slot t p = None" "read_index (table t ! p) = 0"
    "lookup t key = Some (Ok (NotFound p (key_byte t key)))"
proof -
  obtain i where i: "i < length (table t)" "read_index (table t ! i) = 0" using filled_room [OF room] by blast
  then have "slot t i = None" by (simp add: slot_def entry_pair_def)
  from stops_exists [where slot = "slot t", OF i(1) this] obtain m
    where m: "stops (length (table t)) (home t) (slot t) key m" by blast
  let ?p = "(home t key + m) mod length (table t)"
  have p: "?p < length (table t)" using i(1) by (intro mod_less_divisor) linarith
  moreover from m p none have "slot t ?p = None"
    using htbl_map_None [OF ok, of key] by (auto simp: stops_def)
  moreover from this have "read_index (table t ! ?p) = 0"
    using entry_pair_None [of t "table t ! ?p"] ok p by (simp add: slot_def entries_ok_def)
  ultimately show ?thesis using that [OF refl] m lookup_stops [OF ok m] by simp
qed

lemma lookup_present:
  assumes ok: "entries_ok t" and some: "htbl_map t key = Some v"
  obtains p where "p < length (table t)" "entry_pair t (table t ! p) = Some (key, v)"
    "lookup t key = Some (Ok (Found p (read_index (table t ! p))))"
proof -
  from some obtain i where i: "i < length (table t)" "entry_pair t (table t ! i) = Some (key, v)"
    using htbl_map_Some [OF ok] by blast
  then have si: "slot t i = Some key" by (simp add: slot_def)
  with ok i(1) obtain m where m: "i = (home t key + m) mod length (table t)"
    "\<forall>j < m. slot t ((home t key + j) mod length (table t)) \<noteq> None"
    unfolding entries_ok_def probe_ok_def by blast
  let ?P = "\<lambda>m. slot t ((home t key + m) mod length (table t)) = Some key"
  have least: "?P (Least ?P)" using m(1) si by (intro LeastI [of ?P m]) simp
  have le: "Least ?P \<le> m" using m(1) si by (intro Least_le) simp
  have "slot t ((home t key + j) mod length (table t)) \<notin> {None, Some key}" if "j < Least ?P" for j
    using not_less_Least [OF that] m(2) that le by auto
  with least have "stops (length (table t)) (home t) (slot t) key (Least ?P)"
    unfolding stops_def by blast
  note l = lookup_stops [OF ok this]
  let ?p = "(home t key + Least ?P) mod length (table t)"
  have "?p < length (table t)" using i(1) by (intro mod_less_divisor) linarith
  with least si i(1) ok have "?p = i" unfolding entries_ok_def probe_ok_def by (metis option.distinct(1))
  with l si i that show ?thesis by simp
qed

section \<open>Changing the table\<close>

lemma data_update [simp]:
  "data_ok (t\<lparr>table := x\<rparr>) = data_ok t" "stored (t\<lparr>table := x\<rparr>) = stored t"
  "read_key (t\<lparr>table := x\<rparr>) = read_key t" "read_value (t\<lparr>table := x\<rparr>) = read_value t"
  "entry_pair (t\<lparr>table := x\<rparr>) = entry_pair t" "entry_ok (t\<lparr>table := x\<rparr>) = entry_ok t"
  "key_byte (t\<lparr>table := x\<rparr>) = key_byte t"
  "data_ok (t\<lparr>used_entries := n\<rparr>) = data_ok t" "stored (t\<lparr>used_entries := n\<rparr>) = stored t"
  "read_value (t\<lparr>used_entries := n\<rparr>) = read_value t"
  "entry_pair (t\<lparr>used_entries := n\<rparr>) = entry_pair t" "entry_ok (t\<lparr>used_entries := n\<rparr>) = entry_ok t"
  "entry_pair (t\<lparr>max_entries := n\<rparr>) = entry_pair t" "entry_ok (t\<lparr>max_entries := n\<rparr>) = entry_ok t"
  "data_ok (t\<lparr>max_entries := n\<rparr>) = data_ok t"
  by (simp_all add: data_ok_def stored_def fun_eq_iff read_key_def read_value_def entry_pair_def
      entry_ok_def key_byte_def)

lemma entries_ok_used [simp]:
  "entries_ok (t\<lparr>used_entries := n\<rparr>) = entries_ok t" "htbl_map (t\<lparr>used_entries := n\<rparr>) = htbl_map t"
  by (simp_all add: entries_ok_def home_def [abs_def] slot_def [abs_def] htbl_map_def htbl_entries_def)

lemma table_update_ok:
  assumes ok: "entries_ok t" and p: "p < length (table t)" and e: "entry_ok t e"
    and probe: "probe_ok (length (table t)) (home t) ((slot t)(p := map_option fst (entry_pair t e)))"
  shows "entries_ok (t\<lparr>table := (table t)[p := e]\<rparr>)"
proof -
  let ?t = "t\<lparr>table := (table t)[p := e]\<rparr>"
  have "probe_ok (length (table t)) (home t) (slot ?t)"
    using probe by (rule probe_ok_cong) (use ok in \<open>auto simp: slot_def nth_list_update entries_ok_def\<close>)
  moreover have "home ?t = home t" by (simp add: home_def fun_eq_iff)
  ultimately have "probe_ok (length (table ?t)) (home ?t) (slot ?t)" by simp
  with ok e show ?thesis
    by (auto simp: entries_ok_def dest!: set_update_subset_insert [THEN subsetD])
qed

lemma ex_update:
  "p < length xs \<Longrightarrow> (\<exists>i < length xs. Q (xs[p := e] ! i)) \<longleftrightarrow> Q e \<or> (\<exists>i < length xs. i \<noteq> p \<and> Q (xs ! i))"
proof -
  assume p: "p < length xs"
  then have "(\<exists>i < length xs. Q (xs[p := e] ! i)) \<longleftrightarrow>
      Q (xs[p := e] ! p) \<or> (\<exists>i < length xs. i \<noteq> p \<and> Q (xs[p := e] ! i))" by blast
  also have "\<dots> \<longleftrightarrow> Q e \<or> (\<exists>i < length xs. i \<noteq> p \<and> Q (xs ! i))"
    using p by (auto simp: nth_list_update)
  finally show ?thesis .
qed

lemma map_eqI: "(\<And>k v. f k = Some v \<longleftrightarrow> g k = Some v) \<Longrightarrow> f = g"
  by (rule ext) (metis option.exhaust)

lemma slot_unique:
  "entries_ok t \<Longrightarrow> i < length (table t) \<Longrightarrow> j < length (table t) \<Longrightarrow> slot t i = Some k \<Longrightarrow>
     slot t j = Some k \<Longrightarrow> i = j"
  by (simp add: entries_ok_def probe_ok_def)

text \<open>Entering a key that is not in the table.\<close>

lemma place_new:
  assumes ok: "entries_ok t" and room: "filled (table t) < length (table t)"
    and none: "htbl_map t k = None" and st: "stored t d k v" "d < 2 ^ 40"
  obtains p where "p < length (table t)" "lookup t k = Some (Ok (NotFound p (key_byte t k)))"
    "entries_ok (t\<lparr>table := (table t)[p := write_index ((table t ! p)\<lparr>hash_byte := key_byte t k\<rparr>) d]\<rparr>)"
    "htbl_map (t\<lparr>table := (table t)[p := write_index ((table t ! p)\<lparr>hash_byte := key_byte t k\<rparr>) d]\<rparr>)
       = (htbl_map t)(k \<mapsto> v)"
    "filled ((table t)[p := write_index ((table t ! p)\<lparr>hash_byte := key_byte t k\<rparr>) d]) = Suc (filled (table t))"
proof -
  obtain m p where p: "p = (home t k + m) mod length (table t)" "p < length (table t)"
    "stops (length (table t)) (home t) (slot t) k m" "slot t p = None" "read_index (table t ! p) = 0"
    "lookup t k = Some (Ok (NotFound p (key_byte t k)))"
    using lookup_absent [OF ok room none] by blast
  let ?e = "write_index ((table t ! p)\<lparr>hash_byte := key_byte t k\<rparr>) d"
  let ?t = "t\<lparr>table := (table t)[p := ?e]\<rparr>"
  have d: "d \<noteq> 0" "data_ok t" using st ok by (auto simp: stored_def entries_ok_def)
  have e: "entry_pair t ?e = Some (k, v)" "entry_ok t ?e"
    using st d stored_read [OF d(2) st(1)] by (auto simp: entry_pair_def entry_ok_def)
  have ok': "entries_ok ?t"
    using ok p e probe_ok_place [of "length (table t)" "home t" "slot t" k m]
    by (intro table_update_ok) (auto simp: entries_ok_def)
  have "htbl_map ?t k' = Some v' \<longleftrightarrow> ((htbl_map t)(k \<mapsto> v)) k' = Some v'" for k' v'
  proof -
    have "(\<exists>i < length (table t). entry_pair t ((table t)[p := ?e] ! i) = Some (k', v')) \<longleftrightarrow>
        (k' = k \<and> v' = v) \<or> (\<exists>i < length (table t). entry_pair t (table t ! i) = Some (k', v'))"
      using ex_update [OF p(2), of "\<lambda>e. entry_pair t e = Some (k', v')" ?e] p(4) e(1)
      by (auto simp: slot_def)
    then have "htbl_map ?t k' = Some v' \<longleftrightarrow> (k' = k \<and> v' = v) \<or> htbl_map t k' = Some v'"
      using htbl_map_Some [OF ok', of k' v'] htbl_map_Some [OF ok, of k' v'] by simp
    then show ?thesis using none by auto
  qed
  then have map: "htbl_map ?t = (htbl_map t)(k \<mapsto> v)" by (intro map_eqI)
  show ?thesis
    using that [OF p(2,6) ok' map] filled_update(1) [OF p(2,5)] d st by simp
qed

text \<open>Replacing the value of a key.\<close>

lemma place_old:
  assumes ok: "entries_ok t" and some: "htbl_map t k = Some old" and st: "stored t d k v" "d < 2 ^ 40"
  obtains p where "p < length (table t)" "lookup t k = Some (Ok (Found p (read_index (table t ! p))))"
    "read_value t (read_index (table t ! p)) = Ok old"
    "entries_ok (t\<lparr>table := (table t)[p := write_index (table t ! p) d]\<rparr>)"
    "htbl_map (t\<lparr>table := (table t)[p := write_index (table t ! p) d]\<rparr>) = (htbl_map t)(k \<mapsto> v)"
    "filled ((table t)[p := write_index (table t ! p) d]) = filled (table t)"
proof -
  obtain p where p: "p < length (table t)" "entry_pair t (table t ! p) = Some (k, old)"
    "lookup t k = Some (Ok (Found p (read_index (table t ! p))))"
    using lookup_present [OF ok some] by blast
  let ?e = "write_index (table t ! p) d"
  let ?t = "t\<lparr>table := (table t)[p := ?e]\<rparr>"
  have d: "d \<noteq> 0" "data_ok t" "entry_ok t (table t ! p)" using st ok p by (auto simp: stored_def entries_ok_def)
  note o = entry_pair_Some [OF d(2,3) p(2)]
  have e: "entry_pair t ?e = Some (k, v)" "entry_ok t ?e"
    using st d o stored_read [OF d(2) st(1)] by (auto simp: entry_pair_def entry_ok_def)
  have same: "slot t p = Some k" using p(2) by (simp add: slot_def)
  then have upd: "(slot t)(p := map_option fst (entry_pair t ?e)) = slot t"
    using e(1) by (simp add: fun_upd_idem)
  have ok': "entries_ok ?t"
    using ok p(1) e(2) by (intro table_update_ok) (auto simp: upd entries_ok_def)
  have uniq: "i = p" if "i < length (table t)" "entry_pair t (table t ! i) = Some (k, x)" for i x
    using slot_unique [OF ok that(1) p(1) _ same] that(2) by (simp add: slot_def)
  have "htbl_map ?t k' = Some v' \<longleftrightarrow> ((htbl_map t)(k \<mapsto> v)) k' = Some v'" for k' v'
  proof -
    have "(\<exists>i < length (table t). entry_pair t ((table t)[p := ?e] ! i) = Some (k', v')) \<longleftrightarrow>
        (if k' = k then v' = v else \<exists>i < length (table t). entry_pair t (table t ! i) = Some (k', v'))"
    proof (cases "k' = k")
      case True
      then have "\<not> (\<exists>i < length (table t). i \<noteq> p \<and> entry_pair t (table t ! i) = Some (k', v'))"
        using uniq by blast
      with True e(1) show ?thesis
        unfolding ex_update [OF p(1), of "\<lambda>e. entry_pair t e = Some (k', v')" ?e] by auto
    next
      case False
      then have "entry_pair t (table t ! p) \<noteq> Some (k', v')" using p(2) by simp
      with False e(1) show ?thesis
        unfolding ex_update [OF p(1), of "\<lambda>e. entry_pair t e = Some (k', v')" ?e] by auto
    qed
    then have "htbl_map ?t k' = Some v' \<longleftrightarrow> (if k' = k then v' = v else htbl_map t k' = Some v')"
      using htbl_map_Some [OF ok', of k' v'] htbl_map_Some [OF ok, of k' v'] by simp
    then show ?thesis by auto
  qed
  then have map: "htbl_map ?t = (htbl_map t)(k \<mapsto> v)" by (intro map_eqI)
  show ?thesis
    using that [OF p(1,3) o(5) ok' map] filled_update(2) [OF p(1) o(3)] d st by simp
qed

section \<open>Operations on the table\<close>

lemma run_then_Ok [simp]: "run_then (Some (Ok v)) f = f v"
  by (simp add: run_then_def)

definition room_for :: "lookup_htbl \<Rightarrow> bytes \<Rightarrow> bytes \<Rightarrow> bool" where
  "room_for t k v \<longleftrightarrow> 2 * INDEX_SIZE + length k + length v + 1 < chunk_size t \<and>
     chunk_size t \<le> 2 ^ 30 \<and> used_data t + chunk_size t \<le> 2 ^ 40"

lemma with_pair_entries:
  assumes "entries_ok t" "2 * INDEX_SIZE + length k + length v + 1 < chunk_size t"
    "length k < 2 ^ 30" "length v < 2 ^ 30"
  shows "entries_ok (with_pair t k v)" "htbl_map (with_pair t k v) = htbl_map t"
proof -
  have ok: "data_ok t" "data_ok (with_pair t k v)"
    using assms with_pair_ok(1) by (simp_all add: entries_ok_def)
  have kb: "key_byte (with_pair t k v) = key_byte t" by (simp add: key_byte_def fun_eq_iff)
  have e: "entry_ok (with_pair t k v) e \<and> entry_pair (with_pair t k v) e = entry_pair t e"
    if "entry_ok t e" for e
  proof (cases "read_index e = 0")
    case True
    then show ?thesis using that by (simp add: entry_ok_def entry_pair_def)
  next
    case False
    with that obtain k' v' where st: "stored t (read_index e) k' v'" "hash_byte e = key_byte t k'"
      by (auto simp: entry_ok_def)
    note st' = with_pair_keeps [OF ok(1) assms(2) st(1)]
    from stored_read [OF ok(1) st(1)] stored_read [OF ok(2) st'] st st' False that kb
    show ?thesis by (auto simp: entry_ok_def entry_pair_def)
  qed
  have eo: "\<forall>e \<in> set (table t). entry_ok t e" using assms(1) by (simp add: entries_ok_def)
  have "slot (with_pair t k v) i = slot t i" if "i < length (table t)" for i
    using that e eo by (simp add: slot_def)
  moreover have "home (with_pair t k v) = home t" by (simp add: home_def fun_eq_iff)
  ultimately have "probe_ok (length (table t)) (home (with_pair t k v)) (slot (with_pair t k v))"
    using assms(1) probe_ok_cong [of "length (table t)" "home t" "slot t" "slot (with_pair t k v)"]
    by (simp add: entries_ok_def)
  then show "entries_ok (with_pair t k v)"
    using assms(1) ok(2) e eo by (simp add: entries_ok_def)
  have "List.map_filter (entry_pair (with_pair t k v)) (table t) = List.map_filter (entry_pair t) (table t)"
    using e eo by (simp add: List.map_filter_def cong: map_cong filter_cong)
  then show "htbl_map (with_pair t k v) = htbl_map t"
    by (simp add: htbl_map_def htbl_entries_def)
qed

lemma read_index_bound: "length (data_index e) = INDEX_SIZE \<Longrightarrow> read_index e < 2 ^ 40"
  using le_value_less [of "data_index e"] by (simp add: read_index_def INDEX_SIZE_def le_value_append)

lemma move_entry_ok:
  assumes ok: "entries_ok t" "entry_ok t e" and p: "entry_pair t e = Some (k, v)"
    and none: "htbl_map t k = None" and room: "filled (table t) < length (table t)"
  obtains x where "move_entry t e = Some (Ok (t\<lparr>table := x\<rparr>))" "entries_ok (t\<lparr>table := x\<rparr>)"
    "length x = length (table t)" "filled x = Suc (filled (table t))"
    "htbl_map (t\<lparr>table := x\<rparr>) = (htbl_map t)(k \<mapsto> v)"
proof -
  have data: "data_ok t" using ok(1) by (simp add: entries_ok_def)
  note e = entry_pair_Some [OF data ok(2) p]
  have b: "read_index e < 2 ^ 40" using ok(2) by (intro read_index_bound) (simp add: entry_ok_def)
  obtain i where i: "i < length (table t)" "lookup t k = Some (Ok (NotFound i (key_byte t k)))"
    "entries_ok (t\<lparr>table := (table t)[i := write_index ((table t ! i)\<lparr>hash_byte := key_byte t k\<rparr>) (read_index e)]\<rparr>)"
    "htbl_map (t\<lparr>table := (table t)[i := write_index ((table t ! i)\<lparr>hash_byte := key_byte t k\<rparr>) (read_index e)]\<rparr>)
       = (htbl_map t)(k \<mapsto> v)"
    "filled ((table t)[i := write_index ((table t ! i)\<lparr>hash_byte := key_byte t k\<rparr>) (read_index e)])
       = Suc (filled (table t))"
    using place_new [OF ok(1) room none e(1) b] by blast
  have "move_entry t e = Some (Ok (t\<lparr>table :=
      (table t)[i := write_index ((table t ! i)\<lparr>hash_byte := key_byte t k\<rparr>) (read_index e)]\<rparr>))"
    using e i(2) by (simp add: move_entry_def)
  from that [OF this i(3) _ i(5,4)] show ?thesis by simp
qed

lemma move_entries_ok:
  assumes "entries_ok t" "\<forall>e \<in> set es. entry_ok t e" "filled (table t) + filled es < length (table t)"
    "distinct (map fst (List.map_filter (entry_pair t) es))"
    "\<forall>k \<in> fst ` set (List.map_filter (entry_pair t) es). htbl_map t k = None"
  shows "\<exists>x. move_entries t es = Some (Ok (t\<lparr>table := x\<rparr>)) \<and> entries_ok (t\<lparr>table := x\<rparr>) \<and>
    length x = length (table t) \<and> filled x = filled (table t) + filled es \<and>
    (\<forall>k v. htbl_map (t\<lparr>table := x\<rparr>) k = Some v \<longleftrightarrow>
       htbl_map t k = Some v \<or> (k, v) \<in> set (List.map_filter (entry_pair t) es))"
  using assms
proof (induction es arbitrary: t)
  case Nil
  then show ?case by (intro exI [of _ "table t"]) (simp add: filled_def List.map_filter_def)
next
  case (Cons e es)
  show ?case
  proof (cases "read_index e = 0")
    case True
    then have "entry_pair t e = None" "filled (e # es) = filled es" "move_entry t e = Some (Ok t)"
      by (simp_all add: entry_pair_def filled_def move_entry_def)
    with Cons.IH [of t] Cons.prems show ?thesis by (simp add: map_filter_Cons)
  next
    case False
    with Cons.prems(1,2) obtain k v where p: "entry_pair t e = Some (k, v)"
      using entry_pair_None [of t e] by (auto simp: entries_ok_def)
    have f: "filled (e # es) = Suc (filled es)" using False by (simp add: filled_def)
    have none: "htbl_map t k = None" using Cons.prems(5) p by (simp add: map_filter_Cons)
    obtain y where y: "move_entry t e = Some (Ok (t\<lparr>table := y\<rparr>))" "entries_ok (t\<lparr>table := y\<rparr>)"
      "length y = length (table t)" "filled y = Suc (filled (table t))"
      "htbl_map (t\<lparr>table := y\<rparr>) = (htbl_map t)(k \<mapsto> v)"
      using move_entry_ok [OF Cons.prems(1) _ p none] Cons.prems(2,3) f by auto
    have "k \<notin> fst ` set (List.map_filter (entry_pair t) es)"
      using Cons.prems(4) p by (simp add: map_filter_Cons)
    then have "\<forall>k' \<in> fst ` set (List.map_filter (entry_pair t) es). htbl_map (t\<lparr>table := y\<rparr>) k' = None"
      using Cons.prems(5) y(5) by (auto simp: map_filter_Cons p)
    with Cons.IH [of "t\<lparr>table := y\<rparr>"] Cons.prems y(2-4) f p
    obtain x where x: "move_entries (t\<lparr>table := y\<rparr>) es = Some (Ok (t\<lparr>table := x\<rparr>))"
      "entries_ok (t\<lparr>table := x\<rparr>)" "length x = length y" "filled x = filled y + filled es"
      "\<And>k' v'. htbl_map (t\<lparr>table := x\<rparr>) k' = Some v' \<longleftrightarrow>
        htbl_map (t\<lparr>table := y\<rparr>) k' = Some v' \<or> (k', v') \<in> set (List.map_filter (entry_pair t) es)"
      by (auto simp: map_filter_Cons)
    have "htbl_map (t\<lparr>table := x\<rparr>) k' = Some v' \<longleftrightarrow>
        htbl_map t k' = Some v' \<or> (k', v') \<in> set (List.map_filter (entry_pair t) (e # es))" for k' v'
      unfolding x(5) y(5) using none p by (auto simp: map_filter_Cons)
    with x(1-4) y f show ?thesis by (intro exI [of _ x]) simp
  qed
qed

text \<open>Reserving space, growing, and getting ready for an insertion.\<close>

lemma htbl_reserve_ok:
  assumes "used_entries t = 0" "0 < n" "5 * n + 1 < 2 ^ 64" "random \<noteq> 0"
  obtains t' where "htbl_reserve t n random = Ok t'" "htbl_ok t'" "htbl_map t' = Map.empty"
    "used_entries t' = 0" "max_entries t' = n" "used_data t' = 1" "table t' \<noteq> []"
    "chunk_size t' = max (2 ^ 21) (next_power_of_two ((5 * n + 1) div 3))"
proof -
  let ?a = "(5 * n + 1) div 3"
  let ?size = "max (2 ^ 21) (next_power_of_two ?a)"
  obtain b where "?size = 2 ^ b" using next_power_of_two_power [of ?a] by (metis max_def)
  then have b: "2 ^ ilog2 ?size = ?size" by (simp only: ilog2_power)
  have size: "(if next_power_of_two ?a < push_bit 21 1 then push_bit 21 1 else next_power_of_two ?a) = ?size"
    by (simp add: push_bit_eq_mult)
  let ?t = "t\<lparr>max_entries := n, table := replicate ?a entry_default, data_chunks := [], used_data := 1,
    used_entries := 0, hash_secret := random, chunk_size := ?size, chunk_mask := ?size - 1,
    chunk_bits := ilog2 ?size\<rparr>"
  have a: "n < ?a" using assms(2) by linarith
  have "data_ok ?t" using b by (simp add: data_ok_def)
  moreover have "slot ?t i = None" if "i < ?a" for i
    using that by (simp add: slot_def entry_pair_def)
  ultimately have "entries_ok ?t"
    using a by (auto simp: entries_ok_def intro!: probe_ok_empty)
  then have ok: "htbl_ok ?t"
    using a assms(2) by (simp add: htbl_ok_def filled_def filter_replicate)
  have "htbl_reserve t n random = Ok ?t"
    unfolding htbl_reserve_def Let_def size using assms by simp
  moreover have "htbl_map ?t = Map.empty"
    by (simp add: htbl_map_def htbl_entries_def List.map_filter_def filter_replicate entry_pair_def)
  ultimately show ?thesis using that [of ?t] ok a by simp
qed

lemma grow_table_ok:
  assumes ok: "htbl_ok t" and ne: "table t \<noteq> []"
  obtains x where "grow_table t random = Some (Ok (t\<lparr>max_entries := 2 * max_entries t, table := x\<rparr>))"
    "htbl_ok (t\<lparr>max_entries := 2 * max_entries t, table := x\<rparr>)"
    "htbl_map (t\<lparr>max_entries := 2 * max_entries t, table := x\<rparr>) = htbl_map t"
    "length x = 2 * length (table t)"
proof -
  let ?t = "t\<lparr>table := replicate (2 * length (table t)) entry_default, max_entries := 2 * max_entries t\<rparr>"
  from ok ne have e: "entries_ok t" "filled (table t) = used_entries t" "used_entries t \<le> max_entries t"
    "0 < max_entries t" "max_entries t < length (table t)"
    by (simp_all add: htbl_ok_def)
  have "slot ?t i = None" if "i < 2 * length (table t)" for i
    using that by (simp add: slot_def entry_pair_def)
  then have new: "entries_ok ?t" "filled (table ?t) = 0"
    using e(1) ne by (auto simp: entries_ok_def filled_def filter_replicate intro!: probe_ok_empty)
  have none: "htbl_map ?t k = None" for k
    by (simp add: htbl_map_def htbl_entries_def List.map_filter_def filter_replicate entry_pair_def)
  have sim: "entry_pair ?t = entry_pair t" "entry_ok ?t = entry_ok t" by simp_all
  from move_entries_ok [OF new(1), of "table t"] e new(2) none distinct_entries [OF e(1)]
  obtain x where x: "move_entries ?t (table t) = Some (Ok (?t\<lparr>table := x\<rparr>))" "entries_ok (?t\<lparr>table := x\<rparr>)"
    "length x = 2 * length (table t)" "filled x = filled (table t)"
    "\<And>k v. htbl_map (?t\<lparr>table := x\<rparr>) k = Some v \<longleftrightarrow> (k, v) \<in> set (htbl_entries t)"
    unfolding sim htbl_entries_def by (auto simp: entries_ok_def)
  have "htbl_map (?t\<lparr>table := x\<rparr>) = htbl_map t"
  proof (rule map_eqI)
    fix k v
    have "htbl_map t k = Some v \<longleftrightarrow> (k, v) \<in> set (htbl_entries t)"
      by (simp add: htbl_map_def distinct_entries [OF e(1)])
    then show "htbl_map (?t\<lparr>table := x\<rparr>) k = Some v \<longleftrightarrow> htbl_map t k = Some v" by (simp only: x(5))
  qed
  moreover have "grow_table t random = move_entries ?t (table t)"
    using e(4) by (simp add: grow_table_def push_bit_eq_mult mult.commute)
  moreover have "htbl_ok (?t\<lparr>table := x\<rparr>)" using x(2-4) e ne by (auto simp: htbl_ok_def)
  ultimately show ?thesis using that [of x] x(1,3) by simp
qed

text \<open>\<open>prepared\<close>: the table that the pair of an insertion is written to.\<close>

definition prepared :: "lookup_htbl \<Rightarrow> u64 \<Rightarrow> lookup_htbl run" where
  "prepared t random = (if table t = [] then Some (htbl_reserve t 1 random)
     else if used_entries t \<ge> max_entries t then grow_table t random else Some (Ok t))"

definition can_insert :: "lookup_htbl \<Rightarrow> u64 \<Rightarrow> bytes \<Rightarrow> bytes \<Rightarrow> bool" where
  "can_insert t random k v \<longleftrightarrow>
     (if table t = [] then random \<noteq> 0 \<and> 2 * INDEX_SIZE + length k + length v + 1 < 2 ^ 21
      else room_for t k v)"

lemma htbl_map_empty: "table t = [] \<Longrightarrow> htbl_map t = Map.empty"
  by (simp add: htbl_map_def htbl_entries_def List.map_filter_def)

lemma prepared_ok:
  assumes ok: "htbl_ok t" and can: "can_insert t random k v"
  obtains t' where "prepared t random = Some (Ok t')" "htbl_ok t'" "table t' \<noteq> []"
    "used_entries t' < max_entries t'" "htbl_map t' = htbl_map t" "used_entries t' = used_entries t"
    "room_for t' k v"
proof (cases "table t = []")
  case True
  with ok can have "used_entries t = 0" "random \<noteq> 0" by (simp_all add: htbl_ok_def can_insert_def)
  moreover have "5 * 1 + 1 < (2 :: nat) ^ 64" by simp
  ultimately obtain t' where t': "htbl_reserve t 1 random = Ok t'" "htbl_ok t'" "htbl_map t' = Map.empty"
    "used_entries t' = 0" "max_entries t' = 1" "used_data t' = 1" "table t' \<noteq> []"
    "chunk_size t' = max (2 ^ 21) (next_power_of_two ((5 * 1 + 1) div 3))"
    using htbl_reserve_ok [OF _ zero_less_one, of t random] by blast
  have "next_power_of_two ((5 * 1 + 1) div 3) \<le> 2 ^ 21"
    by (rule order_trans [OF next_power_of_two_le [of _ 1]]) simp_all
  with t'(8) have "chunk_size t' = 2 ^ 21" by simp
  with True t' can that [of t'] htbl_map_empty [OF True] \<open>used_entries t = 0\<close> show ?thesis
    by (simp add: prepared_def can_insert_def room_for_def)
next
  case False
  show ?thesis
  proof (cases "used_entries t \<ge> max_entries t")
    case True
    obtain x where x: "grow_table t random = Some (Ok (t\<lparr>max_entries := 2 * max_entries t, table := x\<rparr>))"
      "htbl_ok (t\<lparr>max_entries := 2 * max_entries t, table := x\<rparr>)"
      "htbl_map (t\<lparr>max_entries := 2 * max_entries t, table := x\<rparr>) = htbl_map t"
      "length x = 2 * length (table t)"
      using grow_table_ok [OF ok False] by blast
    from ok False have "used_entries t \<le> max_entries t" "0 < max_entries t" by (simp_all add: htbl_ok_def)
    moreover have "x \<noteq> []" using x(4) False by auto
    ultimately show ?thesis using x True False can that [OF _ x(2)]
      by (auto simp: prepared_def can_insert_def room_for_def)
  next
    case le: False
    with False ok can that [of t] show ?thesis by (simp add: prepared_def can_insert_def)
  qed
qed

lemma htbl_insert_ok:
  assumes ok: "htbl_ok t" and can: "can_insert t random k v"
  obtains t' where "htbl_insert t random k v = Some (Ok (t', htbl_map t k))" "htbl_ok t'"
    "htbl_map t' = (htbl_map t)(k \<mapsto> v)"
    "htbl_len t' = (if htbl_map t k = None then htbl_len t + 1 else htbl_len t)"
proof -
  obtain p where p: "prepared t random = Some (Ok p)" "htbl_ok p" "table p \<noteq> []"
    "used_entries p < max_entries p" "htbl_map p = htbl_map t" "used_entries p = used_entries t"
    "room_for p k v"
    using prepared_ok [OF ok can] by blast
  from p(2,3) have e: "entries_ok p" "filled (table p) = used_entries p" "max_entries p < length (table p)"
    by (simp_all add: htbl_ok_def)
  from p(7) have r: "2 * INDEX_SIZE + length k + length v + 1 < chunk_size p" "length k < 2 ^ 30"
    "length v < 2 ^ 30" "used_data p + chunk_size p \<le> 2 ^ 40"
    by (simp_all add: room_for_def)
  have data: "data_ok p" using e(1) by (simp add: entries_ok_def)
  let ?w = "with_pair p k v" and ?d = "used_data (fresh p k v)"
  note new = new_data_with_pair [OF data r(1-3)] and st = with_pair_ok(2) [OF data r(1-3)]
    and w = with_pair_entries [OF e(1) r(1-3)]
  have d: "?d < 2 ^ 40" using fresh_ok(6) [OF data r(1)] r(4) by simp
  have ins: "htbl_insert t random k v = run_then (Some (Ok (?w, ?d))) (\<lambda>(t, d). run_then (lookup t k) (\<lambda>r.
       case r of
         Found i old \<Rightarrow>
           let t = t\<lparr>table := (table t)[i := write_index (table t ! i) d]\<rparr> in
           Some (and_then (read_value t old) (\<lambda>v. Ok (t, Some v)))
       | NotFound i b \<Rightarrow>
           Some (Ok (t\<lparr>table := (table t)[i := write_index ((table t ! i)\<lparr>hash_byte := b\<rparr>) d],
             used_entries := used_entries t + 1\<rparr>, None))))"
    unfolding htbl_insert_def prepared_def [symmetric] p(1) run_then_Ok new ..
  show ?thesis
  proof (cases "htbl_map t k")
    case None
    obtain i where "lookup ?w k = Some (Ok (NotFound i (key_byte ?w k)))"
      "entries_ok (?w\<lparr>table := (table ?w)[i := write_index ((table ?w ! i)\<lparr>hash_byte := key_byte ?w k\<rparr>) ?d]\<rparr>)"
      "htbl_map (?w\<lparr>table := (table ?w)[i := write_index ((table ?w ! i)\<lparr>hash_byte := key_byte ?w k\<rparr>) ?d]\<rparr>)
         = (htbl_map ?w)(k \<mapsto> v)"
      "filled ((table ?w)[i := write_index ((table ?w ! i)\<lparr>hash_byte := key_byte ?w k\<rparr>) ?d]) = Suc (filled (table ?w))"
      using place_new [OF w(1) _ _ st d] None w(2) p(4,5) e by (auto simp del: data_update)
    with ins None that p e w(2) show ?thesis by (simp add: htbl_ok_def htbl_len_def)
  next
    case (Some old)
    obtain i where "lookup ?w k = Some (Ok (Found i (read_index (table ?w ! i))))"
      "read_value ?w (read_index (table ?w ! i)) = Ok old"
      "entries_ok (?w\<lparr>table := (table ?w)[i := write_index (table ?w ! i) ?d]\<rparr>)"
      "htbl_map (?w\<lparr>table := (table ?w)[i := write_index (table ?w ! i) ?d]\<rparr>) = (htbl_map ?w)(k \<mapsto> v)"
      "filled ((table ?w)[i := write_index (table ?w ! i) ?d]) = filled (table ?w)"
      using place_old [OF w(1) _ st d] Some w(2) p(5) by metis
    with ins Some that p e w(2) show ?thesis by (simp add: htbl_ok_def htbl_len_def)
  qed
qed

lemma htbl_ok_room: "htbl_ok t \<Longrightarrow> table t \<noteq> [] \<Longrightarrow> entries_ok t \<and> filled (table t) < length (table t)"
  by (simp add: htbl_ok_def)

lemma htbl_map_unused:
  assumes "htbl_ok t" "used_entries t = 0"
  shows "htbl_map t = Map.empty"
proof (cases "table t = []")
  case False
  with assms have "filled (table t) = 0" by (simp add: htbl_ok_def)
  then have "\<forall>e \<in> set (table t). read_index e = 0" by (simp add: filled_def filter_empty_conv)
  then show ?thesis
    by (simp add: htbl_map_def htbl_entries_def List.map_filter_def entry_pair_def filter_False)
qed (rule htbl_map_empty)

lemma htbl_get_ok: "htbl_ok t \<Longrightarrow> htbl_get t k = Some (Ok (htbl_map t k))"
proof -
  assume ok: "htbl_ok t"
  show ?thesis
  proof (cases "used_entries t = 0")
    case True
    with htbl_map_unused [OF ok] show ?thesis by (simp add: htbl_get_def htbl_is_empty_def)
  next
    case False
    with ok have ne: "table t \<noteq> []" by (auto simp: htbl_ok_def)
    note e = htbl_ok_room [OF ok ne]
    show ?thesis
    proof (cases "htbl_map t k")
      case None
      with lookup_absent e obtain p b where "lookup t k = Some (Ok (NotFound p b))" by metis
      with None False show ?thesis by (simp add: htbl_get_def htbl_is_empty_def)
    next
      case (Some v)
      with lookup_present e obtain p where p: "p < length (table t)" "entry_pair t (table t ! p) = Some (k, v)"
        "lookup t k = Some (Ok (Found p (read_index (table t ! p))))" by metis
      with e have "read_value t (read_index (table t ! p)) = Ok v"
        by (intro entry_pair_Some(5)) (auto simp: entries_ok_def)
      with p Some False show ?thesis by (simp add: htbl_get_def htbl_is_empty_def)
    qed
  qed
qed

lemma contains_key_ok: "htbl_ok t \<Longrightarrow> contains_key t k = Some (Ok (htbl_map t k \<noteq> None))"
proof (cases "table t = []")
  case False
  assume "htbl_ok t"
  note e = htbl_ok_room [OF this False]
  show ?thesis
  proof (cases "htbl_map t k")
    case None
    with lookup_absent e obtain p b where "lookup t k = Some (Ok (NotFound p b))" by metis
    with None False show ?thesis by (simp add: contains_key_def)
  next
    case (Some v)
    with lookup_present e obtain p d where "lookup t k = Some (Ok (Found p d))" by metis
    with Some False show ?thesis by (simp add: contains_key_def)
  qed
qed (simp add: contains_key_def htbl_map_empty)

section \<open>Iteration\<close>

lemma iter_next_stored:
  assumes data: "data_ok t" and i: "i < length (table t)" and p: "entry_pair t (table t ! i) = Some (k, v)"
    and e: "entry_ok t (table t ! i)"
  shows "iter_next t i = Ok (Some (k, v), i + 1)"
proof -
  note st = entry_pair_Some [OF data e p]
  obtain rest where "drop (read_index (table t ! i) mod chunk_size t)
      (data_chunks t ! (read_index (table t ! i) div chunk_size t)) = pair_enc k v @ rest"
    using st(1) by (rule stored_drop)
  from read_pair [OF this] st(1,3) i show ?thesis
    by (subst iter_next.simps) (simp add: Let_def data_index_split [OF data] index_at_def stored_def add.assoc)
qed

lemma iter_next_ok:
  assumes "entries_ok t" "i \<le> length (table t)"
  shows "\<exists>r j. iter_next t i = Ok (r, j) \<and> j \<le> length (table t) \<and>
    List.map_filter (entry_pair t) (drop i (table t)) =
      (case r of None \<Rightarrow> [] | Some kv \<Rightarrow> kv # List.map_filter (entry_pair t) (drop j (table t))) \<and>
    (r \<noteq> None \<longrightarrow> i < j)"
  using assms(2)
proof (induction "length (table t) - i" arbitrary: i)
  case 0
  then show ?case by (subst iter_next.simps) (simp add: List.map_filter_def)
next
  case (Suc n)
  then have i: "i < length (table t)" by simp
  then have e: "entry_ok t (table t ! i)" "data_ok t" using assms(1) by (simp_all add: entries_ok_def)
  have d: "drop i (table t) = table t ! i # drop (Suc i) (table t)" using i by (simp add: Cons_nth_drop_Suc)
  show ?case
  proof (cases "entry_pair t (table t ! i)")
    case None
    then have "read_index (table t ! i) = 0" using entry_pair_None [OF e(2,1)] by simp
    then have "iter_next t i = iter_next t (i + 1)" using i by (subst iter_next.simps) simp
    moreover have "n = length (table t) - (i + 1)" using Suc.hyps(2) by simp
    from Suc.hyps(1) [OF this] i obtain r j
      where "iter_next t (i + 1) = Ok (r, j)" "j \<le> length (table t)"
        "List.map_filter (entry_pair t) (drop (i + 1) (table t)) =
          (case r of None \<Rightarrow> [] | Some kv \<Rightarrow> kv # List.map_filter (entry_pair t) (drop j (table t)))"
        "r \<noteq> None \<longrightarrow> i + 1 < j" by auto
    ultimately show ?thesis using None by (intro exI [of _ r] exI [of _ j]) (auto simp: d map_filter_Cons)
  next
    case (Some kv)
    then have "iter_next t i = Ok (Some kv, i + 1)"
      using iter_next_stored [OF e(2) i _ e(1)] by (cases kv) simp
    with i Some show ?thesis
      by (intro exI [of _ "Some kv"] exI [of _ "i + 1"]) (simp add: d map_filter_Cons)
  qed
qed

text \<open>What a loop \<^verbatim>\<open>for (k, v) in &htbl\<close> visits, with one call of \<open>iter_next\<close> per round.\<close>

fun visited :: "nat \<Rightarrow> lookup_htbl \<Rightarrow> nat \<Rightarrow> (bytes \<times> bytes) list option" where
  "visited 0 t i = None"
| "visited (Suc rounds) t i =
     (case iter_next t i of
        Inl _ \<Rightarrow> None
      | Inr (None, _) \<Rightarrow> Some []
      | Inr (Some kv, j) \<Rightarrow> map_option (Cons kv) (visited rounds t j))"

lemma visited_ok:
  assumes "entries_ok t" "i \<le> length (table t)" "length (table t) - i < rounds"
  shows "visited rounds t i = Some (List.map_filter (entry_pair t) (drop i (table t)))"
  using assms(2,3)
proof (induction rounds arbitrary: i)
  case (Suc rounds)
  from iter_next_ok [OF assms(1) Suc.prems(1)] obtain r j where
    r: "iter_next t i = Ok (r, j)" "j \<le> length (table t)"
      "List.map_filter (entry_pair t) (drop i (table t)) =
        (case r of None \<Rightarrow> [] | Some kv \<Rightarrow> kv # List.map_filter (entry_pair t) (drop j (table t)))"
      "r \<noteq> None \<longrightarrow> i < j" by blast
  show ?case
  proof (cases r)
    case (Some kv)
    then show ?thesis using r Suc.IH [of j] Suc.prems by simp
  qed (use r in simp)
qed simp

section \<open>Properties\<close>

lemma htbl_default_ok: "htbl_ok htbl_default" "htbl_map htbl_default = Map.empty"
  by (simp_all add: htbl_ok_def htbl_default_def htbl_map_empty)

text \<open>C6. The table implements a map: while a pair fits in a chunk and the data stays below 1 TiB,
  insertion returns (no panic, no endless loop) with the previous value of the key, the new table
  satisfies the invariant and represents the map updated at that key, its length counts the keys,
  and every lookup in it returns what the map holds.\<close>

theorem htbl_insert_refines:
  assumes "htbl_ok t" and "can_insert t random k v"
  shows "\<exists>t'. htbl_insert t random k v = Some (Ok (t', htbl_map t k)) \<and> htbl_ok t' \<and>
    htbl_map t' = (htbl_map t)(k \<mapsto> v) \<and>
    htbl_len t' = (if htbl_map t k = None then htbl_len t + 1 else htbl_len t) \<and>
    (\<forall>k'. htbl_get t' k' = Some (Ok (htbl_map t' k')) \<and>
      contains_key t' k' = Some (Ok (htbl_map t' k' \<noteq> None)))"
proof -
  obtain t' where "htbl_insert t random k v = Some (Ok (t', htbl_map t k))" "htbl_ok t'"
    "htbl_map t' = (htbl_map t)(k \<mapsto> v)"
    "htbl_len t' = (if htbl_map t k = None then htbl_len t + 1 else htbl_len t)"
    using htbl_insert_ok [OF assms] by blast
  with htbl_get_ok contains_key_ok show ?thesis by blast
qed

theorem htbl_insert_refines_witness:
  "\<exists>t'. htbl_insert htbl_default 7 [1] [2] = Some (Ok (t', None)) \<and>
    htbl_get t' [1] = Some (Ok (Some [2])) \<and> htbl_get t' [3] = Some (Ok None) \<and> htbl_len t' = 1"
  using htbl_insert_refines [of htbl_default 7 "[1]" "[2]"] htbl_default_ok
  by (auto simp: can_insert_def htbl_default_def INDEX_SIZE_def htbl_len_def)

text \<open>The probing loop ends: in every table that satisfies the invariant, a lookup returns the
  slot of the key, or, when no slot holds the key, the free slot where it belongs.\<close>

theorem lookup_terminates:
  assumes "htbl_ok t" and "table t \<noteq> []"
  shows "\<exists>r. lookup t k = Some (Ok r) \<and> (case r of
      Found i d \<Rightarrow> i < length (table t) \<and> d = read_index (table t ! i) \<and> d \<noteq> 0 \<and> read_key t d = Ok k
    | NotFound i b \<Rightarrow> i < length (table t) \<and> read_index (table t ! i) = 0 \<and>
        b = key_byte t k \<and> htbl_map t k = None)"
proof (cases "htbl_map t k")
  case None
  with lookup_absent htbl_ok_room [OF assms] obtain p where
    "p < length (table t)" "read_index (table t ! p) = 0" "lookup t k = Some (Ok (NotFound p (key_byte t k)))"
    by metis
  with None show ?thesis by simp
next
  case (Some v)
  with lookup_present htbl_ok_room [OF assms] obtain p where p: "p < length (table t)"
    "entry_pair t (table t ! p) = Some (k, v)" "lookup t k = Some (Ok (Found p (read_index (table t ! p))))"
    by metis
  with entry_pair_Some [OF _ _ p(2)] htbl_ok_room [OF assms] show ?thesis
    by (simp add: entries_ok_def)
qed

lemma demo_reserved:
  obtains t where "htbl_reserve htbl_default 1 7 = Ok t" "htbl_ok t" "htbl_map t = Map.empty"
    "used_entries t = 0" "max_entries t = 1" "used_data t = 1" "table t \<noteq> []" "chunk_size t = 2 ^ 21"
proof -
  have u: "used_entries htbl_default = 0" by (simp add: htbl_default_def)
  have n: "5 * 1 + 1 < (2 :: nat) ^ 64" by simp
  have "next_power_of_two ((5 * 1 + 1) div 3) \<le> 2 ^ 21"
    by (rule order_trans [OF next_power_of_two_le [of _ 1]]) simp_all
  then have size: "max (2 ^ 21) (next_power_of_two ((5 * 1 + 1) div 3)) = 2 ^ 21" by (rule max.absorb1)
  have "(7 :: u64) \<noteq> 0" by simp
  from htbl_reserve_ok [OF u zero_less_one n this] that show ?thesis unfolding size by blast
qed

theorem lookup_terminates_witness:
  "\<exists>t i b. htbl_reserve htbl_default 1 7 = Ok t \<and> lookup t [1] = Some (Ok (NotFound i b))"
proof -
  obtain t where t: "htbl_reserve htbl_default 1 7 = Ok t" "htbl_ok t" "htbl_map t = Map.empty"
    "table t \<noteq> []" using demo_reserved by blast
  from lookup_terminates [OF t(2,4), of "[1]"] obtain r where r: "lookup t [1] = Some (Ok r)"
    "case r of Found i d \<Rightarrow> i < length (table t) \<and> d = read_index (table t ! i) \<and> d \<noteq> 0 \<and> read_key t d = Ok [1]
     | NotFound i b \<Rightarrow> i < length (table t) \<and> read_index (table t ! i) = 0 \<and>
        b = key_byte t [1] \<and> htbl_map t [1] = None" by blast
  show ?thesis
  proof (cases r)
    case (Found i d)
    have e: "entries_ok t" using htbl_ok_room [OF t(2,4)] by blast
    then have "entry_ok t (table t ! i)" "data_ok t" using r Found by (simp_all add: entries_ok_def)
    with r Found entry_pair_None [of t "table t ! i"] obtain x v
      where p: "entry_pair t (table t ! i) = Some (x, v)" by fastforce
    with r Found e have "htbl_map t x = Some v" using htbl_map_Some [OF e] by auto
    with t(3) show ?thesis by simp
  next
    case (NotFound i b)
    with r t show ?thesis by blast
  qed
qed

text \<open>Iterating over a table visits every pair of the map once: the loop ends, its keys are
  distinct, and its pairs are exactly those of the map.\<close>

theorem iteration_visits_map:
  assumes "htbl_ok t" and "table t \<noteq> []"
  shows "\<exists>kvs. visited (length (table t) + 1) t 0 = Some kvs \<and> distinct (map fst kvs) \<and>
    map_of kvs = htbl_map t \<and> length kvs = htbl_len t"
proof -
  note e = htbl_ok_room [OF assms]
  have "visited (length (table t) + 1) t 0 = Some (htbl_entries t)"
    using visited_ok [of t 0 "length (table t) + 1"] e by (simp add: htbl_entries_def)
  moreover have "length (htbl_entries t) = filled (table t)"
    using e entry_pair_None [of t] unfolding htbl_entries_def List.map_filter_def filled_def entries_ok_def
    by (simp cong: filter_cong)
  ultimately show ?thesis
    using e distinct_entries assms by (auto simp: htbl_map_def htbl_ok_def htbl_len_def)
qed

theorem iteration_visits_map_witness:
  "\<exists>t. htbl_reserve htbl_default 1 7 = Ok t \<and> visited (length (table t) + 1) t 0 = Some []"
proof -
  obtain t where t: "htbl_reserve htbl_default 1 7 = Ok t" "htbl_ok t" "used_entries t = 0"
    "table t \<noteq> []" using demo_reserved by blast
  from iteration_visits_map [OF t(2,4)] t show ?thesis by (auto simp: htbl_len_def)
qed

text \<open>A length below 1 GiB survives its compressed form: it takes at most four bytes, is read
  back with its size, and no other byte of the chunk changes.\<close>

theorem len_round_trip:
  assumes "n < 2 ^ 30" and "i + 4 \<le> length data"
  shows "\<exists>data' m. write_len data i n = Ok (data', m) \<and> read_len data' i = Ok (n, m) \<and>
    1 \<le> m \<and> m \<le> 4 \<and> length data' = length data \<and> take i data' = take i data \<and>
    drop (i + m) data' = drop (i + m) data"
proof -
  let ?e = "len_enc n"
  have len: "1 \<le> length ?e" "length ?e \<le> 4" using len_extra_less [of n] by (simp_all add: length_len_enc)
  with assms(2) have fit: "i + length ?e \<le> length data" by linarith
  from write_len_enc [OF assms(1) fit]
    read_len_enc [OF assms(1) drop_overwrite_at [OF fit]] len fit
  show ?thesis by (simp add: overwrite_def)
qed

theorem len_round_trip_witness:
  "\<exists>data' m. write_len (replicate 8 0) 1 300 = Ok (data', m) \<and> read_len data' 1 = Ok (300, m)"
  using len_round_trip [of 300 1 "replicate 8 0"] by auto

text \<open>A pair that takes all but one byte of a chunk passes the size assertion and then ends
  with a panic when it is the first of the table: the end of the pair is already in the second
  chunk, but only one chunk is added.\<close>

theorem chunk_edge_panics:
  assumes "htbl_ok t" and "table t \<noteq> []" and "data_chunks t = []" and "used_entries t < max_entries t"
    and "2 * INDEX_SIZE + length k + length v + 1 = chunk_size t"
  shows "htbl_insert t random k v = Some (panic ''index out of bounds'')"
proof -
  have d: "data_ok t" using htbl_ok_room [OF assms(1,2)] by (simp add: entries_ok_def)
  then have u: "used_data t = 1" using assms(3) by (simp add: data_ok_def)
  have "drop_bit (chunk_bits t) (used_data t + (2 * INDEX_SIZE + length k + length v)) = 1"
    using data_index_split(1) [OF d] chunk_size_pos [OF d] assms(5) by (simp add: u)
  then have "new_data t k v = panic ''index out of bounds''"
    using assms(3,5) by (simp add: new_data_def Let_def index_at_def)
  with assms(2,4) show ?thesis by (simp add: htbl_insert_def run_then_def)
qed

theorem chunk_edge_panics_witness:
  "\<exists>t. htbl_reserve htbl_default 1 7 = Ok t \<and>
    htbl_insert t 7 (replicate (2 ^ 21 - 11) 1) [] = Some (panic ''index out of bounds'')"
proof -
  obtain t where t: "htbl_reserve htbl_default 1 7 = Ok t" "htbl_ok t" "htbl_map t = Map.empty"
    "used_entries t = 0" "max_entries t = 1" "used_data t = 1" "table t \<noteq> []" "chunk_size t = 2 ^ 21"
    using demo_reserved by blast
  have "data_chunks t = []" using t(1)
    by (auto simp: htbl_reserve_def htbl_default_def Let_def)
  with chunk_edge_panics [OF t(2,7), of "replicate (2 ^ 21 - 11) 1" "[]" 7] t show ?thesis
    by (simp add: INDEX_SIZE_def)
qed

end
