(* ===== verification/Oak_Lookup.thy ===== *)
theory Oak_Lookup
  imports Oak_Htbl_Map
begin

text \<open>
  The lookup data of Oak Functions, \<^verbatim>\<open>oak_functions_service/src/lookup.rs\<close>: a manager holds the
  data that new requests read and a builder for the next version. Tables are used through the
  interface \<open>map_table\<close>, which the hash table provides. Each method holds its lock for its whole
  body, so a run of the manager is a sequence of operations. Log messages are not modelled.
\<close>

section \<open>The interface of a table\<close>

locale map_table =
  fixes ok :: "'t \<Rightarrow> bool"
    and can :: "'t \<Rightarrow> 'r \<Rightarrow> 'k \<Rightarrow> 'v \<Rightarrow> bool"
    and contents :: "'t \<Rightarrow> 'k \<Rightarrow> 'v option"
    and start :: 't
    and put :: "'t \<Rightarrow> 'r \<Rightarrow> 'k \<Rightarrow> 'v \<Rightarrow> ('t \<times> 'v option) run"
    and put_all :: "'t \<Rightarrow> 'r \<Rightarrow> ('k \<times> 'v) list \<Rightarrow> 't run"
    and look :: "'t \<Rightarrow> 'k \<Rightarrow> 'v option run"
  assumes start_ok: "ok start" "contents start = Map.empty"
    and put_ok: "ok t \<Longrightarrow> can t r k v \<Longrightarrow>
      \<exists>t'. put t r k v = Some (Ok (t', contents t k)) \<and> ok t' \<and> contents t' = (contents t)(k \<mapsto> v)"
    and put_all_Nil: "put_all t r [] = Some (Ok t)"
    and put_all_Cons: "put_all t r ((k, v) # kvs) = run_then (put t r k v) (\<lambda>(t, _). put_all t r kvs)"
    and look_ok: "ok t \<Longrightarrow> look t k = Some (Ok (contents t k))"
begin

primrec can_all :: "'t \<Rightarrow> 'r \<Rightarrow> ('k \<times> 'v) list \<Rightarrow> bool" where
  "can_all t r [] = True"
| "can_all t r (kv # kvs) = (can t r (fst kv) (snd kv) \<and>
     (\<forall>t' old. put t r (fst kv) (snd kv) = Some (Ok (t', old)) \<longrightarrow> can_all t' r kvs))"

text \<open>A later pair overwrites an earlier one with the same key.\<close>

lemma put_all_ok:
  "ok t \<Longrightarrow> can_all t r kvs \<Longrightarrow>
     \<exists>t'. put_all t r kvs = Some (Ok t') \<and> ok t' \<and> contents t' = contents t ++ map_of (rev kvs)"
proof (induction kvs arbitrary: t)
  case Nil
  then show ?case by (simp add: put_all_Nil)
next
  case (Cons kv kvs)
  obtain k v where kv: "kv = (k, v)" by (cases kv)
  with Cons.prems put_ok [of t r k v] obtain t1 where t1: "put t r k v = Some (Ok (t1, contents t k))"
    "ok t1" "contents t1 = (contents t)(k \<mapsto> v)" by auto
  have "can_all t1 r kvs" using Cons.prems(2) t1(1) kv by simp
  from Cons.IH [OF t1(2) this] obtain t' where
    "put_all t1 r kvs = Some (Ok t')" "ok t'" "contents t' = contents t1 ++ map_of (rev kvs)" by blast
  with t1 kv show ?case by (simp add: put_all_Cons)
qed

end

interpretation lh: map_table htbl_ok can_insert htbl_map htbl_default htbl_insert htbl_extend htbl_get
proof
  fix t random k v
  assume "htbl_ok t" "can_insert t random k v"
  then show "\<exists>t'. htbl_insert t random k v = Some (Ok (t', htbl_map t k)) \<and> htbl_ok t' \<and>
      htbl_map t' = (htbl_map t)(k \<mapsto> v)"
    by (rule htbl_insert_ok) blast
qed (simp_all add: htbl_default_ok htbl_get_ok)

section \<open>Builder and manager\<close>

datatype builder_state = BuilderEmpty | Extending

record data_builder =
  builder_data :: lookup_htbl
  builder_state :: builder_state

definition builder_default :: data_builder where
  "builder_default = \<lparr>builder_data = htbl_default, builder_state = BuilderEmpty\<rparr>"

definition builder_build :: "data_builder \<Rightarrow> data_builder \<times> lookup_htbl" where
  "builder_build b = (b\<lparr>builder_state := BuilderEmpty, builder_data := htbl_default\<rparr>, builder_data b)"

definition builder_extend :: "data_builder \<Rightarrow> u64 \<Rightarrow> (bytes \<times> bytes) list \<Rightarrow> data_builder run" where
  "builder_extend b random kvs =
     run_then (htbl_extend (builder_data b) random kvs) (\<lambda>t.
     Some (Ok (b\<lparr>builder_state := Extending, builder_data := t\<rparr>)))"

definition builder_insert :: "data_builder \<Rightarrow> u64 \<Rightarrow> bytes \<Rightarrow> bytes \<Rightarrow> data_builder run" where
  "builder_insert b random key val =
     run_then (htbl_insert (builder_data b) random key val) (\<lambda>(t, _).
     Some (Ok (b\<lparr>builder_state := Extending, builder_data := t\<rparr>)))"

definition builder_reserve :: "data_builder \<Rightarrow> nat \<Rightarrow> u64 \<Rightarrow> data_builder run" where
  "builder_reserve b n random =
     run_then (Some (htbl_reserve (builder_data b) n random)) (\<lambda>t. Some (Ok (b\<lparr>builder_data := t\<rparr>)))"

record lookup_data_manager =
  mgr_data :: lookup_htbl
  mgr_builder :: data_builder

record lookup_data =
  ld_data :: lookup_htbl

definition new_empty :: lookup_data_manager where
  "new_empty = \<lparr>mgr_data = htbl_default, mgr_builder = builder_default\<rparr>"

definition mgr_reserve :: "lookup_data_manager \<Rightarrow> u64 \<Rightarrow> u64 \<Rightarrow> lookup_data_manager run" where
  "mgr_reserve m n random =
     run_then (builder_reserve (mgr_builder m) (unat n) random) (\<lambda>b. Some (Ok (m\<lparr>mgr_builder := b\<rparr>)))"

text \<open>Also the method of \<^verbatim>\<open>LookupDataInserter\<close>, which holds the lock between insertions.\<close>

definition mgr_insert :: "lookup_data_manager \<Rightarrow> u64 \<Rightarrow> bytes \<Rightarrow> bytes \<Rightarrow> lookup_data_manager run" where
  "mgr_insert m random key val =
     run_then (builder_insert (mgr_builder m) random key val) (\<lambda>b. Some (Ok (m\<lparr>mgr_builder := b\<rparr>)))"

definition extend_next_lookup_data ::
  "lookup_data_manager \<Rightarrow> u64 \<Rightarrow> (bytes \<times> bytes) list \<Rightarrow> lookup_data_manager run" where
  "extend_next_lookup_data m random kvs =
     run_then (builder_extend (mgr_builder m) random kvs) (\<lambda>b. Some (Ok (m\<lparr>mgr_builder := b\<rparr>)))"

definition finish_next_lookup_data :: "lookup_data_manager \<Rightarrow> lookup_data_manager" where
  "finish_next_lookup_data m =
     (let (b, next_data) = builder_build (mgr_builder m) in m\<lparr>mgr_builder := b, mgr_data := next_data\<rparr>)"

definition abort_next_lookup_data :: "lookup_data_manager \<Rightarrow> lookup_data_manager" where
  "abort_next_lookup_data m = m\<lparr>mgr_builder := fst (builder_build (mgr_builder m))\<rparr>"

definition create_lookup_data :: "lookup_data_manager \<Rightarrow> lookup_data" where
  "create_lookup_data m = \<lparr>ld_data = mgr_data m\<rparr>"

definition for_test :: "(bytes \<times> bytes) list \<Rightarrow> u64 \<Rightarrow> u64 \<Rightarrow> lookup_data_manager run" where
  "for_test kvs random random' =
     run_then (mgr_reserve new_empty (word_of_nat (length kvs)) random) (\<lambda>m.
     run_then (extend_next_lookup_data m random' kvs) (\<lambda>m.
     Some (Ok (finish_next_lookup_data m))))"

definition ld_get :: "lookup_data \<Rightarrow> bytes \<Rightarrow> bytes option run" where
  "ld_get d key = htbl_get (ld_data d) key"

definition ld_len :: "lookup_data \<Rightarrow> nat" where
  "ld_len d = htbl_len (ld_data d)"

definition ld_is_empty :: "lookup_data \<Rightarrow> bool" where
  "ld_is_empty d = htbl_is_empty (ld_data d)"

definition limit :: "'a list \<Rightarrow> nat \<Rightarrow> 'a list" where
  "limit xs n = take (min n (length xs)) xs"

text \<open>\<^verbatim>\<open>format!("\{:?\}", v)\<close> of a vector of bytes.\<close>

fun show_items :: "bytes \<Rightarrow> string" where
  "show_items [] = []"
| "show_items [b] = show_nat (unat b)"
| "show_items (b # bs) = show_nat (unat b) @ '', '' @ show_items bs"

definition format_bytes :: "bytes \<Rightarrow> string" where
  "format_bytes v = (case from_utf8 v of Some s \<Rightarrow> s | None \<Rightarrow> ''['' @ show_items v @ '']'')"

section \<open>Runs of the manager\<close>

datatype mgr_op = Reserve u64 u64 | Insert u64 bytes bytes | Extend u64 "(bytes \<times> bytes) list"
  | Finish | Abort

fun mgr_exec :: "lookup_data_manager \<Rightarrow> mgr_op \<Rightarrow> lookup_data_manager run" where
  "mgr_exec m (Reserve n random) = mgr_reserve m n random"
| "mgr_exec m (Insert random k v) = mgr_insert m random k v"
| "mgr_exec m (Extend random kvs) = extend_next_lookup_data m random kvs"
| "mgr_exec m Finish = Some (Ok (finish_next_lookup_data m))"
| "mgr_exec m Abort = Some (Ok (abort_next_lookup_data m))"

fun mgr_run :: "lookup_data_manager \<Rightarrow> mgr_op list \<Rightarrow> lookup_data_manager run" where
  "mgr_run m [] = Some (Ok m)"
| "mgr_run m (op # ops) = run_then (mgr_exec m op) (\<lambda>m. mgr_run m ops)"

text \<open>The specification: a current map and the next one.\<close>

type_synonym lookup_spec = "(bytes \<Rightarrow> bytes option) \<times> (bytes \<Rightarrow> bytes option)"

fun spec_step :: "lookup_spec \<Rightarrow> mgr_op \<Rightarrow> lookup_spec" where
  "spec_step (cur, nxt) (Reserve n random) = (cur, nxt)"
| "spec_step (cur, nxt) (Insert random k v) = (cur, nxt(k \<mapsto> v))"
| "spec_step (cur, nxt) (Extend random kvs) = (cur, nxt ++ map_of (rev kvs))"
| "spec_step (cur, nxt) Finish = (nxt, Map.empty)"
| "spec_step (cur, nxt) Abort = (cur, Map.empty)"

definition mgr_abs :: "lookup_data_manager \<Rightarrow> lookup_spec" where
  "mgr_abs m = (htbl_map (mgr_data m), htbl_map (builder_data (mgr_builder m)))"

definition mgr_ok :: "lookup_data_manager \<Rightarrow> bool" where
  "mgr_ok m \<longleftrightarrow> htbl_ok (mgr_data m) \<and> htbl_ok (builder_data (mgr_builder m))"

text \<open>What an operation asks for: a random number other than zero where one is drawn, and room for
  the pairs.\<close>

fun op_can :: "lookup_data_manager \<Rightarrow> mgr_op \<Rightarrow> bool" where
  "op_can m (Reserve n random) = (random \<noteq> 0 \<and> 5 * unat n + 1 < 2 ^ 64)"
| "op_can m (Insert random k v) = can_insert (builder_data (mgr_builder m)) random k v"
| "op_can m (Extend random kvs) = lh.can_all (builder_data (mgr_builder m)) random kvs"
| "op_can m Finish = True"
| "op_can m Abort = True"

fun run_can :: "lookup_data_manager \<Rightarrow> mgr_op list \<Rightarrow> bool" where
  "run_can m [] = True"
| "run_can m (op # ops) = (op_can m op \<and> (\<forall>m'. mgr_exec m op = Some (Ok m') \<longrightarrow> run_can m' ops))"

lemma reserve_keeps:
  assumes "htbl_ok t" "random \<noteq> 0" "5 * n + 1 < 2 ^ 64"
  shows "\<exists>t'. htbl_reserve t n random = Ok t' \<and> htbl_ok t' \<and> htbl_map t' = htbl_map t"
proof (cases "used_entries t = 0")
  case True
  show ?thesis
  proof (cases "n = 0")
    case True
    with \<open>used_entries t = 0\<close> assms htbl_map_unused [OF assms(1)] show ?thesis
      by (simp add: htbl_reserve_def Let_def htbl_ok_def htbl_map_empty)
  next
    case False
    then show ?thesis
      using htbl_reserve_ok [OF True _ assms(3,2)] htbl_map_unused [OF assms(1) True] by (metis neq0_conv)
  qed
qed (use assms in \<open>simp add: htbl_reserve_def\<close>)

lemma mgr_exec_refines:
  assumes "mgr_ok m" "op_can m op"
  shows "\<exists>m'. mgr_exec m op = Some (Ok m') \<and> mgr_ok m' \<and> mgr_abs m' = spec_step (mgr_abs m) op"
proof (cases op)
  case (Reserve n random)
  with assms reserve_keeps [of "builder_data (mgr_builder m)" random "unat n"] show ?thesis
    by (auto simp: mgr_reserve_def builder_reserve_def mgr_ok_def mgr_abs_def)
next
  case (Insert random k v)
  with assms lh.put_ok [of "builder_data (mgr_builder m)" random k v] show ?thesis
    by (auto simp: mgr_insert_def builder_insert_def mgr_ok_def mgr_abs_def)
next
  case (Extend random kvs)
  with assms lh.put_all_ok [of "builder_data (mgr_builder m)" random kvs] show ?thesis
    by (auto simp: extend_next_lookup_data_def builder_extend_def mgr_ok_def mgr_abs_def)
next
  case Finish
  with assms show ?thesis
    by (simp add: finish_next_lookup_data_def builder_build_def mgr_ok_def mgr_abs_def htbl_default_ok)
next
  case Abort
  with assms show ?thesis
    by (simp add: abort_next_lookup_data_def builder_build_def mgr_ok_def mgr_abs_def htbl_default_ok)
qed

lemma mgr_run_refines:
  "mgr_ok m \<Longrightarrow> run_can m ops \<Longrightarrow>
     \<exists>m'. mgr_run m ops = Some (Ok m') \<and> mgr_ok m' \<and> mgr_abs m' = foldl spec_step (mgr_abs m) ops"
proof (induction ops arbitrary: m)
  case (Cons op ops)
  with mgr_exec_refines [of m op] obtain m1 where m1: "mgr_exec m op = Some (Ok m1)" "mgr_ok m1"
    "mgr_abs m1 = spec_step (mgr_abs m) op" by auto
  with Cons.IH [of m1] Cons.prems(2) show ?case by auto
qed simp

lemma new_empty_ok: "mgr_ok new_empty" "mgr_abs new_empty = (Map.empty, Map.empty)"
  by (simp_all add: mgr_ok_def mgr_abs_def new_empty_def builder_default_def htbl_default_ok)

text \<open>C19. The manager refines a pair of maps: from the empty manager, every sequence of operations
  whose pairs fit returns, and a reader created at its end sees, for every key, the value that the
  specification gives: insertions and extensions build the next map only, finishing replaces the
  current map by it, aborting drops it.\<close>

theorem manager_refines_maps:
  assumes "run_can new_empty ops"
  shows "\<exists>m. mgr_run new_empty ops = Some (Ok m) \<and>
    (\<forall>k. ld_get (create_lookup_data m) k =
       Some (Ok (fst (foldl spec_step (Map.empty, Map.empty) ops) k)))"
proof -
  from mgr_run_refines [OF new_empty_ok(1) assms] obtain m where m: "mgr_run new_empty ops = Some (Ok m)"
    "mgr_ok m" "mgr_abs m = foldl spec_step (Map.empty, Map.empty) ops"
    by (auto simp: new_empty_ok)
  from m(3) have "htbl_map (mgr_data m) = fst (foldl spec_step (Map.empty, Map.empty) ops)"
    by (metis fst_conv mgr_abs_def)
  with m(1,2) lh.look_ok [of "mgr_data m"] show ?thesis
    by (auto simp: ld_get_def create_lookup_data_def mgr_ok_def)
qed

theorem manager_refines_maps_witness:
  "\<exists>m. mgr_run new_empty [Insert 7 [1] [2], Finish, Abort] = Some (Ok m) \<and>
    ld_get (create_lookup_data m) [1] = Some (Ok (Some [2]))"
proof -
  have "run_can new_empty [Insert 7 [1] [2], Finish, Abort]"
    by (simp add: can_insert_def new_empty_def builder_default_def htbl_default_def INDEX_SIZE_def)
  from manager_refines_maps [OF this] show ?thesis by auto
qed

text \<open>What a manager publishes changes only by finishing.\<close>

lemma run_then_eq_Ok: "run_then r f = Some (Ok x) \<longleftrightarrow> (\<exists>v. r = Some (Ok v) \<and> f v = Some (Ok x))"
  by (cases r) (auto simp: run_then_def split: sum.splits)

lemma only_finish_publishes:
  assumes "mgr_exec m op = Some (Ok m')" and "op \<noteq> Finish"
  shows "create_lookup_data m' = create_lookup_data m"
  using assms
  by (cases op) (auto simp: mgr_reserve_def mgr_insert_def extend_next_lookup_data_def
      abort_next_lookup_data_def create_lookup_data_def run_then_eq_Ok)

end
