(* ===== verification/Oak_Channel.thy ===== *)
theory Oak_Channel
  imports Oak_Slices
begin

text \<open>
  The channel between the launcher and the enclave, \<^verbatim>\<open>oak_channel/src\<close>: messages
  (\<^verbatim>\<open>message.rs\<close>), frames (\<^verbatim>\<open>frame.rs\<close>), the fragmentation of messages into frames
  (\<^verbatim>\<open>lib.rs\<close>), the two handles (\<^verbatim>\<open>client.rs\<close>, \<^verbatim>\<open>server.rs\<close>) and the raw transfer of
  the first payload (\<^verbatim>\<open>basic_framed.rs\<close>). A channel is a reliable byte stream in each
  direction: reading past the end of the input is an error, writing appends. After an error the
  channel is not used again, so only a success returns the new state. Timers are left out.
\<close>

section \<open>The byte streams\<close>

record channel =
  chan_in :: bytes
  chan_out :: bytes

definition read_exact :: "channel \<Rightarrow> nat \<Rightarrow> (bytes \<times> channel) anyhow" where
  "read_exact ch n =
     (if n \<le> length (chan_in ch) then Ok (take n (chan_in ch), ch\<lparr>chan_in := drop n (chan_in ch)\<rparr>)
      else Error [''failed to fill whole buffer''])"

definition write_all :: "channel \<Rightarrow> bytes \<Rightarrow> channel" where
  "write_all ch bs = ch\<lparr>chan_out := chan_out ch @ bs\<rparr>"

lemma read_exact_Ok [result_simps]:
  "read_exact ch n = Ok (bs, ch') \<longleftrightarrow> length bs = n \<and> chan_in ch = bs @ chan_in ch' \<and>
     ch' = ch\<lparr>chan_in := chan_in ch'\<rparr>"
  by (auto simp: read_exact_def append_eq_conv_conj min_def)

lemma read_exact_append [simp]:
  "chan_in ch = bs @ rest \<Longrightarrow> n = length bs \<Longrightarrow> read_exact ch n = Ok (bs, ch\<lparr>chan_in := rest\<rparr>)"
  by (simp add: read_exact_def)

subsection \<open>Implementations of a channel\<close>

text \<open>
  What the code above a channel relies on, whatever the channel is made of: it implements the two byte
  streams \<open>abs s\<close>. A read or a write that has to wait is \<open>None\<close>; a write of data that fits into
  the space that is left does not.
\<close>

locale byte_channel =
  fixes ok :: "'s \<Rightarrow> bool" and abs :: "'s \<Rightarrow> channel" and space :: "'s \<Rightarrow> nat" and cost :: "bytes \<Rightarrow> nat"
    and rd :: "'s \<Rightarrow> nat \<Rightarrow> (bytes \<times> 's) anyhow option" and wr :: "'s \<Rightarrow> bytes \<Rightarrow> 's anyhow option"
  assumes read_law: "ok s \<Longrightarrow> read_exact (abs s) len = Ok (bs, ch) \<Longrightarrow>
      \<exists>s'. rd s len = Some (Ok (bs, s')) \<and> ok s' \<and> abs s' = ch \<and> space s' = space s"
    and write_law: "ok s \<Longrightarrow> cost data \<le> space s \<Longrightarrow>
      \<exists>s'. wr s data = Some (Ok s') \<and> ok s' \<and> abs s' = write_all (abs s) data \<and>
        space s' = space s - cost data"

datatype chan_op = ReadOp nat | WriteOp bytes

text \<open>A sequence of operations on the byte streams, with what was read, and on an implementation.\<close>

fun channel_run :: "chan_op list \<Rightarrow> channel \<Rightarrow> (bytes list \<times> channel) anyhow" where
  "channel_run [] ch = Ok ([], ch)"
| "channel_run (ReadOp n # ops) ch =
     and_then (read_exact ch n) (\<lambda>(bs, ch). and_then (channel_run ops ch) (\<lambda>(rs, ch). Ok (bs # rs, ch)))"
| "channel_run (WriteOp data # ops) ch = channel_run ops (write_all ch data)"

fun impl_run :: "('s \<Rightarrow> nat \<Rightarrow> (bytes \<times> 's) anyhow option) \<Rightarrow> ('s \<Rightarrow> bytes \<Rightarrow> 's anyhow option)
    \<Rightarrow> chan_op list \<Rightarrow> 's \<Rightarrow> (bytes list \<times> 's) anyhow option" where
  "impl_run rd wr [] s = Some (Ok ([], s))"
| "impl_run rd wr (ReadOp n # ops) s = Option.bind (rd s n) (\<lambda>r. case r of
       Inl x \<Rightarrow> Some (Inl x)
     | Inr (bs, s) \<Rightarrow> map_option (\<lambda>r. and_then r (\<lambda>(rs, s). Ok (bs # rs, s))) (impl_run rd wr ops s))"
| "impl_run rd wr (WriteOp data # ops) s = Option.bind (wr s data) (\<lambda>r. case r of
       Inl x \<Rightarrow> Some (Inl x)
     | Inr s \<Rightarrow> impl_run rd wr ops s)"

fun op_cost :: "(bytes \<Rightarrow> nat) \<Rightarrow> chan_op \<Rightarrow> nat" where
  "op_cost cost (ReadOp n) = 0"
| "op_cost cost (WriteOp data) = cost data"

context byte_channel
begin

lemma runs_agree:
  assumes "ok s" "channel_run ops (abs s) = Ok (rs, ch)" "sum_list (map (op_cost cost) ops) \<le> space s"
  shows "\<exists>s'. impl_run rd wr ops s = Some (Ok (rs, s')) \<and> ok s' \<and> abs s' = ch"
  using assms
proof (induction ops arbitrary: s rs)
  case (Cons opn ops)
  show ?case
  proof (cases opn)
    case (ReadOp n)
    then obtain bs ch1 rs1 where r: "read_exact (abs s) n = Ok (bs, ch1)" "channel_run ops ch1 = Ok (rs1, ch)"
        "rs = bs # rs1"
      using Cons.prems(2) by (auto simp: and_then_eq_Ok)
    obtain s1 where "rd s n = Some (Ok (bs, s1))" "ok s1" "abs s1 = ch1" "space s1 = space s"
      using read_law [OF Cons.prems(1) r(1)] by blast
    with Cons.IH [of s1 rs1] Cons.prems(3) r ReadOp show ?thesis by auto
  next
    case (WriteOp data)
    then obtain s1 where "wr s data = Some (Ok s1)" "ok s1" "abs s1 = write_all (abs s) data"
        "space s1 = space s - cost data"
      using write_law [OF Cons.prems(1), of data] Cons.prems(3) by auto
    with Cons.IH [of s1 rs] Cons.prems(2,3) WriteOp show ?thesis by auto
  qed
qed simp

end

section \<open>Messages\<close>

abbreviation (input) MSG_LENGTH_SIZE :: nat where "MSG_LENGTH_SIZE \<equiv> 4"

abbreviation (input) MSG_LENGTH_OFFSET :: nat where "MSG_LENGTH_OFFSET \<equiv> 0"

abbreviation (input) INVOCATION_ID_SIZE :: nat where "INVOCATION_ID_SIZE \<equiv> 4"

abbreviation (input) INVOCATION_ID_OFFSET :: nat where "INVOCATION_ID_OFFSET \<equiv> 4"

abbreviation (input) MSG_BODY_OFFSET :: nat where "MSG_BODY_OFFSET \<equiv> 8"

text \<open>Requests and responses have the same fields and the same encoding.\<close>

record message =
  invocation_id :: u32
  msg_body :: bytes

definition message_len :: "message \<Rightarrow> nat" where
  "message_len m = MSG_LENGTH_SIZE + INVOCATION_ID_SIZE + length (msg_body m)"

definition message_encode :: "message \<Rightarrow> (bytes, 'e) result" where
  "message_encode m =
     (let len = message_len m in
      and_then (if len < 2 ^ 32 then Ok len else panic ''couldn't convert the message length usize to u32'')
        (\<lambda>len. Ok (le_bytes 4 len @ le_bytes 4 (unat (invocation_id m)) @ msg_body m)))"

definition message_decode :: "bytes \<Rightarrow> (message, 'e) result" where
  "message_decode bs =
     and_then (sub_slice bs INVOCATION_ID_OFFSET (INVOCATION_ID_OFFSET + INVOCATION_ID_SIZE)) (\<lambda>id.
     and_then (sub_slice bs MSG_BODY_OFFSET (length bs)) (\<lambda>body.
     Ok \<lparr>invocation_id = word_of_nat (le_value id), msg_body = body\<rparr>))"

section \<open>Frames\<close>

abbreviation (input) PADDING_SIZE :: nat where "PADDING_SIZE \<equiv> 4"

abbreviation (input) LENGTH_SIZE :: nat where "LENGTH_SIZE \<equiv> 2"

abbreviation (input) FLAGS_SIZE :: nat where "FLAGS_SIZE \<equiv> 2"

definition BODY_OFFSET :: nat where "BODY_OFFSET = 8"

definition MAX_SIZE :: nat where "MAX_SIZE = 4000"

definition MAX_BODY_SIZE :: nat where "MAX_BODY_SIZE = MAX_SIZE - BODY_OFFSET"

definition PADDING :: bytes where "PADDING = replicate PADDING_SIZE 0"

definition Flags_START :: u16 where "Flags_START = 1"

definition Flags_END :: u16 where "Flags_END = 2"

definition Flags_all :: u16 where "Flags_all = 3"

definition flags_contain :: "u16 \<Rightarrow> u16 \<Rightarrow> bool" where
  "flags_contain f g = (f AND g = g)"

lemmas frame_consts = BODY_OFFSET_def MAX_SIZE_def
  MAX_BODY_SIZE_def PADDING_def

record frame =
  frame_flags :: u16
  frame_body :: bytes

definition frame_write :: "frame \<Rightarrow> channel \<Rightarrow> channel anyhow" where
  "frame_write f ch =
     (let len = BODY_OFFSET + length (frame_body f) in
      and_then (ensure (len < 2 ^ 16) [''could convert the frame length usize to u16'']) (\<lambda>_.
      Ok (write_all (write_all (write_all (write_all ch PADDING) (le_bytes LENGTH_SIZE len))
        (le_bytes FLAGS_SIZE (unat (frame_flags f)))) (frame_body f))))"

text \<open>The frame and the message buffer with the body of the frame at its end.\<close>

definition read_frame :: "channel \<Rightarrow> bytes \<Rightarrow> (frame \<times> bytes \<times> channel) anyhow" where
  "read_frame ch message_buffer =
     and_then (read_exact ch PADDING_SIZE) (\<lambda>(padding_bytes, ch).
     and_then (read_exact ch LENGTH_SIZE) (\<lambda>(length_bytes, ch).
     let len = le_value length_bytes in
     and_then (ensure (\<not> len \<le> BODY_OFFSET) [''frame is too small'']) (\<lambda>_.
     and_then (ensure (\<not> len > MAX_SIZE) [''frame exceeds the maximum frame size'']) (\<lambda>_.
     and_then (read_exact ch FLAGS_SIZE) (\<lambda>(flags_bytes, ch).
     let flags = word_of_nat (le_value flags_bytes) AND Flags_all in
     and_then (read_exact ch (len - BODY_OFFSET)) (\<lambda>(body, ch).
     Ok (\<lparr>frame_flags = flags, frame_body = body\<rparr>, message_buffer @ body, ch)))))))"

definition write_frame :: "channel \<Rightarrow> frame \<Rightarrow> channel anyhow" where
  "write_frame ch f = frame_write f ch"

definition bytes_into_frames :: "bytes \<Rightarrow> frame list anyhow" where
  "bytes_into_frames data =
     (if data = [] then Error [''cannot convert empty payloads into frames'']
      else
        let frames = map (\<lambda>body. \<lparr>frame_flags = 0, frame_body = body\<rparr>) (chunks MAX_BODY_SIZE data) in
        (case frames of [] \<Rightarrow> panic ''there should always be at least one frame''
         | f # fs \<Rightarrow>
             let frames = f\<lparr>frame_flags := frame_flags f OR Flags_START\<rparr> # fs in
             Ok (butlast frames @ [(last frames)\<lparr>frame_flags := frame_flags (last frames) OR Flags_END\<rparr>])))"

section \<open>Messages over frames\<close>

lemma read_frame_shrinks: "read_frame ch buf = Ok (f, buf', ch') \<Longrightarrow> length (chan_in ch') < length (chan_in ch)"
  by (auto simp: read_frame_def result_simps Let_def frame_consts)

text \<open>The loop over the frames after the first one.\<close>

function read_rest :: "channel \<Rightarrow> bytes \<Rightarrow> (bytes \<times> channel) anyhow" where
  "read_rest ch message_buffer =
     (case read_frame ch message_buffer of
        Inl e \<Rightarrow> context_of ''couldn't read frame'' (Inl e)
      | Inr (f, message_buffer, ch) \<Rightarrow>
          if flags_contain (frame_flags f) Flags_START
          then Error [''received two frames with the START flag set'']
          else if flags_contain (frame_flags f) Flags_END then Ok (message_buffer, ch)
          else read_rest ch message_buffer)"
  by pat_completeness auto
termination
  by (relation "measure (\<lambda>(ch, buf). length (chan_in ch))") (auto dest: read_frame_shrinks)

declare read_rest.simps [simp del]

definition read_message :: "channel \<Rightarrow> (message \<times> channel) anyhow" where
  "read_message ch =
     and_then (context_of ''couldn't read frame'' (read_frame ch [])) (\<lambda>(first_frame, message_buffer, ch).
     if \<not> flags_contain (frame_flags first_frame) Flags_START
     then Error [''expected a frame with the START flag set'']
     else if flags_contain (frame_flags first_frame) Flags_END
     then and_then (message_decode message_buffer) (\<lambda>m. Ok (m, ch))
     else
       and_then (sub_slice (frame_body first_frame) MSG_LENGTH_OFFSET (MSG_LENGTH_OFFSET + MSG_LENGTH_SIZE)) (\<lambda>len.
       and_then (if le_value len < MAX_BODY_SIZE then panic ''attempt to subtract with overflow'' else Ok ()) (\<lambda>_.
       and_then (read_rest ch message_buffer) (\<lambda>(message_buffer, ch).
       and_then (message_decode message_buffer) (\<lambda>m. Ok (m, ch))))))"

fun write_frames :: "channel \<Rightarrow> frame list \<Rightarrow> channel anyhow" where
  "write_frames ch [] = Ok ch"
| "write_frames ch (f # fs) =
     and_then (context_of ''couldn't write frame'' (write_frame ch f)) (\<lambda>ch. write_frames ch fs)"

definition write_message :: "channel \<Rightarrow> message \<Rightarrow> channel anyhow" where
  "write_message ch m =
     and_then (message_encode m) (\<lambda>encoded_data.
     and_then (bytes_into_frames encoded_data) (\<lambda>frames. write_frames ch frames))"

text \<open>The two handles.\<close>

definition read_request :: "channel \<Rightarrow> (message \<times> channel) anyhow" where
  "read_request ch = read_message ch"

definition write_response :: "channel \<Rightarrow> message \<Rightarrow> channel anyhow" where
  "write_response ch m = write_message ch m"

definition write_request :: "channel \<Rightarrow> message \<Rightarrow> channel anyhow" where
  "write_request ch m = write_message ch m"

definition read_response :: "channel \<Rightarrow> (message \<times> channel) anyhow" where
  "read_response ch = read_message ch"

definition next_invocation_id :: "u32 \<Rightarrow> u32 \<times> u32" where
  "next_invocation_id n = (n, n + 1)"

definition encode_request :: "u32 \<Rightarrow> bytes \<Rightarrow> message \<times> u32" where
  "encode_request counter request_body =
     (let (id, counter) = next_invocation_id counter in
      (\<lparr>invocation_id = id, msg_body = request_body\<rparr>, counter))"

section \<open>The raw transfer\<close>

definition RAW_MAX_SIZE :: nat where "RAW_MAX_SIZE = 4096"

text \<open>\<^verbatim>\<open>array_chunks\<close>: the whole chunks, and the rest, which may be empty.\<close>

function array_chunks :: "nat \<Rightarrow> 'a list \<Rightarrow> 'a list list \<times> 'a list" where
  "array_chunks n xs = (if 0 < n \<and> n \<le> length xs
     then let (cs, r) = array_chunks n (drop n xs) in (take n xs # cs, r)
     else ([], xs))"
  by pat_completeness auto
termination
  by (relation "measure (\<lambda>(n, xs). length xs)") auto

declare array_chunks.simps [simp del]

definition read_chunk :: "channel \<Rightarrow> nat \<Rightarrow> (bytes \<times> channel) anyhow" where
  "read_chunk ch n =
     and_then (ensure (n < 2 ^ 32) [''chunk too big'']) (\<lambda>_.
     and_then (read_exact ch n) (\<lambda>(chunk, ch).
     Ok (chunk, write_all ch (le_bytes 4 n))))"

fun read_chunks :: "channel \<Rightarrow> nat \<Rightarrow> (bytes \<times> channel) anyhow" where
  "read_chunks ch 0 = Ok ([], ch)"
| "read_chunks ch (Suc k) =
     and_then (read_chunk ch RAW_MAX_SIZE) (\<lambda>(chunk, ch).
     and_then (read_chunks ch k) (\<lambda>(more, ch). Ok (chunk @ more, ch)))"

definition receive_raw :: "channel \<Rightarrow> (bytes \<times> channel) anyhow" where
  "receive_raw ch =
     and_then (read_exact ch 4) (\<lambda>(buf, ch).
     let payload_len = le_value buf in
     and_then (read_chunks ch (payload_len div RAW_MAX_SIZE)) (\<lambda>(payload, ch).
     and_then (read_chunk ch (payload_len mod RAW_MAX_SIZE)) (\<lambda>(last, ch).
     Ok (payload @ last, ch))))"

definition write_chunk :: "channel \<Rightarrow> bytes \<Rightarrow> channel anyhow" where
  "write_chunk ch chunk =
     and_then (read_exact (write_all ch chunk) 4) (\<lambda>(ack, ch).
     and_then (ensure (le_value ack = length chunk) [''ack wasn't of correct length'']) (\<lambda>_. Ok ch))"

fun write_chunks :: "channel \<Rightarrow> bytes list \<Rightarrow> channel anyhow" where
  "write_chunks ch [] = Ok ch"
| "write_chunks ch (c # cs) = and_then (write_chunk ch c) (\<lambda>ch. write_chunks ch cs)"

definition send_raw :: "channel \<Rightarrow> bytes \<Rightarrow> channel anyhow" where
  "send_raw ch payload =
     (let ch = write_all ch (le_bytes 4 (length payload));
          (cs, remainder) = array_chunks RAW_MAX_SIZE payload in
      and_then (write_chunks ch cs) (\<lambda>ch. write_chunk ch remainder))"

section \<open>What goes over the wire\<close>

definition frame_wire :: "frame \<Rightarrow> bytes" where
  "frame_wire f = PADDING @ le_bytes 2 (8 + length (frame_body f)) @
     le_bytes 2 (unat (frame_flags f)) @ frame_body f"

definition frame_ok :: "frame \<Rightarrow> bool" where
  "frame_ok f \<longleftrightarrow> 0 < length (frame_body f) \<and> length (frame_body f) \<le> MAX_BODY_SIZE \<and>
     frame_flags f AND Flags_all = frame_flags f"

lemma frame_write_wire:
  "frame_ok f \<Longrightarrow> write_frame ch f = Ok (ch\<lparr>chan_out := chan_out ch @ frame_wire f\<rparr>)"
  by (simp add: write_frame_def frame_write_def frame_ok_def frame_consts write_all_def frame_wire_def Let_def)

lemma read_frame_wire:
  assumes "frame_ok f" "chan_in ch = frame_wire f @ rest"
  shows "read_frame ch buf = Ok (f, buf @ frame_body f, ch\<lparr>chan_in := rest\<rparr>)"
proof -
  have len: "length (frame_body f) \<le> 3992" "0 < length (frame_body f)"
    using assms(1) by (simp_all add: frame_ok_def frame_consts)
  have "le_value (le_bytes 2 (8 + length (frame_body f))) = 8 + length (frame_body f)"
    using len by simp
  moreover have "unat (frame_flags f) < 2 ^ 16" using unsigned_less [of "frame_flags f"] by simp
  then have "le_value (le_bytes 2 (unat (frame_flags f))) = unat (frame_flags f)" by simp
  moreover have "word_of_nat (unat (frame_flags f)) AND Flags_all = frame_flags f"
    using assms(1) by (simp add: frame_ok_def)
  ultimately show ?thesis
    using assms len by (simp add: read_frame_def frame_wire_def frame_consts Let_def read_exact_def)
qed

definition plain :: "bytes \<Rightarrow> frame" where
  "plain c = \<lparr>frame_flags = 0, frame_body = c\<rparr>"

text \<open>The frames of a message: one with both flags, or a first, a last and plain ones between.\<close>

fun framed :: "bytes list \<Rightarrow> frame list" where
  "framed [] = []"
| "framed [c] = [\<lparr>frame_flags = 3, frame_body = c\<rparr>]"
| "framed (c # cs) = \<lparr>frame_flags = 1, frame_body = c\<rparr> # map plain (butlast cs) @
     [\<lparr>frame_flags = 2, frame_body = last cs\<rparr>]"

lemma bytes_into_frames_framed:
  "data \<noteq> [] \<Longrightarrow> bytes_into_frames data = Ok (framed (chunks MAX_BODY_SIZE data))"
proof -
  assume "data \<noteq> []"
  then obtain c cs where c: "chunks MAX_BODY_SIZE data = c # cs"
    by (cases "chunks MAX_BODY_SIZE data") (auto simp: frame_consts)
  show ?thesis
  proof (cases cs)
    case Nil
    with c \<open>data \<noteq> []\<close> show ?thesis
      by (simp add: bytes_into_frames_def Flags_START_def Flags_END_def)
  next
    case (Cons d ds)
    have "last (map (\<lambda>body. \<lparr>frame_flags = 0 :: u16, frame_body = body\<rparr>) cs)
        = \<lparr>frame_flags = 0, frame_body = last cs\<rparr>"
      "butlast (map (\<lambda>body. \<lparr>frame_flags = 0 :: u16, frame_body = body\<rparr>) cs) = map plain (butlast cs)"
      using Cons by (auto simp: last_map map_butlast plain_def [abs_def])
    with c Cons \<open>data \<noteq> []\<close> show ?thesis
      by (simp add: bytes_into_frames_def Let_def Flags_START_def Flags_END_def)
  qed
qed

lemma framed_bodies: "f \<in> set (framed cs) \<Longrightarrow> frame_body f \<in> set cs \<and> frame_flags f \<in> {0, 1, 2, 3}"
proof (cases cs rule: framed.cases)
  case (3 c d ds)
  have mem: "x \<in> set cs" if "x \<in> set (butlast (d # ds))" for x
    using in_set_butlastD [OF that] 3 by simp
  have last: "last (d # ds) \<in> set cs" using 3 last_in_set [of "d # ds"] by simp
  assume "f \<in> set (framed cs)"
  then consider "f = \<lparr>frame_flags = 1, frame_body = c\<rparr>"
    | "f \<in> plain ` set (butlast (d # ds))" | "f = \<lparr>frame_flags = 2, frame_body = last (d # ds)\<rparr>"
    unfolding 3 framed.simps set_append set_map list.set by blast
  then show ?thesis
  proof cases
    case 2
    then obtain x where "x \<in> set (butlast (d # ds))" "f = plain x" by blast
    with mem show ?thesis by (simp add: plain_def)
  qed (use 3 last in simp_all)
qed simp_all

lemma framed_ok:
  assumes "\<forall>c \<in> set cs. 0 < length c \<and> length c \<le> MAX_BODY_SIZE"
  shows "\<forall>f \<in> set (framed cs). frame_ok f"
proof
  fix f assume f: "f \<in> set (framed cs)"
  from framed_bodies [OF f] have "frame_flags f AND Flags_all = frame_flags f"
    by (auto simp: Flags_all_def)
  with framed_bodies [OF f] assms show "frame_ok f" by (auto simp: frame_ok_def)
qed

lemma write_frames_wire:
  "\<forall>f \<in> set fs. frame_ok f \<Longrightarrow>
     write_frames ch fs = Ok (ch\<lparr>chan_out := chan_out ch @ concat (map frame_wire fs)\<rparr>)"
  by (induction fs arbitrary: ch) (simp_all add: frame_write_wire)

lemma read_rest_wire:
  assumes "\<forall>c \<in> set cs. 0 < length c \<and> length c \<le> MAX_BODY_SIZE" "0 < length c" "length c \<le> MAX_BODY_SIZE"
  shows "chan_in ch = concat (map frame_wire (map plain cs @ [\<lparr>frame_flags = 2, frame_body = c\<rparr>])) @ rest \<Longrightarrow>
    read_rest ch buf = Ok (buf @ concat cs @ c, ch\<lparr>chan_in := rest\<rparr>)"
  using assms(1)
proof (induction cs arbitrary: ch buf)
  case Nil
  have "frame_ok \<lparr>frame_flags = 2, frame_body = c\<rparr>"
    using assms by (simp add: frame_ok_def Flags_all_def)
  from read_frame_wire [OF this, of ch rest buf] Nil show ?case
    by (simp add: read_rest.simps [of ch] flags_contain_def Flags_START_def Flags_END_def)
next
  case (Cons d ds)
  have "frame_ok (plain d)" using Cons.prems by (simp add: frame_ok_def plain_def)
  from read_frame_wire [OF this, of ch _ buf] Cons show ?case
    by (simp add: read_rest.simps [of ch] flags_contain_def Flags_START_def Flags_END_def plain_def)
qed

lemma message_encode_decode:
  assumes "message_len m < 2 ^ 32"
  shows "message_encode m = Ok (le_bytes 4 (message_len m) @ le_bytes 4 (unat (invocation_id m)) @ msg_body m)"
    "message_decode (le_bytes 4 (message_len m) @ le_bytes 4 (unat (invocation_id m)) @ msg_body m) = Ok m"
proof -
  have "unat (invocation_id m) < 2 ^ 32" using unsigned_less [of "invocation_id m"] by simp
  then have "le_value (le_bytes 4 (unat (invocation_id m))) = unat (invocation_id m)" by simp
  then show "message_decode (le_bytes 4 (message_len m) @ le_bytes 4 (unat (invocation_id m)) @ msg_body m) = Ok m"
    by (simp add: message_decode_def sub_slice_def)
qed (use assms in \<open>simp add: message_encode_def Let_def\<close>)

definition message_wire :: "message \<Rightarrow> bytes" where
  "message_wire m = concat (map frame_wire (framed (chunks MAX_BODY_SIZE
     (le_bytes 4 (message_len m) @ le_bytes 4 (unat (invocation_id m)) @ msg_body m))))"

lemma write_message_wire:
  assumes "message_len m < 2 ^ 32"
  shows "write_message ch m = Ok (ch\<lparr>chan_out := chan_out ch @ message_wire m\<rparr>)"
proof -
  let ?data = "le_bytes 4 (message_len m) @ le_bytes 4 (unat (invocation_id m)) @ msg_body m"
  have "0 < length ?data" by simp
  then have ne: "?data \<noteq> []" unfolding length_greater_0_conv .
  have "0 < MAX_BODY_SIZE" by (simp add: frame_consts)
  then have "\<forall>f \<in> set (framed (chunks MAX_BODY_SIZE ?data)). frame_ok f"
    using chunks_lengths by (intro framed_ok) blast
  with ne show ?thesis
    by (simp add: write_message_def message_encode_decode [OF assms] bytes_into_frames_framed
        write_frames_wire message_wire_def)
qed

lemma length_chunks: "0 < n \<Longrightarrow> length (chunks n xs) = (length xs + n - 1) div n"
proof (induction n xs rule: chunks.induct)
  case (1 n xs)
  show ?case
  proof (cases "xs = []")
    case False
    with 1 have "length (chunks n xs) = Suc ((length xs - n + n - 1) div n)"
      by (simp add: chunks_step)
    also have "(length xs - n + n - 1) div n = (length xs - 1) div n"
      using 1(2) by (cases "n \<le> length xs") simp_all
    also have "Suc ((length xs - 1) div n) = (length xs - 1 + n) div n" using 1(2) by simp
    also have "length xs - 1 + n = length xs + n - 1" using False by (cases xs) simp_all
    finally show ?thesis .
  qed (use 1 in simp)
qed

lemma chunks_first:
  "data \<noteq> [] \<Longrightarrow> chunks MAX_BODY_SIZE data = c # cs \<Longrightarrow> c = take MAX_BODY_SIZE data \<and>
     (cs \<noteq> [] \<longrightarrow> MAX_BODY_SIZE < length data)"
proof -
  assume a: "data \<noteq> []" "chunks MAX_BODY_SIZE data = c # cs"
  have m: "0 < MAX_BODY_SIZE" by (simp add: frame_consts)
  from a chunks_step [OF a(1) m] have c: "c = take MAX_BODY_SIZE data"
    "cs = chunks MAX_BODY_SIZE (drop MAX_BODY_SIZE data)" by simp_all
  then have "cs \<noteq> [] \<longrightarrow> MAX_BODY_SIZE < length data" using m by (auto simp: not_less)
  with c show ?thesis by simp
qed

lemma read_message_wire:
  assumes len: "message_len m < 2 ^ 32" and ch: "chan_in ch = message_wire m @ rest"
  shows "read_message ch = Ok (m, ch\<lparr>chan_in := rest\<rparr>)"
proof -
  let ?data = "le_bytes 4 (message_len m) @ le_bytes 4 (unat (invocation_id m)) @ msg_body m"
  have dl: "length ?data = message_len m" by (simp add: message_len_def)
  have "0 < length ?data" by simp
  then have ne: "?data \<noteq> []" unfolding length_greater_0_conv .
  have m: "0 < MAX_BODY_SIZE" "4 \<le> MAX_BODY_SIZE" by (simp_all add: frame_consts)
  obtain c cs where c: "chunks MAX_BODY_SIZE ?data = c # cs"
    using ne m(1) by (cases "chunks MAX_BODY_SIZE ?data") auto
  have lens: "0 < length x \<and> length x \<le> MAX_BODY_SIZE" if "x \<in> set (c # cs)" for x
    using chunks_lengths [OF m(1), of x ?data] that c by simp
  have data: "c @ concat cs = ?data" using concat_chunks [OF m(1), of ?data] c by simp
  show ?thesis
  proof (cases cs)
    case Nil
    have "frame_ok \<lparr>frame_flags = 3, frame_body = c\<rparr>"
      using lens by (simp add: frame_ok_def Flags_all_def)
    from read_frame_wire [OF this, of ch rest "[]"] ch c Nil
    have "read_frame ch [] = Ok (\<lparr>frame_flags = 3, frame_body = c\<rparr>, c, ch\<lparr>chan_in := rest\<rparr>)"
      by (simp add: message_wire_def)
    with data Nil show ?thesis
      by (simp add: read_message_def flags_contain_def Flags_START_def Flags_END_def
          message_encode_decode(2) [OF len])
  next
    case (Cons d ds)
    let ?tail = "concat (map frame_wire (map plain (butlast cs) @ [\<lparr>frame_flags = 2, frame_body = last cs\<rparr>])) @ rest"
    have "frame_ok \<lparr>frame_flags = 1, frame_body = c\<rparr>"
      using lens by (simp add: frame_ok_def Flags_all_def)
    from read_frame_wire [OF this, of ch ?tail "[]"] ch c Cons
    have first: "read_frame ch [] = Ok (\<lparr>frame_flags = 1, frame_body = c\<rparr>, c, ch\<lparr>chan_in := ?tail\<rparr>)"
      by (simp add: message_wire_def)
    have "\<forall>x \<in> set (butlast cs). 0 < length x \<and> length x \<le> MAX_BODY_SIZE"
      "0 < length (last cs)" "length (last cs) \<le> MAX_BODY_SIZE"
      using lens Cons in_set_butlastD [of _ cs] last_in_set [of cs] by auto
    from read_rest_wire [OF this, of "ch\<lparr>chan_in := ?tail\<rparr>" rest c]
    have "read_rest (ch\<lparr>chan_in := ?tail\<rparr>) c = Ok (c @ concat (butlast cs) @ last cs, ch\<lparr>chan_in := rest\<rparr>)"
      by simp
    moreover have "concat (butlast cs) @ last cs = concat cs"
      using Cons by (metis append_butlast_last_id concat_append concat.simps append_Nil2 list.distinct(1))
    ultimately have rest: "read_rest (ch\<lparr>chan_in := ?tail\<rparr>) c = Ok (?data, ch\<lparr>chan_in := rest\<rparr>)"
      using data by simp
    from chunks_first [OF ne c] Cons dl have big: "c = take MAX_BODY_SIZE ?data" "MAX_BODY_SIZE < message_len m"
      by simp_all
    have "length c = MAX_BODY_SIZE" using big dl by simp
    moreover have "take 4 c = le_bytes 4 (message_len m)" using big(1) m(2) by simp
    ultimately have "sub_slice c MSG_LENGTH_OFFSET (MSG_LENGTH_OFFSET + MSG_LENGTH_SIZE)
        = (Ok (le_bytes 4 (message_len m)) :: bytes anyhow)"
      using m(2) by (simp add: sub_slice_def)
    moreover have "le_value (le_bytes 4 (message_len m)) = message_len m" using len by simp
    ultimately show ?thesis
      using first rest big(2)
      by (simp add: read_message_def flags_contain_def Flags_START_def Flags_END_def
          message_encode_decode(2) [OF len])
  qed
qed

section \<open>The acknowledged transfer\<close>

lemma array_chunks_parts:
  "0 < n \<Longrightarrow> array_chunks n xs = (cs, r) \<Longrightarrow>
     concat cs @ r = xs \<and> (\<forall>c \<in> set cs. length c = n) \<and>
     length cs = length xs div n \<and> length r = length xs mod n"
proof (induction n xs arbitrary: cs rule: array_chunks.induct)
  case (1 n xs)
  show ?case
  proof (cases "n \<le> length xs")
    case True
    obtain ds q where d: "array_chunks n (drop n xs) = (ds, q)" by fastforce
    with 1 True have cs: "cs = take n xs # ds" "r = q" by (simp_all add: array_chunks.simps [of n xs])
    from 1(1) [of ds] 1(2) True d cs(2) have
      "concat ds @ r = drop n xs" "\<forall>c \<in> set ds. length c = n"
      "length ds = (length xs - n) div n" "length r = (length xs - n) mod n" by simp_all
    with cs True 1(2) show ?thesis by (simp add: le_div_geq le_mod_geq)
  next
    case False
    with 1 have "cs = []" "r = xs" by (simp_all add: array_chunks.simps [of n xs])
    with False show ?thesis by simp
  qed
qed

definition acks :: "nat \<Rightarrow> bytes" where
  "acks k = concat (replicate k (le_bytes 4 RAW_MAX_SIZE))"

lemma acks_Suc [simp]: "acks 0 = []" "acks (Suc k) = le_bytes 4 RAW_MAX_SIZE @ acks k"
  by (simp_all add: acks_def)

lemma write_chunk_acked:
  assumes "length c < 2 ^ 32" "chan_in ch = le_bytes 4 (length c) @ rest"
  shows "write_chunk ch c = Ok (ch\<lparr>chan_in := rest, chan_out := chan_out ch @ c\<rparr>)"
proof -
  let ?ch = "ch\<lparr>chan_out := chan_out ch @ c\<rparr>"
  have "read_exact ?ch 4 = Ok (le_bytes 4 (length c), ?ch\<lparr>chan_in := rest\<rparr>)"
    using assms(2) by (intro read_exact_append) simp_all
  moreover have "le_value (le_bytes 4 (length c)) = length c" using assms(1) by simp
  ultimately show ?thesis by (simp add: write_chunk_def write_all_def)
qed

lemma write_chunks_acked:
  "\<forall>c \<in> set cs. length c = RAW_MAX_SIZE \<Longrightarrow> chan_in ch = acks (length cs) @ rest \<Longrightarrow>
     write_chunks ch cs = Ok (ch\<lparr>chan_in := rest, chan_out := chan_out ch @ concat cs\<rparr>)"
proof (induction cs arbitrary: ch)
  case (Cons c cs)
  have "write_chunk ch c = Ok (ch\<lparr>chan_in := acks (length cs) @ rest, chan_out := chan_out ch @ c\<rparr>)"
    using Cons.prems by (intro write_chunk_acked) (simp_all add: RAW_MAX_SIZE_def)
  with Cons show ?case by simp
qed simp

lemma read_chunk_acks:
  "length c < 2 ^ 32 \<Longrightarrow> chan_in ch = c @ rest \<Longrightarrow> n = length c \<Longrightarrow>
     read_chunk ch n = Ok (c, ch\<lparr>chan_in := rest, chan_out := chan_out ch @ le_bytes 4 (length c)\<rparr>)"
  by (simp add: read_chunk_def write_all_def)

lemma read_chunks_acks:
  "\<forall>c \<in> set cs. length c = RAW_MAX_SIZE \<Longrightarrow> chan_in ch = concat cs @ rest \<Longrightarrow>
     read_chunks ch (length cs) = Ok (concat cs,
       ch\<lparr>chan_in := rest, chan_out := chan_out ch @ acks (length cs)\<rparr>)"
proof (induction cs arbitrary: ch)
  case (Cons c cs)
  have "read_chunk ch RAW_MAX_SIZE = Ok (c, ch\<lparr>chan_in := concat cs @ rest,
      chan_out := chan_out ch @ le_bytes 4 (length c)\<rparr>)"
    using Cons.prems by (intro read_chunk_acks) (simp_all add: RAW_MAX_SIZE_def)
  with Cons show ?case by simp
qed simp

definition raw_acks :: "nat \<Rightarrow> bytes" where
  "raw_acks n = acks (n div RAW_MAX_SIZE) @ le_bytes 4 (n mod RAW_MAX_SIZE)"

lemma raw_pieces:
  obtains cs r where "array_chunks RAW_MAX_SIZE payload = (cs, r)" "concat cs @ r = payload"
    "\<forall>c \<in> set cs. length c = RAW_MAX_SIZE" "length cs = length payload div RAW_MAX_SIZE"
    "length r = length payload mod RAW_MAX_SIZE" "length r < 2 ^ 32"
proof -
  obtain cs r where c: "array_chunks RAW_MAX_SIZE payload = (cs, r)" by fastforce
  have m: "0 < RAW_MAX_SIZE" by (simp add: RAW_MAX_SIZE_def)
  have "length payload mod RAW_MAX_SIZE < 2 ^ 32"
    using mod_less_divisor [OF m, of "length payload"] by (simp add: RAW_MAX_SIZE_def)
  with array_chunks_parts [OF m c] c that show ?thesis by simp
qed

lemma send_raw_acked:
  assumes "chan_in ch = raw_acks (length payload) @ rest"
  shows "send_raw ch payload = Ok (ch\<lparr>chan_in := rest,
    chan_out := chan_out ch @ le_bytes 4 (length payload) @ payload\<rparr>)"
proof -
  obtain cs r where c: "array_chunks RAW_MAX_SIZE payload = (cs, r)" "concat cs @ r = payload"
    "\<forall>c \<in> set cs. length c = RAW_MAX_SIZE" "length cs = length payload div RAW_MAX_SIZE"
    "length r = length payload mod RAW_MAX_SIZE" "length r < 2 ^ 32" by (rule raw_pieces)
  let ?ch = "ch\<lparr>chan_out := chan_out ch @ le_bytes 4 (length payload)\<rparr>"
  have "write_chunks ?ch cs = Ok (?ch\<lparr>chan_in := le_bytes 4 (length r) @ rest,
      chan_out := chan_out ?ch @ concat cs\<rparr>)"
    using c assms by (intro write_chunks_acked) (simp_all add: raw_acks_def)
  with c show ?thesis by (simp add: send_raw_def write_all_def write_chunk_acked)
qed

lemma receive_raw_acks:
  assumes "length payload < 2 ^ 32" "chan_in ch = le_bytes 4 (length payload) @ payload @ rest"
  shows "receive_raw ch = Ok (payload, ch\<lparr>chan_in := rest, chan_out := chan_out ch @ raw_acks (length payload)\<rparr>)"
proof -
  obtain cs r where c: "concat cs @ r = payload"
    "\<forall>c \<in> set cs. length c = RAW_MAX_SIZE" "length cs = length payload div RAW_MAX_SIZE"
    "length r = length payload mod RAW_MAX_SIZE" "length r < 2 ^ 32" by (rule raw_pieces)
  let ?ch = "ch\<lparr>chan_in := payload @ rest\<rparr>"
  have rd: "read_chunks ?ch (length cs) = Ok (concat cs, ?ch\<lparr>chan_in := r @ rest,
      chan_out := chan_out ?ch @ acks (length cs)\<rparr>)"
    using c by (intro read_chunks_acks) (simp_all flip: append_assoc)
  have v: "le_value (le_bytes 4 (length payload)) = length payload" using assms(1) by simp
  have "read_exact ch 4 = Ok (le_bytes 4 (length payload), ?ch)"
    using assms(2) by (intro read_exact_append) simp_all
  then have "receive_raw ch = and_then (read_chunks ?ch (length cs)) (\<lambda>(payload', ch).
      and_then (read_chunk ch (length r)) (\<lambda>(last, ch). Ok (payload' @ last, ch)))"
    by (simp only: receive_raw_def and_then_Ok Let_def v c(3,4) prod.case)
  also have "\<dots> = Ok (concat cs @ r, ch\<lparr>chan_in := rest,
      chan_out := chan_out ch @ acks (length cs) @ le_bytes 4 (length r)\<rparr>)"
    using c(5) by (simp add: rd read_chunk_acks)
  finally show ?thesis by (simp add: c(1) raw_acks_def c(3,4))
qed

section \<open>Properties of the channel\<close>

lemma framed_nth:
  "i < length cs \<Longrightarrow> framed cs ! i = \<lparr>frame_flags = (if i = 0 then 1 else 0) OR (if Suc i = length cs then 2 else 0),
     frame_body = cs ! i\<rparr>"
proof (cases cs rule: framed.cases)
  case (3 c d ds)
  assume i: "i < length cs"
  have l: "framed cs = \<lparr>frame_flags = 1, frame_body = c\<rparr> # map plain (butlast (d # ds)) @
     [\<lparr>frame_flags = 2, frame_body = last (d # ds)\<rparr>]" unfolding 3 framed.simps ..
  consider "i = 0" | j where "i = Suc j" "j < length ds" | "i = Suc (length ds)"
    using i 3 by (cases i) (auto simp: less_Suc_eq)
  then show ?thesis
  proof cases
    case 2
    then have "j < length (butlast (d # ds))" by (simp del: butlast.simps)
    from nth_butlast [OF this] this 2 l 3 show ?thesis
      by (simp add: nth_append plain_def del: butlast.simps)
  qed (use l 3 in \<open>simp_all add: nth_append last_conv_nth del: butlast.simps\<close>)
qed simp_all

lemma length_framed [simp]: "length (framed cs) = length cs"
  by (cases cs rule: framed.cases) simp_all

lemma concat_framed: "concat (map frame_body (framed cs)) = concat cs"
proof -
  have "map frame_body (framed cs) = cs" by (rule nth_equalityI) (simp_all add: framed_nth)
  then show ?thesis by simp
qed

text \<open>C20. A message of at most \<open>2 ^ 32 - 1\<close> encoded bytes that one side writes is the message the
  other side reads, whatever its size and whatever follows it in the stream; the reader takes no byte
  of what follows.\<close>
theorem channel_message_round_trip:
  assumes "message_len m < 2 ^ 32"
  shows "\<exists>wire. write_message tx m = Ok (tx\<lparr>chan_out := chan_out tx @ wire\<rparr>) \<and>
    (\<forall>rest. read_message (rx\<lparr>chan_in := wire @ rest\<rparr>) = Ok (m, rx\<lparr>chan_in := rest\<rparr>))"
proof (intro exI conjI allI)
  show "write_message tx m = Ok (tx\<lparr>chan_out := chan_out tx @ message_wire m\<rparr>)"
    using assms by (rule write_message_wire)
  fix rest
  show "read_message (rx\<lparr>chan_in := message_wire m @ rest\<rparr>) = Ok (m, rx\<lparr>chan_in := rest\<rparr>)"
    using read_message_wire [OF assms, of "rx\<lparr>chan_in := message_wire m @ rest\<rparr>" rest] by simp
qed

theorem channel_message_round_trip_witness:
  "message_len \<lparr>invocation_id = 7, msg_body = replicate 9000 1\<rparr> < 2 ^ 32 \<and>
   (\<exists>wire. write_message \<lparr>chan_in = [], chan_out = []\<rparr> \<lparr>invocation_id = 7, msg_body = replicate 9000 1\<rparr>
       = Ok \<lparr>chan_in = [], chan_out = wire\<rparr> \<and>
     (\<forall>rest. read_message \<lparr>chan_in = wire @ rest, chan_out = []\<rparr>
       = Ok (\<lparr>invocation_id = 7, msg_body = replicate 9000 1\<rparr>, \<lparr>chan_in = rest, chan_out = []\<rparr>)))"
proof -
  have "message_len \<lparr>invocation_id = 7, msg_body = replicate 9000 1\<rparr> < 2 ^ 32"
    by (simp add: message_len_def)
  with channel_message_round_trip [OF this, of "\<lparr>chan_in = [], chan_out = []\<rparr>"
      "\<lparr>chan_in = [], chan_out = []\<rparr>"] show ?thesis by simp
qed

text \<open>The frames of a non-empty payload: as few as fit, none empty, none over the maximum body
  size, the bodies in order are the payload, and exactly the first has \<^verbatim>\<open>START\<close> and exactly the
  last \<^verbatim>\<open>END\<close>.\<close>
theorem frames_bounded_and_delimited:
  assumes "data \<noteq> []"
  shows "\<exists>fs. bytes_into_frames data = Ok fs \<and> concat (map frame_body fs) = data \<and>
    length fs = (length data + MAX_BODY_SIZE - 1) div MAX_BODY_SIZE \<and>
    (\<forall>i < length fs. 0 < length (frame_body (fs ! i)) \<and> length (frame_body (fs ! i)) \<le> MAX_BODY_SIZE \<and>
      (flags_contain (frame_flags (fs ! i)) Flags_START \<longleftrightarrow> i = 0) \<and>
      (flags_contain (frame_flags (fs ! i)) Flags_END \<longleftrightarrow> Suc i = length fs))"
proof (intro exI conjI)
  let ?cs = "chunks MAX_BODY_SIZE data"
  have m: "0 < MAX_BODY_SIZE" by (simp add: frame_consts)
  show "bytes_into_frames data = Ok (framed ?cs)" using assms by (rule bytes_into_frames_framed)
  show "concat (map frame_body (framed ?cs)) = data" using m by (simp add: concat_framed)
  show "length (framed ?cs) = (length data + MAX_BODY_SIZE - 1) div MAX_BODY_SIZE"
    using m by (simp add: length_chunks)
  show "\<forall>i < length (framed ?cs). 0 < length (frame_body (framed ?cs ! i)) \<and>
      length (frame_body (framed ?cs ! i)) \<le> MAX_BODY_SIZE \<and>
      (flags_contain (frame_flags (framed ?cs ! i)) Flags_START \<longleftrightarrow> i = 0) \<and>
      (flags_contain (frame_flags (framed ?cs ! i)) Flags_END \<longleftrightarrow> Suc i = length (framed ?cs))"
  proof (intro allI impI)
    fix i assume i: "i < length (framed ?cs)"
    then have "?cs ! i \<in> set ?cs" by simp
    from chunks_lengths [OF m this] i show "0 < length (frame_body (framed ?cs ! i)) \<and>
      length (frame_body (framed ?cs ! i)) \<le> MAX_BODY_SIZE \<and>
      (flags_contain (frame_flags (framed ?cs ! i)) Flags_START \<longleftrightarrow> i = 0) \<and>
      (flags_contain (frame_flags (framed ?cs ! i)) Flags_END \<longleftrightarrow> Suc i = length (framed ?cs))"
      by (simp add: framed_nth flags_contain_def Flags_START_def Flags_END_def)
  qed
qed

theorem frames_bounded_and_delimited_witness:
  "replicate 5000 (3 :: u8) \<noteq> [] \<and>
   (\<exists>fs. bytes_into_frames (replicate 5000 3) = Ok fs \<and> length fs = 2 \<and>
     length (frame_body (fs ! 1)) \<le> 3992)"
proof -
  have ne: "replicate 5000 (3 :: u8) \<noteq> []" by simp
  obtain fs where "bytes_into_frames (replicate 5000 3) = Ok fs" "length fs = 2"
    "\<forall>i < length fs. length (frame_body (fs ! i)) \<le> MAX_BODY_SIZE"
    using frames_bounded_and_delimited [OF ne] by (auto simp: frame_consts)
  with ne show ?thesis by (auto simp: frame_consts)
qed

text \<open>A peer can stop the reader with one frame: a first frame that is not the last, whose body
  is too short to hold the length of the message or announces less than one full frame, ends in a
  panic and not in an error. (Where overflow is not checked, the wrapped amount is more than any
  buffer can reserve, which is a panic too.)\<close>
theorem short_announced_length_panics:
  assumes "frame_ok f" "frame_flags f = Flags_START"
    and "length (frame_body f) < MSG_LENGTH_SIZE \<or> le_value (take 4 (frame_body f)) < MAX_BODY_SIZE"
    and "chan_in ch = frame_wire f @ rest"
  shows "\<exists>reason. read_message ch = panic reason"
  using read_frame_wire [OF assms(1,4), of "[]"] assms(2,3)
  by (auto simp: read_message_def flags_contain_def Flags_START_def Flags_END_def sub_slice_def)

theorem short_announced_length_panics_witness:
  "frame_ok \<lparr>frame_flags = 1, frame_body = [16, 0, 0, 0, 1]\<rparr> \<and>
   (\<exists>reason. read_message \<lparr>chan_in = [0, 0, 0, 0, 13, 0, 1, 0, 16, 0, 0, 0, 1], chan_out = []\<rparr> = panic reason)"
proof -
  let ?f = "\<lparr>frame_flags = 1, frame_body = [16, 0, 0, 0, 1]\<rparr>"
  let ?ch = "\<lparr>chan_in = [0, 0, 0, 0, 13, 0, 1, 0, 16, 0, 0, 0, 1], chan_out = []\<rparr>"
  have "frame_ok ?f" "frame_flags ?f = Flags_START" "le_value (take 4 (frame_body ?f)) < MAX_BODY_SIZE"
    "chan_in ?ch = frame_wire ?f @ []"
    by code_simp+
  with short_announced_length_panics [of ?f ?ch "[]"] show ?thesis by blast
qed

text \<open>The raw transfer: with the sender's output as the receiver's input and the receiver's
  acknowledgements as the sender's input, both return, the receiver with the payload, and neither
  takes a byte of what follows.\<close>
theorem raw_transfer_round_trip:
  assumes "length payload < 2 ^ 32"
  shows "\<exists>sent acknowledged.
    send_raw (tx\<lparr>chan_in := acknowledged @ s\<rparr>) payload
      = Ok (tx\<lparr>chan_in := s, chan_out := chan_out tx @ sent\<rparr>) \<and>
    receive_raw (rx\<lparr>chan_in := sent @ r\<rparr>)
      = Ok (payload, rx\<lparr>chan_in := r, chan_out := chan_out rx @ acknowledged\<rparr>)"
proof (intro exI conjI)
  show "send_raw (tx\<lparr>chan_in := raw_acks (length payload) @ s\<rparr>) payload
      = Ok (tx\<lparr>chan_in := s, chan_out := chan_out tx @ le_bytes 4 (length payload) @ payload\<rparr>)"
    by (simp add: send_raw_acked)
  show "receive_raw (rx\<lparr>chan_in := (le_bytes 4 (length payload) @ payload) @ r\<rparr>)
      = Ok (payload, rx\<lparr>chan_in := r, chan_out := chan_out rx @ raw_acks (length payload)\<rparr>)"
    using receive_raw_acks [OF assms, of "rx\<lparr>chan_in := (le_bytes 4 (length payload) @ payload) @ r\<rparr>" r]
    by simp
qed

theorem raw_transfer_round_trip_witness:
  "length (replicate 10000 (1 :: u8)) < 2 ^ 32 \<and>
   (\<exists>sent acknowledged.
      send_raw \<lparr>chan_in = acknowledged, chan_out = []\<rparr> (replicate 10000 1) = Ok \<lparr>chan_in = [], chan_out = sent\<rparr> \<and>
      receive_raw \<lparr>chan_in = sent, chan_out = []\<rparr> = Ok (replicate 10000 1, \<lparr>chan_in = [], chan_out = acknowledged\<rparr>))"
proof -
  have "length (replicate 10000 (1 :: u8)) < 2 ^ 32" by simp
  with raw_transfer_round_trip [OF this, where tx = "\<lparr>chan_in = [], chan_out = []\<rparr>" and s = "[]"
      and rx = "\<lparr>chan_in = [], chan_out = []\<rparr>" and r = "[]"] show ?thesis by simp
qed

end
