(* ===== verification/Oak_Rpc.thy ===== *)
theory Oak_Rpc
  imports Oak_Channel
begin

text \<open>
  Remote procedure calls over the channel: the statuses, the wrappers and the client of
  \<^verbatim>\<open>micro_rpc/src\<close>, the server that \<^verbatim>\<open>micro_rpc_build/src/lib.rs\<close> generates for
  a service, the launcher's end \<^verbatim>\<open>Connector\<close>
  (\<^verbatim>\<open>oak_launcher_utils/src/channel.rs\<close>) and the loop of the enclave application
  \<^verbatim>\<open>start_blocking_server\<close> (\<^verbatim>\<open>oak_restricted_kernel_sdk/src/channel.rs\<close>). The
  protobuf encoding of the wrappers and of the messages of a service is generated code, a parameter.
  A service is a state and one function per method. What the connector does after a failed call is
  not modelled.
\<close>

section \<open>Statuses\<close>

datatype StatusCode = StatusOk | Cancelled | Unknown | InvalidArgument | DeadlineExceeded | NotFound
  | AlreadyExists | PermissionDenied | ResourceExhausted | FailedPrecondition | Aborted | OutOfRange
  | Unimplemented | Internal | Unavailable | DataLoss | Unauthenticated

record Status =
  status_code :: StatusCode
  status_message :: string

definition Status_new :: "StatusCode \<Rightarrow> Status" where
  "Status_new code = \<lparr>status_code = code, status_message = ''''\<rparr>"

definition Status_new_with_message :: "StatusCode \<Rightarrow> string \<Rightarrow> Status" where
  "Status_new_with_message code msg = \<lparr>status_code = code, status_message = msg\<rparr>"

fun StatusCode_into_u32 :: "StatusCode \<Rightarrow> u32" where
  "StatusCode_into_u32 StatusOk = 0"
| "StatusCode_into_u32 Cancelled = 1"
| "StatusCode_into_u32 Unknown = 2"
| "StatusCode_into_u32 InvalidArgument = 3"
| "StatusCode_into_u32 DeadlineExceeded = 4"
| "StatusCode_into_u32 NotFound = 5"
| "StatusCode_into_u32 AlreadyExists = 6"
| "StatusCode_into_u32 PermissionDenied = 7"
| "StatusCode_into_u32 ResourceExhausted = 8"
| "StatusCode_into_u32 FailedPrecondition = 9"
| "StatusCode_into_u32 Aborted = 10"
| "StatusCode_into_u32 OutOfRange = 11"
| "StatusCode_into_u32 Unimplemented = 12"
| "StatusCode_into_u32 Internal = 13"
| "StatusCode_into_u32 Unavailable = 14"
| "StatusCode_into_u32 DataLoss = 15"
| "StatusCode_into_u32 Unauthenticated = 16"

definition StatusCode_from_u32 :: "u32 \<Rightarrow> StatusCode" where
  "StatusCode_from_u32 i =
     (if i = 0 then StatusOk else if i = 1 then Cancelled else if i = 2 then Unknown
      else if i = 3 then InvalidArgument else if i = 4 then DeadlineExceeded else if i = 5 then NotFound
      else if i = 6 then AlreadyExists else if i = 7 then PermissionDenied
      else if i = 8 then ResourceExhausted else if i = 9 then FailedPrecondition
      else if i = 10 then Aborted else if i = 11 then OutOfRange else if i = 12 then Unimplemented
      else if i = 13 then Internal else if i = 14 then Unavailable else if i = 15 then DataLoss
      else if i = 16 then Unauthenticated else Unknown)"

lemma StatusCode_round_trip [simp]: "StatusCode_from_u32 (StatusCode_into_u32 c) = c"
  by (cases c) (simp_all add: StatusCode_from_u32_def)

section \<open>Wrappers\<close>

text \<open>The code of the message is a signed number; only its bits matter here.\<close>

record proto_Status =
  proto_code :: u32
  proto_message :: string

record RequestWrapper =
  wrapper_method_id :: u32
  wrapper_body :: bytes

datatype Response = ResponseError proto_Status | ResponseBody bytes

type_synonym ResponseWrapper = "Response option"

definition proto_of_status :: "Status \<Rightarrow> proto_Status" where
  "proto_of_status s = \<lparr>proto_code = StatusCode_into_u32 (status_code s), proto_message = status_message s\<rparr>"

definition status_of_proto :: "proto_Status \<Rightarrow> Status" where
  "status_of_proto p = Status_new_with_message (StatusCode_from_u32 (proto_code p)) (proto_message p)"

lemma status_of_proto_of [simp]: "status_of_proto (proto_of_status s) = s"
  by (simp add: status_of_proto_def proto_of_status_def Status_new_with_message_def)

fun result_of_wrapper :: "ResponseWrapper \<Rightarrow> (bytes, Status) result" where
  "result_of_wrapper None = Error (Status_new_with_message InvalidArgument ''invalid response wrapper'')"
| "result_of_wrapper (Some (ResponseError e)) = Error (status_of_proto e)"
| "result_of_wrapper (Some (ResponseBody body)) = Ok body"

text \<open>A panic of the service stays a panic.\<close>

fun wrapper_of_result :: "(bytes, Status) result \<Rightarrow> (ResponseWrapper, 'e) result" where
  "wrapper_of_result (Inr body) = Ok (Some (ResponseBody body))"
| "wrapper_of_result (Inl (Err e)) = Ok (Some (ResponseError (proto_of_status e)))"
| "wrapper_of_result (Inl (Panic p)) = panic p"

text \<open>The generated encoding, and its contract: what was encoded decodes.\<close>

record prost =
  encode_request_wrapper :: "RequestWrapper \<Rightarrow> bytes"
  decode_request_wrapper :: "bytes \<Rightarrow> RequestWrapper option"
  encode_response_wrapper :: "ResponseWrapper \<Rightarrow> bytes"
  decode_response_wrapper :: "bytes \<Rightarrow> ResponseWrapper option"

locale prost_codec =
  fixes enc_req :: "RequestWrapper \<Rightarrow> bytes" and dec_req :: "bytes \<Rightarrow> RequestWrapper option"
    and enc_res :: "ResponseWrapper \<Rightarrow> bytes" and dec_res :: "bytes \<Rightarrow> ResponseWrapper option"
  assumes request_round [simp]: "dec_req (enc_req w) = Some w"
    and response_round [simp]: "dec_res (enc_res r) = Some r"

abbreviation prost_ok :: "prost \<Rightarrow> bool" where
  "prost_ok pr \<equiv> prost_codec (encode_request_wrapper pr) (decode_request_wrapper pr)
     (encode_response_wrapper pr) (decode_response_wrapper pr)"

section \<open>The client\<close>

text \<open>The outer result is the transport's, the inner one the call's.\<close>

definition client_invoke ::
  "prost \<Rightarrow> ('q \<Rightarrow> bytes) \<Rightarrow> (bytes \<Rightarrow> 'r option) \<Rightarrow> ('t \<Rightarrow> bytes \<Rightarrow> (bytes \<times> 't, 'e) result)
     \<Rightarrow> 't \<Rightarrow> u32 \<Rightarrow> 'q \<Rightarrow> (('r, Status) result \<times> 't, 'e) result" where
  "client_invoke pr encode decode invoke transport method_id request =
     (let request_body = encode request;
          request_wrapper = \<lparr>wrapper_method_id = method_id, wrapper_body = request_body\<rparr>;
          request_wrapper_bytes = encode_request_wrapper pr request_wrapper in
      and_then (invoke transport request_wrapper_bytes) (\<lambda>(response_wrapper_bytes, transport).
      Ok (and_then (ok_or (decode_response_wrapper pr response_wrapper_bytes)
            (Status_new_with_message Internal ''Client failed to deserialize response wrapper'')) (\<lambda>response_wrapper.
          and_then (result_of_wrapper response_wrapper) (\<lambda>body.
          ok_or (decode body)
            (Status_new_with_message Internal ''Client failed to deserialize response body''))),
          transport)))"

definition async_client_invoke ::
  "prost \<Rightarrow> ('q \<Rightarrow> bytes) \<Rightarrow> (bytes \<Rightarrow> 'r option) \<Rightarrow> ('t \<Rightarrow> bytes \<Rightarrow> (bytes \<times> 't, 'e) result)
     \<Rightarrow> 't \<Rightarrow> u32 \<Rightarrow> 'q \<Rightarrow> (('r, Status) result \<times> 't, 'e) result" where
  "async_client_invoke pr encode decode invoke transport method_id request =
     (let request_body = encode request;
          request = \<lparr>wrapper_method_id = method_id, wrapper_body = request_body\<rparr>;
          request_bytes = encode_request_wrapper pr request in
      and_then (invoke transport request_bytes) (\<lambda>(response_bytes, transport).
      Ok (and_then (ok_or (decode_response_wrapper pr response_bytes)
            (Status_new_with_message Internal ''Client failed to deserialize response wrapper'')) (\<lambda>response.
          case response of
            Some (ResponseError err) \<Rightarrow> Error (status_of_proto err)
          | Some (ResponseBody body) \<Rightarrow> ok_or (decode body)
              (Status_new_with_message Internal ''Client failed to deserialize response body'')
          | None \<Rightarrow> Error (Status_new Internal)),
          transport)))"

section \<open>The generated server\<close>

type_synonym 's handler = "'s \<Rightarrow> bytes \<Rightarrow> (bytes, Status) result \<times> 's"

definition server_handler ::
  "(bytes \<Rightarrow> 'q option) \<Rightarrow> ('r \<Rightarrow> bytes) \<Rightarrow> ('s \<Rightarrow> 'q \<Rightarrow> ('r, Status) result \<times> 's) \<Rightarrow> 's handler" where
  "server_handler decode encode method_fn service request_body =
     (case decode request_body of
        None \<Rightarrow> (Error (Status_new_with_message Internal ''Service failed to deserialize the request''), service)
      | Some request \<Rightarrow>
          (case method_fn service request of
             (response, service) \<Rightarrow> (and_then response (\<lambda>response. Ok (encode response)), service)))"

definition invoke_inner :: "prost \<Rightarrow> (u32 \<times> 's handler) list \<Rightarrow> 's handler" where
  "invoke_inner pr methods service request_bytes =
     (case decode_request_wrapper pr request_bytes of
        None \<Rightarrow> (Error (Status_new_with_message Internal ''Client failed to deserialize the response''), service)
      | Some request \<Rightarrow>
          (case map_of methods (wrapper_method_id request) of
             Some handle \<Rightarrow> handle service (wrapper_body request)
           | None \<Rightarrow> (Error (Status_new Unimplemented), service)))"

definition server_invoke ::
  "prost \<Rightarrow> (u32 \<times> 's handler) list \<Rightarrow> 's \<Rightarrow> bytes \<Rightarrow> (bytes, 'e) result \<times> 's" where
  "server_invoke pr methods service request_bytes =
     (case invoke_inner pr methods service request_bytes of
        (response, service) \<Rightarrow>
          (and_then (wrapper_of_result response) (\<lambda>response. Ok (encode_response_wrapper pr response)), service))"

section \<open>The two ends of the channel\<close>

record connector =
  conn_inner :: channel
  conn_counter :: u32

definition connector_invoke :: "connector \<Rightarrow> bytes \<Rightarrow> (bytes \<times> connector, Status) result" where
  "connector_invoke c request =
     (let (request_message, counter) = encode_request (conn_counter c) request in
      and_then (map_err (\<lambda>_. Status_new Internal) (write_request (conn_inner c) request_message)) (\<lambda>ch.
      and_then (map_err (\<lambda>_. Status_new Internal) (read_response ch)) (\<lambda>(response_message, ch).
      and_then (if invocation_id request_message = invocation_id response_message then Ok ()
                else panic ''assertion `left == right` failed'') (\<lambda>_.
      Ok (msg_body response_message, \<lparr>conn_inner = ch, conn_counter = counter\<rparr>)))))"

lemma write_frames_in: "write_frames ch fs = Ok ch' \<Longrightarrow> chan_in ch' = chan_in ch"
proof (induction fs arbitrary: ch)
  case (Cons f fs)
  then obtain ch1 where "write_frame ch f = Ok ch1" "write_frames ch1 fs = Ok ch'"
    by (auto simp: result_simps)
  with Cons.IH [of ch1] show ?case
    by (auto simp: write_frame_def frame_write_def result_simps Let_def write_all_def)
qed simp

lemma write_message_in: "write_message ch m = Ok ch' \<Longrightarrow> chan_in ch' = chan_in ch"
  by (auto simp: write_message_def result_simps dest: write_frames_in)

lemma read_rest_shrinks: "read_rest ch buf = Ok (buf', ch') \<Longrightarrow> length (chan_in ch') < length (chan_in ch)"
proof (induction ch buf rule: read_rest.induct)
  case (1 ch buf)
  then show ?case
    by (subst (asm) (2) read_rest.simps)
      (force split: sum.splits prod.splits if_splits simp: context_of_def map_err_def
        dest!: read_frame_shrinks split: fault.splits)
qed

lemma read_message_shrinks: "read_message ch = Ok (m, ch') \<Longrightarrow> length (chan_in ch') < length (chan_in ch)"
  by (fastforce simp: read_message_def result_simps split: if_splits prod.splits
      dest!: read_frame_shrinks read_rest_shrinks)

lemma served_shrinks:
  "read_message ch = Ok (m, ch1) \<Longrightarrow> write_message ch1 r = Ok ch2 \<Longrightarrow> length (chan_in ch2) < length (chan_in ch)"
  using read_message_shrinks write_message_in by metis

text \<open>The server's loop ends only with a fault; a request takes bytes from the input, so on a given
  input it does end.\<close>

function start_blocking_server ::
  "('s \<Rightarrow> bytes \<Rightarrow> (bytes, string list) result \<times> 's) \<Rightarrow> 's \<Rightarrow> channel \<Rightarrow> string list fault \<times> 's \<times> channel" where
  "start_blocking_server invoke server ch =
     (case read_request ch of
        Inl (Err e) \<Rightarrow> (Err (''couldn't receive message'' # e), server, ch)
      | Inl (Panic p) \<Rightarrow> (Panic p, server, ch)
      | Inr (request_message, ch) \<Rightarrow>
          (case invoke server (msg_body request_message) of
             (Inl e, server) \<Rightarrow> (e, server, ch)
           | (Inr response, server) \<Rightarrow>
               (case write_response ch
                  \<lparr>invocation_id = invocation_id request_message, msg_body = response\<rparr> of
                  Inl e \<Rightarrow> (e, server, ch)
                | Inr ch \<Rightarrow> start_blocking_server invoke server ch)))"
  by pat_completeness auto
termination
  by (relation "measure (\<lambda>(invoke, server, ch). length (chan_in ch))")
    (auto simp: read_request_def write_response_def intro: served_shrinks)

declare start_blocking_server.simps [simp del]

section \<open>Every request is answered\<close>

lemma serve_one:
  assumes "message_len m < 2 ^ 32" "chan_in ch = message_wire m @ rest"
    and "invoke server (msg_body m) = (Ok b, server')"
    and "message_len \<lparr>invocation_id = invocation_id m, msg_body = b\<rparr> < 2 ^ 32"
  shows "start_blocking_server invoke server ch = start_blocking_server invoke server'
    (ch\<lparr>chan_in := rest,
        chan_out := chan_out ch @ message_wire \<lparr>invocation_id = invocation_id m, msg_body = b\<rparr>\<rparr>)"
  using read_message_wire [OF assms(1,2)] write_message_wire [OF assms(4), of "ch\<lparr>chan_in := rest\<rparr>"] assms(3)
  by (simp add: start_blocking_server.simps [of invoke server ch] read_request_def write_response_def)

text \<open>The answers of a server to a sequence of requests.\<close>

fun answers :: "('s \<Rightarrow> bytes \<Rightarrow> (bytes, string list) result \<times> 's) \<Rightarrow> 's \<Rightarrow> message list \<Rightarrow> (message list \<times> 's) option" where
  "answers invoke server [] = Some ([], server)"
| "answers invoke server (m # ms) =
     (case invoke server (msg_body m) of
        (Inr b, server) \<Rightarrow> map_option (\<lambda>(rs, server).
          (\<lparr>invocation_id = invocation_id m, msg_body = b\<rparr> # rs, server)) (answers invoke server ms)
      | (Inl _, _) \<Rightarrow> None)"

text \<open>C25. The server answers every request it is sent, in order, each under the invocation id of the
  request, and only then fails for want of input.\<close>
theorem server_answers_every_request:
  assumes "answers invoke server requests = Some (responses, server')"
    and "\<forall>m \<in> set requests \<union> set responses. message_len m < 2 ^ 32"
    and "chan_in ch = concat (map message_wire requests)"
  shows "start_blocking_server invoke server ch =
      (Err [''couldn't receive message'', ''couldn't read frame'', ''failed to fill whole buffer''],
       server', ch\<lparr>chan_in := [], chan_out := chan_out ch @ concat (map message_wire responses)\<rparr>) \<and>
    map invocation_id responses = map invocation_id requests"
  using assms
proof (induction invoke server requests arbitrary: ch responses rule: answers.induct)
  case (1 invoke server)
  then show ?case
    by (cases ch) (simp add: start_blocking_server.simps [of _ _ ch] start_blocking_server.simps
        read_request_def read_message_def read_frame_def read_exact_def frame_consts context_of_def)
next
  case (2 invoke server m ms)
  obtain b server1 rs where b: "invoke server (msg_body m) = (Ok b, server1)"
    "answers invoke server1 ms = Some (rs, server')"
    "responses = \<lparr>invocation_id = invocation_id m, msg_body = b\<rparr> # rs"
    using 2(2) by (auto split: prod.splits sum.splits)
  let ?r = "\<lparr>invocation_id = invocation_id m, msg_body = b\<rparr>"
  let ?ch = "ch\<lparr>chan_in := concat (map message_wire ms), chan_out := chan_out ch @ message_wire ?r\<rparr>"
  have len: "message_len m < 2 ^ 32" "message_len ?r < 2 ^ 32" using 2(3) b(3) by auto
  have "start_blocking_server invoke server ch = start_blocking_server invoke server1 ?ch"
    using 2(4) b(1) len by (intro serve_one) simp_all
  moreover have "start_blocking_server invoke server1 ?ch =
      (Err [''couldn't receive message'', ''couldn't read frame'', ''failed to fill whole buffer''],
       server', ?ch\<lparr>chan_in := [], chan_out := chan_out ?ch @ concat (map message_wire rs)\<rparr>) \<and>
    map invocation_id rs = map invocation_id ms"
    using 2(1) [OF b(1) [symmetric] refl, of rs ?ch] b(2,3) 2(3) by simp
  ultimately show ?case using b(3) by simp
qed

theorem server_answers_every_request_witness:
  "start_blocking_server (\<lambda>n request. (Ok (rev request), Suc n)) 0
      \<lparr>chan_in = message_wire \<lparr>invocation_id = 4, msg_body = [1, 2]\<rparr> @
         message_wire \<lparr>invocation_id = 5, msg_body = [3]\<rparr>, chan_out = []\<rparr> =
    (Err [''couldn't receive message'', ''couldn't read frame'', ''failed to fill whole buffer''], 2 :: nat,
     \<lparr>chan_in = [], chan_out = message_wire \<lparr>invocation_id = 4, msg_body = [2, 1]\<rparr> @
        message_wire \<lparr>invocation_id = 5, msg_body = [3]\<rparr>\<rparr>)"
proof -
  let ?requests = "[\<lparr>invocation_id = 4, msg_body = [1, 2]\<rparr>, \<lparr>invocation_id = 5, msg_body = [3]\<rparr>] :: message list"
  let ?responses = "[\<lparr>invocation_id = 4, msg_body = [2, 1]\<rparr>, \<lparr>invocation_id = 5, msg_body = [3]\<rparr>] :: message list"
  have a: "answers (\<lambda>n request. (Ok (rev request), Suc n)) 0 ?requests = Some (?responses, 2)" by simp
  have l: "\<forall>m \<in> set ?requests \<union> set ?responses. message_len m < 2 ^ 32"
    by (simp add: message_len_def)
  show ?thesis
    using server_answers_every_request [OF a l, of "\<lparr>chan_in = concat (map message_wire ?requests), chan_out = []\<rparr>"]
    by simp
qed

section \<open>A call from end to end\<close>

lemma connector_invoke_wire:
  assumes "message_len \<lparr>invocation_id = conn_counter c, msg_body = request\<rparr> < 2 ^ 32"
    and "message_len \<lparr>invocation_id = conn_counter c, msg_body = response\<rparr> < 2 ^ 32"
    and "chan_in (conn_inner c) = message_wire \<lparr>invocation_id = conn_counter c, msg_body = response\<rparr> @ rest"
  shows "connector_invoke c request = Ok (response, \<lparr>conn_inner = (conn_inner c)\<lparr>chan_in := rest,
      chan_out := chan_out (conn_inner c) @ message_wire \<lparr>invocation_id = conn_counter c, msg_body = request\<rparr>\<rparr>,
      conn_counter = conn_counter c + 1\<rparr>)"
  using write_message_wire [OF assms(1), of "conn_inner c"]
    read_message_wire [OF assms(2), of "(conn_inner c)\<lparr>chan_out := chan_out (conn_inner c) @
      message_wire \<lparr>invocation_id = conn_counter c, msg_body = request\<rparr>\<rparr>" rest] assms(3)
  by (simp add: connector_invoke_def encode_request_def next_invocation_id_def write_request_def
      read_response_def)

lemma server_invoke_method:
  assumes "prost_ok pr" "map_of methods mid = Some (server_handler dq er method_fn)"
    and "dq q = Some request" "method_fn service request = (result, service')" "no_panic result"
  shows "\<exists>w. server_invoke pr methods service
      (encode_request_wrapper pr \<lparr>wrapper_method_id = mid, wrapper_body = q\<rparr>)
        = ((Ok (encode_response_wrapper pr w) :: (bytes, 'e) result), service') \<and>
    result_of_wrapper w = and_then result (\<lambda>r. Ok (er r))"
proof -
  let ?r = "and_then result (\<lambda>r. Ok (er r))"
  have "\<exists>w. wrapper_of_result ?r = (Ok w :: (ResponseWrapper, 'e) result) \<and> result_of_wrapper w = ?r"
    using assms(5) by (cases ?r rule: wrapper_of_result.cases)
      (auto simp: and_then_def no_panic_def split: sum.splits)
  with assms(2-4) prost_codec.request_round [OF assms(1)] show ?thesis
    by (auto simp: server_invoke_def invoke_inner_def server_handler_def)
qed

text \<open>C14. A call through the launcher's connector to a method of the enclave's service: with each
  side's output as the other's input, the server performs the method once and the client gets
  exactly its result, the status code and message of an error included.\<close>
theorem rpc_returns_service_result:
  assumes "prost_ok pr" "map_of methods mid = Some (server_handler dq er method_fn)"
    and "dq (eq request) = Some request" "method_fn service request = (result, service')" "no_panic result"
    and "\<forall>r. result = Ok r \<longrightarrow> dr (er r) = Some r"
    and "length (encode_request_wrapper pr \<lparr>wrapper_method_id = mid, wrapper_body = eq request\<rparr>) + 8 < 2 ^ 32"
    and "\<forall>b. fst (server_invoke pr methods service (encode_request_wrapper pr
        \<lparr>wrapper_method_id = mid, wrapper_body = eq request\<rparr>)) = (Ok b :: bytes anyhow) \<longrightarrow> length b + 8 < 2 ^ 32"
  shows "\<exists>sent answered.
    start_blocking_server (server_invoke pr methods) service (enclave\<lparr>chan_in := sent @ more_requests\<rparr>) =
      start_blocking_server (server_invoke pr methods) service'
        (enclave\<lparr>chan_in := more_requests, chan_out := chan_out enclave @ answered\<rparr>) \<and>
    client_invoke pr eq dr connector_invoke
        \<lparr>conn_inner = launcher\<lparr>chan_in := answered @ more_responses\<rparr>, conn_counter = n\<rparr> mid request =
      Ok (result, \<lparr>conn_inner = launcher\<lparr>chan_in := more_responses, chan_out := chan_out launcher @ sent\<rparr>,
        conn_counter = n + 1\<rparr>)"
proof -
  let ?q = "encode_request_wrapper pr \<lparr>wrapper_method_id = mid, wrapper_body = eq request\<rparr>"
  obtain w where w: "server_invoke pr methods service ?q = ((Ok (encode_response_wrapper pr w) :: bytes anyhow), service')"
    "result_of_wrapper w = and_then result (\<lambda>r. Ok (er r))"
    using server_invoke_method [OF assms(1-5)] by blast
  let ?b = "encode_response_wrapper pr w"
  let ?sent = "\<lparr>invocation_id = n, msg_body = ?q\<rparr>" and ?answered = "\<lparr>invocation_id = n, msg_body = ?b\<rparr>"
  have len: "message_len ?sent < 2 ^ 32" "message_len ?answered < 2 ^ 32"
    using assms(7,8) w(1) by (simp_all add: message_len_def)
  have "start_blocking_server (server_invoke pr methods) service (enclave\<lparr>chan_in := message_wire ?sent @ more_requests\<rparr>) =
      start_blocking_server (server_invoke pr methods) service'
        (enclave\<lparr>chan_in := more_requests, chan_out := chan_out enclave @ message_wire ?answered\<rparr>)"
    using serve_one [OF len(1), of "enclave\<lparr>chan_in := message_wire ?sent @ more_requests\<rparr>" more_requests
        "server_invoke pr methods" service ?b service'] w(1) len(2) by simp
  moreover have "connector_invoke \<lparr>conn_inner = launcher\<lparr>chan_in := message_wire ?answered @ more_responses\<rparr>, conn_counter = n\<rparr> ?q =
      Ok (?b, \<lparr>conn_inner = launcher\<lparr>chan_in := more_responses, chan_out := chan_out launcher @ message_wire ?sent\<rparr>,
        conn_counter = n + 1\<rparr>)"
    using connector_invoke_wire [of "\<lparr>conn_inner = launcher\<lparr>chan_in := message_wire ?answered @ more_responses\<rparr>, conn_counter = n\<rparr>"
        ?q ?b more_responses] len by simp
  moreover have "and_then (and_then result (\<lambda>r. Ok (er r))) (\<lambda>body. ok_or (dr body) e) = result" for e
    using assms(6) by (cases result) simp_all
  ultimately show ?thesis
    using w(2) prost_codec.response_round [OF assms(1)]
    by (intro exI [of _ "message_wire ?sent"] exI [of _ "message_wire ?answered"]) (simp add: client_invoke_def)
qed

text \<open>An encoding for concrete calls.\<close>

fun demo_encode_response :: "ResponseWrapper \<Rightarrow> bytes" where
  "demo_encode_response None = [0]"
| "demo_encode_response (Some (ResponseBody b)) = 1 # b"
| "demo_encode_response (Some (ResponseError e)) = 2 # le_bytes 4 (unat (proto_code e)) @ as_bytes (proto_message e)"

fun demo_decode_response :: "bytes \<Rightarrow> ResponseWrapper option" where
  "demo_decode_response [] = None"
| "demo_decode_response (t # b) =
     (if t = 0 then Some None else if t = 1 then Some (Some (ResponseBody b))
      else Some (Some (ResponseError
        \<lparr>proto_code = word_of_nat (le_value (take 4 b)), proto_message = map char_of_byte (drop 4 b)\<rparr>)))"

definition demo_prost :: prost where
  "demo_prost = \<lparr>
     encode_request_wrapper = (\<lambda>w. le_bytes 4 (unat (wrapper_method_id w)) @ wrapper_body w),
     decode_request_wrapper = (\<lambda>bs. Some \<lparr>wrapper_method_id = word_of_nat (le_value (take 4 bs)),
       wrapper_body = drop 4 bs\<rparr>),
     encode_response_wrapper = demo_encode_response,
     decode_response_wrapper = demo_decode_response\<rparr>"

lemma le_value_u32: "le_value (le_bytes 4 (unat (w :: u32))) = unat w"
proof -
  have "unat w < 2 ^ 32" using unsigned_less [of w] by simp
  then show ?thesis by simp
qed

interpretation demo_prost: prost_codec "encode_request_wrapper demo_prost" "decode_request_wrapper demo_prost"
  "encode_response_wrapper demo_prost" "decode_response_wrapper demo_prost"
proof unfold_locales
  fix w show "decode_request_wrapper demo_prost (encode_request_wrapper demo_prost w) = Some w"
    by (simp add: demo_prost_def le_value_u32 del: le_value_le_bytes)
  fix r show "decode_response_wrapper demo_prost (encode_response_wrapper demo_prost r) = Some r"
    by (cases r rule: demo_encode_response.cases)
      (simp_all add: demo_prost_def le_value_u32 del: le_value_le_bytes)
qed

lemma prost_ok_demo: "prost_ok demo_prost"
  by (rule demo_prost.prost_codec_axioms)

text \<open>A counter: the method adds a number to the state, and refuses zero.\<close>

definition demo_add :: "nat \<Rightarrow> u8 \<Rightarrow> (u8, Status) result \<times> nat" where
  "demo_add n x = (if x = 0 then (Error (Status_new_with_message OutOfRange ''zero''), n)
     else (Ok (x + 1), n + unat x))"

definition demo_methods :: "(u32 \<times> nat handler) list" where
  "demo_methods = [(7, server_handler (\<lambda>bs. case bs of [x] \<Rightarrow> Some x | _ \<Rightarrow> None) (\<lambda>x. [x]) demo_add)]"

theorem rpc_returns_service_result_witness:
  "\<exists>sent answered.
    start_blocking_server (server_invoke demo_prost demo_methods) 5 \<lparr>chan_in = sent, chan_out = []\<rparr> =
      start_blocking_server (server_invoke demo_prost demo_methods) 5 \<lparr>chan_in = [], chan_out = answered\<rparr> \<and>
    client_invoke demo_prost (\<lambda>x. [x]) (\<lambda>bs. case bs of [x] \<Rightarrow> Some x | _ \<Rightarrow> None) connector_invoke
        \<lparr>conn_inner = \<lparr>chan_in = answered, chan_out = []\<rparr>, conn_counter = 0\<rparr> 7 0 =
      Ok (Error (Status_new_with_message OutOfRange ''zero''),
        \<lparr>conn_inner = \<lparr>chan_in = [], chan_out = sent\<rparr>, conn_counter = 1\<rparr>)"
proof -
  let ?dq = "\<lambda>bs. case bs of [x] \<Rightarrow> Some x | _ \<Rightarrow> None" and ?er = "\<lambda>x :: u8. [x]"
  let ?q = "encode_request_wrapper demo_prost \<lparr>wrapper_method_id = 7, wrapper_body = [0]\<rparr>"
  have m: "map_of demo_methods 7 = Some (server_handler ?dq ?er demo_add)" by (simp add: demo_methods_def)
  have a: "demo_add 5 0 = (Error (Status_new_with_message OutOfRange ''zero''), 5)" by (simp add: demo_add_def)
  have l: "length ?q + 8 < 2 ^ 32" by (simp add: demo_prost_def)
  have b: "\<forall>b. fst (server_invoke demo_prost demo_methods 5 ?q) = (Ok b :: bytes anyhow) \<longrightarrow> length b + 8 < 2 ^ 32"
    by (simp add: server_invoke_def invoke_inner_def demo_prost_def m server_handler_def a
        proto_of_status_def Status_new_with_message_def)
  show ?thesis
    using rpc_returns_service_result [where eq = "\<lambda>x. [x]" and dr = ?dq and enclave = "\<lparr>chan_in = [], chan_out = []\<rparr>"
        and launcher = "\<lparr>chan_in = [], chan_out = []\<rparr>" and more_requests = "[]" and more_responses = "[]"
        and n = 0, OF prost_ok_demo m _ a _ _ l b] by simp
qed

section \<open>The two clients\<close>

text \<open>The asynchronous client gives the same result as the synchronous one unless the server
  answers with an empty wrapper, for which the status differs.\<close>
theorem client_variants_agree_iff:
  assumes "invoke transport (encode_request_wrapper pr \<lparr>wrapper_method_id = mid, wrapper_body = encode request\<rparr>)
    = Ok (bs, transport')"
  shows "async_client_invoke pr encode decode invoke transport mid request
      = client_invoke pr encode decode invoke transport mid request \<longleftrightarrow>
    decode_response_wrapper pr bs \<noteq> Some None"
proof (cases "decode_response_wrapper pr bs")
  case (Some w)
  with assms show ?thesis
    by (cases w rule: result_of_wrapper.cases)
      (simp_all add: async_client_invoke_def client_invoke_def Status_new_def Status_new_with_message_def)
qed (use assms in \<open>simp add: async_client_invoke_def client_invoke_def\<close>)

theorem client_variants_agree_iff_witness:
  "async_client_invoke demo_prost (\<lambda>x. x) Some (\<lambda>t bs. Ok ([0], t)) () 1 [3]
     \<noteq> (client_invoke demo_prost (\<lambda>x. x) Some (\<lambda>t bs. Ok ([0], t)) () 1 [3]
        :: ((bytes, Status) result \<times> unit, string) result)"
  using client_variants_agree_iff [where invoke = "\<lambda>t bs. (Ok ([0], t) :: (bytes \<times> unit, string) result)"
      and transport = "()" and transport' = "()" and bs = "[0]" and pr = demo_prost and mid = 1
      and encode = "\<lambda>x. x" and request = "[3]" and decode = Some]
  by (simp add: demo_prost_def)

end
