(* ===== verification/Oak_Wasm.thy ===== *)
theory Oak_Wasm
  imports Oak_Lookup Oak_Rpc
begin

text \<open>
  Oak Functions' handling of one request: the responses of \<^verbatim>\<open>oak_functions_abi/src/lib.rs\<close>, the API
  that the runtime offers to a Wasm module (\<^verbatim>\<open>oak_functions_service/src/wasm/api.rs\<close>), the handler that
  runs the module (\<^verbatim>\<open>wasm/mod.rs\<close> there), and the module's side of the API
  (\<^verbatim>\<open>oak_functions_sdk/src/lib.rs\<close>). The Wasm engine and the generated protobuf code are parameters.
  Logging and time measurements have no effect here. A run of a module over the lookup table is shown to agree
  with one over a reference API on a map.
\<close>

section \<open>Responses\<close>

datatype abi_StatusCode = Unspecified | Success | BadRequest | PolicySizeViolation | PolicyTimeViolation
  | InternalServerError

fun abi_StatusCode_repr :: "abi_StatusCode \<Rightarrow> u32" where
  "abi_StatusCode_repr Unspecified = 0"
| "abi_StatusCode_repr Success = 1"
| "abi_StatusCode_repr BadRequest = 2"
| "abi_StatusCode_repr PolicySizeViolation = 3"
| "abi_StatusCode_repr PolicyTimeViolation = 4"
| "abi_StatusCode_repr InternalServerError = 5"

definition abi_StatusCode_from_repr :: "u32 \<Rightarrow> abi_StatusCode option" where
  "abi_StatusCode_from_repr i =
     (if i = 0 then Some Unspecified else if i = 1 then Some Success else if i = 2 then Some BadRequest
      else if i = 3 then Some PolicySizeViolation else if i = 4 then Some PolicyTimeViolation
      else if i = 5 then Some InternalServerError else None)"

record abi_Response =
  res_status :: abi_StatusCode
  res_body :: bytes
  res_length :: u64

definition Response_create :: "abi_StatusCode \<Rightarrow> bytes \<Rightarrow> abi_Response" where
  "Response_create status body =
     \<lparr>res_status = status, res_body = body, res_length = word_of_nat (length body)\<rparr>"

text \<open>The conversion to \<^verbatim>\<open>usize\<close> cannot fail where that type has 64 bits; the slice can.\<close>

definition Response_body :: "abi_Response \<Rightarrow> bytes anyhow" where
  "Response_body r = sub_slice (res_body r) 0 (unat (res_length r))"

definition Response_pad :: "abi_Response \<Rightarrow> nat \<Rightarrow> abi_Response anyhow" where
  "Response_pad r body_size =
     (if length (res_body r) \<le> body_size
      then Ok \<lparr>res_status = res_status r, res_body = res_body r @ replicate (body_size - length (res_body r)) 0,
        res_length = word_of_nat (length (res_body r))\<rparr>
      else Error [''response body is larger than the input body_size''])"

definition Response_encode_to_vec :: "abi_Response \<Rightarrow> bytes" where
  "Response_encode_to_vec r =
     le_bytes 4 (unat (abi_StatusCode_repr (res_status r))) @ le_bytes 8 (unat (res_length r)) @ res_body r"

definition Response_decode :: "bytes \<Rightarrow> abi_Response anyhow" where
  "Response_decode bs =
     and_then (sub_slice bs 0 4) (\<lambda>status_bytes.
     and_then (ok_or (abi_StatusCode_from_repr (word_of_nat (le_value status_bytes))) [''Invalid status code'']) (\<lambda>status.
     and_then (sub_slice bs 4 12) (\<lambda>length_bytes.
     and_then (sub_slice bs 12 (length bs)) (\<lambda>body.
     Ok \<lparr>res_status = status, res_body = body, res_length = word_of_nat (le_value length_bytes)\<rparr>))))"

section \<open>The API for Wasm modules\<close>

text \<open>
  Messages with the same fields have the same encoding, so there is one pair of functions per shape: no
  fields, one byte string, one text, an optional byte string, byte strings, values, a byte string with
  a flag.
\<close>

record BytesValue =
  bv_value :: bytes
  bv_found :: bool

record api_codec =
  enc_empty :: "unit \<Rightarrow> bytes"
  dec_empty :: "bytes \<Rightarrow> unit option"
  enc_body :: "bytes \<Rightarrow> bytes"
  dec_body :: "bytes \<Rightarrow> bytes option"
  enc_text :: "string \<Rightarrow> bytes"
  dec_text :: "bytes \<Rightarrow> string option"
  enc_value :: "bytes option \<Rightarrow> bytes"
  dec_value :: "bytes \<Rightarrow> bytes option option"
  enc_keys :: "bytes list \<Rightarrow> bytes"
  dec_keys :: "bytes \<Rightarrow> bytes list option"
  enc_values :: "BytesValue list \<Rightarrow> bytes"
  dec_values :: "bytes \<Rightarrow> BytesValue list option"
  enc_test :: "bytes \<times> bool \<Rightarrow> bytes"
  dec_test :: "bytes \<Rightarrow> (bytes \<times> bool) option"

locale codec_pair =
  fixes enc :: "'a \<Rightarrow> bytes" and dec :: "bytes \<Rightarrow> 'a option"
  assumes codec_round: "dec (enc x) = Some x"

definition api_codec_ok :: "api_codec \<Rightarrow> bool" where
  "api_codec_ok cd \<longleftrightarrow> codec_pair (enc_empty cd) (dec_empty cd) \<and> codec_pair (enc_body cd) (dec_body cd) \<and>
     codec_pair (enc_text cd) (dec_text cd) \<and> codec_pair (enc_value cd) (dec_value cd) \<and>
     codec_pair (enc_keys cd) (dec_keys cd) \<and> codec_pair (enc_values cd) (dec_values cd) \<and>
     codec_pair (enc_test cd) (dec_test cd)"

text \<open>The state of the API for one request. The calls with their answers are recorded for the proofs.\<close>

record StdWasmApiImpl =
  api_lookup_data :: lookup_data
  api_request :: bytes
  api_response :: bytes
  api_calls :: "(bytes \<times> bytes) list"

definition create_wasm_api :: "lookup_data_manager \<Rightarrow> bytes \<Rightarrow> StdWasmApiImpl" where
  "create_wasm_api m request =
     \<lparr>api_lookup_data = create_lookup_data m, api_request = request, api_response = [], api_calls = []\<rparr>"

definition api_read_request :: "StdWasmApiImpl \<Rightarrow> unit \<Rightarrow> (bytes, Status) result \<times> StdWasmApiImpl" where
  "api_read_request s _ = (Ok (api_request s), s)"

definition api_write_response :: "StdWasmApiImpl \<Rightarrow> bytes \<Rightarrow> (unit, Status) result \<times> StdWasmApiImpl" where
  "api_write_response s body = (Ok (), s\<lparr>api_response := body\<rparr>)"

definition api_log :: "StdWasmApiImpl \<Rightarrow> string \<Rightarrow> (unit, Status) result \<times> StdWasmApiImpl" where
  "api_log s message = (Ok (), s)"

text \<open>A search that does not end counts as a panic here; in a well-formed table there is none.\<close>

definition ld_value :: "lookup_data \<Rightarrow> bytes \<Rightarrow> (bytes option, 'e) result" where
  "ld_value d key = (case ld_get d key of
       None \<Rightarrow> panic ''the search does not end''
     | Some (Inl (Err m)) \<Rightarrow> panic m
     | Some (Inl (Panic m)) \<Rightarrow> panic m
     | Some (Inr v) \<Rightarrow> Ok v)"

definition api_lookup :: "StdWasmApiImpl \<Rightarrow> bytes \<Rightarrow> (bytes option, Status) result \<times> StdWasmApiImpl" where
  "api_lookup s key = (ld_value (api_lookup_data s) key, s)"

definition api_lookup_multi :: "StdWasmApiImpl \<Rightarrow> bytes list \<Rightarrow> (BytesValue list, Status) result \<times> StdWasmApiImpl" where
  "api_lookup_multi s keys =
     (try_map (\<lambda>key. and_then (ld_value (api_lookup_data s) key) (\<lambda>v. Ok (case v of
          Some val \<Rightarrow> \<lparr>bv_value = val, bv_found = True\<rparr>
        | None \<Rightarrow> \<lparr>bv_value = [], bv_found = False\<rparr>))) keys, s)"

definition api_test :: "StdWasmApiImpl \<Rightarrow> bytes \<times> bool \<Rightarrow> (bytes, Status) result \<times> StdWasmApiImpl" where
  "api_test s q = (Ok (if snd q then fst q else []), s)"

text \<open>The server generated for the API.\<close>

definition api_methods :: "api_codec \<Rightarrow> (u32 \<times> StdWasmApiImpl handler) list" where
  "api_methods cd =
     [(0, server_handler (dec_empty cd) (enc_body cd) api_read_request),
      (1, server_handler (dec_body cd) (enc_empty cd) api_write_response),
      (2, server_handler (dec_text cd) (enc_empty cd) api_log),
      (3, server_handler (dec_body cd) (enc_value cd) api_lookup),
      (4, server_handler (dec_keys cd) (enc_values cd) api_lookup_multi),
      (128, server_handler (dec_test cd) (enc_body cd) api_test)]"

definition api_invoke ::
  "prost \<Rightarrow> api_codec \<Rightarrow> StdWasmApiImpl \<Rightarrow> bytes \<Rightarrow> (bytes \<times> StdWasmApiImpl, 'e) result" where
  "api_invoke pr cd s request =
     (case server_invoke pr (api_methods cd) s request of
        (r, s) \<Rightarrow> and_then r (\<lambda>response. Ok (response, s\<lparr>api_calls := api_calls s @ [(request, response)]\<rparr>)))"

section \<open>The engine\<close>

text \<open>
  An instance is executed up to its next event: it returns a value (anything if the function has none),
  traps, or calls an imported function. The result of an import resumes it; while it waits, an exported
  function can be entered. \<open>None\<close> is an execution that goes on forever.
\<close>

datatype valtype = I32 | I64 | F32 | F64

datatype extern = ExternFunc "valtype list" "valtype list" | ExternMemory | ExternOther

datatype 'i wasm_event = Returns u32 'i | Traps 'i | CallsInvoke u32 u32 u32 u32 'i | CallsWasi 'i

record ('m, 'i) wasmi =
  module_new :: "bytes \<Rightarrow> 'm option"
  link :: "'m \<Rightarrow> 'i option"
  no_start :: "'i \<Rightarrow> 'i option"
  get_export :: "'i \<Rightarrow> string \<Rightarrow> extern option"
  enter :: "'i \<Rightarrow> string \<Rightarrow> u32 list \<Rightarrow> 'i"
  exec :: "'i \<Rightarrow> 'i wasm_event option"
  resume :: "'i \<Rightarrow> u32 \<Rightarrow> 'i"
  memory_read :: "'i \<Rightarrow> nat \<Rightarrow> nat \<Rightarrow> bytes option"
  memory_write :: "'i \<Rightarrow> nat \<Rightarrow> bytes \<Rightarrow> 'i option"

text \<open>Its memory is a byte string, read and written within its bounds.\<close>

locale wasm_memory =
  fixes mem :: "'i \<Rightarrow> bytes" and rd :: "'i \<Rightarrow> nat \<Rightarrow> nat \<Rightarrow> bytes option"
    and wr :: "'i \<Rightarrow> nat \<Rightarrow> bytes \<Rightarrow> 'i option"
  assumes read_law: "rd i p n = (if p + n \<le> length (mem i) then Some (slice (mem i) p n) else None)"
    and write_law: "p + length bs \<le> length (mem i) \<Longrightarrow> \<exists>i'. wr i p bs = Some i' \<and> mem i' = overwrite (mem i) p bs"
    and write_bounds: "length (mem i) < p + length bs \<Longrightarrow> wr i p bs = None"

section \<open>Calls of the module\<close>

definition typed_func :: "('m, 'i) wasmi \<Rightarrow> 'i \<Rightarrow> string \<Rightarrow> valtype list \<Rightarrow> valtype list \<Rightarrow> bool" where
  "typed_func eng i name ps rs \<longleftrightarrow> get_export eng i name = Some (ExternFunc ps rs)"

definition OakCaller_new :: "('m, 'i) wasmi \<Rightarrow> 'i \<Rightarrow> (unit, StatusCode) result" where
  "OakCaller_new eng i =
     and_then (ok_or (get_export eng i ''alloc'') Internal) (\<lambda>ext.
     and_then (case ext of ExternFunc ps rs \<Rightarrow> Ok (ps, rs) | _ \<Rightarrow> Error Internal) (\<lambda>(ps, rs).
     and_then (ensure (ps = [I32] \<and> rs = [I32]) Internal) (\<lambda>_.
     and_then (ok_or (get_export eng i ''memory'') Internal) (\<lambda>ext.
     ensure (ext = ExternMemory) Internal))))"

definition read_buffer :: "('m, 'i) wasmi \<Rightarrow> 'i \<Rightarrow> u32 \<Rightarrow> u32 \<Rightarrow> (bytes, StatusCode) result" where
  "read_buffer eng i buf_ptr buf_len = ok_or (memory_read eng i (unat buf_ptr) (unat buf_len)) InvalidArgument"

definition wasm_write_buffer :: "('m, 'i) wasmi \<Rightarrow> 'i \<Rightarrow> bytes \<Rightarrow> u32 \<Rightarrow> ('i, StatusCode) result" where
  "wasm_write_buffer eng i source dest = ok_or (memory_write eng i (unat dest) source) InvalidArgument"

definition wasm_write_u32 :: "('m, 'i) wasmi \<Rightarrow> 'i \<Rightarrow> u32 \<Rightarrow> u32 \<Rightarrow> ('i, StatusCode) result" where
  "wasm_write_u32 eng i val address =
     map_err (\<lambda>_. InvalidArgument) (wasm_write_buffer eng i (le_bytes 4 (unat val)) address)"

text \<open>The three writes at the end of \<^verbatim>\<open>alloc_and_write\<close>; a failing one keeps what was written before.\<close>

definition write_out ::
  "('m, 'i) wasmi \<Rightarrow> 'i \<Rightarrow> u32 \<Rightarrow> u32 \<Rightarrow> u32 \<Rightarrow> bytes \<Rightarrow> (unit, StatusCode) result \<times> 'i" where
  "write_out eng i dest buf_ptr_ptr buf_ptr_len buf =
     (case wasm_write_buffer eng i buf dest of Inl x \<Rightarrow> (Inl x, i)
      | Inr i \<Rightarrow> (case wasm_write_u32 eng i dest buf_ptr_ptr of Inl x \<Rightarrow> (Inl x, i)
      | Inr i \<Rightarrow> (case wasm_write_u32 eng i (word_of_nat (length buf)) buf_ptr_len of Inl x \<Rightarrow> (Inl x, i)
      | Inr i \<Rightarrow> (Ok (), i))))"

text \<open>\<^verbatim>\<open>call\<close> runs the module's \<^verbatim>\<open>alloc\<close>; a trap in it is a panic of the handler.\<close>

definition alloc_and_write ::
  "('m, 'i) wasmi \<Rightarrow> ('i \<Rightarrow> 's \<Rightarrow> u32 \<Rightarrow> (u32 option \<times> 'i \<times> 's, 'e) result option) \<Rightarrow> 'i \<Rightarrow> 's
     \<Rightarrow> u32 \<Rightarrow> u32 \<Rightarrow> bytes \<Rightarrow> ((unit, StatusCode) result \<times> 'i \<times> 's, 'e) result option" where
  "alloc_and_write eng call i s buf_ptr_ptr buf_ptr_len buf =
     Option.bind (call i s (word_of_nat (length buf))) (\<lambda>r. case r of
       Inl x \<Rightarrow> Some (Inl x)
     | Inr (None, _) \<Rightarrow> Some (panic ''`alloc` call failed'')
     | Inr (Some dest_ptr, i, s) \<Rightarrow>
         (case write_out eng i dest_ptr buf_ptr_ptr buf_ptr_len buf of (res, i) \<Rightarrow> Some (Ok (res, i, s))))"

definition from_status_code :: "(unit, StatusCode) result \<Rightarrow> u32" where
  "from_status_code r = (case r of Inl (Err c) \<Rightarrow> StatusCode_into_u32 c | _ \<Rightarrow> StatusCode_into_u32 StatusOk)"

text \<open>The closure that is linked as \<^verbatim>\<open>invoke\<close>.\<close>

definition host_invoke ::
  "('m, 'i) wasmi \<Rightarrow> ('s \<Rightarrow> bytes \<Rightarrow> (bytes \<times> 's, 'e) result)
     \<Rightarrow> ('i \<Rightarrow> 's \<Rightarrow> u32 \<Rightarrow> (u32 option \<times> 'i \<times> 's, 'e) result option)
     \<Rightarrow> u32 \<Rightarrow> u32 \<Rightarrow> u32 \<Rightarrow> u32 \<Rightarrow> 'i \<Rightarrow> 's \<Rightarrow> (u32 \<times> 'i \<times> 's, 'e) result option" where
  "host_invoke eng transport call request_ptr request_len response_ptr_ptr response_len_ptr i s =
     (case OakCaller_new eng i of
        Inl x \<Rightarrow> Some (Ok (from_status_code (Inl x), i, s))
      | Inr _ \<Rightarrow> (case read_buffer eng i request_ptr request_len of
        Inl x \<Rightarrow> Some (Ok (from_status_code (Inl x), i, s))
      | Inr request \<Rightarrow> (case transport s request of
        Inl x \<Rightarrow> Some (Inl x)
      | Inr (response, s) \<Rightarrow>
          Option.bind (alloc_and_write eng call i s response_ptr_ptr response_len_ptr response) (\<lambda>r. case r of
            Inl x \<Rightarrow> Some (Inl x)
          | Inr (status, i, s) \<Rightarrow> Some (Ok (from_status_code status, i, s))))))"

lemma host_invoke_mono [partial_function_mono]:
  assumes "\<And>i s n. mono_option (\<lambda>f. call f i s n)"
  shows "mono_option (\<lambda>f. host_invoke eng transport (call f) a b c d i s)"
  unfolding host_invoke_def alloc_and_write_def
  by (cases "OakCaller_new eng i"; cases "read_buffer eng i a b"; cases "transport s (projr (read_buffer eng i a b))")
    (auto simp: option.const_mono split: prod.split intro!: bind_mono option.const_mono assms)

text \<open>A stubbed function of WASI traps. \<^verbatim>\<open>alloc\<close> is entered from within a call and may itself call.\<close>

partial_function (option) wasm_run ::
  "('m, 'i) wasmi \<Rightarrow> ('s \<Rightarrow> bytes \<Rightarrow> (bytes \<times> 's, 'e) result) \<Rightarrow> 'i \<Rightarrow> 's \<Rightarrow> (u32 option \<times> 'i \<times> 's, 'e) result option" where
  "wasm_run eng transport i s = (case exec eng i of
       None \<Rightarrow> None
     | Some (Returns v i) \<Rightarrow> Some (Ok (Some v, i, s))
     | Some (Traps i) \<Rightarrow> Some (Ok (None, i, s))
     | Some (CallsWasi i) \<Rightarrow> Some (Ok (None, i, s))
     | Some (CallsInvoke request_ptr request_len response_ptr_ptr response_len_ptr i) \<Rightarrow>
         Option.bind (host_invoke eng transport
             (\<lambda>i s len. wasm_run eng transport (enter eng i ''alloc'' [len]) s)
             request_ptr request_len response_ptr_ptr response_len_ptr i s) (\<lambda>r. case r of
           Inl x \<Rightarrow> Some (Inl x)
         | Inr (status, i, s) \<Rightarrow> wasm_run eng transport (resume eng i status) s))"

section \<open>The handler\<close>

definition WasmHandler_create :: "('m, 'i) wasmi \<Rightarrow> bytes \<Rightarrow> 'm anyhow" where
  "WasmHandler_create eng wasm_module_bytes =
     ok_or (module_new eng wasm_module_bytes) [''couldn't load module from buffer'']"

definition OakLinker_instantiate :: "('m, 'i) wasmi \<Rightarrow> 'm \<Rightarrow> ('i, Status) result" where
  "OakLinker_instantiate eng m =
     and_then (ok_or (link eng m)
       (Status_new_with_message Internal ''could not instantiate Wasm module'')) (\<lambda>i.
     and_then (ok_or (no_start eng i)
       (Status_new_with_message Internal ''failed to ensure no start in Wasm module'')) (\<lambda>i.
     and_then (ensure (typed_func eng i ''main'' [] [])
       (Status_new_with_message Internal ''couldn't validate `main` export'')) (\<lambda>_.
     and_then (ensure (typed_func eng i ''alloc'' [I32] [I32])
       (Status_new_with_message Internal ''couldn't validate `alloc` export'')) (\<lambda>_.
     and_then (ensure (get_export eng i ''memory'' = Some ExternMemory)
       (Status_new_with_message Internal ''couldn't find Wasm `memory` export'')) (\<lambda>_.
     Ok i)))))"

text \<open>The block of \<^verbatim>\<open>handle_invoke\<close> that runs the module on a new API state; how it ended is not looked at.\<close>

definition run_module ::
  "('m, 'i) wasmi \<Rightarrow> prost \<Rightarrow> api_codec \<Rightarrow> 'm \<Rightarrow> StdWasmApiImpl \<Rightarrow> (StdWasmApiImpl, Status) result option" where
  "run_module eng pr cd m s =
     (case OakLinker_instantiate eng m of
        Inl x \<Rightarrow> Some (Inl x)
      | Inr i \<Rightarrow>
          if \<not> typed_func eng i ''main'' [] [] then Some (panic ''couldn't get `main` export'')
          else Option.bind (wasm_run eng (api_invoke pr cd) (enter eng i ''main'' []) s) (\<lambda>r.
            Some (and_then r (\<lambda>(_, _, s). Ok s))))"

definition handle_invoke ::
  "('m, 'i) wasmi \<Rightarrow> prost \<Rightarrow> api_codec \<Rightarrow> 'm \<Rightarrow> lookup_data_manager \<Rightarrow> bytes \<Rightarrow> (abi_Response, Status) result option" where
  "handle_invoke eng pr cd m mgr request =
     Option.bind (run_module eng pr cd m (create_wasm_api mgr request)) (\<lambda>r.
     Some (and_then r (\<lambda>s. Ok (Response_create Success (api_response s)))))"

section \<open>The module's side\<close>

text \<open>
  The functions of the SDK over a transport; the errors of the transport and of the call are joined.
\<close>

definition sdk_flatten :: "(('r, Status) result \<times> 't, Status) result \<Rightarrow> ('r \<times> 't, Status) result" where
  "sdk_flatten r = and_then r (\<lambda>(res, t). and_then res (\<lambda>v. Ok (v, t)))"

definition sdk_read_request ::
  "prost \<Rightarrow> api_codec \<Rightarrow> ('t \<Rightarrow> bytes \<Rightarrow> (bytes \<times> 't, Status) result) \<Rightarrow> 't \<Rightarrow> (bytes \<times> 't, Status) result" where
  "sdk_read_request pr cd tr t = sdk_flatten (client_invoke pr (enc_empty cd) (dec_body cd) tr t 0 ())"

definition sdk_write_response ::
  "prost \<Rightarrow> api_codec \<Rightarrow> ('t \<Rightarrow> bytes \<Rightarrow> (bytes \<times> 't, Status) result) \<Rightarrow> 't \<Rightarrow> bytes \<Rightarrow> (unit \<times> 't, Status) result" where
  "sdk_write_response pr cd tr t buf = sdk_flatten (client_invoke pr (enc_body cd) (dec_empty cd) tr t 1 buf)"

definition sdk_storage_get_item ::
  "prost \<Rightarrow> api_codec \<Rightarrow> ('t \<Rightarrow> bytes \<Rightarrow> (bytes \<times> 't, Status) result) \<Rightarrow> 't \<Rightarrow> bytes
     \<Rightarrow> (bytes option \<times> 't, Status) result" where
  "sdk_storage_get_item pr cd tr t key = sdk_flatten (client_invoke pr (enc_body cd) (dec_value cd) tr t 3 key)"

definition bytes_value_to_option :: "BytesValue \<Rightarrow> bytes option" where
  "bytes_value_to_option b = (if bv_found b then Some (bv_value b) else None)"

definition sdk_storage_get_items ::
  "prost \<Rightarrow> api_codec \<Rightarrow> ('t \<Rightarrow> bytes \<Rightarrow> (bytes \<times> 't, Status) result) \<Rightarrow> 't \<Rightarrow> bytes list
     \<Rightarrow> (bytes option list \<times> 't, Status) result" where
  "sdk_storage_get_items pr cd tr t keys =
     and_then (sdk_flatten (client_invoke pr (enc_keys cd) (dec_values cd) tr t 4 keys)) (\<lambda>(vs, t).
     Ok (map bytes_value_to_option vs, t))"

definition sdk_write_log_message ::
  "prost \<Rightarrow> api_codec \<Rightarrow> ('t \<Rightarrow> bytes \<Rightarrow> (bytes \<times> 't, Status) result) \<Rightarrow> 't \<Rightarrow> string \<Rightarrow> (unit \<times> 't, Status) result" where
  "sdk_write_log_message pr cd tr t message =
     sdk_flatten (client_invoke pr (enc_text cd) (dec_empty cd) tr t 2 message)"

definition sdk_testing ::
  "prost \<Rightarrow> api_codec \<Rightarrow> ('t \<Rightarrow> bytes \<Rightarrow> (bytes \<times> 't, Status) result) \<Rightarrow> 't \<Rightarrow> bytes \<Rightarrow> bool \<Rightarrow> (bytes \<times> 't, Status) result" where
  "sdk_testing pr cd tr t request echo =
     sdk_flatten (client_invoke pr (enc_test cd) (dec_body cd) tr t 128 (request, echo))"

text \<open>
  \<^verbatim>\<open>invoke\<close> of the SDK, compiled to Wasm: it passes the place of the request and of two words on its stack,
  and on success takes over the buffer that they then name. A load outside the memory traps.
\<close>

definition guest_load :: "('m, 'i) wasmi \<Rightarrow> 'i \<Rightarrow> nat \<Rightarrow> nat \<Rightarrow> (bytes, Status) result" where
  "guest_load eng i p n = expect (memory_read eng i p n) ''out of bounds memory access''"

definition sdk_invoke ::
  "('m, 'i) wasmi \<Rightarrow> (u32 \<Rightarrow> u32 \<Rightarrow> u32 \<Rightarrow> u32 \<Rightarrow> 'i \<Rightarrow> 's \<Rightarrow> (u32 \<times> 'i \<times> 's, 'e) result option)
     \<Rightarrow> u32 \<Rightarrow> u32 \<Rightarrow> u32 \<Rightarrow> u32 \<Rightarrow> 'i \<Rightarrow> 's \<Rightarrow> ((bytes, Status) result \<times> 'i \<times> 's, 'e) result option" where
  "sdk_invoke eng host request_ptr request_len response_ptr_ptr response_len_ptr i s =
     Option.bind (host request_ptr request_len response_ptr_ptr response_len_ptr i s) (\<lambda>r.
     Some (and_then r (\<lambda>(status_code, i, s). Ok (case StatusCode_from_u32 status_code of
         StatusOk \<Rightarrow>
           and_then (guest_load eng i (unat response_ptr_ptr) 4) (\<lambda>p.
           and_then (guest_load eng i (unat response_len_ptr) 4) (\<lambda>n.
           guest_load eng i (le_value p) (le_value n)))
       | c \<Rightarrow> Error (Status_new c), i, s))))"

section \<open>Responses round trip\<close>

lemma abi_StatusCode_round [simp]: "abi_StatusCode_from_repr (abi_StatusCode_repr c) = Some c"
  by (cases c) (simp_all add: abi_StatusCode_from_repr_def)

lemma le_round_u32 [simp]: "word_of_nat (le_value (le_bytes 4 (unat (w :: u32)))) = w"
  using unsigned_less [of w, where ?'a = nat] by simp

lemma le_round_u64 [simp]: "word_of_nat (le_value (le_bytes 8 (unat (w :: u64)))) = w"
  using unsigned_less [of w, where ?'a = nat] by simp

lemma Response_round_trip: "Response_decode (Response_encode_to_vec r) = Ok r"
  by (simp add: Response_decode_def Response_encode_to_vec_def sub_slice_def del: le_value_le_bytes)

lemma Response_pad_round_trip:
  assumes "length body \<le> n" "length body < 2 ^ 64"
  shows "\<exists>p. Response_pad (Response_create status body) n = Ok p \<and> length (Response_encode_to_vec p) = 12 + n \<and>
    Response_decode (Response_encode_to_vec p) = Ok p \<and> res_status p = status \<and> Response_body p = Ok body"
  using assms
  by (simp add: Response_round_trip Response_pad_def Response_create_def)
    (simp add: Response_encode_to_vec_def Response_body_def sub_slice_def unat_of_nat)

section \<open>What a run does to the API\<close>

text \<open>
  A relation that every call of the transport respects holds between the states before and after a run.
\<close>

lemma alloc_and_write_Ok:
  "alloc_and_write eng call i s pp lp buf = Some (Ok (res, i', s')) \<longleftrightarrow>
     (\<exists>dest i1. call i s (word_of_nat (length buf)) = Some (Ok (Some dest, i1, s')) \<and>
       write_out eng i1 dest pp lp buf = (res, i'))"
  unfolding alloc_and_write_def
  by (cases "call i s (word_of_nat (length buf))")
    (auto split: sum.splits option.splits prod.splits)

lemma host_invoke_Ok:
  "host_invoke eng transport call a b c d i s = Some (Ok (status, i', s')) \<longleftrightarrow>
     (\<exists>x. OakCaller_new eng i = Inl x \<and> status = from_status_code (Inl x) \<and> i' = i \<and> s' = s) \<or>
     OakCaller_new eng i = Ok () \<and>
       ((\<exists>x. read_buffer eng i a b = Inl x \<and> status = from_status_code (Inl x) \<and> i' = i \<and> s' = s) \<or>
        (\<exists>request response s1 res. read_buffer eng i a b = Ok request \<and> transport s request = Ok (response, s1) \<and>
           alloc_and_write eng call i s1 c d response = Some (Ok (res, i', s')) \<and> status = from_status_code res))"
proof (cases "OakCaller_new eng i"; cases "read_buffer eng i a b")
  fix u request assume h: "OakCaller_new eng i = Ok u" "read_buffer eng i a b = Ok request"
  show ?thesis
  proof (cases "transport s request")
    case (Inr x)
    with h show ?thesis
      by (cases "alloc_and_write eng call i (snd x) c d (fst x)")
        (auto simp: host_invoke_def split: sum.splits prod.splits)
  qed (use h in \<open>simp add: host_invoke_def\<close>)
qed (auto simp: host_invoke_def)

lemma host_invoke_relates:
  assumes "host_invoke eng transport call a b c d i s = Some (Ok (status, i', s'))"
    and "\<And>s q a s'. transport s q = Ok (a, s') \<Longrightarrow> R s s'" "reflp R" "transp R"
    and "\<And>i s n r i' s'. call i s n = Some (Ok (r, i', s')) \<Longrightarrow> R s s'"
  shows "R s s'"
  using assms(1) unfolding host_invoke_Ok alloc_and_write_Ok
proof (elim disjE exE conjE)
  fix request response s1 res dest i1
  assume "transport s request = Ok (response, s1)"
    "call i s1 (word_of_nat (length response)) = Some (Ok (Some dest, i1, s'))"
  then show ?thesis using assms(2,5) transpD [OF assms(4)] by blast
qed (simp_all add: reflpD [OF assms(3)])

lemma wasm_run_relates:
  assumes "reflp R" "transp R"
  shows "wasm_run eng transport i s = Some r \<Longrightarrow> \<forall>s q a s'. transport s q = Ok (a, s') \<longrightarrow> R s s' \<Longrightarrow>
    r = Ok (v, i', s') \<Longrightarrow> R s s'"
proof (induction arbitrary: v i' s' rule: wasm_run.raw_induct [rotated 1, consumes 1])
  case (1 run eng transport i s r)
  note IH = 1(1) [OF _ 1(3) refl]
  show ?case
  proof (cases "\<exists>a b c d j. exec eng i = Some (CallsInvoke a b c d j)")
    case True
    then obtain a b c d j where e: "exec eng i = Some (CallsInvoke a b c d j)" by blast
    let ?h = "host_invoke eng transport (\<lambda>i s len. run eng transport (enter eng i ''alloc'' [len]) s) a b c d j s"
    from 1(2,4) e obtain status i1 s1 where h: "?h = Some (Ok (status, i1, s1))"
      and r: "run eng transport (resume eng i1 status) s1 = Some (Ok (v, i', s'))"
      by (cases ?h) (auto split: sum.splits prod.splits)
    have "R s s1" by (rule host_invoke_relates [OF h _ assms]) (use 1(3) IH in blast)+
    with IH [OF r] assms(2) show ?thesis by (blast dest: transpD)
  next
    case False
    with 1(2,4) have "s' = s" by (auto split: option.splits wasm_event.splits)
    then show ?thesis using assms(1) by (simp add: reflpD)
  qed
qed

text \<open>The response that a call writes, if it is one of \<^verbatim>\<open>write_response\<close>, and the last one of several calls.\<close>

definition written :: "prost \<Rightarrow> api_codec \<Rightarrow> bytes \<Rightarrow> bytes option" where
  "written pr cd q = (case decode_request_wrapper pr q of
       None \<Rightarrow> None
     | Some w \<Rightarrow> if wrapper_method_id w = 1 then dec_body cd (wrapper_body w) else None)"

fun last_written :: "prost \<Rightarrow> api_codec \<Rightarrow> bytes \<Rightarrow> (bytes \<times> bytes) list \<Rightarrow> bytes" where
  "last_written pr cd r [] = r"
| "last_written pr cd r ((q, a) # calls) =
     last_written pr cd (case written pr cd q of Some body \<Rightarrow> body | None \<Rightarrow> r) calls"

lemma last_written_append [simp]:
  "last_written pr cd r (cs @ cs') = last_written pr cd (last_written pr cd r cs) cs'"
  by (induction cs arbitrary: r) auto

definition api_answer :: "prost \<Rightarrow> api_codec \<Rightarrow> StdWasmApiImpl \<Rightarrow> bytes \<Rightarrow> (bytes, Status) result" where
  "api_answer pr cd s q = fst (server_invoke pr (api_methods cd) s q)"

lemmas api_method_defs = api_read_request_def api_write_response_def api_log_def api_lookup_def api_lookup_multi_def
  api_test_def

lemma api_server_invoke:
  assumes "api_request s0 = api_request s" "api_lookup_data s0 = api_lookup_data s"
  shows "server_invoke pr (api_methods cd) s q = (api_answer pr cd s0 q,
    s\<lparr>api_response := case written pr cd q of Some body \<Rightarrow> body | None \<Rightarrow> api_response s\<rparr>)"
proof (cases "decode_request_wrapper pr q")
  case (Some w)
  note ds = api_answer_def server_invoke_def invoke_inner_def written_def server_handler_def api_method_defs
  let ?m = "map_of (api_methods cd) (wrapper_method_id w)"
  consider "wrapper_method_id w = 0" "?m = Some (server_handler (dec_empty cd) (enc_body cd) api_read_request)"
    | "wrapper_method_id w = 1" "?m = Some (server_handler (dec_body cd) (enc_empty cd) api_write_response)"
    | "wrapper_method_id w = 2" "?m = Some (server_handler (dec_text cd) (enc_empty cd) api_log)"
    | "wrapper_method_id w = 3" "?m = Some (server_handler (dec_body cd) (enc_value cd) api_lookup)"
    | "wrapper_method_id w = 4" "?m = Some (server_handler (dec_keys cd) (enc_values cd) api_lookup_multi)"
    | "wrapper_method_id w = 128" "?m = Some (server_handler (dec_test cd) (enc_body cd) api_test)"
    | "wrapper_method_id w \<noteq> 1" "?m = None"
    by atomize_elim (auto simp: api_methods_def)
  then show ?thesis
    by cases (use assms Some in \<open>simp_all add: ds split: option.split\<close>)
qed (simp add: api_answer_def server_invoke_def invoke_inner_def written_def)

definition api_extends :: "prost \<Rightarrow> api_codec \<Rightarrow> StdWasmApiImpl \<Rightarrow> StdWasmApiImpl \<Rightarrow> bool" where
  "api_extends pr cd s s' \<longleftrightarrow> api_request s' = api_request s \<and> api_lookup_data s' = api_lookup_data s \<and>
     (\<exists>calls. api_calls s' = api_calls s @ calls \<and> api_response s' = last_written pr cd (api_response s) calls \<and>
       (\<forall>(q, a) \<in> set calls. api_answer pr cd s q = Ok a))"

lemma api_answer_cong:
  "api_request s' = api_request s \<Longrightarrow> api_lookup_data s' = api_lookup_data s \<Longrightarrow> api_answer pr cd s' q = api_answer pr cd s q"
  using api_server_invoke [of s s' pr cd q] by (simp add: api_answer_def)

lemma api_extends_trans:
  assumes "api_extends pr cd s s1" "api_extends pr cd s1 s2"
  shows "api_extends pr cd s s2"
proof -
  have "api_answer pr cd s1 = api_answer pr cd s"
    using assms(1) by (intro ext api_answer_cong) (simp_all add: api_extends_def)
  with assms show ?thesis unfolding api_extends_def by (elim conjE exE) (simp, blast)
qed

lemma api_extends_preorder: "reflp (api_extends pr cd)" "transp (api_extends pr cd)"
  by (simp_all add: reflp_def api_extends_def) (blast intro: transpI api_extends_trans)

lemma api_invoke_eq:
  "api_invoke pr cd s q = and_then (api_answer pr cd s q) (\<lambda>response. Ok (response,
     s\<lparr>api_response := case written pr cd q of Some body \<Rightarrow> body | None \<Rightarrow> api_response s,
       api_calls := api_calls s @ [(q, response)]\<rparr>))"
  by (simp add: api_invoke_def api_server_invoke [of s s])

lemma api_invoke_extends:
  "(api_invoke pr cd s q :: (bytes \<times> StdWasmApiImpl, Status) result) = Ok (a, s') \<Longrightarrow> api_extends pr cd s s'"
  by (auto simp: api_invoke_eq api_extends_def result_simps)

section \<open>A call through the memory\<close>

context wasm_memory
begin

lemma write_chain:
  assumes "p + length a \<le> length (mem i)" "q + length b \<le> length (mem i)" "r + length c \<le> length (mem i)"
  obtains i1 i2 i3 where "wr i p a = Some i1" "wr i1 q b = Some i2" "wr i2 r c = Some i3"
    "mem i3 = overwrite (overwrite (overwrite (mem i) p a) q b) r c"
proof -
  obtain i1 where i1: "wr i p a = Some i1" "mem i1 = overwrite (mem i) p a"
    using write_law [OF assms(1)] by blast
  obtain i2 where i2: "wr i1 q b = Some i2" "mem i2 = overwrite (mem i1) q b"
    using write_law [of q b i1] assms i1 by auto
  obtain i3 where i3: "wr i2 r c = Some i3" "mem i3 = overwrite (mem i2) r c"
    using write_law [of r c i2] assms i1 i2 by auto
  show ?thesis using that [OF i1(1) i2(1) i3(1)] i1(2) i2(2) i3(2) by simp
qed

end

text \<open>Ranges that do not overlap.\<close>

definition ranges_apart :: "nat \<Rightarrow> nat \<Rightarrow> nat \<Rightarrow> nat \<Rightarrow> bool" where
  "ranges_apart p m q n \<longleftrightarrow> p + m \<le> q \<or> q + n \<le> p"

lemma write_out_delivers:
  assumes "wasm_memory mem (memory_read eng) (memory_write eng)" "length buf < 2 ^ 32"
    and "unat dest + length buf \<le> length (mem i)" "unat pp + 4 \<le> length (mem i)" "unat lp + 4 \<le> length (mem i)"
    and "ranges_apart (unat pp) 4 (unat lp) 4" "ranges_apart (unat dest) (length buf) (unat pp) 4"
      "ranges_apart (unat dest) (length buf) (unat lp) 4"
  shows "\<exists>i'. write_out eng i dest pp lp buf = (Ok (), i') \<and>
    memory_read eng i' (unat pp) 4 = Some (le_bytes 4 (unat dest)) \<and>
    memory_read eng i' (unat lp) 4 = Some (le_bytes 4 (length buf)) \<and>
    memory_read eng i' (unat dest) (length buf) = Some buf"
proof -
  let ?a = "le_bytes 4 (unat dest)" and ?b = "le_bytes 4 (length buf)"
  have n: "unat (word_of_nat (length buf) :: u32) = length buf" using assms(2) by (simp add: unat_of_nat)
  obtain i1 i2 i3 where w: "memory_write eng i (unat dest) buf = Some i1" "memory_write eng i1 (unat pp) ?a = Some i2"
      "memory_write eng i2 (unat lp) ?b = Some i3"
      "mem i3 = overwrite (overwrite (overwrite (mem i) (unat dest) buf) (unat pp) ?a) (unat lp) ?b"
    by (rule wasm_memory.write_chain [OF assms(1), of "unat dest" buf i "unat pp" ?a "unat lp" ?b])
      (use assms(3-5) in simp_all)
  have "slice (mem i3) (unat lp) 4 = ?b" "slice (mem i3) (unat pp) 4 = ?a"
      "slice (mem i3) (unat dest) (length buf) = buf" "length (mem i3) = length (mem i)"
    using w(4) assms(3-8) slice_overwrite_same [of _ ?a] slice_overwrite_same [of _ ?b]
    by (auto simp: ranges_apart_def slice_overwrite_same slice_overwrite_other)
  then show ?thesis
    using w(1-3) assms(3-5)
    by (simp add: write_out_def wasm_write_buffer_def wasm_write_u32_def n wasm_memory.read_law [OF assms(1)])
qed

lemma read_buffer_in_memory:
  assumes "wasm_memory mem (memory_read eng) (memory_write eng)"
  shows "read_buffer eng i p n = (if unat p + unat n \<le> length (mem i) then Ok (slice (mem i) (unat p) (unat n))
    else Error InvalidArgument)"
  by (simp add: read_buffer_def wasm_memory.read_law [OF assms])

section \<open>The SDK's calls\<close>

lemma api_codecD:
  assumes "api_codec_ok cd"
  shows "dec_empty cd (enc_empty cd u) = Some u" "dec_body cd (enc_body cd b) = Some b"
    "dec_text cd (enc_text cd t) = Some t" "dec_value cd (enc_value cd v) = Some v"
    "dec_keys cd (enc_keys cd ks) = Some ks" "dec_values cd (enc_values cd vs) = Some vs"
    "dec_test cd (enc_test cd q) = Some q"
  using assms unfolding api_codec_ok_def codec_pair_def by blast+

text \<open>A call by the SDK gives what the method gives.\<close>

lemma sdk_call_method:
  assumes "prost_ok pr" "map_of (api_methods cd) mid = Some (server_handler dq er method_fn)"
    and "dq (ec q) = Some q" "method_fn s q = (Ok r, s1)" "dc (er r) = Some r"
  shows "\<exists>call. sdk_flatten (client_invoke pr ec dc (api_invoke pr cd) s mid q) =
    Ok (r, s1\<lparr>api_calls := api_calls s1 @ [call]\<rparr>)"
proof -
  obtain w where "server_invoke pr (api_methods cd) s
      (encode_request_wrapper pr \<lparr>wrapper_method_id = mid, wrapper_body = ec q\<rparr>)
        = ((Ok (encode_response_wrapper pr w) :: (bytes, Status) result), s1)" "result_of_wrapper w = Ok (er r)"
    using server_invoke_method [OF assms(1,2,3,4), where ?'e = Status] by (auto simp: no_panic_def)
  then show ?thesis
    using assms(5) prost_codec.response_round [OF assms(1)]
    by (auto simp: client_invoke_def sdk_flatten_def api_invoke_def Let_def)
qed

definition same_api :: "StdWasmApiImpl \<Rightarrow> StdWasmApiImpl \<Rightarrow> bool" where
  "same_api s s' \<longleftrightarrow> api_request s' = api_request s \<and> api_lookup_data s' = api_lookup_data s \<and>
     api_response s' = api_response s"

lemma ld_value_ok: "htbl_ok (ld_data d) \<Longrightarrow> ld_value d key = Ok (htbl_map (ld_data d) key)"
  by (simp add: ld_value_def ld_get_def lh.look_ok)

lemma api_methods_at:
  "map_of (api_methods cd) 0 = Some (server_handler (dec_empty cd) (enc_body cd) api_read_request)"
  "map_of (api_methods cd) 1 = Some (server_handler (dec_body cd) (enc_empty cd) api_write_response)"
  "map_of (api_methods cd) 2 = Some (server_handler (dec_text cd) (enc_empty cd) api_log)"
  "map_of (api_methods cd) 3 = Some (server_handler (dec_body cd) (enc_value cd) api_lookup)"
  "map_of (api_methods cd) 4 = Some (server_handler (dec_keys cd) (enc_values cd) api_lookup_multi)"
  "map_of (api_methods cd) 128 = Some (server_handler (dec_test cd) (enc_body cd) api_test)"
  by (simp_all add: api_methods_def)

lemma api_lookup_multi_ok:
  "htbl_ok (ld_data (api_lookup_data s)) \<Longrightarrow> api_lookup_multi s keys = (Ok (map (\<lambda>key.
     case htbl_map (ld_data (api_lookup_data s)) key of Some val \<Rightarrow> \<lparr>bv_value = val, bv_found = True\<rparr>
     | None \<Rightarrow> \<lparr>bv_value = [], bv_found = False\<rparr>) keys), s)"
  unfolding api_lookup_multi_def by (induction keys) (simp_all add: ld_value_ok)

section \<open>A run over a reference API\<close>

text \<open>
  Two runs of an instance over related transports stay related: they end, trap, panic or go on together, and with
  the same memory.
\<close>

abbreviation rel_call :: "('s \<Rightarrow> 't \<Rightarrow> bool) \<Rightarrow> (bytes \<times> 's, 'e) result \<Rightarrow> (bytes \<times> 't, 'e) result \<Rightarrow> bool" where
  "rel_call R \<equiv> rel_sum (=) (rel_prod (=) R)"

abbreviation rel_run ::
  "('s \<Rightarrow> 't \<Rightarrow> bool) \<Rightarrow> ('a \<times> 'i \<times> 's, 'e) result \<Rightarrow> ('a \<times> 'i \<times> 't, 'e) result \<Rightarrow> bool" where
  "rel_run R \<equiv> rel_sum (=) (rel_prod (=) (rel_prod (=) R))"

lemma alloc_and_write_sim:
  assumes "\<And>i s t n r. R s t \<Longrightarrow> call i s n = Some r \<Longrightarrow> \<exists>r'. call' i t n = Some r' \<and> rel_run R r r'"
    and "alloc_and_write eng call i s pp lp buf = Some r" "R s t"
  shows "\<exists>r'. alloc_and_write eng call' i t pp lp buf = Some r' \<and> rel_run R r r'"
proof -
  obtain q where q: "call i s (word_of_nat (length buf)) = Some q"
    using assms(2) by (auto simp: alloc_and_write_def bind_eq_Some_conv)
  from assms(1) [OF assms(3) this] obtain q' where q': "call' i t (word_of_nat (length buf)) = Some q'" "rel_run R q q'"
    by blast
  show ?thesis
    using assms(2) q' q
    by (auto simp: alloc_and_write_def rel_sum.simps split: option.splits prod.splits)
qed

lemma host_invoke_sim:
  assumes tr: "\<And>s t q. R s t \<Longrightarrow> rel_call R (transport s q) (transport' t q)"
    and call: "\<And>i s t n r. R s t \<Longrightarrow> call i s n = Some r \<Longrightarrow> \<exists>r'. call' i t n = Some r' \<and> rel_run R r r'"
    and h: "host_invoke eng transport call a b c d i s = Some r" and R: "R s t"
  shows "\<exists>r'. host_invoke eng transport' call' a b c d i t = Some r' \<and> rel_run R r r'"
proof (cases "OakCaller_new eng i"; cases "read_buffer eng i a b")
  fix u request assume o: "OakCaller_new eng i = Ok u" "read_buffer eng i a b = Ok request"
  from tr [OF R, of request] consider
      (fault) x where "transport s request = Inl x" "transport' t request = Inl x"
    | (ok) res s1 t1 where "transport s request = Ok (res, s1)" "transport' t request = Ok (res, t1)" "R s1 t1"
    by (auto simp: rel_sum.simps)
  then show ?thesis
  proof cases
    case fault
    then show ?thesis using o h by (auto simp: host_invoke_def)
  next
    case ok
    then obtain q where q: "alloc_and_write eng call i s1 c d res = Some q" using h o
      by (auto simp: host_invoke_def bind_eq_Some_conv)
    have "\<exists>q'. alloc_and_write eng call' i t1 c d res = Some q' \<and> rel_run R q q'"
      by (rule alloc_and_write_sim [where R = R, OF _ q ok(3)]) (rule call)
    then obtain q' where "alloc_and_write eng call' i t1 c d res = Some q'" "rel_run R q q'" by blast
    then show ?thesis using h o ok q by (auto simp: host_invoke_def rel_sum.simps split: prod.splits)
  qed
qed (use h R in \<open>auto simp: host_invoke_def\<close>)

lemma wasm_run_sim:
  "wasm_run eng transport i s = Some r \<Longrightarrow> \<forall>s t q. R s t \<longrightarrow> rel_call R (transport s q) (transport' t q) \<Longrightarrow> R s t \<Longrightarrow>
    \<exists>r'. wasm_run eng transport' i t = Some r' \<and> rel_run R r r'"
proof (induction arbitrary: t rule: wasm_run.raw_induct [rotated 1, consumes 1])
  case (1 run eng transport i s r)
  let ?call = "\<lambda>i s len. run eng transport (enter eng i ''alloc'' [len]) s"
  let ?call' = "\<lambda>i t len. wasm_run eng transport' (enter eng i ''alloc'' [len]) t"
  have call: "R s t \<Longrightarrow> ?call i s n = Some r \<Longrightarrow> \<exists>r'. ?call' i t n = Some r' \<and> rel_run R r r'" for i s t n r
    using 1(1,3) by blast
  have tr: "R s t \<Longrightarrow> rel_call R (transport s q) (transport' t q)" for s t q using 1(3) by blast
  show ?case
  proof (cases "\<exists>a b c d j. exec eng i = Some (CallsInvoke a b c d j)")
    case True
    then obtain a b c d j where e: "exec eng i = Some (CallsInvoke a b c d j)" by blast
    then obtain h where h: "host_invoke eng transport ?call a b c d j s = Some h"
      using 1(2) by (auto simp: bind_eq_Some_conv)
    have "\<exists>h'. host_invoke eng transport' ?call' a b c d j t = Some h' \<and> rel_run R h h'"
      by (rule host_invoke_sim [where R = R, OF _ _ h 1(4)]) (erule tr, erule (1) call)
    then obtain h' where h': "host_invoke eng transport' ?call' a b c d j t = Some h'" "rel_run R h h'" by blast
    from h'(2) consider (fault) x where "h = Inl x" "h' = Inl x"
      | (ok) status j1 s1 t1 where "h = Ok (status, j1, s1)" "h' = Ok (status, j1, t1)" "R s1 t1"
      by (auto simp: rel_sum.simps)
    then show ?thesis
    proof cases
      case fault
      then show ?thesis using 1(2) e h h'(1) by (subst wasm_run.simps) auto
    next
      case ok
      then have "run eng transport (resume eng j1 status) s1 = Some r" using 1(2) e h by simp
      from 1(1) [OF this 1(3) ok(3)] show ?thesis using e h'(1) ok by (subst wasm_run.simps) simp
    qed
  next
    case False
    then show ?thesis using 1(2,4) by (subst wasm_run.simps) (auto split: option.splits wasm_event.splits)
  qed
qed

lemma wasm_run_related:
  assumes "\<And>s t q. R s t \<Longrightarrow> rel_call R (transport s q) (transport' t q)" "R s t"
  shows "rel_option (rel_run R) (wasm_run eng transport i s) (wasm_run eng transport' i t)"
proof (cases "wasm_run eng transport i s")
  case None
  have flip: "\<forall>t s q. R\<inverse>\<inverse> t s \<longrightarrow> rel_call R\<inverse>\<inverse> (transport' t q) (transport s q)"
    using assms(1) by (fastforce simp: rel_sum.simps)
  have "wasm_run eng transport' i t = None"
  proof (rule ccontr)
    assume "wasm_run eng transport' i t \<noteq> None"
    then obtain r where "wasm_run eng transport' i t = Some r" by blast
    from wasm_run_sim [OF this flip, of s] assms(2) None show False by auto
  qed
  then show ?thesis using None by simp
next
  case (Some r)
  have "\<forall>s t q. R s t \<longrightarrow> rel_call R (transport s q) (transport' t q)" using assms(1) by blast
  from wasm_run_sim [OF Some this assms(2)] Some show ?thesis by auto
qed

text \<open>
  The reference API of a request keeps the request and the response, and looks keys up in a map.
\<close>

record spec_api =
  sp_request :: bytes
  sp_response :: bytes

definition spec_value :: "(bytes \<rightharpoonup> bytes) \<Rightarrow> bytes \<Rightarrow> BytesValue" where
  "spec_value cur key = (case cur key of
       Some val \<Rightarrow> \<lparr>bv_value = val, bv_found = True\<rparr>
     | None \<Rightarrow> \<lparr>bv_value = [], bv_found = False\<rparr>)"

definition spec_methods :: "api_codec \<Rightarrow> (bytes \<rightharpoonup> bytes) \<Rightarrow> (u32 \<times> spec_api handler) list" where
  "spec_methods cd cur =
     [(0, server_handler (dec_empty cd) (enc_body cd) (\<lambda>s _. (Ok (sp_request s), s))),
      (1, server_handler (dec_body cd) (enc_empty cd) (\<lambda>s body. (Ok (), s\<lparr>sp_response := body\<rparr>))),
      (2, server_handler (dec_text cd) (enc_empty cd) (\<lambda>s _. (Ok (), s))),
      (3, server_handler (dec_body cd) (enc_value cd) (\<lambda>s key. (Ok (cur key), s))),
      (4, server_handler (dec_keys cd) (enc_values cd) (\<lambda>s keys. (Ok (map (spec_value cur) keys), s))),
      (128, server_handler (dec_test cd) (enc_body cd) (\<lambda>s q. (Ok (if snd q then fst q else []), s)))]"

definition spec_invoke ::
  "prost \<Rightarrow> api_codec \<Rightarrow> (bytes \<rightharpoonup> bytes) \<Rightarrow> spec_api \<Rightarrow> bytes \<Rightarrow> (bytes \<times> spec_api, 'e) result" where
  "spec_invoke pr cd cur s q =
     (case server_invoke pr (spec_methods cd cur) s q of (r, s) \<Rightarrow> and_then r (\<lambda>response. Ok (response, s)))"

text \<open>The response of a module to a request on the data of a map.\<close>

definition spec_response ::
  "('m, 'i) wasmi \<Rightarrow> prost \<Rightarrow> api_codec \<Rightarrow> 'm \<Rightarrow> (bytes \<rightharpoonup> bytes) \<Rightarrow> bytes \<Rightarrow> (bytes, Status) result option" where
  "spec_response eng pr cd m cur request = (case OakLinker_instantiate eng m of
       Inl x \<Rightarrow> Some (Inl x)
     | Inr i \<Rightarrow> map_option (\<lambda>r. and_then r (\<lambda>(_, _, s). Ok (sp_response s)))
         (wasm_run eng (spec_invoke pr cd cur) (enter eng i ''main'' []) \<lparr>sp_request = request, sp_response = []\<rparr>))"

definition api_shows :: "(bytes \<rightharpoonup> bytes) \<Rightarrow> StdWasmApiImpl \<Rightarrow> spec_api \<Rightarrow> bool" where
  "api_shows cur s t \<longleftrightarrow> htbl_ok (ld_data (api_lookup_data s)) \<and> htbl_map (ld_data (api_lookup_data s)) = cur \<and>
     api_request s = sp_request t \<and> api_response s = sp_response t"

lemma api_invoke_sim:
  assumes "api_shows cur s t"
  shows "rel_call (api_shows cur) (api_invoke pr cd s q) (spec_invoke pr cd cur t q)"
proof (cases "decode_request_wrapper pr q")
  case None
  with assms show ?thesis
    by (auto simp: api_invoke_def spec_invoke_def server_invoke_def invoke_inner_def api_shows_def rel_sum.simps
        and_then_def split: sum.split)
next
  case (Some w)
  have v: "\<And>key. ld_value (api_lookup_data s) key = (Ok (cur key) :: (bytes option, Status) result)"
    and vs: "\<And>keys. api_lookup_multi s keys = (Ok (map (spec_value cur) keys), s)"
    using assms by (auto simp: api_shows_def ld_value_ok api_lookup_multi_ok spec_value_def)
  note ds = api_invoke_def spec_invoke_def server_invoke_def invoke_inner_def server_handler_def
    api_read_request_def api_write_response_def api_log_def api_lookup_def api_test_def
  let ?k = "wrapper_method_id w"
  consider "?k \<in> {0, 1, 2, 3, 4, 128}" | "map_of (api_methods cd) ?k = None" "map_of (spec_methods cd cur) ?k = None"
    by (cases "?k \<in> {0, 1, 2, 3, 4, 128}") (auto simp: api_methods_def spec_methods_def)
  then show ?thesis
  proof cases
    case 1
    then show ?thesis
      using assms Some v vs
      by (elim insertE) (auto simp: ds api_methods_def spec_methods_def api_shows_def rel_sum.simps and_then_def
          split: sum.split option.split)
  next
    case 2
    then show ?thesis using assms Some
      by (auto simp: ds api_shows_def rel_sum.simps and_then_def split: sum.split)
  qed
qed

lemma handle_invoke_spec:
  assumes "htbl_ok (ld_data (create_lookup_data mgr))" "htbl_map (ld_data (create_lookup_data mgr)) = cur"
  shows "map_option (\<lambda>r. and_then r (\<lambda>response. Ok (res_body response))) (handle_invoke eng pr cd m mgr request) =
    spec_response eng pr cd m cur request"
proof (cases "OakLinker_instantiate eng m")
  case (Inl x)
  then show ?thesis by (simp add: handle_invoke_def run_module_def spec_response_def)
next
  case (Inr i)
  then have main: "typed_func eng i ''main'' [] []"
    by (auto simp: OakLinker_instantiate_def result_simps)
  let ?s = "create_wasm_api mgr request" and ?t = "\<lparr>sp_request = request, sp_response = []\<rparr>"
  have st: "api_shows cur ?s ?t" using assms by (simp add: api_shows_def create_wasm_api_def)
  have "rel_option (rel_run (api_shows cur) :: _ \<Rightarrow> (_, Status) result \<Rightarrow> bool)
      (wasm_run eng (api_invoke pr cd) (enter eng i ''main'' []) ?s)
      (wasm_run eng (spec_invoke pr cd cur) (enter eng i ''main'' []) ?t)"
    by (rule wasm_run_related) (erule api_invoke_sim, rule st)
  then show ?thesis using Inr main
    by (auto simp: handle_invoke_def run_module_def spec_response_def rel_option_iff rel_sum.simps api_shows_def
        Response_create_def split: option.splits)
qed

section \<open>A concrete module and engine\<close>

text \<open>Byte strings and lists of them, each byte marked by a one and each string closed by a zero.\<close>

fun demo_strings :: "bytes list \<Rightarrow> bytes" where
  "demo_strings [] = []"
| "demo_strings ([] # ks) = 0 # demo_strings ks"
| "demo_strings ((b # k) # ks) = 1 # b # demo_strings (k # ks)"

fun demo_unstrings :: "bytes \<Rightarrow> bytes list option" where
  "demo_unstrings [] = Some []"
| "demo_unstrings [_] = Some [[]]"
| "demo_unstrings (t # b # bs) =
     (if t = 0 then map_option (Cons []) (demo_unstrings (b # bs))
      else map_option (\<lambda>ks. (b # hd ks) # tl ks) (demo_unstrings bs))"

lemma demo_strings_round: "demo_unstrings (demo_strings ks) = Some ks"
proof (induction ks rule: demo_strings.induct)
  case (2 ks)
  then show ?case by (cases "demo_strings ks") auto
qed auto

definition demo_flag :: "bool \<times> bytes \<Rightarrow> bytes" where
  "demo_flag x = (if fst x then 1 else 0) # snd x"

definition demo_unflag :: "bytes \<Rightarrow> bool \<times> bytes" where
  "demo_unflag bs = (hd bs = 1, tl bs)"

lemma demo_flag_round [simp]: "demo_unflag (demo_flag x) = x"
  by (cases x) (simp add: demo_flag_def demo_unflag_def)

definition demo_api_codec :: api_codec where
  "demo_api_codec = \<lparr>
     enc_empty = (\<lambda>_. []), dec_empty = (\<lambda>_. Some ()),
     enc_body = (\<lambda>b. b), dec_body = Some,
     enc_text = as_bytes, dec_text = (\<lambda>bs. Some (map char_of_byte bs)),
     enc_value = (\<lambda>v. case v of None \<Rightarrow> [] | Some b \<Rightarrow> 1 # b),
     dec_value = (\<lambda>bs. Some (case bs of [] \<Rightarrow> None | _ # b \<Rightarrow> Some b)),
     enc_keys = demo_strings, dec_keys = demo_unstrings,
     enc_values = (\<lambda>vs. demo_strings (map (\<lambda>v. demo_flag (bv_found v, bv_value v)) vs)),
     dec_values = (\<lambda>bs. map_option (map (\<lambda>b. \<lparr>bv_value = snd (demo_unflag b), bv_found = fst (demo_unflag b)\<rparr>))
       (demo_unstrings bs)),
     enc_test = (\<lambda>q. demo_flag (snd q, fst q)), dec_test = (\<lambda>bs. Some (snd (demo_unflag bs), fst (demo_unflag bs)))\<rparr>"

interpretation demo_api: codec_pair "enc_values demo_api_codec" "dec_values demo_api_codec"
  by unfold_locales (simp add: demo_api_codec_def demo_strings_round comp_def map_idI)

lemma demo_api_codec_ok: "api_codec_ok demo_api_codec"
  unfolding api_codec_ok_def
  by (intro conjI demo_api.codec_pair_axioms)
    (unfold_locales, simp add: demo_api_codec_def demo_strings_round split: option.split)+

text \<open>
  Instances with a memory of 24 bytes and a stack of places in the program. \<^verbatim>\<open>main\<close> makes one call with
  the request at the start of the memory, \<^verbatim>\<open>alloc\<close> always gives the last eight bytes.
\<close>

fun demo_exec :: "nat list \<times> bytes \<Rightarrow> (nat list \<times> bytes) wasm_event option" where
  "demo_exec (pc # stack, m) =
     (if pc = 0 then Some (CallsInvoke 0 5 8 12 (1 # stack, m))
      else if pc = 1 then Some (Returns 0 (stack, m))
      else Some (Returns 16 (stack, m)))"
| "demo_exec ([], m) = None"

definition demo_wasmi :: "(bytes, nat list \<times> bytes) wasmi" where
  "demo_wasmi = \<lparr>
     module_new = (\<lambda>bs. if length bs = 24 then Some bs else None),
     link = (\<lambda>m. Some ([], m)), no_start = Some,
     get_export = (\<lambda>_ name. if name = ''main'' then Some (ExternFunc [] [])
       else if name = ''alloc'' then Some (ExternFunc [I32] [I32]) else if name = ''memory'' then Some ExternMemory else None),
     enter = (\<lambda>(stack, m) name _. ((if name = ''main'' then 0 else 2) # stack, m)),
     exec = demo_exec, resume = (\<lambda>i _. i),
     memory_read = (\<lambda>(_, m) p n. if p + n \<le> length m then Some (slice m p n) else None),
     memory_write = (\<lambda>(stack, m) p bs. if p + length bs \<le> length m then Some (stack, overwrite m p bs) else None)\<rparr>"

interpretation demo_memory: wasm_memory snd "memory_read demo_wasmi" "memory_write demo_wasmi"
  by unfold_locales (auto simp: demo_wasmi_def split: prod.splits)

lemma demo_wasmi_simps [simp]:
  "link demo_wasmi m = Some ([], m)" "no_start demo_wasmi i = Some i" "exec demo_wasmi = demo_exec"
  "resume demo_wasmi i c = i" "enter demo_wasmi (stack, m) name args = ((if name = ''main'' then 0 else 2) # stack, m)"
  "get_export demo_wasmi i ''main'' = Some (ExternFunc [] [])"
  "get_export demo_wasmi i ''alloc'' = Some (ExternFunc [I32] [I32])"
  "get_export demo_wasmi i ''memory'' = Some ExternMemory"
  "memory_write demo_wasmi (stack, m) p bs = (if p + length bs \<le> length m then Some (stack, overwrite m p bs) else None)"
  by (simp_all add: demo_wasmi_def)

lemma demo_caller: "OakCaller_new demo_wasmi i = Ok ()"
  by (simp add: OakCaller_new_def)

section \<open>Properties\<close>

text \<open>C38. A request is handled in isolation: when the module's run ends, the response is the last one it wrote,
  or empty if it wrote none, however the run ended; every call of the API was answered from the request
  and the lookup data at the start alone.\<close>

theorem module_response:
  fixes eng :: "('m, 'i) wasmi"
  assumes "run_module eng pr cd m (create_wasm_api mgr request) = Some (Ok s)"
  shows "handle_invoke eng pr cd m mgr request =
      Some (Ok (Response_create Success (last_written pr cd [] (api_calls s)))) \<and>
    (\<forall>(q, a) \<in> set (api_calls s). api_answer pr cd (create_wasm_api mgr request) q = Ok a)"
proof -
  let ?s = "create_wasm_api mgr request"
  obtain i v i' where "wasm_run eng (api_invoke pr cd) (enter eng i ''main'' []) ?s =
      (Some (Ok (v, i', s)) :: (u32 option \<times> 'i \<times> StdWasmApiImpl, Status) result option)"
    using assms by (cases "OakLinker_instantiate eng m")
      (auto simp: run_module_def bind_eq_Some_conv result_simps split: if_splits prod.splits)
  then have "api_extends pr cd ?s s"
    by (rule wasm_run_relates [OF api_extends_preorder _ _ refl]) (blast intro: api_invoke_extends)
  then have "api_response s = last_written pr cd [] (api_calls s)"
      "\<forall>(q, a) \<in> set (api_calls s). api_answer pr cd ?s q = Ok a"
    by (auto simp: api_extends_def create_wasm_api_def)
  with assms show ?thesis by (simp add: handle_invoke_def)
qed

text \<open>The module's memory starts with a call of \<^verbatim>\<open>write_response\<close> with one byte.\<close>

lemma demo_run:
  "\<exists>s. run_module demo_wasmi demo_prost demo_api_codec ([1, 0, 0, 0, 7] @ replicate 19 0) (create_wasm_api new_empty [3]) =
     Some (Ok s) \<and> api_calls s = [([1, 0, 0, 0, 7], [1])] \<and> api_response s = [7]"
proof -
  let ?m = "[1, 0, 0, 0, 7] @ replicate 19 0 :: bytes"
  let ?s = "create_wasm_api new_empty [3]"
  let ?s' = "?s\<lparr>api_response := [7], api_calls := [([1, 0, 0, 0, 7], [1])]\<rparr>"
  let ?t = "api_invoke demo_prost demo_api_codec :: StdWasmApiImpl \<Rightarrow> bytes \<Rightarrow> (bytes \<times> StdWasmApiImpl, Status) result"
  have l: "OakLinker_instantiate demo_wasmi ?m = Ok ([], ?m)"
    by (simp add: OakLinker_instantiate_def typed_func_def)
  have a: "?t ?s [1, 0, 0, 0, 7] = Ok ([1], ?s')"
    by (simp add: api_invoke_def server_invoke_def invoke_inner_def demo_prost_def api_methods_def server_handler_def
        demo_api_codec_def api_write_response_def create_wasm_api_def)
  have r: "read_buffer demo_wasmi ([1], ?m) 0 5 = Ok [1, 0, 0, 0, 7]"
    by (simp add: read_buffer_in_memory [OF demo_memory.wasm_memory_axioms] slice_def)
  obtain m' where w: "write_out demo_wasmi ([1], ?m) 16 8 12 [1] = (Ok (), [1], m')"
    by (simp add: write_out_def wasm_write_buffer_def wasm_write_u32_def)
  have "host_invoke demo_wasmi ?t (\<lambda>i s len. wasm_run demo_wasmi ?t (enter demo_wasmi i ''alloc'' [len]) s)
      0 5 8 12 ([1], ?m) ?s = Some (Ok (0, ([1], m'), ?s'))"
    using a r w by (simp add: host_invoke_def alloc_and_write_def demo_caller from_status_code_def wasm_run.simps)
  then have "wasm_run demo_wasmi ?t ([0], ?m) ?s = Some (Ok (Some 0, ([], m'), ?s'))"
    by (subst wasm_run.simps) (simp, subst wasm_run.simps, simp)
  then show ?thesis using l by (simp add: run_module_def typed_func_def)
qed

theorem module_response_witness:
  "handle_invoke demo_wasmi demo_prost demo_api_codec ([1, 0, 0, 0, 7] @ replicate 19 0) new_empty [3] =
     Some (Ok (Response_create Success [7]))"
proof -
  obtain s where s: "run_module demo_wasmi demo_prost demo_api_codec ([1, 0, 0, 0, 7] @ replicate 19 0)
      (create_wasm_api new_empty [3]) = Some (Ok s)" "api_calls s = [([1, 0, 0, 0, 7], [1])]"
    using demo_run by blast
  have "written demo_prost demo_api_codec [1, 0, 0, 0, 7] = Some [7]"
    by (simp add: written_def demo_prost_def demo_api_codec_def)
  with module_response [OF s(1)] s(2) show ?thesis by simp
qed

text \<open>C39. A call of the API through the module's memory: the SDK gets exactly the answer of the API, from the
  buffer that the module's own allocator gave out, if the buffer and the two result words lie in the
  memory and do not overlap; a request outside the memory is refused and changes nothing.\<close>

theorem guest_call_delivers:
  assumes "wasm_memory mem (memory_read eng) (memory_write eng)" "OakCaller_new eng i = Ok ()"
    and "transport s (slice (mem i) (unat rp) (unat rl)) = Ok (response, s1)" "length response < 2 ^ 32"
    and "call i s1 (word_of_nat (length response)) = Some (Ok (Some dest, i1, s2))"
    and "unat dest + length response \<le> length (mem i1)" "unat pp + 4 \<le> length (mem i1)" "unat lp + 4 \<le> length (mem i1)"
    and "ranges_apart (unat pp) 4 (unat lp) 4" "ranges_apart (unat dest) (length response) (unat pp) 4"
      "ranges_apart (unat dest) (length response) (unat lp) 4"
  shows "if unat rp + unat rl \<le> length (mem i)
    then \<exists>i'. sdk_invoke eng (host_invoke eng transport call) rp rl pp lp i s = Some (Ok (Ok response, i', s2))
    else sdk_invoke eng (host_invoke eng transport call) rp rl pp lp i s =
      Some (Ok (Error (Status_new InvalidArgument), i, s))"
proof (cases "unat rp + unat rl \<le> length (mem i)")
  case True
  obtain i' where w: "write_out eng i1 dest pp lp response = (Ok (), i')"
      "memory_read eng i' (unat pp) 4 = Some (le_bytes 4 (unat dest))"
      "memory_read eng i' (unat lp) 4 = Some (le_bytes 4 (length response))"
      "memory_read eng i' (unat dest) (length response) = Some response"
    using write_out_delivers [OF assms(1,4,6-11)] by blast
  have "host_invoke eng transport call rp rl pp lp i s = Some (Ok (0, i', s2))"
    unfolding host_invoke_Ok alloc_and_write_Ok
    using assms(2,3,5) w(1) True
    by (auto simp: read_buffer_in_memory [OF assms(1)] from_status_code_def intro!: exI [of _ dest] exI [of _ i1])
  then show ?thesis
    using True w(2-4) assms(4) unsigned_less [of dest, where ?'a = nat]
    by (simp add: sdk_invoke_def StatusCode_from_u32_def guest_load_def)
next
  case False
  then have "host_invoke eng transport call rp rl pp lp i s = Some (Ok (3, i, s))"
    unfolding host_invoke_Ok using assms(2) by (simp add: read_buffer_in_memory [OF assms(1)] from_status_code_def)
  then show ?thesis using False by (simp add: sdk_invoke_def StatusCode_from_u32_def)
qed

text \<open>The module reads its request.\<close>

theorem guest_call_delivers_witness:
  "\<exists>i' s'. sdk_invoke demo_wasmi (host_invoke demo_wasmi (api_invoke demo_prost demo_api_codec)
       (\<lambda>i s n. Some (Ok (Some 16, i, s)))) 0 4 8 12 ([1], replicate 24 0) (create_wasm_api new_empty [3, 4]) =
     (Some (Ok (Ok [1, 3, 4], i', s')) :: (_, Status) result option)"
proof -
  have s: "slice (replicate 24 0 :: bytes) 0 4 = [0, 0, 0, 0]" by (simp add: slice_def numeral_eq_Suc)
  have a: "\<exists>s'. api_invoke demo_prost demo_api_codec (create_wasm_api new_empty [3, 4]) [0, 0, 0, 0] =
      (Ok ([1, 3, 4], s') :: (bytes \<times> StdWasmApiImpl, Status) result)"
    by (simp add: api_invoke_def server_invoke_def invoke_inner_def demo_prost_def api_methods_def server_handler_def
        demo_api_codec_def api_read_request_def create_wasm_api_def)
  then obtain s' where a: "api_invoke demo_prost demo_api_codec (create_wasm_api new_empty [3, 4]) [0, 0, 0, 0] =
      (Ok ([1, 3, 4], s') :: (bytes \<times> StdWasmApiImpl, Status) result)" by blast
  show ?thesis
    using guest_call_delivers [OF demo_memory.wasm_memory_axioms demo_caller, of
        "api_invoke demo_prost demo_api_codec :: StdWasmApiImpl \<Rightarrow> bytes \<Rightarrow> (bytes \<times> StdWasmApiImpl, Status) result"
        "create_wasm_api new_empty [3, 4]" "([1], replicate 24 0)" 0 4 "[1, 3, 4]" s'
        "\<lambda>i s n. Some (Ok (Some 16, i, s))" 16 "([1], replicate 24 0)" s' 8 12] a s
    by (auto simp: ranges_apart_def)
qed

text \<open>C40. What the module gets through the SDK: its request, the value of each key in the lookup data or the
  information that there is none, for one key and for several in their order; and a response it writes is the
  one that is kept.\<close>

theorem sdk_calls_answered:
  assumes "prost_ok pr" "api_codec_ok cd" "htbl_ok (ld_data (api_lookup_data s))"
  shows "(\<exists>s'. sdk_read_request pr cd (api_invoke pr cd) s = Ok (api_request s, s') \<and> same_api s s') \<and>
    (\<exists>s'. sdk_storage_get_item pr cd (api_invoke pr cd) s key =
        Ok (htbl_map (ld_data (api_lookup_data s)) key, s') \<and> same_api s s') \<and>
    (\<exists>s'. sdk_storage_get_items pr cd (api_invoke pr cd) s keys =
        Ok (map (htbl_map (ld_data (api_lookup_data s))) keys, s') \<and> same_api s s') \<and>
    (\<exists>s'. sdk_write_response pr cd (api_invoke pr cd) s body = Ok ((), s') \<and> same_api (s\<lparr>api_response := body\<rparr>) s') \<and>
    (\<exists>s'. sdk_write_log_message pr cd (api_invoke pr cd) s message = Ok ((), s') \<and> same_api s s') \<and>
    (\<exists>s'. sdk_testing pr cd (api_invoke pr cd) s body echo = Ok (if echo then body else [], s') \<and> same_api s s')"
proof -
  note c = api_codecD [OF assms(2)] and m = sdk_call_method [OF assms(1)]
  let ?t = "htbl_map (ld_data (api_lookup_data s))"
  have "\<exists>s'. sdk_read_request pr cd (api_invoke pr cd) s = Ok (api_request s, s') \<and> same_api s s'"
    using m [where ec = "enc_empty cd" and dc = "dec_body cd" and s = s, OF api_methods_at(1) c(1) api_read_request_def c(2)] by (auto simp: sdk_read_request_def same_api_def)
  moreover have "\<exists>s'. sdk_storage_get_item pr cd (api_invoke pr cd) s key = Ok (?t key, s') \<and> same_api s s'"
    using m [where ec = "enc_body cd" and dc = "dec_value cd" and s = s and q = key, OF api_methods_at(4) c(2) _ c(4)] assms(3)
    by (auto simp: sdk_storage_get_item_def same_api_def api_lookup_def ld_value_ok)
  moreover have "\<exists>s'. sdk_storage_get_items pr cd (api_invoke pr cd) s keys = Ok (map ?t keys, s') \<and> same_api s s'"
    using m [where ec = "enc_keys cd" and dc = "dec_values cd" and q = keys,
        OF api_methods_at(5) c(5) api_lookup_multi_ok [OF assms(3)] c(6)]
    by (auto simp: sdk_storage_get_items_def same_api_def bytes_value_to_option_def split: option.splits)
  moreover have "\<exists>s'. sdk_write_response pr cd (api_invoke pr cd) s body = Ok ((), s') \<and> same_api (s\<lparr>api_response := body\<rparr>) s'"
    using m [where ec = "enc_body cd" and dc = "dec_empty cd" and s = s and q = body,
        OF api_methods_at(2) c(2) api_write_response_def c(1)] by (auto simp: sdk_write_response_def same_api_def)
  moreover have "\<exists>s'. sdk_write_log_message pr cd (api_invoke pr cd) s message = Ok ((), s') \<and> same_api s s'"
    using m [where ec = "enc_text cd" and dc = "dec_empty cd" and s = s and q = message, OF api_methods_at(3) c(3) api_log_def c(1)] by (auto simp: sdk_write_log_message_def same_api_def)
  moreover have "\<exists>s'. sdk_testing pr cd (api_invoke pr cd) s body echo = Ok (if echo then body else [], s') \<and> same_api s s'"
    using m [where ec = "enc_test cd" and dc = "dec_body cd" and s = s and q = "(body, echo)",
        OF api_methods_at(6) c(7) api_test_def c(2)] by (auto simp: sdk_testing_def same_api_def)
  ultimately show ?thesis by blast
qed

theorem sdk_calls_answered_witness:
  "\<exists>mgr s'. mgr_run new_empty [Insert 7 [1] [2], Finish] = Some (Ok mgr) \<and>
     sdk_storage_get_items demo_prost demo_api_codec (api_invoke demo_prost demo_api_codec) (create_wasm_api mgr [3]) [[1], [5]] =
       Ok ([Some [2], None], s')"
proof -
  have "run_can new_empty [Insert 7 [1] [2], Finish]"
    by (simp add: can_insert_def new_empty_def builder_default_def htbl_default_def INDEX_SIZE_def)
  from mgr_run_refines [OF new_empty_ok(1) this] obtain mgr where
    m: "mgr_run new_empty [Insert 7 [1] [2], Finish] = Some (Ok mgr)" "mgr_ok mgr" "mgr_abs mgr = ([[1] \<mapsto> [2]], Map.empty)"
    by (auto simp: new_empty_ok)
  then have t: "htbl_ok (ld_data (api_lookup_data (create_wasm_api mgr [3])))"
      "htbl_map (ld_data (api_lookup_data (create_wasm_api mgr [3]))) = [[1] \<mapsto> [2]]"
    by (simp_all add: mgr_ok_def mgr_abs_def create_wasm_api_def create_lookup_data_def)
  from sdk_calls_answered [OF prost_ok_demo demo_api_codec_ok t(1), where keys = "[[1], [5]]" and key = "[1]"
      and body = "[]" and message = "[]" and echo = True] m(1) show ?thesis
    unfolding t(2) by auto
qed

end
