(* ===== verification/Oak_Hpke.thy ===== *)
theory Oak_Hpke
  imports Oak_Prelude
begin

text \<open>
  Hybrid public key encryption of requests and responses: \<^verbatim>\<open>oak_crypto/src/hpke\<close>,
  \<^verbatim>\<open>oak_crypto/src/encryptor.rs\<close> and the key handle of
  \<^verbatim>\<open>oak_crypto/src/encryption_key.rs\<close>. The HPKE and AES-GCM crates are parameters, with keys,
  encapsulated keys and contexts as values of one type; random bytes are arguments.
\<close>

record 'k hpke_crates =
  public_from_bytes :: "bytes \<Rightarrow> 'k option"
  public_to_bytes :: "'k \<Rightarrow> bytes"
  public_of_private :: "'k \<Rightarrow> 'k"
  setup_sender :: "'k \<Rightarrow> bytes \<Rightarrow> bytes \<Rightarrow> ('k \<times> 'k) option"
  setup_receiver :: "'k \<Rightarrow> 'k \<Rightarrow> bytes \<Rightarrow> 'k option"
  encapped_to_bytes :: "'k \<Rightarrow> bytes"
  encapped_from_bytes :: "bytes \<Rightarrow> 'k option"
  context_export :: "'k \<Rightarrow> bytes \<Rightarrow> nat \<Rightarrow> bytes option"
  gcm_encrypt :: "bytes \<Rightarrow> bytes \<Rightarrow> bytes \<Rightarrow> bytes \<Rightarrow> bytes option"
  gcm_decrypt :: "bytes \<Rightarrow> bytes \<Rightarrow> bytes \<Rightarrow> bytes \<Rightarrow> bytes option"

text \<open>Documented behaviour: public and encapsulated keys survive serialisation; the receiver with the
  private key gets a context with the secrets of the sender's; decryption inverts encryption under
  the same key, nonce and associated data.\<close>

locale hpke_scheme =
  fixes pk_from :: "bytes \<Rightarrow> 'k option" and pk_to :: "'k \<Rightarrow> bytes" and public :: "'k \<Rightarrow> 'k"
    and sender :: "'k \<Rightarrow> bytes \<Rightarrow> bytes \<Rightarrow> ('k \<times> 'k) option" and receiver :: "'k \<Rightarrow> 'k \<Rightarrow> bytes \<Rightarrow> 'k option"
    and enc_to :: "'k \<Rightarrow> bytes" and enc_from :: "bytes \<Rightarrow> 'k option"
    and export :: "'k \<Rightarrow> bytes \<Rightarrow> nat \<Rightarrow> bytes option"
    and encrypt decrypt :: "bytes \<Rightarrow> bytes \<Rightarrow> bytes \<Rightarrow> bytes \<Rightarrow> bytes option"
  assumes public_round: "pk_from (pk_to (public sk)) = Some (public sk)"
    and agreement: "sender (public sk) info r = Some (enc, s) \<Longrightarrow>
      enc_from (enc_to enc) = Some enc \<and> (\<exists>t. receiver sk enc info = Some t \<and> export t = export s)"
    and decrypts: "encrypt k iv m a = Some c \<Longrightarrow> decrypt k iv c a = Some m"

abbreviation hpke_ok :: "('k, 'z) hpke_crates_scheme \<Rightarrow> bool" where
  "hpke_ok cr \<equiv> hpke_scheme (public_from_bytes cr) (public_to_bytes cr) (public_of_private cr) (setup_sender cr)
     (setup_receiver cr) (encapped_to_bytes cr) (encapped_from_bytes cr) (context_export cr) (gcm_encrypt cr)
     (gcm_decrypt cr)"

section \<open>Authenticated encryption\<close>

definition aead_encrypt :: "('k, 'z) hpke_crates_scheme \<Rightarrow> bytes \<Rightarrow> bytes \<Rightarrow> bytes \<Rightarrow> bytes \<Rightarrow> bytes anyhow" where
  "aead_encrypt cr secret_key nonce plaintext associated_data =
     ok_or (gcm_encrypt cr secret_key nonce plaintext associated_data) [''couldn't encrypt data'']"

definition aead_decrypt :: "('k, 'z) hpke_crates_scheme \<Rightarrow> bytes \<Rightarrow> bytes \<Rightarrow> bytes \<Rightarrow> bytes \<Rightarrow> bytes anyhow" where
  "aead_decrypt cr secret_key nonce ciphertext associated_data =
     ok_or (gcm_decrypt cr secret_key nonce ciphertext associated_data) [''couldn't decrypt data'']"

section \<open>Contexts\<close>

definition OAK_HPKE_INFO :: bytes where
  "OAK_HPKE_INFO = as_bytes ''Oak Hybrid Public Key Encryption v1''"

text \<open>The sender's and the recipient's context have the same two keys.\<close>

record hpke_context =
  request_key :: bytes
  response_key :: bytes

definition setup_base_sender ::
  "('k, 'z) hpke_crates_scheme \<Rightarrow> bytes \<Rightarrow> bytes \<Rightarrow> bytes \<Rightarrow> (bytes \<times> hpke_context) anyhow" where
  "setup_base_sender cr serialized_recipient_public_key info random =
     and_then (ok_or (public_from_bytes cr serialized_recipient_public_key)
       [''couldn't deserialize recipient public key'']) (\<lambda>recipient_public_key.
     and_then (ok_or (setup_sender cr recipient_public_key info random) [''couldn't create sender context''])
       (\<lambda>(encapsulated_public_key, sender_context).
     and_then (ok_or (context_export cr sender_context (as_bytes ''request_key'') 32)
       [''couldn't export request key'']) (\<lambda>request.
     and_then (ok_or (context_export cr sender_context (as_bytes ''response_key'') 32)
       [''couldn't export response key'']) (\<lambda>response.
     Ok (encapped_to_bytes cr encapsulated_public_key, \<lparr>request_key = request, response_key = response\<rparr>)))))"

definition setup_base_recipient ::
  "('k, 'z) hpke_crates_scheme \<Rightarrow> bytes \<Rightarrow> 'k \<Rightarrow> bytes \<Rightarrow> hpke_context anyhow" where
  "setup_base_recipient cr serialized_encapsulated_public_key recipient_private_key info =
     and_then (ok_or (encapped_from_bytes cr serialized_encapsulated_public_key)
       [''couldn't deserialize the encapsulated public key'']) (\<lambda>encapsulated_public_key.
     and_then (ok_or (setup_receiver cr recipient_private_key encapsulated_public_key info)
       [''couldn't create recipient context'']) (\<lambda>recipient_context.
     and_then (ok_or (context_export cr recipient_context (as_bytes ''request_key'') 32)
       [''couldn't export request key'']) (\<lambda>request.
     and_then (ok_or (context_export cr recipient_context (as_bytes ''response_key'') 32)
       [''couldn't export response key'']) (\<lambda>response.
     Ok \<lparr>request_key = request, response_key = response\<rparr>))))"

definition sender_seal ::
  "('k, 'z) hpke_crates_scheme \<Rightarrow> hpke_context \<Rightarrow> bytes \<Rightarrow> bytes \<Rightarrow> bytes \<Rightarrow> bytes anyhow" where
  "sender_seal cr ctx nonce plaintext associated_data =
     context_of ''couldn't encrypt request message'' (aead_encrypt cr (request_key ctx) nonce plaintext associated_data)"

definition sender_open ::
  "('k, 'z) hpke_crates_scheme \<Rightarrow> hpke_context \<Rightarrow> bytes \<Rightarrow> bytes \<Rightarrow> bytes \<Rightarrow> bytes anyhow" where
  "sender_open cr ctx nonce ciphertext associated_data =
     context_of ''couldn't decrypt response message'' (aead_decrypt cr (response_key ctx) nonce ciphertext associated_data)"

definition recipient_open ::
  "('k, 'z) hpke_crates_scheme \<Rightarrow> hpke_context \<Rightarrow> bytes \<Rightarrow> bytes \<Rightarrow> bytes \<Rightarrow> bytes anyhow" where
  "recipient_open cr ctx nonce ciphertext associated_data =
     context_of ''couldn't decrypt request message'' (aead_decrypt cr (request_key ctx) nonce ciphertext associated_data)"

definition recipient_seal ::
  "('k, 'z) hpke_crates_scheme \<Rightarrow> hpke_context \<Rightarrow> bytes \<Rightarrow> bytes \<Rightarrow> bytes \<Rightarrow> bytes anyhow" where
  "recipient_seal cr ctx nonce plaintext associated_data =
     context_of ''couldn't encrypt response message'' (aead_encrypt cr (response_key ctx) nonce plaintext associated_data)"

definition deserialize_nonce :: "bytes \<Rightarrow> bytes anyhow" where
  "deserialize_nonce nonce = (if length nonce = 12 then Ok nonce else Error [''incorrect nonce size''])"

definition generate_recipient_context ::
  "('k, 'z) hpke_crates_scheme \<Rightarrow> 'k \<Rightarrow> bytes \<Rightarrow> hpke_context anyhow" where
  "generate_recipient_context cr private_key encapsulated_public_key =
     context_of ''couldn't generate recipient crypto context''
       (setup_base_recipient cr encapsulated_public_key private_key OAK_HPKE_INFO)"

section \<open>Encryptors\<close>

record aead_encrypted_message =
  em_ciphertext :: bytes
  em_associated_data :: bytes
  em_nonce :: bytes

record encrypted_request =
  req_message :: "aead_encrypted_message option"
  req_encapsulated_key :: "bytes option"

record encrypted_response =
  res_message :: "aead_encrypted_message option"

record client_encryptor =
  ce_encapsulated_key :: "bytes option"
  ce_context :: hpke_context

definition client_create :: "('k, 'z) hpke_crates_scheme \<Rightarrow> bytes \<Rightarrow> bytes \<Rightarrow> client_encryptor anyhow" where
  "client_create cr serialized_server_public_key random =
     and_then (context_of ''couldn't create sender crypto context''
       (setup_base_sender cr serialized_server_public_key OAK_HPKE_INFO random)) (\<lambda>(key, sender_context).
     Ok \<lparr>ce_encapsulated_key = Some key, ce_context = sender_context\<rparr>)"

definition client_encrypt ::
  "('k, 'z) hpke_crates_scheme \<Rightarrow> client_encryptor \<Rightarrow> bytes \<Rightarrow> bytes \<Rightarrow> bytes
     \<Rightarrow> (encrypted_request \<times> client_encryptor) anyhow" where
  "client_encrypt cr self nonce plaintext associated_data =
     and_then (context_of ''couldn't encrypt request''
       (sender_seal cr (ce_context self) nonce plaintext associated_data)) (\<lambda>ciphertext.
     Ok (\<lparr>req_message = Some \<lparr>em_ciphertext = ciphertext, em_associated_data = associated_data, em_nonce = nonce\<rparr>,
         req_encapsulated_key = ce_encapsulated_key self\<rparr>,
       self\<lparr>ce_encapsulated_key := None\<rparr>))"

definition client_decrypt ::
  "('k, 'z) hpke_crates_scheme \<Rightarrow> client_encryptor \<Rightarrow> encrypted_response \<Rightarrow> (bytes \<times> bytes) anyhow" where
  "client_decrypt cr self encrypted_response =
     and_then (ok_or (res_message encrypted_response) [''response doesn't contain encrypted message'']) (\<lambda>m.
     and_then (context_of ''couldn't deserialize nonce'' (deserialize_nonce (em_nonce m))) (\<lambda>nonce.
     and_then (context_of ''couldn't decrypt response''
       (sender_open cr (ce_context self) nonce (em_ciphertext m) (em_associated_data m))) (\<lambda>plaintext.
     Ok (plaintext, em_associated_data m))))"

text \<open>A server encryptor is its recipient context.\<close>

definition server_decrypt_inner ::
  "('k, 'z) hpke_crates_scheme \<Rightarrow> hpke_context \<Rightarrow> encrypted_request \<Rightarrow> (bytes \<times> bytes) anyhow" where
  "server_decrypt_inner cr self encrypted_request =
     and_then (ok_or (req_message encrypted_request) [''request doesn't contain encrypted message'']) (\<lambda>m.
     and_then (context_of ''couldn't deserialize nonce'' (deserialize_nonce (em_nonce m))) (\<lambda>nonce.
     and_then (context_of ''couldn't decrypt request''
       (recipient_open cr self nonce (em_ciphertext m) (em_associated_data m))) (\<lambda>plaintext.
     Ok (plaintext, em_associated_data m))))"

definition server_decrypt ::
  "('k, 'z) hpke_crates_scheme \<Rightarrow> encrypted_request \<Rightarrow> 'k \<Rightarrow> (hpke_context \<times> bytes \<times> bytes) anyhow" where
  "server_decrypt cr encrypted_request private_key =
     and_then (ok_or (req_encapsulated_key encrypted_request)
       [''initial request message doesn't contain encapsulated public key'']) (\<lambda>key.
     and_then (context_of ''couldn't generate recipient crypto context''
       (generate_recipient_context cr private_key key)) (\<lambda>encryptor.
     and_then (server_decrypt_inner cr encryptor encrypted_request) (\<lambda>(plaintext, associated_data).
     Ok (encryptor, plaintext, associated_data))))"

definition server_encrypt ::
  "('k, 'z) hpke_crates_scheme \<Rightarrow> hpke_context \<Rightarrow> bytes \<Rightarrow> bytes \<Rightarrow> bytes \<Rightarrow> encrypted_response anyhow" where
  "server_encrypt cr self nonce plaintext associated_data =
     and_then (context_of ''couldn't encrypt response''
       (recipient_seal cr self nonce plaintext associated_data)) (\<lambda>ciphertext.
     Ok \<lparr>res_message = Some \<lparr>em_ciphertext = ciphertext, em_associated_data = associated_data, em_nonce = nonce\<rparr>\<rparr>)"

section \<open>Both ends\<close>

lemmas hpke_steps = sender_seal_def sender_open_def recipient_open_def recipient_seal_def aead_encrypt_def
  aead_decrypt_def

lemma contexts_agree:
  assumes "hpke_ok cr" "client_create cr (public_to_bytes cr (public_of_private cr sk)) r = Ok cl"
  shows "\<exists>key. ce_encapsulated_key cl = Some key \<and> generate_recipient_context cr sk key = Ok (ce_context cl)"
proof -
  from assms(2) obtain enc s req res where
    s: "setup_sender cr (public_of_private cr sk) OAK_HPKE_INFO r = Some (enc, s)"
      "context_export cr s (as_bytes ''request_key'') 32 = Some req"
      "context_export cr s (as_bytes ''response_key'') 32 = Some res"
    and cl: "cl = \<lparr>ce_encapsulated_key = Some (encapped_to_bytes cr enc),
      ce_context = \<lparr>request_key = req, response_key = res\<rparr>\<rparr>"
    by (auto simp: client_create_def setup_base_sender_def hpke_scheme.public_round [OF assms(1)] result_simps)
  from hpke_scheme.agreement [OF assms(1) s(1)] s cl show ?thesis
    by (auto simp: generate_recipient_context_def setup_base_recipient_def)
qed

lemma request_opens:
  assumes "hpke_ok cr" "client_encrypt cr cl nonce p a = Ok (req, cl')" "length nonce = 12"
  shows "server_decrypt_inner cr (ce_context cl) req = Ok (p, a)"
    and "req_encapsulated_key req = ce_encapsulated_key cl" "cl' = cl\<lparr>ce_encapsulated_key := None\<rparr>"
proof -
  from assms(2) obtain c where c: "gcm_encrypt cr (request_key (ce_context cl)) nonce p a = Some c"
    and req: "req = \<lparr>req_message = Some \<lparr>em_ciphertext = c, em_associated_data = a, em_nonce = nonce\<rparr>,
      req_encapsulated_key = ce_encapsulated_key cl\<rparr>" and cl': "cl' = cl\<lparr>ce_encapsulated_key := None\<rparr>"
    by (auto simp: client_encrypt_def hpke_steps result_simps)
  from hpke_scheme.decrypts [OF assms(1) c] assms(3)
  show "server_decrypt_inner cr (ce_context cl) req = Ok (p, a)"
    by (simp add: req server_decrypt_inner_def deserialize_nonce_def hpke_steps)
  show "req_encapsulated_key req = ce_encapsulated_key cl" "cl' = cl\<lparr>ce_encapsulated_key := None\<rparr>"
    by (simp_all add: req cl')
qed

lemma response_opens:
  assumes "hpke_ok cr" "server_encrypt cr (ce_context cl) nonce q b = Ok res" "length nonce = 12"
  shows "client_decrypt cr cl res = Ok (q, b)"
proof -
  from assms(2) obtain c where c: "gcm_encrypt cr (response_key (ce_context cl)) nonce q b = Some c"
    and res: "res = \<lparr>res_message = Some \<lparr>em_ciphertext = c, em_associated_data = b, em_nonce = nonce\<rparr>\<rparr>"
    by (auto simp: server_encrypt_def hpke_steps result_simps)
  from hpke_scheme.decrypts [OF assms(1) c] assms(3) show ?thesis
    by (simp add: res client_decrypt_def deserialize_nonce_def hpke_steps)
qed

lemma hpke_session:
  assumes "hpke_ok cr" "client_create cr (public_to_bytes cr (public_of_private cr sk)) random = Ok cl"
    and "client_encrypt cr cl nonce p a = Ok (req, cl')" "length nonce = 12"
  shows "\<exists>server. server_decrypt cr req sk = Ok (server, p, a) \<and>
    (\<forall>nonce' q b res. length nonce' = 12 \<longrightarrow> server_encrypt cr server nonce' q b = Ok res \<longrightarrow>
       client_decrypt cr cl' res = Ok (q, b))"
proof -
  note req = request_opens [OF assms(1,3,4)]
  obtain key where key: "ce_encapsulated_key cl = Some key" "generate_recipient_context cr sk key = Ok (ce_context cl)"
    using contexts_agree [OF assms(1,2)] by blast
  have "server_decrypt cr req sk = Ok (ce_context cl, p, a)"
    using req key by (simp add: server_decrypt_def)
  moreover have "client_decrypt cr cl' res = Ok (q, b)"
    if "length nonce' = 12" "server_encrypt cr (ce_context cl) nonce' q b = Ok res" for nonce' q b res
    using response_opens [OF assms(1), of cl' nonce' q b res] that req(3) by simp
  ultimately show ?thesis by blast
qed

section \<open>An instance\<close>

definition demo_hpke_crates :: "bytes hpke_crates" where
  "demo_hpke_crates = \<lparr>public_from_bytes = Some, public_to_bytes = id, public_of_private = id,
     setup_sender = (\<lambda>pk info r. Some (r, pk @ r)), setup_receiver = (\<lambda>sk enc info. Some (sk @ enc)),
     encapped_to_bytes = id, encapped_from_bytes = Some, context_export = (\<lambda>c l n. Some (take n (c @ l @ replicate n 0))),
     gcm_encrypt = (\<lambda>k iv m a. Some (m @ take 16 (k @ a))),
     gcm_decrypt = (\<lambda>k iv c a. if length c < length (take 16 (k @ a)) then None
       else Some (take (length c - length (take 16 (k @ a))) c))\<rparr>"

interpretation demo_hpke: hpke_scheme "public_from_bytes demo_hpke_crates" "public_to_bytes demo_hpke_crates"
  "public_of_private demo_hpke_crates" "setup_sender demo_hpke_crates" "setup_receiver demo_hpke_crates"
  "encapped_to_bytes demo_hpke_crates" "encapped_from_bytes demo_hpke_crates" "context_export demo_hpke_crates"
  "gcm_encrypt demo_hpke_crates" "gcm_decrypt demo_hpke_crates"
  by unfold_locales (auto simp: demo_hpke_crates_def)

lemma demo_hpke_runs:
  "\<exists>cl req cl' req2 cl''. client_create demo_hpke_crates
      (public_to_bytes demo_hpke_crates (public_of_private demo_hpke_crates [1, 2])) [3] = Ok cl \<and>
    client_encrypt demo_hpke_crates cl (replicate 12 0) [5] [6] = Ok (req, cl') \<and>
    client_encrypt demo_hpke_crates cl' (replicate 12 1) [7] [] = Ok (req2, cl'')"
  by (simp add: client_create_def setup_base_sender_def client_encrypt_def hpke_steps demo_hpke_crates_def)

section \<open>Properties\<close>

text \<open>C17. A request encrypted for the server's public key is decrypted by the holder of the private
  key to the plaintext and associated data that were sent, and whatever the server encrypts with the
  encryptor it got is decrypted by the client to what the server sent.\<close>
theorem hpke_session_delivers:
  assumes "hpke_ok cr" "client_create cr (public_to_bytes cr (public_of_private cr sk)) random = Ok cl"
    and "client_encrypt cr cl nonce p a = Ok (req, cl')" "length nonce = 12"
  shows "\<exists>server. server_decrypt cr req sk = Ok (server, p, a) \<and>
    (\<forall>nonce' q b res. length nonce' = 12 \<longrightarrow> server_encrypt cr server nonce' q b = Ok res \<longrightarrow>
       client_decrypt cr cl' res = Ok (q, b))"
  by (rule hpke_session [OF assms])

theorem hpke_session_delivers_witness:
  "\<exists>cl req cl' server. client_encrypt demo_hpke_crates cl (replicate 12 0) [5] [6] = Ok (req, cl') \<and>
     server_decrypt demo_hpke_crates req [1, 2] = Ok (server, [5], [6])"
proof -
  obtain cl req cl' where "client_create demo_hpke_crates
      (public_to_bytes demo_hpke_crates (public_of_private demo_hpke_crates [1, 2])) [3] = Ok cl"
    "client_encrypt demo_hpke_crates cl (replicate 12 0) [5] [6] = Ok (req, cl')"
    using demo_hpke_runs by blast
  with hpke_session_delivers [OF demo_hpke.hpke_scheme_axioms this] show ?thesis by auto
qed

text \<open>Only the first request of a client can be given to the server: every later one lacks the
  encapsulated key and is refused, although the encryptor of the session could decrypt it.\<close>
theorem later_request_refused:
  assumes "hpke_ok cr" "client_create cr (public_to_bytes cr (public_of_private cr sk)) random = Ok cl"
    and "client_encrypt cr cl nonce p a = Ok (req, cl')" "length nonce = 12"
    and "client_encrypt cr cl' nonce2 p2 a2 = Ok (req2, cl'')" "length nonce2 = 12"
  shows "server_decrypt cr req2 sk = Error [''initial request message doesn't contain encapsulated public key''] \<and>
    (\<exists>server. server_decrypt cr req sk = Ok (server, p, a) \<and> server_decrypt_inner cr server req2 = Ok (p2, a2))"
proof -
  note req = request_opens [OF assms(1,3,4)] and req2 = request_opens [OF assms(1,5,6)]
  obtain key where key: "ce_encapsulated_key cl = Some key" "generate_recipient_context cr sk key = Ok (ce_context cl)"
    using contexts_agree [OF assms(1,2)] by blast
  have "server_decrypt cr req sk = Ok (ce_context cl, p, a)"
    using req key by (simp add: server_decrypt_def)
  with req req2 show ?thesis by (simp add: server_decrypt_def)
qed

theorem later_request_refused_witness:
  "\<exists>cl req cl'. client_encrypt demo_hpke_crates cl (replicate 12 1) [7] [] = Ok (req, cl') \<and>
     server_decrypt demo_hpke_crates req [1, 2] =
       Error [''initial request message doesn't contain encapsulated public key'']"
proof -
  obtain cl req cl' req2 cl'' where d: "client_create demo_hpke_crates
      (public_to_bytes demo_hpke_crates (public_of_private demo_hpke_crates [1, 2])) [3] = Ok cl"
    "client_encrypt demo_hpke_crates cl (replicate 12 0) [5] [6] = Ok (req, cl')"
    "client_encrypt demo_hpke_crates cl' (replicate 12 1) [7] [] = Ok (req2, cl'')"
    using demo_hpke_runs by blast
  from later_request_refused [OF demo_hpke.hpke_scheme_axioms d(1,2) _ d(3)] d(3) show ?thesis by auto
qed

end
