(* ===== verification/Oak_Digest.thy ===== *)
theory Oak_Digest
  imports Oak_Prelude
begin

text \<open>
  Digests and their comparison: the messages of \<^verbatim>\<open>proto/digest.proto\<close> and the digest half of
  \<^verbatim>\<open>oak_attestation_verification/src/util.rs\<close>. The hexadecimal codec (crate \<^verbatim>\<open>hex\<close>) and the
  SHA-2 hashers (crate \<^verbatim>\<open>sha2\<close>) are parameters, the fields of the record \<open>digest_crates\<close>;
  what is relied on of the codec is the locale \<open>hex_codec\<close>.
\<close>

section \<open>The codec interface\<close>

text \<open>Documented behaviour of \<^verbatim>\<open>hex\<close>: decoding inverts encoding, and nothing encodes to nothing.\<close>

locale hex_codec =
  fixes enc :: "bytes \<Rightarrow> string"
    and dec :: "string \<Rightarrow> bytes option"
  assumes dec_enc: "dec (enc bs) = Some bs"
    and enc_Nil: "enc [] = []"
begin

lemma enc_inject: "enc a = enc b \<longleftrightarrow> a = b"
  by (metis dec_enc option.inject)

lemma enc_eq_Nil: "enc a = [] \<longleftrightarrow> a = []"
  using enc_inject [of a "[]"] by (simp add: enc_Nil)

lemma enc_both: "enc a \<noteq> [] \<and> enc b \<noteq> [] \<longleftrightarrow> a \<noteq> [] \<and> b \<noteq> []"
  by (simp add: enc_eq_Nil)

end

record digest_crates =
  hex_encode :: "bytes \<Rightarrow> string"
  hex_decode :: "string \<Rightarrow> bytes option"
  sha2_256_of :: "bytes \<Rightarrow> bytes"
  sha2_384_of :: "bytes \<Rightarrow> bytes"
  sha2_512_of :: "bytes \<Rightarrow> bytes"

abbreviation hex_ok :: "'z digest_crates_scheme \<Rightarrow> bool" where
  "hex_ok cr \<equiv> hex_codec (hex_encode cr) (hex_decode cr)"

section \<open>Messages\<close>

record raw_digest =
  raw_psha2 :: bytes
  raw_sha1 :: bytes
  raw_sha2_256 :: bytes
  raw_sha2_512 :: bytes
  raw_sha3_512 :: bytes
  raw_sha3_384 :: bytes
  raw_sha3_256 :: bytes
  raw_sha3_224 :: bytes
  raw_sha2_384 :: bytes

record hex_digest =
  hex_psha2 :: string
  hex_sha1 :: string
  hex_sha2_256 :: string
  hex_sha2_512 :: string
  hex_sha3_512 :: string
  hex_sha3_384 :: string
  hex_sha3_256 :: string
  hex_sha3_224 :: string
  hex_sha2_384 :: string

text \<open>\<^verbatim>\<open>RawDigest::default()\<close> and \<^verbatim>\<open>HexDigest::default()\<close>: every field empty.\<close>

definition raw_default :: raw_digest where
  "raw_default = \<lparr>raw_psha2 = [], raw_sha1 = [], raw_sha2_256 = [], raw_sha2_512 = [],
     raw_sha3_512 = [], raw_sha3_384 = [], raw_sha3_256 = [], raw_sha3_224 = [],
     raw_sha2_384 = []\<rparr>"

definition hex_default :: hex_digest where
  "hex_default = \<lparr>hex_psha2 = [], hex_sha1 = [], hex_sha2_256 = [], hex_sha2_512 = [],
     hex_sha3_512 = [], hex_sha3_384 = [], hex_sha3_256 = [], hex_sha3_224 = [],
     hex_sha2_384 = []\<rparr>"

section \<open>Operations\<close>

definition raw_digest_from_contents :: "'z digest_crates_scheme \<Rightarrow> bytes \<Rightarrow> raw_digest" where
  "raw_digest_from_contents cr contents = raw_default\<lparr>
     raw_sha2_256 := sha2_256_of cr contents,
     raw_sha2_512 := sha2_512_of cr contents,
     raw_sha2_384 := sha2_384_of cr contents\<rparr>"

datatype match_result = SAME | DIFFERENT | UNDECIDABLE | CONTRADICTORY

text \<open>One of the nine \<^verbatim>\<open>if\<close> blocks: it moves the counters \<open>(same, different)\<close>.\<close>

definition count_field :: "string \<Rightarrow> string \<Rightarrow> nat \<times> nat \<Rightarrow> nat \<times> nat" where
  "count_field a b c = (if a \<noteq> [] \<and> b \<noteq> []
     then (if a = b then (fst c + 1, snd c) else (fst c, snd c + 1)) else c)"

definition get_hex_digest_match :: "hex_digest \<Rightarrow> hex_digest \<Rightarrow> match_result" where
  "get_hex_digest_match a b =
     (let c = (0, 0);
          c = count_field (hex_psha2 a) (hex_psha2 b) c;
          c = count_field (hex_sha1 a) (hex_sha1 b) c;
          c = count_field (hex_sha2_256 a) (hex_sha2_256 b) c;
          c = count_field (hex_sha2_512 a) (hex_sha2_512 b) c;
          c = count_field (hex_sha3_512 a) (hex_sha3_512 b) c;
          c = count_field (hex_sha3_384 a) (hex_sha3_384 b) c;
          c = count_field (hex_sha3_256 a) (hex_sha3_256 b) c;
          c = count_field (hex_sha3_224 a) (hex_sha3_224 b) c;
          (same, different) = count_field (hex_sha2_384 a) (hex_sha2_384 b) c
      in if same > 0 then (if different > 0 then CONTRADICTORY else SAME)
         else (if different > 0 then DIFFERENT else UNDECIDABLE))"

definition raw_to_hex_digest :: "'z digest_crates_scheme \<Rightarrow> raw_digest \<Rightarrow> hex_digest" where
  "raw_to_hex_digest cr r = \<lparr>
     hex_psha2 = hex_encode cr (raw_psha2 r),
     hex_sha1 = hex_encode cr (raw_sha1 r),
     hex_sha2_256 = hex_encode cr (raw_sha2_256 r),
     hex_sha2_512 = hex_encode cr (raw_sha2_512 r),
     hex_sha3_512 = hex_encode cr (raw_sha3_512 r),
     hex_sha3_384 = hex_encode cr (raw_sha3_384 r),
     hex_sha3_256 = hex_encode cr (raw_sha3_256 r),
     hex_sha3_224 = hex_encode cr (raw_sha3_224 r),
     hex_sha2_384 = hex_encode cr (raw_sha2_384 r)\<rparr>"

definition get_raw_digest_match ::
  "'z digest_crates_scheme \<Rightarrow> raw_digest \<Rightarrow> raw_digest \<Rightarrow> match_result" where
  "get_raw_digest_match cr a b =
     get_hex_digest_match (raw_to_hex_digest cr a) (raw_to_hex_digest cr b)"

definition is_hex_digest_match :: "hex_digest \<Rightarrow> hex_digest \<Rightarrow> unit anyhow" where
  "is_hex_digest_match actual expected =
     (case get_hex_digest_match actual expected of
        SAME \<Rightarrow> Ok ()
      | DIFFERENT \<Rightarrow> Error [''mismatched digests'']
      | UNDECIDABLE \<Rightarrow> Error [''invalid digests'']
      | CONTRADICTORY \<Rightarrow> Error [''hash collision''])"

definition is_raw_digest_match ::
  "'z digest_crates_scheme \<Rightarrow> raw_digest \<Rightarrow> raw_digest \<Rightarrow> unit anyhow" where
  "is_raw_digest_match cr actual expected =
     (case get_raw_digest_match cr actual expected of
        SAME \<Rightarrow> Ok ()
      | DIFFERENT \<Rightarrow> Error [''mismatched digests'']
      | UNDECIDABLE \<Rightarrow> Error [''invalid digests'']
      | CONTRADICTORY \<Rightarrow> Error [''hash collision''])"

definition hex_to_raw_digest :: "'z digest_crates_scheme \<Rightarrow> hex_digest \<Rightarrow> raw_digest anyhow" where
  "hex_to_raw_digest cr h =
     and_then (ok_or (hex_decode cr (hex_psha2 h)) [''could not decode field psha2'']) (\<lambda>psha2.
     and_then (ok_or (hex_decode cr (hex_sha1 h)) [''could not decode field sha1'']) (\<lambda>sha1.
     and_then (ok_or (hex_decode cr (hex_sha2_256 h)) [''could not decode field sha2_256'']) (\<lambda>sha2_256.
     and_then (ok_or (hex_decode cr (hex_sha2_512 h)) [''could not decode field sha2_512'']) (\<lambda>sha2_512.
     and_then (ok_or (hex_decode cr (hex_sha3_512 h)) [''could not decode field sha3_512'']) (\<lambda>sha3_512.
     and_then (ok_or (hex_decode cr (hex_sha3_384 h)) [''could not decode field sha3_384'']) (\<lambda>sha3_384.
     and_then (ok_or (hex_decode cr (hex_sha3_256 h)) [''could not decode field sha3_256'']) (\<lambda>sha3_256.
     and_then (ok_or (hex_decode cr (hex_sha3_224 h)) [''could not decode field sha3_224'']) (\<lambda>sha3_224.
     and_then (ok_or (hex_decode cr (hex_sha2_384 h)) [''could not decode field sha2_384'']) (\<lambda>sha2_384.
     Ok \<lparr>raw_psha2 = psha2, raw_sha1 = sha1, raw_sha2_256 = sha2_256, raw_sha2_512 = sha2_512,
         raw_sha3_512 = sha3_512, raw_sha3_384 = sha3_384, raw_sha3_256 = sha3_256,
         raw_sha3_224 = sha3_224, raw_sha2_384 = sha2_384\<rparr>)))))))))"

section \<open>What the comparison decides\<close>

text \<open>
  The specification: the nine fields side by side, and of those the pairs where both sides are
  set. Everything the comparison decides is a statement about these pairs.
\<close>

definition hex_fields :: "hex_digest \<Rightarrow> string list" where
  "hex_fields d = [hex_psha2 d, hex_sha1 d, hex_sha2_256 d, hex_sha2_512 d, hex_sha3_512 d,
     hex_sha3_384 d, hex_sha3_256 d, hex_sha3_224 d, hex_sha2_384 d]"

definition raw_fields :: "raw_digest \<Rightarrow> bytes list" where
  "raw_fields d = [raw_psha2 d, raw_sha1 d, raw_sha2_256 d, raw_sha2_512 d, raw_sha3_512 d,
     raw_sha3_384 d, raw_sha3_256 d, raw_sha3_224 d, raw_sha2_384 d]"

definition common_fields :: "'a list list \<Rightarrow> 'a list list \<Rightarrow> ('a list \<times> 'a list) list" where
  "common_fields xs ys = filter (\<lambda>(x, y). x \<noteq> [] \<and> y \<noteq> []) (zip xs ys)"

definition digests_agree :: "'a list list \<Rightarrow> 'a list list \<Rightarrow> bool" where
  "digests_agree xs ys \<longleftrightarrow> common_fields xs ys \<noteq> [] \<and> list_all (\<lambda>(x, y). x = y) (common_fields xs ys)"

text \<open>The counters in terms of the common fields.\<close>

fun count_fields :: "string list \<Rightarrow> string list \<Rightarrow> nat \<times> nat \<Rightarrow> nat \<times> nat" where
  "count_fields (x # xs) (y # ys) c = count_fields xs ys (count_field x y c)"
| "count_fields _ _ c = c"

lemma count_fields_eq:
  "count_fields xs ys (s, d) =
     (s + length (filter (\<lambda>(x, y). x = y) (common_fields xs ys)),
      d + length (filter (\<lambda>(x, y). x \<noteq> y) (common_fields xs ys)))"
proof (induction xs ys "(s, d)" arbitrary: s d rule: count_fields.induct)
  case (1 x xs y ys)
  then show ?case
    by (cases "x \<noteq> [] \<and> y \<noteq> []"; cases "x = y")
      (auto simp: count_field_def common_fields_def)
qed (auto simp: common_fields_def)

lemma get_hex_digest_match_counts:
  "get_hex_digest_match a b =
     (let (same, different) = count_fields (hex_fields a) (hex_fields b) (0, 0)
      in if same > 0 then (if different > 0 then CONTRADICTORY else SAME)
         else (if different > 0 then DIFFERENT else UNDECIDABLE))"
  by (simp add: get_hex_digest_match_def hex_fields_def Let_def)

lemma get_hex_digest_match_common:
  "get_hex_digest_match a b =
     (let cs = set (common_fields (hex_fields a) (hex_fields b)) in
      if \<exists>(x, y) \<in> cs. x = y then (if \<exists>(x, y) \<in> cs. x \<noteq> y then CONTRADICTORY else SAME)
      else (if \<exists>(x, y) \<in> cs. x \<noteq> y then DIFFERENT else UNDECIDABLE))"
proof -
  have "0 < length (filter P xs) \<longleftrightarrow> (\<exists>x \<in> set xs. P x)" for P and xs :: "(string \<times> string) list"
    by (auto simp: filter_empty_conv)
  then show ?thesis
    by (simp add: get_hex_digest_match_counts count_fields_eq Let_def)
qed

lemma match_same_iff:
  "get_hex_digest_match a b = SAME \<longleftrightarrow> digests_agree (hex_fields a) (hex_fields b)"
proof -
  define cs where "cs = common_fields (hex_fields a) (hex_fields b)"
  have "(\<exists>(x, y) \<in> set cs. x = y) \<and> \<not> (\<exists>(x, y) \<in> set cs. x \<noteq> y)
      \<longleftrightarrow> cs \<noteq> [] \<and> list_all (\<lambda>(x, y). x = y) cs"
    by (cases cs) (auto simp: list_all_iff)
  then show ?thesis
    unfolding get_hex_digest_match_common digests_agree_def Let_def cs_def [symmetric]
    by (metis match_result.distinct(1,3,5))
qed

lemma is_hex_digest_match_Ok [result_simps]:
  "is_hex_digest_match a b = Ok u \<longleftrightarrow> digests_agree (hex_fields a) (hex_fields b)"
  unfolding match_same_iff [symmetric]
  by (cases "get_hex_digest_match a b") (simp_all add: is_hex_digest_match_def)

lemma common_fields_map:
  assumes "\<And>x. f x = [] \<longleftrightarrow> x = []"
  shows "common_fields (map f xs) (map f ys) = map (map_prod f f) (common_fields xs ys)"
  by (simp add: common_fields_def zip_map_map filter_map o_def case_prod_unfold map_prod_def assms)

lemma hex_fields_raw_to_hex: "hex_fields (raw_to_hex_digest cr r) = map (hex_encode cr) (raw_fields r)"
  by (simp add: hex_fields_def raw_fields_def raw_to_hex_digest_def)

lemma digests_agree_raw_to_hex:
  assumes "hex_ok cr"
  shows "digests_agree (hex_fields (raw_to_hex_digest cr a)) (hex_fields (raw_to_hex_digest cr b))
    \<longleftrightarrow> digests_agree (raw_fields a) (raw_fields b)"
proof -
  have "common_fields (map (hex_encode cr) (raw_fields a)) (map (hex_encode cr) (raw_fields b))
      = map (map_prod (hex_encode cr) (hex_encode cr)) (common_fields (raw_fields a) (raw_fields b))"
    by (rule common_fields_map) (rule hex_codec.enc_eq_Nil [OF assms])
  then show ?thesis
    by (simp add: hex_fields_raw_to_hex digests_agree_def list_all_iff case_prod_unfold
        hex_codec.enc_inject [OF assms])
qed

lemma is_raw_digest_match_Ok:
  assumes "hex_ok cr"
  shows "is_raw_digest_match cr a b = Ok u \<longleftrightarrow> digests_agree (raw_fields a) (raw_fields b)"
  unfolding digests_agree_raw_to_hex [OF assms, symmetric] match_same_iff [symmetric]
    get_raw_digest_match_def [symmetric]
  by (cases "get_raw_digest_match cr a b") (simp_all add: is_raw_digest_match_def)

lemma no_panic_is_raw_digest_match [simp]: "no_panic (is_raw_digest_match cr a b)"
  by (simp add: is_raw_digest_match_def split: match_result.splits)

lemma no_panic_is_hex_digest_match [simp]: "no_panic (is_hex_digest_match a b)"
  by (simp add: is_hex_digest_match_def split: match_result.splits)

lemma no_panic_hex_to_raw_digest [simp]: "no_panic (hex_to_raw_digest cr h)"
  by (simp add: hex_to_raw_digest_def no_panic_and_then)

lemma hex_to_raw_to_hex:
  assumes "hex_ok cr"
  shows "hex_to_raw_digest cr (raw_to_hex_digest cr r) = Ok r"
  by (simp add: hex_to_raw_digest_def raw_to_hex_digest_def hex_codec.dec_enc [OF assms])

section \<open>A codec\<close>

text \<open>Lower-case hexadecimal, two digits per byte: an instance of the interface.\<close>

definition hex_digits :: string where
  "hex_digits = ''0123456789abcdef''"

definition hex_enc :: "bytes \<Rightarrow> string" where
  "hex_enc bs = concat (map (\<lambda>b. [hex_digits ! (unat b div 16), hex_digits ! (unat b mod 16)]) bs)"

fun char_index :: "char \<Rightarrow> string \<Rightarrow> nat option" where
  "char_index c [] = None"
| "char_index c (d # ds) = (if c = d then Some 0 else map_option Suc (char_index c ds))"

fun hex_dec :: "string \<Rightarrow> bytes option" where
  "hex_dec [] = Some []"
| "hex_dec [_] = None"
| "hex_dec (c # d # s) =
     (case (char_index c hex_digits, char_index d hex_digits, hex_dec s) of
        (Some x, Some y, Some bs) \<Rightarrow> Some (word_of_nat (16 * x + y) # bs)
      | _ \<Rightarrow> None)"

lemma char_index_nth: "distinct ds \<Longrightarrow> n < length ds \<Longrightarrow> char_index (ds ! n) ds = Some n"
proof (induction ds arbitrary: n)
  case (Cons d ds)
  then show ?case by (cases n) (auto simp: nth_mem)
qed simp

lemma char_index_digit: "n < 16 \<Longrightarrow> char_index (hex_digits ! n) hex_digits = Some n"
  by (rule char_index_nth) (simp_all add: hex_digits_def)

lemma hex_dec_enc: "hex_dec (hex_enc bs) = Some bs"
proof (induction bs)
  case (Cons b bs)
  have "unat b div 16 < 16" and "16 * (unat b div 16) + unat b mod 16 = unat b"
    using unat_u8_less [of b] by (simp_all add: less_mult_imp_div_less)
  then show ?case using Cons by (simp add: hex_enc_def char_index_digit)
qed (simp add: hex_enc_def)

interpretation lower_hex: hex_codec hex_enc hex_dec
  by unfold_locales (simp_all add: hex_dec_enc, simp add: hex_enc_def)

section \<open>Properties\<close>

lemma get_raw_digest_match_common:
  assumes "hex_ok cr"
  shows "get_raw_digest_match cr a b =
     (let cs = set (common_fields (raw_fields a) (raw_fields b)) in
      if \<exists>(x, y) \<in> cs. x = y then (if \<exists>(x, y) \<in> cs. x \<noteq> y then CONTRADICTORY else SAME)
      else (if \<exists>(x, y) \<in> cs. x \<noteq> y then DIFFERENT else UNDECIDABLE))"
proof -
  have "common_fields (map (hex_encode cr) (raw_fields a)) (map (hex_encode cr) (raw_fields b))
      = map (map_prod (hex_encode cr) (hex_encode cr)) (common_fields (raw_fields a) (raw_fields b))"
    by (rule common_fields_map) (rule hex_codec.enc_eq_Nil [OF assms])
  then show ?thesis
    by (simp add: get_raw_digest_match_def get_hex_digest_match_common hex_fields_raw_to_hex
        case_prod_unfold Let_def hex_codec.enc_inject [OF assms])
qed

lemma hex_to_raw_digest_Ok:
  "hex_to_raw_digest cr h = Ok r \<longleftrightarrow>
     map (hex_decode cr) (hex_fields h) = map Some (raw_fields r)"
  by (cases r) (auto simp: hex_to_raw_digest_def hex_fields_def raw_fields_def result_simps)

definition demo_digest_crates :: digest_crates where
  "demo_digest_crates = \<lparr>hex_encode = hex_enc, hex_decode = hex_dec,
     sha2_256_of = (\<lambda>bs. 2 # bs), sha2_384_of = (\<lambda>bs. 3 # bs), sha2_512_of = (\<lambda>bs. 5 # bs)\<rparr>"

lemma hex_ok_demo: "hex_ok demo_digest_crates"
  using lower_hex.hex_codec_axioms by (simp add: demo_digest_crates_def)

text \<open>Two digests are judged only by the algorithms for which both have a value, whatever the
  bytes: equal on all of them is \<open>SAME\<close>, different on all is \<open>DIFFERENT\<close>, a mixture is
  \<open>CONTRADICTORY\<close> (a hash collision) and no common algorithm is \<open>UNDECIDABLE\<close>. The detour of
  the code over hexadecimal strings does not change the verdict.\<close>

theorem raw_digest_match_verdict:
  assumes "hex_ok cr"
  shows "get_raw_digest_match cr a b =
     (let cs = set (common_fields (raw_fields a) (raw_fields b)) in
      if \<exists>(x, y) \<in> cs. x = y then (if \<exists>(x, y) \<in> cs. x \<noteq> y then CONTRADICTORY else SAME)
      else (if \<exists>(x, y) \<in> cs. x \<noteq> y then DIFFERENT else UNDECIDABLE))
    \<and> (is_raw_digest_match cr a b = Ok () \<longleftrightarrow> digests_agree (raw_fields a) (raw_fields b))"
  using get_raw_digest_match_common [OF assms] is_raw_digest_match_Ok [OF assms] by blast

theorem raw_digest_match_verdict_witness:
  "get_raw_digest_match demo_digest_crates
     (raw_digest_from_contents demo_digest_crates [7])
     (raw_default\<lparr>raw_sha2_256 := [2, 7], raw_sha2_384 := [3, 8]\<rparr>) = CONTRADICTORY"
  unfolding raw_digest_match_verdict [OF hex_ok_demo, THEN conjunct1]
  by (simp add: raw_digest_from_contents_def raw_default_def demo_digest_crates_def raw_fields_def
      common_fields_def)

text \<open>A hexadecimal digest is decoded field by field, to exactly the values of the codec, and
  decoding undoes the encoding of any raw digest.\<close>

theorem hex_raw_digest_round_trip:
  assumes "hex_ok cr"
  shows "(hex_to_raw_digest cr h = Ok r \<longleftrightarrow>
       map (hex_decode cr) (hex_fields h) = map Some (raw_fields r))
     \<and> hex_to_raw_digest cr (raw_to_hex_digest cr r) = Ok r"
  using hex_to_raw_digest_Ok hex_to_raw_to_hex [OF assms] by blast

theorem hex_raw_digest_round_trip_witness:
  "hex_to_raw_digest demo_digest_crates (raw_to_hex_digest demo_digest_crates
     (raw_digest_from_contents demo_digest_crates [0xAB, 0]))
   = Ok (raw_default\<lparr>raw_sha2_256 := [2, 0xAB, 0], raw_sha2_512 := [5, 0xAB, 0],
       raw_sha2_384 := [3, 0xAB, 0]\<rparr>)"
  using hex_raw_digest_round_trip [OF hex_ok_demo, of undefined
      "raw_digest_from_contents demo_digest_crates [0xAB, 0]"]
  by (simp add: raw_digest_from_contents_def demo_digest_crates_def)

end
