(* ===== verification/Oak_Claims.thy ===== *)
theory Oak_Claims
  imports Oak_Digest
begin

text \<open>
  In-toto endorsement statements: \<^verbatim>\<open>oak_attestation_verification/src/claims.rs\<close>. A JSON
  object is read by \<^verbatim>\<open>serde_json\<close> into these records; the parser itself is a parameter of
  the theory that calls it. A \<^verbatim>\<open>BTreeMap\<close> is the list of its entries in key order, a time
  (\<^verbatim>\<open>OffsetDateTime\<close>) its nanoseconds since the Unix epoch.
\<close>

section \<open>Statements\<close>

abbreviation (input) PREDICATE_V1 :: string where
  "PREDICATE_V1 \<equiv> ''https://github.com/project-oak/transparent-release/claim/v1''"

abbreviation (input) PREDICATE_V2 :: string where
  "PREDICATE_V2 \<equiv> ''https://github.com/project-oak/transparent-release/claim/v2''"

abbreviation (input) ENDORSEMENT_V2 :: string where
  "ENDORSEMENT_V2 \<equiv> ''https://github.com/project-oak/transparent-release/endorsement/v2''"

abbreviation (input) STATEMENT_V1 :: string where
  "STATEMENT_V1 \<equiv> ''https://in-toto.io/Statement/v1''"

type_synonym digest_set = "(string \<times> string) list"

record subject =
  subject_name :: string
  subject_digest :: digest_set

record 'p statement =
  statement_type :: string
  predicate_type :: string
  statement_subject :: "subject list"
  predicate :: 'p

datatype invalid_claim_data = StatementType | PredicateType | ClaimType | Validity string

record claim_validity =
  not_before :: int
  not_after :: int

record claim_evidence =
  evidence_role :: "string option"
  evidence_uri :: string
  evidence_digest :: digest_set

record 's claim_predicate =
  claim_type :: string
  claim_spec :: "'s option"
  claim_usage :: string
  issued_on :: int
  validity :: "claim_validity option"
  claim_evidence_list :: "claim_evidence list"

datatype claimless = Claimless

type_synonym endorsement_statement = "claimless claim_predicate statement"

section \<open>Validation\<close>

definition validate_claim :: "'s claim_predicate statement \<Rightarrow> (unit, invalid_claim_data) result" where
  "validate_claim claim =
     (if statement_type claim \<noteq> STATEMENT_V1 then Error StatementType
      else if predicate_type claim \<noteq> PREDICATE_V1 \<and> predicate_type claim \<noteq> PREDICATE_V2
      then Error PredicateType
      else (case validity (predicate claim) of
          Some v \<Rightarrow>
            if not_before v < issued_on (predicate claim)
            then Error (Validity ''notBefore before issuedOn'')
            else if not_before v > not_after v
            then Error (Validity ''notBefore after notAfter'')
            else Ok ()
        | None \<Rightarrow> Ok ()))"

definition verify_validity_duration :: "int \<Rightarrow> 's claim_predicate statement \<Rightarrow> unit anyhow" where
  "verify_validity_duration now_utc_millis claim =
     (case validity (predicate claim) of
        Some v \<Rightarrow>
          if rust_div (not_before v) 1000000 > now_utc_millis
          then Error [''the claim is not yet applicable'']
          else if rust_div (not_after v) 1000000 < now_utc_millis
          then Error [''the claim is no longer applicable'']
          else Ok ()
      | None \<Rightarrow> Error [''the validity field is not set''])"

definition validate_endorsement :: "endorsement_statement \<Rightarrow> (unit, invalid_claim_data) result" where
  "validate_endorsement claim =
     and_then (validate_claim claim) (\<lambda>_.
       if claim_type (predicate claim) \<noteq> ENDORSEMENT_V2 then Error ClaimType else Ok ())"

text \<open>\<^verbatim>\<open>endorsement.rs\<close>: both checks of a statement.\<close>

definition verify_endorsement_statement :: "int \<Rightarrow> endorsement_statement \<Rightarrow> unit anyhow" where
  "verify_endorsement_statement now_utc_millis statement =
     (case validate_endorsement statement of
        Inl (Err _) \<Rightarrow> Error [''validating endorsement'']
      | Inl (Panic m) \<Rightarrow> panic m
      | Inr _ \<Rightarrow> and_then (verify_validity_duration now_utc_millis statement) (\<lambda>_. Ok ()))"

section \<open>The digest of a statement\<close>

definition set_digest_field_from_map_entry ::
  "hex_digest \<Rightarrow> string \<Rightarrow> string \<Rightarrow> hex_digest anyhow" where
  "set_digest_field_from_map_entry digest key v =
     (if key = ''psha2'' then
        (if hex_psha2 digest \<noteq> [] then Error [''duplicate key'']
         else Ok (digest\<lparr>hex_psha2 := hex_psha2 digest @ v\<rparr>))
      else if key = ''sha1'' then
        (if hex_sha1 digest \<noteq> [] then Error [''duplicate key'']
         else Ok (digest\<lparr>hex_sha1 := hex_sha1 digest @ v\<rparr>))
      else if key = ''sha256'' \<or> key = ''sha2_256'' then
        (if hex_sha2_256 digest \<noteq> [] then Error [''duplicate key'']
         else Ok (digest\<lparr>hex_sha2_256 := hex_sha2_256 digest @ v\<rparr>))
      else if key = ''sha512'' \<or> key = ''sha2_512'' then
        (if hex_sha2_512 digest \<noteq> [] then Error [''duplicate key'']
         else Ok (digest\<lparr>hex_sha2_512 := hex_sha2_512 digest @ v\<rparr>))
      else if key = ''sha3_512'' then
        (if hex_sha3_512 digest \<noteq> [] then Error [''duplicate key'']
         else Ok (digest\<lparr>hex_sha3_512 := hex_sha3_512 digest @ v\<rparr>))
      else if key = ''sha3_384'' then
        (if hex_sha3_384 digest \<noteq> [] then Error [''duplicate key'']
         else Ok (digest\<lparr>hex_sha3_384 := hex_sha3_384 digest @ v\<rparr>))
      else if key = ''sha3_256'' then
        (if hex_sha3_256 digest \<noteq> [] then Error [''duplicate key'']
         else Ok (digest\<lparr>hex_sha3_256 := hex_sha3_256 digest @ v\<rparr>))
      else if key = ''sha3_224'' then
        (if hex_sha3_224 digest \<noteq> [] then Error [''duplicate key'']
         else Ok (digest\<lparr>hex_sha3_224 := hex_sha3_224 digest @ v\<rparr>))
      else if key = ''sha384'' \<or> key = ''sha2_384'' then
        (if hex_sha2_384 digest \<noteq> [] then Error [''duplicate key'']
         else Ok (digest\<lparr>hex_sha2_384 := hex_sha2_384 digest @ v\<rparr>))
      else Error [''unknown digest key in endorsement statement''])"

definition get_digest :: "endorsement_statement \<Rightarrow> hex_digest anyhow" where
  "get_digest claim =
     (case statement_subject claim of
        [s] \<Rightarrow> try_fold (\<lambda>acc (key, v). set_digest_field_from_map_entry acc key v)
                 hex_default (subject_digest s)
      | _ \<Rightarrow> Error [''expected a single endorsement subject''])"

section \<open>What validation accepts\<close>

text \<open>
  A statement is in force at a millisecond \<open>now\<close> when its types are the endorsement's, its
  dates are ordered, and \<open>now\<close> lies between its dates rounded to milliseconds.
\<close>

definition statement_in_force :: "int \<Rightarrow> endorsement_statement \<Rightarrow> bool" where
  "statement_in_force now st \<longleftrightarrow>
     statement_type st = STATEMENT_V1 \<and>
     predicate_type st \<in> {PREDICATE_V1, PREDICATE_V2} \<and>
     claim_type (predicate st) = ENDORSEMENT_V2 \<and>
     (case validity (predicate st) of
        None \<Rightarrow> False
      | Some v \<Rightarrow>
          issued_on (predicate st) \<le> not_before v \<and> not_before v \<le> not_after v \<and>
          rust_div (not_before v) 1000000 \<le> now \<and> now \<le> rust_div (not_after v) 1000000)"

lemma validate_claim_Ok [result_simps]:
  "validate_claim st = Ok u \<longleftrightarrow>
     statement_type st = STATEMENT_V1 \<and> predicate_type st \<in> {PREDICATE_V1, PREDICATE_V2} \<and>
     (case validity (predicate st) of None \<Rightarrow> True
      | Some v \<Rightarrow> issued_on (predicate st) \<le> not_before v \<and> not_before v \<le> not_after v)"
  by (auto simp: validate_claim_def split: option.splits)

lemma verify_validity_duration_Ok [result_simps]:
  "verify_validity_duration now st = Ok u \<longleftrightarrow>
     (case validity (predicate st) of None \<Rightarrow> False
      | Some v \<Rightarrow> rust_div (not_before v) 1000000 \<le> now \<and>
          now \<le> rust_div (not_after v) 1000000)"
  by (auto simp: verify_validity_duration_def split: option.splits)

lemma validate_endorsement_Ok [result_simps]:
  "validate_endorsement st = Ok u \<longleftrightarrow>
     validate_claim st = Ok () \<and> claim_type (predicate st) = ENDORSEMENT_V2"
  by (auto simp: validate_endorsement_def and_then_eq_Ok)

lemma no_panic_validate_endorsement [simp]: "no_panic (validate_endorsement st)"
  by (auto simp: validate_endorsement_def validate_claim_def intro!: no_panic_and_then
      split: option.splits)

lemma verify_endorsement_statement_Ok [result_simps]:
  "verify_endorsement_statement now st = Ok u \<longleftrightarrow> statement_in_force now st"
proof (cases "validate_endorsement st")
  case (Inl x)
  then have "\<not> statement_in_force now st"
    using validate_endorsement_Ok [of st "()"]
    by (auto simp: statement_in_force_def validate_claim_Ok split: option.splits)
  with Inl show ?thesis
    by (auto simp: verify_endorsement_statement_def split: fault.splits)
next
  case (Inr x)
  then show ?thesis
    using validate_endorsement_Ok [of st "()"]
    by (auto simp: verify_endorsement_statement_def statement_in_force_def validate_claim_Ok
        verify_validity_duration_Ok and_then_eq_Ok split: option.splits)
qed

lemma no_panic_verify_endorsement_statement [simp]: "no_panic (verify_endorsement_statement now st)"
  using no_panic_validate_endorsement [of st]
  by (auto simp: verify_endorsement_statement_def verify_validity_duration_def no_panic_def
      split: sum.splits fault.splits option.splits)

section \<open>What the digest of a statement holds\<close>

text \<open>The nine fields of a digest as an index, and the field each JSON key names.\<close>

datatype digest_field = PSHA2 | SHA1 | SHA2_256 | SHA2_512 | SHA3_512 | SHA3_384 | SHA3_256
  | SHA3_224 | SHA2_384

fun get_field :: "digest_field \<Rightarrow> hex_digest \<Rightarrow> string" where
  "get_field PSHA2 d = hex_psha2 d"
| "get_field SHA1 d = hex_sha1 d"
| "get_field SHA2_256 d = hex_sha2_256 d"
| "get_field SHA2_512 d = hex_sha2_512 d"
| "get_field SHA3_512 d = hex_sha3_512 d"
| "get_field SHA3_384 d = hex_sha3_384 d"
| "get_field SHA3_256 d = hex_sha3_256 d"
| "get_field SHA3_224 d = hex_sha3_224 d"
| "get_field SHA2_384 d = hex_sha2_384 d"

definition key_field :: "string \<Rightarrow> digest_field option" where
  "key_field k =
     (if k = ''psha2'' then Some PSHA2
      else if k = ''sha1'' then Some SHA1
      else if k = ''sha256'' \<or> k = ''sha2_256'' then Some SHA2_256
      else if k = ''sha512'' \<or> k = ''sha2_512'' then Some SHA2_512
      else if k = ''sha3_512'' then Some SHA3_512
      else if k = ''sha3_384'' then Some SHA3_384
      else if k = ''sha3_256'' then Some SHA3_256
      else if k = ''sha3_224'' then Some SHA3_224
      else if k = ''sha384'' \<or> k = ''sha2_384'' then Some SHA2_384
      else None)"

definition field_values :: "digest_field \<Rightarrow> digest_set \<Rightarrow> string list" where
  "field_values f ds = map snd (filter (\<lambda>(k, v). key_field k = Some f) ds)"

text \<open>A digest set that is read as \<open>d\<close>: every key is known, each field holds what its keys give
  it, and no key follows one that has filled its field.\<close>

definition reads_as :: "hex_digest \<Rightarrow> digest_set \<Rightarrow> hex_digest \<Rightarrow> bool" where
  "reads_as d0 ds d \<longleftrightarrow>
     list_all (\<lambda>(k, v). key_field k \<noteq> None) ds \<and>
     (\<forall>f. let vs = get_field f d0 # field_values f ds in
        list_all (\<lambda>v. v = []) (butlast vs) \<and> get_field f d = concat vs)"

lemma hex_digest_eq_iff: "d = d' \<longleftrightarrow> (\<forall>f. get_field f d = get_field f d')"
proof
  assume "\<forall>f. get_field f d = get_field f d'"
  from this [THEN spec, of PSHA2] this [THEN spec, of SHA1] this [THEN spec, of SHA2_256]
    this [THEN spec, of SHA2_512] this [THEN spec, of SHA3_512] this [THEN spec, of SHA3_384]
    this [THEN spec, of SHA3_256] this [THEN spec, of SHA3_224] this [THEN spec, of SHA2_384]
  show "d = d'" by simp
qed simp

fun put_field :: "digest_field \<Rightarrow> string \<Rightarrow> hex_digest \<Rightarrow> hex_digest" where
  "put_field PSHA2 v d = d\<lparr>hex_psha2 := v\<rparr>"
| "put_field SHA1 v d = d\<lparr>hex_sha1 := v\<rparr>"
| "put_field SHA2_256 v d = d\<lparr>hex_sha2_256 := v\<rparr>"
| "put_field SHA2_512 v d = d\<lparr>hex_sha2_512 := v\<rparr>"
| "put_field SHA3_512 v d = d\<lparr>hex_sha3_512 := v\<rparr>"
| "put_field SHA3_384 v d = d\<lparr>hex_sha3_384 := v\<rparr>"
| "put_field SHA3_256 v d = d\<lparr>hex_sha3_256 := v\<rparr>"
| "put_field SHA3_224 v d = d\<lparr>hex_sha3_224 := v\<rparr>"
| "put_field SHA2_384 v d = d\<lparr>hex_sha2_384 := v\<rparr>"

lemma get_put_field: "get_field g (put_field f v d) = (if g = f then v else get_field g d)"
  by (cases f; cases g) simp_all

lemma set_digest_field_eq:
  "set_digest_field_from_map_entry d k v =
     (case key_field k of
        None \<Rightarrow> Error [''unknown digest key in endorsement statement'']
      | Some f \<Rightarrow> if get_field f d \<noteq> [] then Error [''duplicate key'']
          else Ok (put_field f (get_field f d @ v) d))"
  unfolding set_digest_field_from_map_entry_def key_field_def
  by (simp only: if_distrib [of "case_option a b" for a b] option.case get_field.simps
      put_field.simps)

lemma set_digest_field_Ok:
  "set_digest_field_from_map_entry d k v = Ok d' \<longleftrightarrow>
     (\<exists>f. key_field k = Some f \<and> get_field f d = [] \<and> d' = put_field f v d)"
  by (auto simp: set_digest_field_eq split: option.splits)

lemma no_panic_set_digest_field: "no_panic (set_digest_field_from_map_entry d k v)"
  by (auto simp: set_digest_field_eq split: option.splits)

lemma field_values_Cons:
  "field_values f ((k, v) # ds) = (if key_field k = Some f then [v] else []) @ field_values f ds"
  by (simp add: field_values_def)

lemma reads_as_Nil: "reads_as d0 [] d \<longleftrightarrow> d = d0"
  by (simp add: reads_as_def field_values_def Let_def hex_digest_eq_iff)

lemma reads_as_Cons:
  "reads_as d0 ((k, v) # ds) d \<longleftrightarrow>
     (\<exists>f. key_field k = Some f \<and> get_field f d0 = [] \<and> reads_as (put_field f v d0) ds d)"
proof (cases "key_field k")
  case None
  then show ?thesis by (simp add: reads_as_def)
next
  case (Some f)
  have "list_all (\<lambda>v. v = []) (butlast (get_field g d0 # field_values g ((k, v) # ds))) \<and>
        get_field g d = concat (get_field g d0 # field_values g ((k, v) # ds))
      \<longleftrightarrow> (g = f \<longrightarrow> get_field f d0 = []) \<and>
        list_all (\<lambda>v. v = []) (butlast (get_field g (put_field f v d0) # field_values g ds)) \<and>
        get_field g d = concat (get_field g (put_field f v d0) # field_values g ds)" for g
    using Some by (auto simp: field_values_Cons get_put_field)
  with Some show ?thesis by (auto simp: reads_as_def Let_def)
qed

lemma fold_reads_as:
  "try_fold (\<lambda>acc (key, v). set_digest_field_from_map_entry acc key v) d0 ds = Ok d
     \<longleftrightarrow> reads_as d0 ds d"
proof (induction ds arbitrary: d0)
  case Nil
  then show ?case by (auto simp: reads_as_Nil)
next
  case (Cons e ds)
  obtain k v where e: "e = (k, v)" by (cases e)
  show ?case by (auto simp: e reads_as_Cons and_then_eq_Ok set_digest_field_Ok Cons.IH)
qed

lemma get_digest_Ok [result_simps]:
  "get_digest st = Ok d \<longleftrightarrow>
     (\<exists>s. statement_subject st = [s] \<and> reads_as hex_default (subject_digest s) d)"
  by (auto simp: get_digest_def fold_reads_as split: list.splits)

lemma get_field_default [simp]: "get_field f hex_default = []"
  by (cases f) (simp_all add: hex_default_def)

lemma no_panic_try_fold: "(\<And>s x. no_panic (f s x)) \<Longrightarrow> no_panic (try_fold f s xs)"
  by (induction xs arbitrary: s) (auto intro: no_panic_and_then)

lemma no_panic_get_digest [simp]: "no_panic (get_digest st)"
  by (auto simp: get_digest_def intro!: no_panic_try_fold no_panic_set_digest_field
      split: list.splits)

section \<open>Properties\<close>

text \<open>The check of a statement never panics and accepts exactly the statements in force: the
  in-toto and claim types are the expected ones, the dates satisfy issuedOn \<open>\<le>\<close> notBefore \<open>\<le>\<close>
  notAfter, and the given time lies in the validity period to the millisecond.\<close>

theorem endorsement_statement_accepted_iff:
  "no_panic (verify_endorsement_statement now st) \<and>
   (verify_endorsement_statement now st = Ok () \<longleftrightarrow> statement_in_force now st)"
  by (simp add: verify_endorsement_statement_Ok)

text \<open>The digest of a statement is read exactly when it has a single subject, all of whose
  keys are known, and no key follows one that has already filled the same field; each field then
  holds what its keys give it. Nothing else is accepted and nothing panics.\<close>

theorem get_digest_reads:
  "no_panic (get_digest st) \<and>
   (get_digest st = Ok d \<longleftrightarrow>
      (\<exists>s. statement_subject st = [s] \<and> reads_as hex_default (subject_digest s) d))"
  by (simp add: get_digest_Ok)

end
