(* ===== verification/Oak_Endorsement.thy ===== *)
theory Oak_Endorsement
  imports Oak_Claims
begin

text \<open>
  Endorsements from Transparent Release and their log entries: the key half of
  \<^verbatim>\<open>oak_attestation_verification/src/util.rs\<close>, \<^verbatim>\<open>rekor.rs\<close> and \<^verbatim>\<open>endorsement.rs\<close>. The crates
  \<^verbatim>\<open>base64\<close>, \<^verbatim>\<open>p256\<close>/\<^verbatim>\<open>ecdsa\<close> and \<^verbatim>\<open>serde_json\<close> are parameters, the fields of
  \<open>endorsement_crates\<close>; values of the elliptic-curve crates (keys, signatures) are of the
  opaque type \<open>'h\<close>. What is relied on of base64 is the locale \<open>base64_codec\<close>.
\<close>

section \<open>The codec interface\<close>

locale base64_codec =
  fixes enc64 :: "bytes \<Rightarrow> string"
    and dec64 :: "bytes \<Rightarrow> bytes option"
  assumes dec64_enc64: "dec64 (as_bytes (enc64 bs)) = Some bs"
    and enc64_newline: "newline \<notin> set (enc64 bs)"
begin

lemma dec64_lines:
  "filter (\<lambda>c. c \<noteq> newline) s = enc64 bs \<Longrightarrow>
     dec64 (as_bytes (filter (\<lambda>c. c \<noteq> newline) s)) = Some bs"
  by (simp add: dec64_enc64)

lemma filter_enc64: "filter (\<lambda>c. c \<noteq> newline) (enc64 bs) = enc64 bs"
  using enc64_newline [of bs] by (auto simp: filter_id_conv)

end

section \<open>Log entries\<close>

record log_entry_verification =
  signed_entry_timestamp :: string

record log_entry =
  entry_body :: string
  integrated_time :: nat
  log_id :: string
  log_index :: nat
  entry_verification :: "log_entry_verification option"

record rekor_hash =
  hash_algorithm :: string
  hash_value :: string

record rekor_data =
  data_hash :: rekor_hash

record rekor_public_key =
  key_content :: string

record generic_signature =
  signature_content :: string
  signature_format :: string
  signature_public_key :: rekor_public_key

record rekor_spec =
  spec_data :: rekor_data
  spec_signature :: generic_signature

record rekor_body =
  api_version :: string
  body_kind :: string
  body_spec :: rekor_spec

record rekor_signature_bundle =
  canonicalized :: bytes
  bundle_signature :: bytes

record 'h endorsement_crates = digest_crates +
  b64_encode :: "bytes \<Rightarrow> string"
  b64_decode :: "bytes \<Rightarrow> bytes option"
  p256_from_pem :: "string \<Rightarrow> 'h option"
  p256_cmp_equal :: "'h \<Rightarrow> 'h \<Rightarrow> bool"
  ecdsa_from_der :: "bytes \<Rightarrow> 'h option"
  p256_verify :: "'h \<Rightarrow> bytes \<Rightarrow> 'h \<Rightarrow> bool"
  json_statement :: "bytes \<Rightarrow> endorsement_statement option"
  json_log_entries :: "bytes \<Rightarrow> (string \<times> log_entry) list option"
  json_body :: "bytes \<Rightarrow> rekor_body option"

abbreviation b64_ok :: "('h, 'z) endorsement_crates_scheme \<Rightarrow> bool" where
  "b64_ok cr \<equiv> base64_codec (b64_encode cr) (b64_decode cr)"

section \<open>Keys and signatures (util.rs)\<close>

definition PEM_HEADER :: string where
  "PEM_HEADER = ''-----BEGIN PUBLIC KEY-----''"

definition PEM_FOOTER :: string where
  "PEM_FOOTER = ''-----END PUBLIC KEY-----''"

definition looks_like_pem :: "string \<Rightarrow> bool" where
  "looks_like_pem maybe_pem =
     (let p = trim maybe_pem in prefix PEM_HEADER p \<and> suffix PEM_FOOTER p)"

definition convert_pem_to_raw :: "('h, 'z) endorsement_crates_scheme \<Rightarrow> string \<Rightarrow> bytes anyhow" where
  "convert_pem_to_raw cr public_key_pem =
     and_then (expect (strip_prefix PEM_HEADER (trim public_key_pem))
        ''could not find expected header'') (\<lambda>s.
     and_then (expect (strip_suffix PEM_FOOTER s) ''could not find expected footer'') (\<lambda>stripped.
     ok_or (b64_decode cr (as_bytes (filter (\<lambda>c. c \<noteq> newline) stripped))) [''base64'']))"

text \<open>The loop over the characters of the encoding, with a line break before every 64th.\<close>

fun pem_lines :: "nat \<Rightarrow> string \<Rightarrow> string" where
  "pem_lines i [] = []"
| "pem_lines i (c # cs) = (if i mod 64 = 0 then [newline] else []) @ [c] @ pem_lines (Suc i) cs"

definition convert_raw_to_pem :: "('h, 'z) endorsement_crates_scheme \<Rightarrow> bytes \<Rightarrow> string" where
  "convert_raw_to_pem cr public_key =
     PEM_HEADER @ pem_lines 0 (b64_encode cr public_key) @ [newline] @ PEM_FOOTER @ [newline]"

definition convert_pem_to_verifying_key :: "('h, 'z) endorsement_crates_scheme \<Rightarrow> string \<Rightarrow> 'h anyhow" where
  "convert_pem_to_verifying_key cr public_key_pem =
     ok_or (p256_from_pem cr public_key_pem) [''couldn't parse pem as a p256::ecdsa::VerifyingKey'']"

definition convert_raw_to_verifying_key :: "('h, 'z) endorsement_crates_scheme \<Rightarrow> bytes \<Rightarrow> 'h anyhow" where
  "convert_raw_to_verifying_key cr public_key =
     (let public_key_pem = convert_raw_to_pem cr public_key
      in convert_pem_to_verifying_key cr public_key_pem)"

definition equal_keys :: "('h, 'z) endorsement_crates_scheme \<Rightarrow> bytes \<Rightarrow> bytes \<Rightarrow> bool anyhow" where
  "equal_keys cr public_key_a public_key_b =
     and_then (convert_raw_to_verifying_key cr public_key_a) (\<lambda>key_a.
     and_then (convert_raw_to_verifying_key cr public_key_b) (\<lambda>key_b.
     Ok (p256_cmp_equal cr key_a key_b)))"

definition verify_signature_raw ::
  "('h, 'z) endorsement_crates_scheme \<Rightarrow> bytes \<Rightarrow> bytes \<Rightarrow> bytes \<Rightarrow> unit anyhow" where
  "verify_signature_raw cr sig contents public_key =
     and_then (ok_or (ecdsa_from_der cr sig) [''invalid ASN.1 signature'']) (\<lambda>s.
     and_then (convert_raw_to_verifying_key cr public_key) (\<lambda>key.
     ensure (p256_verify cr key contents s) [''couldn't verify signature'']))"

section \<open>Rekor (rekor.rs)\<close>

definition canonical_entry :: "log_entry \<Rightarrow> string" where
  \<open>canonical_entry e =
     ''{"body":"'' @ entry_body e @ ''","integratedTime":'' @ show_nat (integrated_time e)
     @ '',"logID":"'' @ log_id e @ ''","logIndex":'' @ show_nat (log_index e) @ ''}''\<close>

definition bundle_try_from ::
  "('h, 'z) endorsement_crates_scheme \<Rightarrow> log_entry \<Rightarrow> rekor_signature_bundle anyhow" where
  "bundle_try_from cr e =
     and_then (ensure (CHR 0x22 \<notin> set (entry_body e)) [''Condition failed'']) (\<lambda>_.
     and_then (ensure (CHR 0x22 \<notin> set (log_id e)) [''Condition failed'']) (\<lambda>_.
     and_then (ok_or (entry_verification e) [''no verification field in the log entry'']) (\<lambda>v.
     and_then (ok_or (b64_decode cr (as_bytes (signed_entry_timestamp v)))
        [''couldn't decode Base64 signature'']) (\<lambda>signature.
     Ok \<lparr>canonicalized = as_bytes (canonical_entry e), bundle_signature = signature\<rparr>))))"

definition first_entry ::
  "('h, 'z) endorsement_crates_scheme \<Rightarrow> bytes \<Rightarrow> log_entry anyhow" where
  "first_entry cr bs =
     and_then (ok_or (json_log_entries cr bs) [''couldn't parse bytes into a LogEntry object'']) (\<lambda>parsed.
     ok_or (case parsed of [] \<Rightarrow> None | (_, e) # _ \<Rightarrow> Some e) [''no entry in the map''])"

definition bundle_of_log_entry ::
  "('h, 'z) endorsement_crates_scheme \<Rightarrow> bytes \<Rightarrow> rekor_signature_bundle anyhow" where
  "bundle_of_log_entry cr log_entry = and_then (first_entry cr log_entry) (bundle_try_from cr)"

definition get_rekor_log_entry_body ::
  "('h, 'z) endorsement_crates_scheme \<Rightarrow> bytes \<Rightarrow> rekor_body anyhow" where
  "get_rekor_log_entry_body cr log_entry =
     and_then (first_entry cr log_entry) (\<lambda>e.
     and_then (ok_or (b64_decode cr (as_bytes (entry_body e)))
        [''couldn't decode Base64 signature'']) (\<lambda>body_bytes.
     ok_or (json_body cr body_bytes) [''couldn't parse bytes into a Body object'']))"

definition verify_rekor_signature ::
  "('h, 'z) endorsement_crates_scheme \<Rightarrow> bytes \<Rightarrow> bytes \<Rightarrow> unit anyhow" where
  "verify_rekor_signature cr log_entry rekor_key =
     and_then (bundle_of_log_entry cr log_entry) (\<lambda>bundle.
     context_of ''couldn't verify signedEntryTimestamp of the Rekor LogEntry''
       (verify_signature_raw cr (bundle_signature bundle) (canonicalized bundle) rekor_key))"

definition verify_rekor_body ::
  "('h, 'z) endorsement_crates_scheme \<Rightarrow> rekor_body \<Rightarrow> bytes \<Rightarrow> unit anyhow" where
  "verify_rekor_body cr body contents_bytes =
     (let sig = spec_signature (body_spec body); hash = data_hash (spec_data (body_spec body)) in
      if signature_format sig \<noteq> ''x509'' then Error [''unsupported signature format'']
      else if hash_algorithm hash \<noteq> ''sha256'' then Error [''unsupported hash algorithm'']
      else if hex_encode cr (sha2_256_of cr contents_bytes) \<noteq> hash_value hash
      then Error [''the hash of the endorsement file does not match the hash of the data in the body of the rekor entry'']
      else
        and_then (expect (b64_decode cr (as_bytes (signature_content sig)))
          ''couldn't decode the signature in the log entry body'') (\<lambda>signature.
        and_then (expect (b64_decode cr (as_bytes (key_content (signature_public_key sig))))
          ''couldn't decode the public key in the Rekor LogEntry body'') (\<lambda>public_key_pem_vec.
        and_then (ok_or (from_utf8 public_key_pem_vec) [''utf8'']) (\<lambda>public_key_pem.
        and_then (convert_pem_to_raw cr public_key_pem) (\<lambda>public_key.
        context_of ''couldn't verify signature over the endorsement''
          (verify_signature_raw cr signature contents_bytes public_key))))))"

definition verify_rekor_log_entry ::
  "('h, 'z) endorsement_crates_scheme \<Rightarrow> bytes \<Rightarrow> bytes \<Rightarrow> bytes \<Rightarrow> unit anyhow" where
  "verify_rekor_log_entry cr log_entry rekor_key endorsement =
     and_then (verify_rekor_signature cr log_entry rekor_key) (\<lambda>_.
     and_then (get_rekor_log_entry_body cr log_entry) (\<lambda>body.
     and_then (verify_rekor_body cr body endorsement) (\<lambda>_. Ok ())))"

section \<open>Endorsements (endorsement.rs, claims.rs)\<close>

definition parse_endorsement_statement ::
  "('h, 'z) endorsement_crates_scheme \<Rightarrow> bytes \<Rightarrow> endorsement_statement anyhow" where
  "parse_endorsement_statement cr bs = ok_or (json_statement cr bs) [''parsing endorsement bytes'']"

definition verify_endorser_public_key ::
  "('h, 'z) endorsement_crates_scheme \<Rightarrow> bytes \<Rightarrow> bytes \<Rightarrow> unit anyhow" where
  "verify_endorser_public_key cr log_entry endorser_public_key =
     and_then (get_rekor_log_entry_body cr log_entry) (\<lambda>body.
     and_then (ok_or (b64_decode cr (as_bytes (key_content (signature_public_key
        (spec_signature (body_spec body))))))
        [''couldn't base64-decode public key bytes from server'']) (\<lambda>actual_pem_vec.
     and_then (ok_or (from_utf8 actual_pem_vec) [''utf8'']) (\<lambda>actual_pem.
     and_then (convert_pem_to_raw cr actual_pem) (\<lambda>actual.
     and_then (equal_keys cr endorser_public_key actual) (\<lambda>equal.
     if \<not> equal then Error [''endorser public key mismatch''] else Ok ())))))"

definition verify_binary_endorsement ::
  "('h, 'z) endorsement_crates_scheme \<Rightarrow> int \<Rightarrow> bytes \<Rightarrow> bytes \<Rightarrow> bytes \<Rightarrow> bytes \<Rightarrow> bytes \<Rightarrow> unit anyhow" where
  "verify_binary_endorsement cr now_utc_millis endorsement sig log_entry endorser_public_key rekor_key =
     and_then (parse_endorsement_statement cr endorsement) (\<lambda>statement.
     if log_entry \<noteq> [] then
       and_then (verify_endorsement_statement now_utc_millis statement) (\<lambda>_.
       and_then (verify_rekor_log_entry cr log_entry rekor_key endorsement) (\<lambda>_.
       and_then (verify_endorser_public_key cr log_entry endorser_public_key) (\<lambda>_. Ok ())))
     else if rekor_key \<noteq> [] then Error [''log entry unavailable but verification was requested'']
     else and_then (verify_signature_raw cr sig endorsement endorser_public_key) (\<lambda>_. Ok ()))"

section \<open>PEM round trip\<close>

lemma filter_pem_lines:
  "newline \<notin> set s \<Longrightarrow> filter (\<lambda>c. c \<noteq> newline) (pem_lines i s) = s"
  by (induction s arbitrary: i) auto

lemma pem_dash: "byte_of_char (CHR ''-'') \<notin> hd ` set white_space"
  "byte_of_char (CHR ''-'') \<notin> last ` set white_space"
  by (simp_all add: white_space_def byte_of_char_def)

lemma trim_pem: "trim (PEM_HEADER @ s @ [newline] @ PEM_FOOTER @ [newline])
    = PEM_HEADER @ s @ [newline] @ PEM_FOOTER"
proof -
  obtain h where h: "PEM_HEADER = CHR ''-'' # h" by (simp add: PEM_HEADER_def)
  obtain f where f: "PEM_FOOTER = f @ [CHR ''-'']"
  proof
    show "PEM_FOOTER = butlast PEM_FOOTER @ [CHR ''-'']" by (simp add: PEM_FOOTER_def)
  qed
  have "trim_end ((PEM_HEADER @ s @ [newline] @ f) @ [CHR ''-'']) =
      (PEM_HEADER @ s @ [newline] @ f) @ [CHR ''-'']"
    by (rule trim_end_id) (rule pem_dash)
  then have "trim_end ((PEM_HEADER @ s @ [newline] @ PEM_FOOTER) @ [newline])
      = PEM_HEADER @ s @ [newline] @ PEM_FOOTER"
    by (simp only: trim_end_newline) (simp add: f)
  then show ?thesis
    by (simp add: trim_def h trim_start_id [OF pem_dash(1)])
qed

lemma pem_round_trip:
  assumes "b64_ok cr"
  shows "convert_pem_to_raw cr (convert_raw_to_pem cr k) = Ok k"
    and "looks_like_pem (convert_raw_to_pem cr k)"
proof -
  let ?s = "pem_lines 0 (b64_encode cr k)"
  have t: "trim (convert_raw_to_pem cr k) = PEM_HEADER @ (?s @ [newline]) @ PEM_FOOTER"
    using trim_pem [of ?s] by (simp add: convert_raw_to_pem_def)
  have "filter (\<lambda>c. c \<noteq> newline) (?s @ [newline]) = b64_encode cr k"
    using filter_pem_lines [OF base64_codec.enc64_newline [OF assms]] by simp
  then show "convert_pem_to_raw cr (convert_raw_to_pem cr k) = Ok k"
    unfolding convert_pem_to_raw_def t strip_prefix_append
    by (simp only: expect_Some and_then_Ok strip_suffix_append) (simp add: base64_codec.dec64_enc64 [OF assms])
  show "looks_like_pem (convert_raw_to_pem cr k)"
    unfolding looks_like_pem_def t by (simp add: suffix_def)
qed

section \<open>Canonical entries\<close>

lemma quote_not_digit: "CHR 0x2C \<notin> set (show_nat n)" "CHR 0x7D \<notin> set (show_nat n)"
  using show_nat_digits [of "CHR 0x2C" n] show_nat_digits [of "CHR 0x7D" n] by auto

lemma canonical_entry_inject:
  assumes quotes: "CHR 0x22 \<notin> set (entry_body a)" "CHR 0x22 \<notin> set (log_id a)"
    "CHR 0x22 \<notin> set (entry_body b)" "CHR 0x22 \<notin> set (log_id b)"
    and eq: "canonical_entry a = canonical_entry b"
  shows "entry_body a = entry_body b \<and> integrated_time a = integrated_time b
    \<and> log_id a = log_id b \<and> log_index a = log_index b"
proof -
  let ?ix = "\<lambda>e. '',\"logIndex\":'' @ show_nat (log_index e) @ ''}''"
  let ?id = "\<lambda>e. ''\"logID\":\"'' @ log_id e @ CHR 0x22 # ?ix e"
  let ?time = "\<lambda>e. '',\"integratedTime\":'' @ show_nat (integrated_time e) @ CHR 0x2C # ?id e"
  have "entry_body a @ CHR 0x22 # ?time a = entry_body b @ CHR 0x22 # ?time b"
    using eq by (simp add: canonical_entry_def)
  then have body: "entry_body a = entry_body b" and "?time a = ?time b"
    unfolding separator_inject [OF quotes(1,3)] by blast+
  then have "show_nat (integrated_time a) @ CHR 0x2C # ?id a
      = show_nat (integrated_time b) @ CHR 0x2C # ?id b"
    by simp
  then have time: "integrated_time a = integrated_time b" and "?id a = ?id b"
    unfolding separator_inject [OF quote_not_digit(1) quote_not_digit(1)] by simp_all
  then have "log_id a @ CHR 0x22 # ?ix a = log_id b @ CHR 0x22 # ?ix b"
    by simp
  then have "log_id a = log_id b" and "?ix a = ?ix b"
    unfolding separator_inject [OF quotes(2,4)] by blast+
  with body time show ?thesis by simp
qed

section \<open>What is accepted\<close>

text \<open>
  \<open>signature_over\<close>: a DER signature that the key given by its raw bytes verifies.
  \<open>logged_body\<close>: the body of the first entry of a log entry file.
  \<open>timestamped\<close>: the first entry carries a timestamp signature of the Rekor key over its
  canonical form. \<open>endorsed_in\<close>: the body holds the hash of the endorsement and a signature
  over it, by the key that the body holds.
\<close>

definition parsed_key :: "('h, 'z) endorsement_crates_scheme \<Rightarrow> bytes \<Rightarrow> 'h option" where
  "parsed_key cr key = p256_from_pem cr (convert_raw_to_pem cr key)"

definition signature_over ::
  "('h, 'z) endorsement_crates_scheme \<Rightarrow> 'h \<Rightarrow> bytes \<Rightarrow> bytes \<Rightarrow> bool" where
  "signature_over cr key contents sig =
     (case ecdsa_from_der cr sig of None \<Rightarrow> False | Some s \<Rightarrow> p256_verify cr key contents s)"

definition logged_body ::
  "('h, 'z) endorsement_crates_scheme \<Rightarrow> bytes \<Rightarrow> rekor_body \<Rightarrow> bool" where
  "logged_body cr log body \<longleftrightarrow> (\<exists>id e entries bs.
     json_log_entries cr log = Some ((id, e) # entries) \<and>
     b64_decode cr (as_bytes (entry_body e)) = Some bs \<and> json_body cr bs = Some body)"

definition timestamped ::
  "('h, 'z) endorsement_crates_scheme \<Rightarrow> bytes \<Rightarrow> bytes \<Rightarrow> bool" where
  "timestamped cr log rekor_key \<longleftrightarrow> (\<exists>id e entries v sig key.
     json_log_entries cr log = Some ((id, e) # entries) \<and>
     CHR 0x22 \<notin> set (entry_body e) \<and> CHR 0x22 \<notin> set (log_id e) \<and>
     entry_verification e = Some v \<and>
     b64_decode cr (as_bytes (signed_entry_timestamp v)) = Some sig \<and>
     parsed_key cr rekor_key = Some key \<and>
     signature_over cr key (as_bytes (canonical_entry e)) sig)"

definition body_key :: "('h, 'z) endorsement_crates_scheme \<Rightarrow> rekor_body \<Rightarrow> bytes \<Rightarrow> bool" where
  "body_key cr body key \<longleftrightarrow> (\<exists>pem_bytes pem.
     b64_decode cr (as_bytes (key_content (signature_public_key (spec_signature (body_spec body)))))
       = Some pem_bytes \<and>
     from_utf8 pem_bytes = Some pem \<and> convert_pem_to_raw cr pem = Ok key)"

definition endorsed_in ::
  "('h, 'z) endorsement_crates_scheme \<Rightarrow> rekor_body \<Rightarrow> bytes \<Rightarrow> 'h \<Rightarrow> bool" where
  "endorsed_in cr body endorsement key \<longleftrightarrow>
     signature_format (spec_signature (body_spec body)) = ''x509'' \<and>
     hash_algorithm (data_hash (spec_data (body_spec body))) = ''sha256'' \<and>
     hash_value (data_hash (spec_data (body_spec body)))
       = hex_encode cr (sha2_256_of cr endorsement) \<and>
     (\<exists>sig. b64_decode cr (as_bytes (signature_content (spec_signature (body_spec body)))) = Some sig \<and>
       signature_over cr key endorsement sig)"

definition accepted_with_log ::
  "('h, 'z) endorsement_crates_scheme \<Rightarrow> bytes \<Rightarrow> bytes \<Rightarrow> bytes \<Rightarrow> bytes \<Rightarrow> bool" where
  "accepted_with_log cr endorsement log endorser_key rekor_key \<longleftrightarrow>
     timestamped cr log rekor_key \<and>
     (\<exists>body raw key own. logged_body cr log body \<and> body_key cr body raw \<and>
        parsed_key cr raw = Some key \<and> endorsed_in cr body endorsement key \<and>
        parsed_key cr endorser_key = Some own \<and> p256_cmp_equal cr own key)"

lemma first_entry_Ok [result_simps]:
  "first_entry cr log = Ok e \<longleftrightarrow> (\<exists>id es. json_log_entries cr log = Some ((id, e) # es))"
  by (cases "json_log_entries cr log") (auto simp: first_entry_def ok_or_eq_Ok split: list.splits)

lemma convert_raw_to_verifying_key_Ok [result_simps]:
  "convert_raw_to_verifying_key cr key = Ok k \<longleftrightarrow> parsed_key cr key = Some k"
  by (simp add: convert_raw_to_verifying_key_def convert_pem_to_verifying_key_def parsed_key_def
      result_simps)

lemma verify_signature_raw_Ok [result_simps]:
  "verify_signature_raw cr sig contents key = Ok u \<longleftrightarrow>
     (\<exists>k. parsed_key cr key = Some k \<and> signature_over cr k contents sig)"
  by (auto simp: verify_signature_raw_def signature_over_def result_simps split: option.splits)

lemma get_rekor_log_entry_body_Ok [result_simps]:
  "get_rekor_log_entry_body cr log = Ok body \<longleftrightarrow> logged_body cr log body"
  by (auto simp: get_rekor_log_entry_body_def logged_body_def result_simps)

lemma verify_rekor_signature_Ok [result_simps]:
  "verify_rekor_signature cr log rekor_key = Ok u \<longleftrightarrow> timestamped cr log rekor_key"
  by (fastforce simp: verify_rekor_signature_def bundle_of_log_entry_def bundle_try_from_def
      timestamped_def result_simps)

lemma verify_rekor_body_Ok [result_simps]:
  "verify_rekor_body cr body contents = Ok u \<longleftrightarrow>
     (\<exists>raw key. body_key cr body raw \<and> parsed_key cr raw = Some key \<and>
        endorsed_in cr body contents key)"
  unfolding verify_rekor_body_def body_key_def endorsed_in_def Let_def result_simps if_split
  by (auto 0 6 simp: result_simps)

lemma body_key_unique: "body_key cr body a \<Longrightarrow> body_key cr body b \<Longrightarrow> a = b"
  by (auto simp: body_key_def)

lemma logged_body_unique: "logged_body cr log a \<Longrightarrow> logged_body cr log b \<Longrightarrow> a = b"
  by (auto simp: logged_body_def)

lemma verify_rekor_log_entry_Ok [result_simps]:
  "verify_rekor_log_entry cr log rekor_key endorsement = Ok u \<longleftrightarrow>
     timestamped cr log rekor_key \<and> (\<exists>body raw key. logged_body cr log body \<and>
       body_key cr body raw \<and> parsed_key cr raw = Some key \<and> endorsed_in cr body endorsement key)"
  by (auto simp: verify_rekor_log_entry_def result_simps)

lemma verify_endorser_public_key_Ok [result_simps]:
  "verify_endorser_public_key cr log endorser_key = Ok u \<longleftrightarrow>
     (\<exists>body raw key own. logged_body cr log body \<and> body_key cr body raw \<and>
       parsed_key cr raw = Some key \<and> parsed_key cr endorser_key = Some own \<and>
       p256_cmp_equal cr own key)"
  by (fastforce simp: verify_endorser_public_key_def equal_keys_def body_key_def result_simps
      split: if_splits)

lemma accepted_with_log_iff:
  "verify_rekor_log_entry cr log rekor_key endorsement = Ok () \<and>
     verify_endorser_public_key cr log endorser_key = Ok () \<longleftrightarrow>
   accepted_with_log cr endorsement log endorser_key rekor_key"
  unfolding result_simps accepted_with_log_def
  using body_key_unique logged_body_unique by (smt (verit, del_insts) option.inject)

lemma verify_binary_endorsement_Ok:
  "verify_binary_endorsement cr now endorsement sig log endorser_key rekor_key = Ok u \<longleftrightarrow>
     (\<exists>st. json_statement cr endorsement = Some st \<and>
       (if log \<noteq> [] then
          statement_in_force now st \<and> accepted_with_log cr endorsement log endorser_key rekor_key
        else rekor_key = [] \<and>
          (\<exists>k. parsed_key cr endorser_key = Some k \<and> signature_over cr k endorsement sig)))"
proof (cases "log = []")
  case True
  then show ?thesis
    by (auto simp: verify_binary_endorsement_def parse_endorsement_statement_def result_simps)
next
  case False
  then show ?thesis
    unfolding accepted_with_log_iff [symmetric]
    by (auto simp: verify_binary_endorsement_def parse_endorsement_statement_def and_then_eq_Ok
        ok_or_eq_Ok verify_endorsement_statement_Ok)
qed

section \<open>A base64 codec\<close>

text \<open>The standard alphabet with padding, as an instance of the codec interface.\<close>

definition b64_digits :: string where
  "b64_digits = ''ABCDEFGHIJKLMNOPQRSTUVWXYZabcdefghijklmnopqrstuvwxyz0123456789+/''"

definition b64_char :: "nat \<Rightarrow> char" where
  "b64_char n = b64_digits ! (n mod 64)"

fun b64_enc :: "bytes \<Rightarrow> string" where
  "b64_enc [] = []"
| "b64_enc [a] = (let n = unat a * 16 in [b64_char (n div 64), b64_char n, CHR ''='', CHR ''=''])"
| "b64_enc [a, b] = (let n = (unat a * 256 + unat b) * 4 in
     [b64_char (n div 64 div 64), b64_char (n div 64), b64_char n, CHR ''=''])"
| "b64_enc (a # b # c # bs) = (let n = (unat a * 256 + unat b) * 256 + unat c in
     [b64_char (n div 64 div 64 div 64), b64_char (n div 64 div 64), b64_char (n div 64), b64_char n]
     @ b64_enc bs)"

definition b64_value :: "char \<Rightarrow> nat option" where
  "b64_value c = char_index c b64_digits"

fun b64_values :: "string \<Rightarrow> nat \<Rightarrow> nat option" where
  "b64_values [] acc = Some acc"
| "b64_values (c # cs) acc =
     (case b64_value c of None \<Rightarrow> None | Some v \<Rightarrow> b64_values cs (acc * 64 + v))"

fun b64_dec :: "string \<Rightarrow> bytes option" where
  "b64_dec [] = Some []"
| "b64_dec (p # q # r # s # cs) =
     (if cs = [] \<and> r = CHR ''='' \<and> s = CHR ''='' then
        (case b64_values [p, q] 0 of
           Some n \<Rightarrow> if n mod 16 = 0 then Some [word_of_nat (n div 16)] else None
         | None \<Rightarrow> None)
      else if cs = [] \<and> s = CHR ''='' then
        (case b64_values [p, q, r] 0 of
           Some n \<Rightarrow> if n mod 4 = 0
             then Some [word_of_nat (n div 4 div 256), word_of_nat (n div 4)] else None
         | None \<Rightarrow> None)
      else
        (case (b64_values [p, q, r, s] 0, b64_dec cs) of
           (Some n, Some bs) \<Rightarrow> Some (word_of_nat (n div 256 div 256) # word_of_nat (n div 256)
             # word_of_nat n # bs)
         | _ \<Rightarrow> None))"
| "b64_dec _ = None"

lemma b64_value_char [simp]: "b64_value (b64_char n) = Some (n mod 64)"
  unfolding b64_value_def b64_char_def by (rule char_index_nth) (simp_all add: b64_digits_def)

lemma b64_char_mem: "b64_char n \<in> set b64_digits"
  unfolding b64_char_def by (rule nth_mem) (simp add: b64_digits_def)

lemma b64_char_not [simp]: "b64_char n \<noteq> CHR ''=''" "b64_char n \<noteq> newline" "b64_char n \<noteq> CHR 0x22"
proof -
  have "CHR ''='' \<notin> set b64_digits" "newline \<notin> set b64_digits" "CHR 0x22 \<notin> set b64_digits"
    by (simp_all add: b64_digits_def newline_def)
  with b64_char_mem [of n]
  show "b64_char n \<noteq> CHR ''=''" "b64_char n \<noteq> newline" "b64_char n \<noteq> CHR 0x22" by auto
qed

lemma b64_values_2 [simp]: "n < 64 * 64 \<Longrightarrow> b64_values [b64_char (n div 64), b64_char n] 0 = Some n"
  by (simp add: less_mult_imp_div_less)

lemma b64_values_3 [simp]: "n < 64 * 64 * 64 \<Longrightarrow>
    b64_values [b64_char (n div 64 div 64), b64_char (n div 64), b64_char n] 0 = Some n"
  by (simp add: less_mult_imp_div_less del: div_mult2_eq)

lemma b64_values_4 [simp]: "n < 64 * 64 * 64 * 64 \<Longrightarrow>
    b64_values [b64_char (n div 64 div 64 div 64), b64_char (n div 64 div 64), b64_char (n div 64),
      b64_char n] 0 = Some n"
  by (simp add: less_mult_imp_div_less)

lemma word_of_nat_u8: "n mod 256 = unat (b :: u8) \<Longrightarrow> word_of_nat n = b"
  by (simp add: word_unat_eq_iff)

lemma shift_byte: "m < k \<Longrightarrow> m * 256 + unat (b :: u8) < k * 256"
  using unat_u8_less [of b] by linarith

lemma shift_byte_div_mod:
  "(m * 256 + unat (b :: u8)) div 256 = m" "(m * 256 + unat b) mod 256 = unat b"
  "unat b mod 256 = unat b"
  by simp_all

lemma b64_dec_2: "n < 64 * 64 \<Longrightarrow> n mod 16 = 0 \<Longrightarrow>
    b64_dec [b64_char (n div 64), b64_char n, CHR ''='', CHR ''=''] = Some [word_of_nat (n div 16)]"
  by (simp del: b64_values.simps)

lemma b64_dec_3: "m < 65536 \<Longrightarrow>
    b64_dec [b64_char (m * 4 div 64 div 64), b64_char (m * 4 div 64), b64_char (m * 4), CHR ''='']
      = Some [word_of_nat (m div 256), word_of_nat m]"
  using b64_values_3 [of "m * 4"] by (simp del: b64_values.simps)

lemma b64_dec_4: "n < 16777216 \<Longrightarrow>
    b64_dec (b64_char (n div 64 div 64 div 64) # b64_char (n div 64 div 64) # b64_char (n div 64)
      # b64_char n # cs) = map_option (\<lambda>bs. word_of_nat (n div 256 div 256) # word_of_nat (n div 256)
        # word_of_nat n # bs) (b64_dec cs)"
  using b64_values_4 [of n] by (simp del: b64_values.simps split: option.splits)

lemma b64_dec_enc: "b64_dec (b64_enc bs) = Some bs"
proof (induction bs rule: b64_enc.induct)
  case (2 a)
  then show ?case using unat_u8_less [of a] b64_dec_2 [of "unat a * 16"]
    by (simp add: Let_def del: b64_dec.simps)
next
  case (3 a b)
  let ?m = "unat a * 256 + unat b"
  have "?m < 65536"
    using shift_byte [OF unat_u8_less [of a], of b] by simp
  moreover have "word_of_nat (?m div 256) = a" "word_of_nat ?m = b"
    by (rule word_of_nat_u8, simp only: shift_byte_div_mod)+
  ultimately show ?case
    by (simp only: b64_enc.simps Let_def b64_dec_3)
next
  case (4 a b c bs)
  let ?n = "(unat a * 256 + unat b) * 256 + unat c"
  have "?n < 16777216"
    using shift_byte [OF shift_byte [OF unat_u8_less [of a], of b], of c] by simp
  moreover have "word_of_nat (?n div 256 div 256) = a" "word_of_nat (?n div 256) = b"
    "word_of_nat ?n = c"
    by (rule word_of_nat_u8, simp only: shift_byte_div_mod)+
  ultimately show ?case
    using 4 by (simp only: b64_enc.simps Let_def append.simps b64_dec_4 option.map)
qed simp

lemma b64_enc_newline: "newline \<notin> set (b64_enc bs)"
proof -
  have "CHR ''='' \<noteq> newline" by (simp add: newline_def)
  then show ?thesis
    by (induction bs rule: b64_enc.induct) (auto simp: Let_def b64_char_not(2) [symmetric])
qed

lemma b64_enc_quote: "CHR 0x22 \<notin> set (b64_enc bs)"
  by (induction bs rule: b64_enc.induct) (auto simp: Let_def b64_char_not(3) [symmetric])

declare b64_enc.simps [simp del]

interpretation std_base64: base64_codec b64_enc "\<lambda>bs. b64_dec (map char_of_byte bs)"
  by unfold_locales (simp_all add: b64_dec_enc b64_enc_newline)

section \<open>Properties\<close>

text \<open>A concrete choice of the crates, for the examples: keys are their PEM text, a signature is
  the key followed by the contents, and the JSON parsers know one document each.\<close>

definition demo_statement :: endorsement_statement where
  "demo_statement = \<lparr>statement_type = STATEMENT_V1, predicate_type = PREDICATE_V2,
     statement_subject = [\<lparr>subject_name = ''binary'', subject_digest = [(''sha2_256'', ''02ab'')]\<rparr>],
     predicate = \<lparr>claim_type = ENDORSEMENT_V2, claim_spec = None, claim_usage = [], issued_on = 0,
       validity = Some \<lparr>not_before = 1000000, not_after = 9000000\<rparr>, claim_evidence_list = []\<rparr>\<rparr>"

definition demo_pem :: "bytes \<Rightarrow> string" where
  "demo_pem key = PEM_HEADER @ pem_lines 0 (b64_enc key) @ [newline] @ PEM_FOOTER @ [newline]"

definition demo_signature :: "bytes \<Rightarrow> bytes \<Rightarrow> bytes" where
  "demo_signature key contents = as_bytes (demo_pem key) @ contents"

definition demo_body :: rekor_body where
  "demo_body = \<lparr>api_version = ''0.0.1'', body_kind = ''rekord'',
     body_spec = \<lparr>spec_data = \<lparr>data_hash = \<lparr>hash_algorithm = ''sha256'', hash_value = hex_enc [2, 1]\<rparr>\<rparr>,
       spec_signature = \<lparr>signature_content = b64_enc (demo_signature [7] [1]),
         signature_format = ''x509'',
         signature_public_key = \<lparr>key_content = b64_enc (as_bytes (demo_pem [7]))\<rparr>\<rparr>\<rparr>\<rparr>"

definition demo_entry :: log_entry where
  "demo_entry = \<lparr>entry_body = b64_enc [9], integrated_time = 12, log_id = ''id'', log_index = 3,
     entry_verification = Some \<lparr>signed_entry_timestamp = b64_enc (demo_signature [8] (as_bytes
       (canonical_entry \<lparr>entry_body = b64_enc [9], integrated_time = 12, log_id = ''id'',
          log_index = 3, entry_verification = None\<rparr>)))\<rparr>\<rparr>"

definition demo_crates :: "string endorsement_crates" where
  "demo_crates = \<lparr>hex_encode = hex_enc, hex_decode = hex_dec,
     sha2_256_of = (\<lambda>bs. 2 # bs), sha2_384_of = (\<lambda>bs. 3 # bs), sha2_512_of = (\<lambda>bs. 5 # bs),
     b64_encode = b64_enc, b64_decode = (\<lambda>bs. b64_dec (map char_of_byte bs)),
     p256_from_pem = Some, p256_cmp_equal = (=), ecdsa_from_der = (\<lambda>bs. Some (map char_of_byte bs)),
     p256_verify = (\<lambda>key contents sig. as_bytes sig = as_bytes key @ contents),
     json_statement = (\<lambda>bs. if bs = [1] then Some demo_statement else None),
     json_log_entries = (\<lambda>bs. if bs = [3] then Some [(''uuid'', demo_entry)] else None),
     json_body = (\<lambda>bs. if bs = [9] then Some demo_body else None)\<rparr>"

lemma b64_ok_demo: "b64_ok demo_crates"
  using std_base64.base64_codec_axioms by (simp add: demo_crates_def)

lemma demo_convert_raw_to_pem [simp]: "convert_raw_to_pem demo_crates key = demo_pem key"
  by (simp add: convert_raw_to_pem_def demo_pem_def demo_crates_def)

lemma demo_parsed_key [simp]: "parsed_key demo_crates key = Some (demo_pem key)"
  by (simp add: parsed_key_def) (simp add: demo_crates_def)

lemma demo_signature_over [simp]: "signature_over demo_crates (demo_pem key) c (demo_signature key c)"
  by (simp add: signature_over_def demo_crates_def demo_signature_def comp_def as_bytes_def)

lemma demo_b64 [simp]: "b64_decode demo_crates (as_bytes (b64_enc bs)) = Some bs"
  by (simp add: demo_crates_def b64_dec_enc)

lemma demo_pem_utf8: "from_utf8 (as_bytes (demo_pem [7])) = Some (demo_pem [7])"
proof -
  have "utf8_valid (as_bytes (demo_pem [7]))"
    by (rule utf8_valid_ascii)
      (simp add: demo_pem_def PEM_HEADER_def PEM_FOOTER_def b64_enc.simps b64_char_def b64_digits_def
        newline_def as_bytes_def byte_of_char_def Let_def)
  then show ?thesis by (simp add: from_utf8_def)
qed

lemma demo_body_key: "body_key demo_crates demo_body [7]"
  using pem_round_trip(1) [OF b64_ok_demo, of "[7]"]
  by (simp add: body_key_def demo_body_def demo_pem_utf8)

lemma demo_logged: "json_log_entries demo_crates [3] = Some [(''uuid'', demo_entry)]"
  "logged_body demo_crates [3] demo_body"
proof -
  show *: "json_log_entries demo_crates [3] = Some [(''uuid'', demo_entry)]"
    by (simp add: demo_crates_def)
  have "json_body demo_crates [9] = Some demo_body" by (simp add: demo_crates_def)
  with * show "logged_body demo_crates [3] demo_body"
    by (simp add: logged_body_def demo_entry_def)
qed

lemma demo_timestamped: "timestamped demo_crates [3] [8]"
  unfolding timestamped_def demo_logged
  by (simp add: demo_entry_def b64_enc_quote canonical_entry_def)

lemma demo_endorsed_in: "endorsed_in demo_crates demo_body [1] (demo_pem [7])"
proof -
  have "hex_encode demo_crates (sha2_256_of demo_crates [1]) = hex_enc [2, 1]"
    by (simp add: demo_crates_def)
  moreover have "\<exists>sig. b64_decode demo_crates (as_bytes (b64_enc (demo_signature [7] [1]))) = Some sig \<and>
      signature_over demo_crates (demo_pem [7]) [1] sig"
    by simp
  ultimately show ?thesis by (simp add: endorsed_in_def demo_body_def)
qed

lemma demo_in_force: "json_statement demo_crates [1] = Some demo_statement"
  "statement_in_force 5 demo_statement"
  by (simp add: demo_crates_def)
    (simp add: statement_in_force_def demo_statement_def rust_div_def)

lemma demo_accepted: "verify_binary_endorsement demo_crates 5 [1] [] [3] [7] [8] = Ok ()"
proof -
  have "p256_cmp_equal demo_crates (demo_pem [7]) (demo_pem [7])" by (simp add: demo_crates_def)
  then have "accepted_with_log demo_crates [1] [3] [7] [8]"
    unfolding accepted_with_log_def
    using demo_timestamped demo_logged(2) demo_body_key demo_endorsed_in demo_parsed_key by blast
  then show ?thesis using demo_in_force by (simp add: verify_binary_endorsement_Ok)
qed

text \<open>C24. An endorsement is accepted exactly when its statement parses and either a log entry is
  given, the statement is in force, Rekor's key has signed the canonical form of the entry, and the
  entry's body holds the hash of the endorsement, a signature over it, and the endorser's key; or
  there is neither a log entry nor a Rekor key, and the endorser's key has signed the
  endorsement.\<close>

theorem binary_endorsement_accepted_iff:
  "verify_binary_endorsement cr now endorsement sig log endorser_key rekor_key = Ok () \<longleftrightarrow>
     (\<exists>st. json_statement cr endorsement = Some st \<and>
       (if log \<noteq> [] then
          statement_in_force now st \<and> accepted_with_log cr endorsement log endorser_key rekor_key
        else rekor_key = [] \<and>
          (\<exists>k. parsed_key cr endorser_key = Some k \<and> signature_over cr k endorsement sig)))"
  by (rule verify_binary_endorsement_Ok)

text \<open>C8. An accepted endorsement is signed by the endorser: there is a signature over exactly the
  bytes of the endorsement that the endorser's own key verifies, whichever path was taken; and with
  a Rekor key given, that key has signed a log entry. The comparison of p256 keys is assumed to
  hold only for equal keys.\<close>

theorem accepted_endorsement_is_signed:
  assumes "\<And>a b. p256_cmp_equal cr a b \<Longrightarrow> a = b"
    and "verify_binary_endorsement cr now endorsement sig log endorser_key rekor_key = Ok ()"
  shows "\<exists>key s. parsed_key cr endorser_key = Some key \<and> signature_over cr key endorsement s \<and>
     (log = [] \<longrightarrow> s = sig) \<and> (rekor_key \<noteq> [] \<longrightarrow> timestamped cr log rekor_key)"
proof (cases "log = []")
  case True
  with assms show ?thesis by (auto simp: verify_binary_endorsement_Ok)
next
  case False
  with assms(2) have "accepted_with_log cr endorsement log endorser_key rekor_key"
    by (auto simp: verify_binary_endorsement_Ok)
  with assms(1) False show ?thesis
    unfolding accepted_with_log_def endorsed_in_def by metis
qed

theorem accepted_endorsement_is_signed_witness:
  "\<exists>key s. parsed_key demo_crates [7] = Some key \<and> signature_over demo_crates key [1] s \<and>
     ([3::u8] = [] \<longrightarrow> s = []) \<and> ([8::u8] \<noteq> [] \<longrightarrow> timestamped demo_crates [3] [8])"
  by (rule accepted_endorsement_is_signed [OF _ demo_accepted]) (simp add: demo_crates_def)

text \<open>The canonical form that Rekor signs determines the entry: two entries that pass the quote
  checks and have the same canonical bytes agree in body, time, log id and log index, so a signature
  cannot be moved to an entry with other contents.\<close>

theorem canonical_form_determines_entry:
  assumes "bundle_try_from cr a = Ok x" and "bundle_try_from cr b = Ok y"
    and "canonicalized x = canonicalized y"
  shows "entry_body a = entry_body b \<and> integrated_time a = integrated_time b
    \<and> log_id a = log_id b \<and> log_index a = log_index b"
  using assms by (auto simp: bundle_try_from_def result_simps dest: canonical_entry_inject)

theorem canonical_form_determines_entry_witness:
  "let e = demo_entry\<lparr>entry_verification := Some \<lparr>signed_entry_timestamp = b64_enc [1]\<rparr>\<rparr> in
   entry_body demo_entry = entry_body e \<and> integrated_time demo_entry = integrated_time e
   \<and> log_id demo_entry = log_id e \<and> log_index demo_entry = log_index e"
proof -
  let ?b = "demo_entry\<lparr>entry_verification := Some \<lparr>signed_entry_timestamp = b64_enc [1]\<rparr>\<rparr>"
  let ?c = "as_bytes (canonical_entry demo_entry)"
  have "bundle_try_from demo_crates demo_entry = Ok \<lparr>canonicalized = ?c,
      bundle_signature = demo_signature [8] ?c\<rparr>"
    by (simp add: b64_enc_quote bundle_try_from_def demo_entry_def canonical_entry_def)
  moreover have "bundle_try_from demo_crates ?b = Ok \<lparr>canonicalized = ?c, bundle_signature = [1]\<rparr>"
    by (simp add: b64_enc_quote bundle_try_from_def demo_entry_def canonical_entry_def)
  ultimately show ?thesis
    unfolding Let_def by (rule canonical_form_determines_entry) simp
qed

text \<open>A raw key written as PEM looks like PEM and is read back unchanged.\<close>

theorem pem_key_round_trip:
  assumes "b64_ok cr"
  shows "looks_like_pem (convert_raw_to_pem cr key) \<and>
    convert_pem_to_raw cr (convert_raw_to_pem cr key) = Ok key"
  using pem_round_trip [OF assms] by simp

theorem pem_key_round_trip_witness:
  "convert_raw_to_pem demo_crates [7, 8] = demo_pem [7, 8] \<and>
   looks_like_pem (demo_pem [7, 8]) \<and> convert_pem_to_raw demo_crates (demo_pem [7, 8]) = Ok [7, 8]"
  using pem_key_round_trip [OF b64_ok_demo, of "[7, 8]"] by simp

end
