(* ===== verification/Oak_Report.thy ===== *)
theory Oak_Report
  imports Oak_Endorsement
begin

unbundle bit_operations_syntax

text \<open>
  AMD SEV-SNP attestation reports and the certificates that vouch for them:
  \<^verbatim>\<open>oak_sev_snp_attestation_report/src/lib.rs\<close> and
  \<^verbatim>\<open>oak_attestation_verification/src/amd.rs\<close>. The structs are \<^verbatim>\<open>#[repr(C)]\<close> with
  \<^verbatim>\<open>zerocopy\<close> views, so their byte layout is part of the model: \<open>report_data_bytes\<close> and
  \<open>report_bytes\<close> are \<^verbatim>\<open>as_bytes\<close>, \<open>report_ref_from\<close> is \<^verbatim>\<open>ref_from\<close> on a little-endian
  machine. X.509 certificates are the public fields of \<^verbatim>\<open>x509_cert::Certificate\<close> that the
  code reads; DER coding and the RSA and P-384 primitives are parameters.
\<close>

section \<open>Structures\<close>

record tcb_version =
  boot_loader :: u8
  tee :: u8
  tcb_reserved :: bytes
  snp :: u8
  microcode :: u8

record guest_policy =
  abi_minor :: u8
  abi_major :: u8
  policy_flags :: u16
  policy_reserved :: u32

record attestation_report_data =
  report_version :: u32
  guest_svn :: u32
  policy :: guest_policy
  family_id :: bytes
  image_id :: bytes
  vmpl :: u32
  signature_algo :: u32
  current_tcb :: tcb_version
  platform_info :: u64
  author_key_en :: u64
  report_data :: bytes
  measurement :: bytes
  host_data :: bytes
  id_key_digest :: bytes
  author_key_digest :: bytes
  report_id :: bytes
  report_id_ma :: bytes
  reported_tcb :: tcb_version
  reserved_0 :: bytes
  chip_id :: bytes
  committed_tcb :: tcb_version
  current_build :: u8
  current_minor :: u8
  current_major :: u8
  reserved_1 :: u8
  committed_build :: u8
  committed_minor :: u8
  committed_major :: u8
  reserved_2 :: u8
  launch_tcb :: tcb_version
  reserved_3 :: bytes

record ecdsa_signature =
  sig_r :: bytes
  sig_s :: bytes
  sig_reserved :: bytes

record attestation_report =
  report_body :: attestation_report_data
  report_signature :: ecdsa_signature

definition REPORT_DATA_SIZE :: nat where
  "REPORT_DATA_SIZE = 64"

text \<open>The flag sets: a \<^verbatim>\<open>bitflags\<close> type is its bits, and \<^verbatim>\<open>from_bits\<close> refuses unknown ones.\<close>

definition from_bits :: "'a :: len word \<Rightarrow> 'a word \<Rightarrow> 'a word option" where
  "from_bits known b = (if b AND NOT known = 0 then Some b else None)"

definition PlatformInfo_all :: u64 where
  "PlatformInfo_all = 0b11"

definition PolicyFlags_all :: u16 where
  "PolicyFlags_all = 0b11111"

definition PolicyFlags_DEBUG :: u16 where
  "PolicyFlags_DEBUG = 0b1000"

datatype signing_algorithm = Invalid | EcdsaP384Sha384

definition signing_algorithm_from_repr :: "u32 \<Rightarrow> signing_algorithm option" where
  "signing_algorithm_from_repr n =
     (if n = 0 then Some Invalid else if n = 1 then Some EcdsaP384Sha384 else None)"

datatype author_key = No | Yes

definition author_key_from_repr :: "u64 \<Rightarrow> author_key option" where
  "author_key_from_repr n = (if n = 0 then Some No else if n = 1 then Some Yes else None)"

section \<open>Byte layout\<close>

definition tcb_bytes :: "tcb_version \<Rightarrow> bytes" where
  "tcb_bytes t = [boot_loader t, tee t] @ tcb_reserved t @ [snp t, microcode t]"

definition policy_bytes :: "guest_policy \<Rightarrow> bytes" where
  "policy_bytes p = [abi_minor p, abi_major p] @ le_bytes 2 (unat (policy_flags p))
     @ le_bytes 4 (unat (policy_reserved p))"

definition report_data_bytes :: "attestation_report_data \<Rightarrow> bytes" where
  "report_data_bytes d =
     le_bytes 4 (unat (report_version d)) @ le_bytes 4 (unat (guest_svn d)) @ policy_bytes (policy d)
     @ family_id d @ image_id d @ le_bytes 4 (unat (vmpl d)) @ le_bytes 4 (unat (signature_algo d))
     @ tcb_bytes (current_tcb d) @ le_bytes 8 (unat (platform_info d))
     @ le_bytes 8 (unat (author_key_en d)) @ report_data d @ measurement d @ host_data d
     @ id_key_digest d @ author_key_digest d @ report_id d @ report_id_ma d
     @ tcb_bytes (reported_tcb d) @ reserved_0 d @ chip_id d @ tcb_bytes (committed_tcb d)
     @ [current_build d, current_minor d, current_major d, reserved_1 d]
     @ [committed_build d, committed_minor d, committed_major d, reserved_2 d]
     @ tcb_bytes (launch_tcb d) @ reserved_3 d"

definition signature_bytes :: "ecdsa_signature \<Rightarrow> bytes" where
  "signature_bytes s = sig_r s @ sig_s s @ sig_reserved s"

definition report_bytes :: "attestation_report \<Rightarrow> bytes" where
  "report_bytes r = report_data_bytes (report_body r) @ signature_bytes (report_signature r)"

definition read_tcb :: "bytes \<Rightarrow> nat \<Rightarrow> tcb_version" where
  "read_tcb bs i = \<lparr>boot_loader = bs ! i, tee = bs ! (i + 1), tcb_reserved = slice bs (i + 2) 4,
     snp = bs ! (i + 6), microcode = bs ! (i + 7)\<rparr>"

definition read_policy :: "bytes \<Rightarrow> nat \<Rightarrow> guest_policy" where
  "read_policy bs i = \<lparr>abi_minor = bs ! i, abi_major = bs ! (i + 1),
     policy_flags = word_of_nat (le_value (slice bs (i + 2) 2)),
     policy_reserved = word_of_nat (le_value (slice bs (i + 4) 4))\<rparr>"

definition read_report_data :: "bytes \<Rightarrow> attestation_report_data" where
  "read_report_data bs = \<lparr>
     report_version = word_of_nat (le_value (slice bs 0x000 4)),
     guest_svn = word_of_nat (le_value (slice bs 0x004 4)),
     policy = read_policy bs 0x008,
     family_id = slice bs 0x010 16,
     image_id = slice bs 0x020 16,
     vmpl = word_of_nat (le_value (slice bs 0x030 4)),
     signature_algo = word_of_nat (le_value (slice bs 0x034 4)),
     current_tcb = read_tcb bs 0x038,
     platform_info = word_of_nat (le_value (slice bs 0x040 8)),
     author_key_en = word_of_nat (le_value (slice bs 0x048 8)),
     report_data = slice bs 0x050 64,
     measurement = slice bs 0x090 48,
     host_data = slice bs 0x0C0 32,
     id_key_digest = slice bs 0x0E0 48,
     author_key_digest = slice bs 0x110 48,
     report_id = slice bs 0x140 32,
     report_id_ma = slice bs 0x160 32,
     reported_tcb = read_tcb bs 0x180,
     reserved_0 = slice bs 0x188 24,
     chip_id = slice bs 0x1A0 64,
     committed_tcb = read_tcb bs 0x1E0,
     current_build = bs ! 0x1E8, current_minor = bs ! 0x1E9, current_major = bs ! 0x1EA,
     reserved_1 = bs ! 0x1EB,
     committed_build = bs ! 0x1EC, committed_minor = bs ! 0x1ED, committed_major = bs ! 0x1EE,
     reserved_2 = bs ! 0x1EF,
     launch_tcb = read_tcb bs 0x1F0,
     reserved_3 = slice bs 0x1F8 168\<rparr>"

definition read_signature :: "bytes \<Rightarrow> ecdsa_signature" where
  "read_signature bs = \<lparr>sig_r = slice bs 0x2A0 72, sig_s = slice bs 0x2E8 72,
     sig_reserved = slice bs 0x330 368\<rparr>"

definition report_ref_from :: "bytes \<Rightarrow> attestation_report option" where
  "report_ref_from bs = (if length bs = 1184
     then Some \<lparr>report_body = read_report_data bs, report_signature = read_signature bs\<rparr> else None)"

text \<open>The array lengths that the Rust types fix.\<close>

definition tcb_wf :: "tcb_version \<Rightarrow> bool" where
  "tcb_wf t \<longleftrightarrow> length (tcb_reserved t) = 4"

definition report_data_wf :: "attestation_report_data \<Rightarrow> bool" where
  "report_data_wf d \<longleftrightarrow>
     tcb_wf (current_tcb d) \<and> tcb_wf (reported_tcb d) \<and> tcb_wf (committed_tcb d) \<and>
     tcb_wf (launch_tcb d) \<and>
     length (family_id d) = 16 \<and> length (image_id d) = 16 \<and>
     length (report_data d) = REPORT_DATA_SIZE \<and> length (measurement d) = 48 \<and>
     length (host_data d) = 32 \<and> length (id_key_digest d) = 48 \<and>
     length (author_key_digest d) = 48 \<and> length (report_id d) = 32 \<and>
     length (report_id_ma d) = 32 \<and> length (reserved_0 d) = 24 \<and> length (chip_id d) = 64 \<and>
     length (reserved_3 d) = 168"

definition signature_wf :: "ecdsa_signature \<Rightarrow> bool" where
  "signature_wf s \<longleftrightarrow> length (sig_r s) = 72 \<and> length (sig_s s) = 72 \<and> length (sig_reserved s) = 368"

definition report_wf :: "attestation_report \<Rightarrow> bool" where
  "report_wf r \<longleftrightarrow> report_data_wf (report_body r) \<and> signature_wf (report_signature r)"

section \<open>Operations of reports\<close>

text \<open>\<^verbatim>\<open>new_zeroed\<close> is the view of as many zero bytes.\<close>

definition report_new_zeroed :: attestation_report where
  "report_new_zeroed = \<lparr>report_body = read_report_data (replicate 1184 0),
     report_signature = read_signature (replicate 1184 0)\<rparr>"

definition from_report_data :: "bytes \<Rightarrow> attestation_report" where
  "from_report_data d = report_new_zeroed\<lparr>report_body := (report_body report_new_zeroed)\<lparr>report_data := d\<rparr>\<rparr>"

definition get_flags :: "guest_policy \<Rightarrow> u16 option" where
  "get_flags p = from_bits PolicyFlags_all (policy_flags p)"

definition policy_validate :: "guest_policy \<Rightarrow> (unit, string) result" where
  "policy_validate p =
     (if policy_reserved p \<noteq> 0 then Error ''nonzero value in _reserved''
      else if get_flags p = None then Error ''invalid flags'' else Ok ())"

definition tcb_validate :: "tcb_version \<Rightarrow> (unit, string) result" where
  "tcb_validate t = (if list_ex (\<lambda>v. v \<noteq> 0) (tcb_reserved t)
     then Error ''nonzero value in _reserved'' else Ok ())"

definition get_platform_info :: "attestation_report_data \<Rightarrow> u64 option" where
  "get_platform_info d = from_bits PlatformInfo_all (platform_info d)"

definition get_author_key_en :: "attestation_report_data \<Rightarrow> author_key option" where
  "get_author_key_en d = author_key_from_repr (author_key_en d)"

definition get_signature_algo :: "attestation_report_data \<Rightarrow> signing_algorithm option" where
  "get_signature_algo d = signing_algorithm_from_repr (signature_algo d)"

definition report_data_validate :: "attestation_report_data \<Rightarrow> (unit, string) result" where
  "report_data_validate d =
     and_then (policy_validate (policy d)) (\<lambda>_.
     and_then (tcb_validate (current_tcb d)) (\<lambda>_.
     and_then (tcb_validate (reported_tcb d)) (\<lambda>_.
     and_then (tcb_validate (committed_tcb d)) (\<lambda>_.
     if list_ex (\<lambda>v. v \<noteq> 0) (reserved_0 d) then Error ''nonzero value in _reserved_0''
     else if reserved_1 d \<noteq> 0 then Error ''nonzero value in _reserved_1''
     else if reserved_2 d \<noteq> 0 then Error ''nonzero value in _reserved_2''
     else if list_ex (\<lambda>v. v \<noteq> 0) (reserved_3 d) then Error ''nonzero value in _reserved_3''
     else if get_signature_algo d = None then Error ''invalid signature algorithm''
     else if get_platform_info d = None then Error ''invalid platform info''
     else if get_author_key_en d = None then Error ''invalid value for author_key_en''
     else Ok ()))))"

definition validate_format :: "ecdsa_signature \<Rightarrow> (unit, string) result" where
  "validate_format s = (if list_ex (\<lambda>v. v \<noteq> 0) (sig_reserved s)
     then Error ''nonzero value in _reserved'' else Ok ())"

definition report_validate :: "attestation_report \<Rightarrow> (unit, string) result" where
  "report_validate r = and_then (report_data_validate (report_body r)) (\<lambda>_.
     validate_format (report_signature r))"

definition has_debug_flag :: "attestation_report \<Rightarrow> (bool, string) result" where
  "has_debug_flag r = and_then (ok_or (get_flags (policy (report_body r))) ''Failed to parse flags'')
     (\<lambda>flags. Ok (flags AND PolicyFlags_DEBUG = PolicyFlags_DEBUG))"

section \<open>Certificates (amd.rs)\<close>

datatype cert_version = V1 | V2 | V3

record subject_public_key_info =
  spki_algorithm :: bytes
  subject_public_key :: bytes

record tbs_certificate =
  tbs_version :: cert_version
  tbs_spki :: subject_public_key_info
  tbs_extensions :: "(string \<times> bytes) list option"
  tbs_other :: bytes

record certificate =
  tbs :: tbs_certificate
  signature_algorithm_oid :: string
  cert_signature :: bytes

record 'h report_crates = "'h endorsement_crates" +
  cert_from_der :: "bytes \<Rightarrow> certificate option"
  tbs_to_der :: "tbs_certificate \<Rightarrow> bytes option"
  rsa_public_key :: "subject_public_key_info \<Rightarrow> 'h option"
  rsa_pss_signature :: "bytes \<Rightarrow> 'h option"
  rsa_pss_verify :: "'h \<Rightarrow> bytes \<Rightarrow> 'h \<Rightarrow> bool"
  p384_from_sec1 :: "bytes \<Rightarrow> 'h option"
  p384_from_scalars :: "bytes \<Rightarrow> bytes \<Rightarrow> 'h option"
  p384_verify :: "'h \<Rightarrow> bytes \<Rightarrow> 'h \<Rightarrow> bool"

abbreviation (input) RSA_SSA_PSS_OID :: string where "RSA_SSA_PSS_OID \<equiv> ''1.2.840.113549.1.1.10''"

abbreviation (input) PRODUCT_NAME_OID :: string where "PRODUCT_NAME_OID \<equiv> ''1.3.6.1.4.1.3704.1.2''"

abbreviation (input) BL_OID :: string where "BL_OID \<equiv> ''1.3.6.1.4.1.3704.1.3.1''"

abbreviation (input) TEE_OID :: string where "TEE_OID \<equiv> ''1.3.6.1.4.1.3704.1.3.2''"

abbreviation (input) SNP_OID :: string where "SNP_OID \<equiv> ''1.3.6.1.4.1.3704.1.3.3''"

abbreviation (input) CHIP_ID_OID :: string where "CHIP_ID_OID \<equiv> ''1.3.6.1.4.1.3704.1.4''"

abbreviation (input) UCODE_OID :: string where "UCODE_OID \<equiv> ''1.3.6.1.4.1.3704.1.3.8''"

definition verify_cert_signature ::
  "('h, 'z) report_crates_scheme \<Rightarrow> certificate \<Rightarrow> certificate \<Rightarrow> unit anyhow" where
  "verify_cert_signature cr signer signee =
     and_then (ensure (signature_algorithm_oid signee = RSA_SSA_PSS_OID)
       [''unsupported signature algorithm'']) (\<lambda>_.
     and_then (ok_or (rsa_public_key cr (tbs_spki (tbs signer)))
       [''could not parse RSA public key'']) (\<lambda>verifying_key.
     and_then (ok_or (tbs_to_der cr (tbs signee))
       [''could not extract message to verify RSA signature'']) (\<lambda>message.
     and_then (ok_or (rsa_pss_signature cr (cert_signature signee))
       [''could not extract RSA signature'']) (\<lambda>signature.
     ensure (rsa_pss_verify cr verifying_key message signature)
       [''signature verification failed'']))))"

definition validate_ark_ask_certs ::
  "('h, 'z) report_crates_scheme \<Rightarrow> certificate \<Rightarrow> certificate \<Rightarrow> unit anyhow" where
  "validate_ark_ask_certs cr ark ask =
     and_then (ensure (tbs_version (tbs ark) = V3) [''unexpected version of ARK cert'']) (\<lambda>_.
     and_then (ensure (tbs_version (tbs ask) = V3) [''unexpected version of ASK cert'']) (\<lambda>_.
     and_then (verify_cert_signature cr ark ask) (\<lambda>_.
     and_then (verify_cert_signature cr ark ark) (\<lambda>_. Ok ()))))"

definition find_extension :: "string \<Rightarrow> (string \<times> bytes) list \<Rightarrow> (string \<times> bytes) option" where
  "find_extension oid exts = find (\<lambda>ext. fst ext = oid) exts"

definition product_name :: "certificate \<Rightarrow> string anyhow" where
  "product_name cert =
     and_then (ok_or (tbs_extensions (tbs cert)) [''could not get extensions from cert'']) (\<lambda>exts.
     and_then (ok_or (find_extension PRODUCT_NAME_OID exts) [''no product name found in cert'']) (\<lambda>pn_ext.
     ok_or (from_utf8 (snd pn_ext)) [''failed to read product name'']))"

definition chip_id_of_cert :: "certificate \<Rightarrow> bytes anyhow" where
  "chip_id_of_cert cert =
     and_then (ok_or (tbs_extensions (tbs cert)) [''could not get extensions from cert'']) (\<lambda>exts.
     and_then (ok_or (find_extension CHIP_ID_OID exts) [''no chip ID found in cert'']) (\<lambda>chip_id_ext.
     and_then (ensure (length (snd chip_id_ext) = 64) [''length of chip ID value is not 64'']) (\<lambda>_.
     Ok (slice (snd chip_id_ext) 0 64))))"

text \<open>\<^verbatim>\<open>arr[last]\<close> with \<^verbatim>\<open>last = arr.len() - 1\<close>. The subtraction comes before the OID is
  looked at, so an empty value of any extension panics.\<close>

definition last_octet :: "bytes \<Rightarrow> u8 anyhow" where
  "last_octet arr = (if arr = [] then panic ''attempt to subtract with overflow'' else Ok (last arr))"

definition tcb_new_zeroed :: tcb_version where
  "tcb_new_zeroed = \<lparr>boot_loader = 0, tee = 0, tcb_reserved = [0, 0, 0, 0], snp = 0, microcode = 0\<rparr>"

definition tcb_extension :: "tcb_version \<Rightarrow> string \<times> bytes \<Rightarrow> tcb_version anyhow" where
  "tcb_extension tcb ext =
     and_then (last_octet (snd ext)) (\<lambda>v.
     Ok (if fst ext = BL_OID then tcb\<lparr>boot_loader := v\<rparr>
         else if fst ext = TEE_OID then tcb\<lparr>tee := v\<rparr>
         else if fst ext = SNP_OID then tcb\<lparr>snp := v\<rparr>
         else if fst ext = UCODE_OID then tcb\<lparr>microcode := v\<rparr>
         else tcb))"

definition tcb_version_of_cert :: "certificate \<Rightarrow> tcb_version anyhow" where
  "tcb_version_of_cert vcek =
     and_then (ok_or (tbs_extensions (tbs vcek)) [''could not get extensions from VCEK cert''])
       (\<lambda>exts. try_fold tcb_extension tcb_new_zeroed exts)"

text \<open>The loop that mirrors the 48 little-endian bytes of a scalar.\<close>

definition mirror48 :: "bytes \<Rightarrow> bytes" where
  "mirror48 bs = fold (\<lambda>i r. r[i := bs ! (47 - i)]) [0..<48] (replicate 48 0)"

definition verify_attestation_report_signature ::
  "('h, 'z) report_crates_scheme \<Rightarrow> certificate \<Rightarrow> attestation_report \<Rightarrow> unit anyhow" where
  "verify_attestation_report_signature cr vcek report =
     (let d = report_body report; arpt_tcb = reported_tcb d in
     and_then (chip_id_of_cert vcek) (\<lambda>vcek_chip_id.
     and_then (ensure (chip_id d = vcek_chip_id) [''chip id differs'']) (\<lambda>_.
     and_then (tcb_version_of_cert vcek) (\<lambda>vcek_tcb.
     and_then (ensure (snp arpt_tcb = snp vcek_tcb)
       [''mismatch in snp field of TCB version'']) (\<lambda>_.
     and_then (ensure (microcode arpt_tcb = microcode vcek_tcb)
       [''mismatch in microcode field of TCB version'']) (\<lambda>_.
     and_then (ensure (tee arpt_tcb = tee vcek_tcb)
       [''mismatch in tee field of TCB version'']) (\<lambda>_.
     and_then (ensure (boot_loader arpt_tcb = boot_loader vcek_tcb)
       [''mismatch in boot_loader field of TCB version'']) (\<lambda>_.
     and_then (ensure (get_signature_algo d = Some EcdsaP384Sha384)
       [''invalid signature algoritm'']) (\<lambda>_.
     and_then (ok_or (p384_from_sec1 cr (subject_public_key (tbs_spki (tbs vcek))))
       [''could not extract ECDSA P-384 public key'']) (\<lambda>verifying_key.
     and_then (ok_or (p384_from_scalars cr (mirror48 (sig_r (report_signature report)))
         (mirror48 (sig_s (report_signature report))))
       [''could not extract ECDSA P-384 signature'']) (\<lambda>signature.
     ensure (p384_verify cr verifying_key (report_data_bytes d) signature)
       [''failed to verify ECDSA P-384 signature''])))))))))))"

section \<open>Layout round trips\<close>

lemma slice_join [bytes_simps]:
  "j = i + n \<Longrightarrow> slice xs i n @ slice xs j m = slice xs i (n + m)"
  "j = i + n \<Longrightarrow> slice xs i n @ slice xs j m @ zs = slice xs i (n + m) @ zs"
  by (simp_all add: slice_def take_add add.commute [of i n])

lemma slice_one: "i < length xs \<Longrightarrow> slice xs i (Suc 0) = [xs ! i]"
  by (simp add: slice_def take_Suc_conv_app_nth Cons_nth_drop_Suc [symmetric])

lemma le_bytes_read:
  assumes "i + k \<le> length bs" "k = LENGTH('a :: len) div 8" "8 dvd LENGTH('a)"
  shows "le_bytes k (unat (word_of_nat (le_value (slice bs i k)) :: 'a word)) = slice bs i k"
proof -
  have "length (slice bs i k) = k" using assms(1) by simp
  with le_value_less [of "slice bs i k"] have "le_value (slice bs i k) < 256 ^ k" by metis
  also have "(256 :: nat) ^ k = 2 ^ LENGTH('a)"
    using assms(2,3) power_mult [of "2 :: nat" 8 "LENGTH('a) div 8"] by simp
  finally show ?thesis
    using \<open>length (slice bs i k) = k\<close> le_bytes_le_value [of "slice bs i k"]
    by (simp add: unat_of_nat)
qed

lemma read_le_bytes:
  assumes "k = LENGTH('a :: len) div 8" "8 dvd LENGTH('a)"
  shows "word_of_nat (le_value (le_bytes k (unat (w :: 'a word)))) = w"
proof -
  have "(256 :: nat) ^ k = 2 ^ LENGTH('a)"
    using assms power_mult [of "2 :: nat" 8 "LENGTH('a) div 8"] by simp
  then show ?thesis by (simp add: unsigned_less)
qed

lemma le_bytes_numeral:
  "le_bytes (numeral k) n = word_of_nat n # le_bytes (pred_numeral k) (n div 256)"
  by (simp only: numeral_eq_Suc [of k] le_bytes.simps)

lemma length_tcb_bytes [simp]: "tcb_wf t \<Longrightarrow> length (tcb_bytes t) = 8"
  by (simp add: tcb_bytes_def tcb_wf_def)

lemma length_policy_bytes [simp]: "length (policy_bytes p) = 8"
  by (simp add: policy_bytes_def)

lemma length_report_data_bytes [simp]: "report_data_wf d \<Longrightarrow> length (report_data_bytes d) = 672"
  by (simp add: report_data_bytes_def report_data_wf_def REPORT_DATA_SIZE_def)

lemma length_report_bytes [simp]: "report_wf r \<Longrightarrow> length (report_bytes r) = 1184"
  by (simp add: report_bytes_def report_wf_def signature_bytes_def signature_wf_def)

text \<open>Writing out what was read gives the bytes back.\<close>

lemma tcb_bytes_read:
  assumes "i + 8 \<le> length bs"
  shows "tcb_bytes (read_tcb bs i) = slice bs i 8"
proof -
  have "slice bs i 8 = slice bs i 1 @ slice bs (i + 1) 1 @ slice bs (i + 2) 4
      @ slice bs (i + 6) 1 @ slice bs (i + 7) 1"
    by (simp add: bytes_simps)
  with assms show ?thesis
    by (simp add: tcb_bytes_def read_tcb_def slice_one)
qed

lemma policy_bytes_read:
  assumes "i + 8 \<le> length bs"
  shows "policy_bytes (read_policy bs i) = slice bs i 8"
proof -
  have "slice bs i 8 = slice bs i 1 @ slice bs (i + 1) 1 @ slice bs (i + 2) 2 @ slice bs (i + 4) 4"
    by (simp add: bytes_simps)
  with assms show ?thesis
    by (simp add: policy_bytes_def read_policy_def slice_one le_bytes_read)
qed

lemma two_bytes_read: "i + 2 \<le> length bs \<Longrightarrow> slice bs i 2 = [bs ! i, bs ! (i + 1)]"
  using slice_join(1) [of "i + 1" i 1 bs 1] by (simp add: slice_one numeral_2_eq_2)

lemma four_bytes_read:
  "i + 4 \<le> length bs \<Longrightarrow> [bs ! i, bs ! (i + 1), bs ! (i + 2), bs ! (i + 3)] = slice bs i 4"
  using slice_join(1) [of "i + 2" i 2 bs 2] two_bytes_read [of i bs] two_bytes_read [of "i + 2" bs]
  by (auto simp: eval_nat_numeral)

lemma report_data_bytes_read:
  assumes "length bs = 1184"
  shows "report_data_bytes (read_report_data bs) = slice bs 0 672"
proof -
  have "[bs ! 0x1E8, bs ! 0x1E9, bs ! 0x1EA, bs ! 0x1EB] = slice bs 0x1E8 4"
    "[bs ! 0x1EC, bs ! 0x1ED, bs ! 0x1EE, bs ! 0x1EF] = slice bs 0x1EC 4"
    using four_bytes_read [of "0x1E8" bs] four_bytes_read [of "0x1EC" bs] assms by simp_all
  then show ?thesis
    unfolding report_data_bytes_def read_report_data_def attestation_report_data.simps
    by (simp add: tcb_bytes_read policy_bytes_read le_bytes_read bytes_simps assms)
qed

lemma report_bytes_ref_from:
  assumes "report_ref_from bs = Some r"
  shows "report_bytes r = bs" and "report_wf r"
proof -
  from assms have len: "length bs = 1184"
    and r: "r = \<lparr>report_body = read_report_data bs, report_signature = read_signature bs\<rparr>"
    by (auto simp: report_ref_from_def split: if_splits)
  from len show "report_bytes r = bs"
    by (simp add: r report_bytes_def report_data_bytes_read signature_bytes_def read_signature_def
        bytes_simps)
  from len show "report_wf r"
    by (simp add: r report_wf_def report_data_wf_def signature_wf_def tcb_wf_def read_tcb_def
        read_report_data_def read_signature_def REPORT_DATA_SIZE_def)
qed

text \<open>Reading what was written gives the structure back.\<close>

lemma le_bytes_word_inject:
  fixes v w :: "'a :: len word"
  assumes "le_bytes k (unat v) = le_bytes k (unat w)" "k = LENGTH('a) div 8" "8 dvd LENGTH('a)"
  shows "v = w"
  by (metis assms read_le_bytes)

lemma le_bytes_eq_iff [simp]:
  "le_bytes 2 (unat (u :: u16)) = le_bytes 2 (unat u') \<longleftrightarrow> u = u'"
  "le_bytes 4 (unat (v :: u32)) = le_bytes 4 (unat v') \<longleftrightarrow> v = v'"
  "le_bytes 8 (unat (w :: u64)) = le_bytes 8 (unat w') \<longleftrightarrow> w = w'"
  by (auto dest: le_bytes_word_inject)

lemma policy_bytes_inject [simp]: "policy_bytes p = policy_bytes q \<longleftrightarrow> p = q"
  by (cases p; cases q) (auto simp: policy_bytes_def)

lemma tcb_bytes_inject [simp]: "tcb_wf t \<Longrightarrow> tcb_wf u \<Longrightarrow> tcb_bytes t = tcb_bytes u \<longleftrightarrow> t = u"
  by (cases t; cases u) (auto simp: tcb_bytes_def tcb_wf_def)

lemma report_data_bytes_inject:
  assumes "report_data_wf a" "report_data_wf b" "report_data_bytes a = report_data_bytes b"
  shows "a = b"
  using assms(3) assms(1,2) [unfolded report_data_wf_def]
  by (cases a; cases b) (simp add: report_data_bytes_def)

lemma report_ref_from_bytes:
  assumes "report_wf r"
  shows "report_ref_from (report_bytes r) = Some r"
proof -
  from assms obtain s where s: "report_ref_from (report_bytes r) = Some s"
    by (simp add: report_ref_from_def)
  have eq: "report_bytes s = report_bytes r" and "report_wf s"
    using report_bytes_ref_from [OF s] by simp_all
  with assms have "report_body s = report_body r" "report_signature s = report_signature r"
    by (auto simp: report_wf_def report_bytes_def intro!: report_data_bytes_inject)
      (cases "report_signature s"; cases "report_signature r"; simp add: signature_wf_def signature_bytes_def)
  with s show ?thesis by simp
qed

section \<open>What validation accepts\<close>

lemma and_not_mask_0: "b AND NOT (mask n) = 0 \<longleftrightarrow> drop_bit n b = 0" for b :: "'a :: len word"
proof -
  have "b AND NOT (mask n) = 0 \<longleftrightarrow> b AND mask n = b"
    unfolding bit_eq_iff [of "b AND NOT (mask n)"] bit_eq_iff [of "b AND mask n"]
    by (auto simp: bit_simps)
  then show ?thesis
    by (simp add: take_bit_eq_mask [symmetric] take_bit_eq_self_iff_drop_bit_eq_0)
qed

lemma from_bits_mask: "from_bits (mask n) b \<noteq> None \<longleftrightarrow> drop_bit n b = 0"
  by (simp add: from_bits_def and_not_mask_0)

lemma flag_masks: "PlatformInfo_all = mask 2" "PolicyFlags_all = mask 5"
  by (simp_all add: PlatformInfo_all_def PolicyFlags_all_def mask_eq_exp_minus_1)

lemma and_exp_eq_iff_bit:
  "n < LENGTH('a) \<Longrightarrow> b AND 2 ^ n = 2 ^ n \<longleftrightarrow> bit b n" for b :: "'a :: len word"
  unfolding bit_eq_iff [of "b AND 2 ^ n"] by (auto simp: bit_simps)

lemma debug_bit: "f AND PolicyFlags_DEBUG = PolicyFlags_DEBUG \<longleftrightarrow> bit f 3" for f :: u16
  using and_exp_eq_iff_bit [of 3 f] by (simp add: PolicyFlags_DEBUG_def)

lemma list_ex_slice:
  "i + n \<le> length bs \<Longrightarrow> list_ex P (slice bs i n) \<longleftrightarrow> (\<exists>k \<in> {i ..< i + n}. P (bs ! k))"
proof -
  assume "i + n \<le> length bs"
  then have "slice bs i n = map (nth bs) [i ..< i + n]"
    by (auto simp: slice_def list_eq_iff_nth_eq)
  then show ?thesis by (simp add: list_ex_iff)
qed

text \<open>The byte offsets that a valid report keeps zero: those of the policy, of the current, the
  reported and the committed TCB versions, the four reserved fields and the signature's padding.\<close>

definition checked_zero :: "nat set" where
  "checked_zero = {0x00C ..< 0x010} \<union> {0x03A ..< 0x03E} \<union> {0x182 ..< 0x186} \<union> {0x188 ..< 0x1A0}
     \<union> {0x1E2 ..< 0x1E6} \<union> {0x1EB} \<union> {0x1EF} \<union> {0x1F8 ..< 0x2A0} \<union> {0x330 ..< 0x4A0}"

definition u32_at :: "bytes \<Rightarrow> nat \<Rightarrow> u32" where
  "u32_at bs i = word_of_nat (le_value (slice bs i 4))"

definition u64_at :: "bytes \<Rightarrow> nat \<Rightarrow> u64" where
  "u64_at bs i = word_of_nat (le_value (slice bs i 8))"

definition u16_at :: "bytes \<Rightarrow> nat \<Rightarrow> u16" where
  "u16_at bs i = word_of_nat (le_value (slice bs i 2))"

lemma le_value_eq_0: "le_value bs = 0 \<longleftrightarrow> (\<forall>b \<in> set bs. b = 0)"
  by (induction bs) (auto simp: unat_eq_0)

lemma u32_at_eq_0:
  assumes "i + 4 \<le> length bs"
  shows "(word_of_nat (le_value (slice bs i 4)) :: u32) = 0 \<longleftrightarrow> (\<forall>k \<in> {i ..< i + 4}. bs ! k = 0)"
proof -
  have "le_value (slice bs i 4) < 2 ^ 32"
    using le_value_less [of "slice bs i 4"] assms by simp
  then have "(word_of_nat (le_value (slice bs i 4)) :: u32) = 0 \<longleftrightarrow> le_value (slice bs i 4) = 0"
    by (simp add: word_unat_eq_iff unat_of_nat)
  also have "\<dots> \<longleftrightarrow> (\<forall>k \<in> {i ..< i + 4}. bs ! k = 0)"
    using list_ex_slice [OF assms, of "\<lambda>v. v \<noteq> 0"] by (auto simp: le_value_eq_0 list_ex_iff)
  finally show ?thesis .
qed

lemma tcb_validate_Ok [result_simps]:
  "i + 8 \<le> length bs \<Longrightarrow> tcb_validate (read_tcb bs i) = Ok u \<longleftrightarrow> (\<forall>k \<in> {i + 2 ..< i + 6}. bs ! k = 0)"
  using list_ex_slice [of "i + 2" 4 bs "\<lambda>v. v \<noteq> 0"]
  by (auto simp: tcb_validate_def read_tcb_def add.commute)

lemma policy_validate_Ok [result_simps]:
  "i + 8 \<le> length bs \<Longrightarrow> policy_validate (read_policy bs i) = Ok u \<longleftrightarrow>
     (\<forall>k \<in> {i + 4 ..< i + 8}. bs ! k = 0) \<and> drop_bit 5 (u16_at bs (i + 2)) = 0"
  using u32_at_eq_0 [of "i + 4" bs]
  by (auto simp: policy_validate_def get_flags_def flag_masks from_bits_def and_not_mask_0
      read_policy_def u16_at_def)

lemma report_validate_bytes:
  assumes "report_ref_from bs = Some r"
  shows "report_validate r = Ok () \<longleftrightarrow>
     (\<forall>i \<in> checked_zero. bs ! i = 0) \<and> drop_bit 5 (u16_at bs 0x00A) = 0 \<and>
     u32_at bs 0x034 \<in> {0, 1} \<and> drop_bit 2 (u64_at bs 0x040) = 0 \<and> u64_at bs 0x048 \<in> {0, 1}"
proof -
  from assms have len: "length bs = 1184"
    and r: "r = \<lparr>report_body = read_report_data bs, report_signature = read_signature bs\<rparr>"
    by (auto simp: report_ref_from_def split: if_splits)
  show ?thesis
    unfolding checked_zero_def ball_Un
    by (auto simp: r len report_validate_def report_data_validate_def validate_format_def
        read_report_data_def read_signature_def and_then_eq_Ok tcb_validate_Ok policy_validate_Ok
        list_ex_slice get_signature_algo_def signing_algorithm_from_repr_def get_platform_info_def
        flag_masks from_bits_def and_not_mask_0 get_author_key_en_def author_key_from_repr_def
        u32_at_def u64_at_def split: if_splits)
qed

lemma has_debug_flag_bytes:
  assumes "report_ref_from bs = Some r"
  shows "has_debug_flag r = (if drop_bit 5 (u16_at bs 0x00A) = 0
     then Ok (bit (u16_at bs 0x00A) 3) else Error ''Failed to parse flags'')"
proof -
  from assms have "policy_flags (policy (report_body r)) = u16_at bs 0x00A"
    by (auto simp: report_ref_from_def read_report_data_def read_policy_def u16_at_def
        split: if_splits)
  then show ?thesis
    by (simp add: has_debug_flag_def get_flags_def flag_masks from_bits_def and_not_mask_0 debug_bit)
qed

section \<open>What the signature check accepts\<close>

lemma fold_update_upt:
  "n \<le> length r \<Longrightarrow> fold (\<lambda>i r. r[i := f i]) [0..<n] r = map f [0..<n] @ drop n r"
proof (induction n)
  case (Suc n)
  then show ?case
    by (simp add: list_update_append Cons_nth_drop_Suc [symmetric])
qed simp

lemma mirror48_rev: "48 \<le> length bs \<Longrightarrow> mirror48 bs = rev (take 48 bs)"
  unfolding mirror48_def by (subst fold_update_upt) (auto simp: list_eq_iff_nth_eq rev_nth)

text \<open>The octet that a TCB extension gives: the last byte of the last extension with its OID.\<close>

definition tcb_octet :: "string \<Rightarrow> (string \<times> bytes) list \<Rightarrow> u8 \<Rightarrow> u8" where
  "tcb_octet oid exts v = last (v # map (last \<circ> snd) (filter (\<lambda>e. fst e = oid) exts))"

definition tcb_octets :: "(string \<times> bytes) list \<Rightarrow> tcb_version \<Rightarrow> tcb_version" where
  "tcb_octets exts t = \<lparr>boot_loader = tcb_octet BL_OID exts (boot_loader t),
     tee = tcb_octet TEE_OID exts (tee t), tcb_reserved = tcb_reserved t,
     snp = tcb_octet SNP_OID exts (snp t), microcode = tcb_octet UCODE_OID exts (microcode t)\<rparr>"

definition tcb_readable :: "(string \<times> bytes) list \<Rightarrow> bool" where
  "tcb_readable exts \<longleftrightarrow> list_all (\<lambda>(oid, v). v \<noteq> []) exts"

lemma tcb_oids_distinct: "distinct [BL_OID, TEE_OID, SNP_OID, UCODE_OID]"
  by simp

lemma tcb_octet_Nil [simp]: "tcb_octet oid [] v = v"
  by (simp add: tcb_octet_def)

lemma tcb_octet_Cons [simp]:
  "tcb_octet oid ((o', bs) # exts) v = tcb_octet oid exts (if o' = oid then last bs else v)"
  by (simp add: tcb_octet_def)

lemma last_octet_Ok [result_simps]: "last_octet bs = Ok v \<longleftrightarrow> bs \<noteq> [] \<and> v = last bs"
  by (auto simp: last_octet_def)

lemma tcb_extension_Ok [result_simps]:
  "tcb_extension t e = Ok t' \<longleftrightarrow> tcb_readable [e] \<and> t' = tcb_octets [e] t"
  using tcb_oids_distinct
  by (cases e; cases t)
    (auto simp: tcb_extension_def tcb_readable_def tcb_octets_def Let_def result_simps)

lemma tcb_fold_Ok:
  "try_fold tcb_extension t exts = Ok t' \<longleftrightarrow> tcb_readable exts \<and> t' = tcb_octets exts t"
proof (induction exts arbitrary: t)
  case Nil
  then show ?case by (auto simp: tcb_readable_def tcb_octets_def)
next
  case (Cons e exts)
  then show ?case
    by (cases e) (auto simp: and_then_eq_Ok tcb_extension_Ok tcb_readable_def tcb_octets_def)
qed

lemma tcb_version_of_cert_Ok [result_simps]:
  "tcb_version_of_cert c = Ok t \<longleftrightarrow> (\<exists>exts. tbs_extensions (tbs c) = Some exts \<and>
     tcb_readable exts \<and> t = tcb_octets exts tcb_new_zeroed)"
  by (auto simp: tcb_version_of_cert_def result_simps tcb_fold_Ok)

lemma chip_id_of_cert_Ok [result_simps]:
  "chip_id_of_cert c = Ok v \<longleftrightarrow> (\<exists>exts oid. tbs_extensions (tbs c) = Some exts \<and>
     find_extension CHIP_ID_OID exts = Some (oid, v) \<and> length v = 64)"
  by (auto simp: chip_id_of_cert_def result_simps)

lemma verify_cert_signature_Ok [result_simps]:
  "verify_cert_signature cr signer signee = Ok u \<longleftrightarrow>
     signature_algorithm_oid signee = RSA_SSA_PSS_OID \<and>
     (\<exists>key msg s. rsa_public_key cr (tbs_spki (tbs signer)) = Some key \<and>
        tbs_to_der cr (tbs signee) = Some msg \<and>
        rsa_pss_signature cr (cert_signature signee) = Some s \<and> rsa_pss_verify cr key msg s)"
  by (auto simp: verify_cert_signature_def result_simps)

lemma validate_ark_ask_certs_Ok [result_simps]:
  "validate_ark_ask_certs cr ark ask = Ok u \<longleftrightarrow>
     tbs_version (tbs ark) = V3 \<and> tbs_version (tbs ask) = V3 \<and>
     verify_cert_signature cr ark ask = Ok () \<and> verify_cert_signature cr ark ark = Ok ()"
  by (auto simp: validate_ark_ask_certs_def and_then_eq_Ok ensure_eq_Ok)

text \<open>\<open>vouched\<close>: the VCEK certificate names the chip and the firmware versions of the report, and
  its key verifies the signature over the given bytes, the scalars read as big-endian numbers.\<close>

definition vouched ::
  "('h, 'z) report_crates_scheme \<Rightarrow> certificate \<Rightarrow> attestation_report \<Rightarrow> bytes \<Rightarrow> bool" where
  "vouched cr vcek r message \<longleftrightarrow> (\<exists>exts oid key s.
     tbs_extensions (tbs vcek) = Some exts \<and> tcb_readable exts \<and>
     find_extension CHIP_ID_OID exts = Some (oid, chip_id (report_body r)) \<and>
     length (chip_id (report_body r)) = 64 \<and>
     (let t = tcb_octets exts tcb_new_zeroed; t' = reported_tcb (report_body r) in
        snp t' = snp t \<and> microcode t' = microcode t \<and> tee t' = tee t \<and>
        boot_loader t' = boot_loader t) \<and>
     signature_algo (report_body r) = 1 \<and>
     p384_from_sec1 cr (subject_public_key (tbs_spki (tbs vcek))) = Some key \<and>
     p384_from_scalars cr (rev (take 48 (sig_r (report_signature r))))
       (rev (take 48 (sig_s (report_signature r)))) = Some s \<and>
     p384_verify cr key message s)"

lemma verify_attestation_report_signature_Ok:
  assumes "report_wf r"
  shows "verify_attestation_report_signature cr vcek r = Ok u \<longleftrightarrow>
    vouched cr vcek r (report_data_bytes (report_body r))"
proof -
  have "mirror48 (sig_r (report_signature r)) = rev (take 48 (sig_r (report_signature r)))"
    "mirror48 (sig_s (report_signature r)) = rev (take 48 (sig_s (report_signature r)))"
    using assms by (simp_all add: mirror48_rev report_wf_def signature_wf_def)
  then show ?thesis
    by (auto simp: verify_attestation_report_signature_def vouched_def result_simps Let_def
        get_signature_algo_def signing_algorithm_from_repr_def split: if_splits)
qed

section \<open>Properties\<close>

lemma report_ref_from_Some:
  "report_ref_from bs = Some r \<longleftrightarrow> report_wf r \<and> report_bytes r = bs"
proof
  show "report_ref_from bs = Some r \<Longrightarrow> report_wf r \<and> report_bytes r = bs"
    by (simp add: report_bytes_ref_from)
  show "report_wf r \<and> report_bytes r = bs \<Longrightarrow> report_ref_from bs = Some r"
    using report_ref_from_bytes [of r] by simp
qed

lemma report_data_bytes_take: "report_wf r \<Longrightarrow> take 672 (report_bytes r) = report_data_bytes (report_body r)"
  by (simp add: report_bytes_def report_wf_def)

text \<open>Example data: a report with the given report data, and a VCEK certificate and primitives
  that accept it. The signature scheme of the example sums the first bytes of key and message.\<close>

definition demo_report :: "bytes \<Rightarrow> attestation_report" where
  "demo_report d = \<lparr>report_body = (report_body report_new_zeroed)\<lparr>report_version := 2,
       signature_algo := 1, report_data := d,
       reported_tcb := \<lparr>boot_loader = 3, tee = 0, tcb_reserved = [0, 0, 0, 0], snp = 8, microcode = 115\<rparr>\<rparr>,
     report_signature = \<lparr>sig_r = replicate 72 0, sig_s = 9 # replicate 71 0,
       sig_reserved = replicate 368 0\<rparr>\<rparr>"

definition demo_cert :: "bytes \<Rightarrow> bytes \<Rightarrow> certificate" where
  "demo_cert key sig = \<lparr>tbs = \<lparr>tbs_version = V3,
       tbs_spki = \<lparr>spki_algorithm = [], subject_public_key = key\<rparr>,
       tbs_extensions = Some [(BL_OID, [2, 1, 3]), (TEE_OID, [2, 1, 0]), (SNP_OID, [2, 1, 8]),
         (UCODE_OID, [2, 1, 115]), (CHIP_ID_OID, replicate 64 0)],
       tbs_other = []\<rparr>,
     signature_algorithm_oid = RSA_SSA_PSS_OID, cert_signature = sig\<rparr>"

definition demo_report_crates :: "string report_crates" where
  "demo_report_crates = endorsement_crates.extend demo_crates (report_crates.fields
     (\<lambda>der. Some (demo_cert (take 1 der) (drop 1 der)))
     (\<lambda>t. Some (subject_public_key (tbs_spki t)))
     (\<lambda>spki. Some (map char_of_byte (subject_public_key spki)))
     (\<lambda>bs. Some (map char_of_byte bs))
     (\<lambda>key msg sig. as_bytes sig = as_bytes key @ msg)
     (\<lambda>bs. Some (map char_of_byte bs))
     (\<lambda>r s. Some (map char_of_byte (r @ s)))
     (\<lambda>key msg sig. as_bytes sig = replicate 95 0 @ [hd (as_bytes key) + hd msg]))"

lemma demo_report_crates_simps [simp]:
  "cert_from_der demo_report_crates der = Some (demo_cert (take 1 der) (drop 1 der))"
  "tbs_to_der demo_report_crates t = Some (subject_public_key (tbs_spki t))"
  "rsa_public_key demo_report_crates spki = Some (map char_of_byte (subject_public_key spki))"
  "rsa_pss_signature demo_report_crates bs = Some (map char_of_byte bs)"
  "rsa_pss_verify demo_report_crates key msg sig \<longleftrightarrow> as_bytes sig = as_bytes key @ msg"
  "p384_from_sec1 demo_report_crates bs = Some (map char_of_byte bs)"
  "p384_from_scalars demo_report_crates r s' = Some (map char_of_byte (r @ s'))"
  "p384_verify demo_report_crates key msg sig \<longleftrightarrow>
     as_bytes sig = replicate 95 0 @ [hd (as_bytes key) + hd msg]"
  by (simp_all add: demo_report_crates_def demo_crates_def endorsement_crates.extend_def
      report_crates.fields_def)

lemma report_new_zeroed_wf: "report_wf report_new_zeroed"
  using report_bytes_ref_from(2) [of "replicate 1184 0" report_new_zeroed]
  by (simp add: report_ref_from_def report_new_zeroed_def)

lemma demo_report_wf: "length d = 64 \<Longrightarrow> report_wf (demo_report d)"
  using report_new_zeroed_wf
  by (simp add: demo_report_def report_wf_def report_data_wf_def signature_wf_def tcb_wf_def
      REPORT_DATA_SIZE_def)

lemma demo_report_chip_id: "chip_id (report_body (demo_report d)) = replicate 64 0"
  by (simp add: demo_report_def report_new_zeroed_def read_report_data_def slice_def)

lemma demo_scalars: "rev (take 48 (replicate 72 0)) @ rev (take 48 (9 # replicate 71 0))
    = replicate 95 0 @ [9 :: u8]"
  using replicate_add [of 48 47 "0 :: u8"] by simp

lemma hd_demo_report: "length d = 64 \<Longrightarrow> hd (take 672 (report_bytes (demo_report d))) = 2"
  using report_data_bytes_take [OF demo_report_wf [of d]]
  by (simp add: report_data_bytes_def demo_report_def le_bytes_numeral)

lemma demo_cert_tcb:
  assumes "tbs_extensions (tbs (demo_cert key sig)) = Some exts"
  shows "tcb_readable exts"
    and "tcb_octets exts tcb_new_zeroed = reported_tcb (report_body (demo_report d))"
    and "find_extension CHIP_ID_OID exts = Some (CHIP_ID_OID, replicate 64 0)"
proof -
  from assms have e: "exts = [(BL_OID, [2, 1, 3]), (TEE_OID, [2, 1, 0]), (SNP_OID, [2, 1, 8]),
         (UCODE_OID, [2, 1, 115]), (CHIP_ID_OID, replicate 64 0)]"
    by (simp add: demo_cert_def)
  have d: "distinct [BL_OID, TEE_OID, SNP_OID, UCODE_OID, CHIP_ID_OID]"
    by simp
  show "tcb_readable exts" using d by (auto simp: e tcb_readable_def)
  show "tcb_octets exts tcb_new_zeroed = reported_tcb (report_body (demo_report d))"
    using d by (auto simp: e tcb_octets_def tcb_new_zeroed_def demo_report_def)
  show "find_extension CHIP_ID_OID exts = Some (CHIP_ID_OID, replicate 64 0)"
    using d by (auto simp: e find_extension_def)
qed

lemma demo_report_vouched:
  assumes "length d = 64"
  shows "vouched demo_report_crates (demo_cert [7] sig) (demo_report d)
    (take 672 (report_bytes (demo_report d)))"
proof -
  obtain exts where e: "tbs_extensions (tbs (demo_cert [7] sig)) = Some exts"
    by (simp add: demo_cert_def)
  have "subject_public_key (tbs_spki (tbs (demo_cert [7] sig))) = [7]"
    by (simp add: demo_cert_def)
  moreover have "signature_algo (report_body (demo_report d)) = 1"
    "sig_r (report_signature (demo_report d)) = replicate 72 0"
    "sig_s (report_signature (demo_report d)) = 9 # replicate 71 0"
    by (simp_all add: demo_report_def)
  ultimately show ?thesis
    unfolding vouched_def demo_report_chip_id
    using e demo_cert_tcb [OF e] demo_scalars hd_demo_report [OF assms]
    by (simp add: Let_def)
qed

text \<open>The layout of an attestation report is exact: a byte string is viewed as a report exactly
  when it has 1184 bytes, every report whose arrays have their declared sizes is the view of its
  own bytes, and viewing loses nothing.\<close>

theorem report_layout_exact:
  "(report_ref_from bs = Some r \<longleftrightarrow> report_wf r \<and> report_bytes r = bs) \<and>
   (report_ref_from bs = None \<longleftrightarrow> length bs \<noteq> 1184)"
  using report_ref_from_Some [of bs r] by (simp add: report_ref_from_def)

text \<open>C28. Validation of a report, in terms of its bytes at the offsets of the AMD specification:
  the reserved bytes are zero, no unknown policy or platform flag is set, and the two enumerations
  hold a known value; the debug flag of a validated report is bit 3 of the policy flags. The
  reserved bytes of the launch TCB version are not among those checked, and neither is the policy bit 1,
  which is documented as always set: a report is valid with it set or clear.\<close>

theorem report_validate_by_bytes:
  assumes "report_ref_from bs = Some r"
  shows "(report_validate r = Ok () \<longleftrightarrow>
       (\<forall>i \<in> checked_zero. bs ! i = 0) \<and> drop_bit 5 (u16_at bs 0x00A) = 0 \<and>
       u32_at bs 0x034 \<in> {0, 1} \<and> drop_bit 2 (u64_at bs 0x040) = 0 \<and> u64_at bs 0x048 \<in> {0, 1})
     \<and> (report_validate r = Ok () \<longrightarrow> has_debug_flag r = Ok (bit (u16_at bs 0x00A) 3))"
  using report_validate_bytes [OF assms] has_debug_flag_bytes [OF assms] by simp

theorem report_validate_by_bytes_witness:
  "report_validate report_new_zeroed = Ok () \<and> has_debug_flag report_new_zeroed = Ok False"
proof -
  have z: "report_ref_from (replicate 1184 0) = Some report_new_zeroed"
    by (simp add: report_ref_from_def report_new_zeroed_def)
  have "u16_at (replicate 1184 0) 0x00A = 0" "u32_at (replicate 1184 0) 0x034 = 0"
    "u64_at (replicate 1184 0) 0x040 = 0" "u64_at (replicate 1184 0) 0x048 = 0"
    by (simp_all add: u16_at_def u32_at_def u64_at_def slice_def)
  moreover have "\<forall>i \<in> checked_zero. replicate 1184 0 ! i = (0 :: u8)"
    by (auto simp: checked_zero_def)
  ultimately show ?thesis using report_validate_by_bytes [OF z] by simp
qed

text \<open>C27. The signature check of a report accepts exactly when the VCEK certificate names the chip
  of the report and its four firmware versions (the last byte of the last extension of each OID),
  no extension of it is empty, whatever its OID (the code would panic),
  the algorithm is ECDSA P-384 with SHA-384, and the certificate's key verifies the signature over
  the first 672 bytes of the report, its scalars taken as the reversed first 48 bytes of each
  field.\<close>

theorem report_signature_accepted_iff:
  assumes "report_ref_from bs = Some r"
  shows "verify_attestation_report_signature cr vcek r = Ok () \<longleftrightarrow> vouched cr vcek r (take 672 bs)"
  using verify_attestation_report_signature_Ok report_data_bytes_take assms
  by (metis report_ref_from_Some)

theorem report_signature_accepted_iff_witness:
  "verify_attestation_report_signature demo_report_crates (demo_cert [7] [])
     (demo_report (replicate 64 5)) = Ok ()"
  by (rule report_signature_accepted_iff [THEN iffD2, OF report_ref_from_bytes demo_report_vouched])
    (simp_all add: demo_report_wf)

end
