(* ===== verification/Oak_Dice.thy ===== *)
theory Oak_Dice
  imports Oak_Report
begin

text \<open>
  DICE certificates: \<^verbatim>\<open>oak_dice/src/cert.rs\<close>. CBOR values, COSE keys, claims sets and
  \<^verbatim>\<open>COSE_Sign1\<close> envelopes are the public types of the crates \<^verbatim>\<open>ciborium\<close> and
  \<^verbatim>\<open>coset\<close>; their serialisation, the builders of claims sets and envelopes, and the P-256
  and HKDF primitives are parameters. What is relied on of them is stated by the locales
  \<open>cose_codec\<close> and \<open>p256_scheme\<close>. Keys come from the operating system's generator, so the code
  that draws a key takes it as an argument here.
\<close>

section \<open>COSE data\<close>

datatype cbor_value = Integer int | Bytes bytes | Float u64 | Text string | Bool bool | Null
  | Tag u64 cbor_value | Array "cbor_value list" | Map "(cbor_value \<times> cbor_value) list"

text \<open>\<^verbatim>\<open>RegisteredLabelWithPrivate\<close> and \<^verbatim>\<open>Label\<close>.\<close>

datatype reg_label = Assigned int | PrivateUse int | RegText string

datatype label = LabelInt int | LabelText string

record cose_key =
  kty :: reg_label
  key_id :: bytes
  alg :: "reg_label option"
  key_ops :: "reg_label list"
  base_iv :: bytes
  key_params :: "(label \<times> cbor_value) list"

record claims_set =
  claims_issuer :: "string option"
  claims_subject :: "string option"
  claims_rest :: "(reg_label \<times> cbor_value) list"

record cose_sign1 =
  sign1_headers :: bytes
  sign1_payload :: "bytes option"
  sign1_signature :: bytes

text \<open>The registered numbers that the code names.\<close>

definition KeyType_OKP :: int where "KeyType_OKP = 1"

definition KeyType_EC2 :: int where "KeyType_EC2 = 2"

definition Algorithm_ES256 :: int where "Algorithm_ES256 = - 7"

definition Algorithm_ECDH_ES_A256KW :: int where "Algorithm_ECDH_ES_A256KW = - 31"

definition KeyOperation_Verify :: int where "KeyOperation_Verify = 2"

definition KeyOperation_WrapKey :: int where "KeyOperation_WrapKey = 5"

definition KeyParameter_Crv :: int where "KeyParameter_Crv = - 1"

definition KeyParameter_X :: int where "KeyParameter_X = - 2"

definition KeyParameter_Y :: int where "KeyParameter_Y = - 3"

definition EllipticCurve_P_256 :: int where "EllipticCurve_P_256 = 1"

definition EllipticCurve_X25519 :: int where "EllipticCurve_X25519 = 4"

section \<open>The crates\<close>

text \<open>
  \<open>sign1_create aad algorithm key_id payload sign\<close> is the chain of builder calls that ends in
  \<^verbatim>\<open>create_signature\<close>; \<open>claims_build issuer subject claims\<close> the chain of
  \<^verbatim>\<open>ClaimsSetBuilder\<close> calls, which panics (\<^const>\<open>None\<close>) on a core claim among the additional
  ones. \<open>sign1_tbs\<close> is the data covered by the signature.
\<close>

record 'h dice_crates = "'h report_crates" +
  cose_key_to_vec :: "cose_key \<Rightarrow> bytes option"
  cose_key_from_slice :: "bytes \<Rightarrow> cose_key option"
  claims_build :: "string \<Rightarrow> string \<Rightarrow> (reg_label \<times> cbor_value) list \<Rightarrow> claims_set option"
  claims_to_vec :: "claims_set \<Rightarrow> bytes option"
  claims_from_slice :: "bytes \<Rightarrow> claims_set option"
  sign1_create :: "bytes \<Rightarrow> int \<Rightarrow> bytes \<Rightarrow> bytes \<Rightarrow> (bytes \<Rightarrow> bytes) \<Rightarrow> cose_sign1"
  sign1_tbs :: "cose_sign1 \<Rightarrow> bytes \<Rightarrow> bytes"
  sign1_to_vec :: "cose_sign1 \<Rightarrow> bytes option"
  sign1_from_slice :: "bytes \<Rightarrow> cose_sign1 option"
  hkdf_sha256 :: "bytes \<Rightarrow> bytes \<Rightarrow> bytes \<Rightarrow> nat \<Rightarrow> bytes option"
  p256_public :: "'h \<Rightarrow> 'h"
  p256_sign :: "'h \<Rightarrow> bytes \<Rightarrow> bytes"
  p256_sig_from_slice :: "bytes \<Rightarrow> 'h option"
  p256_point :: "'h \<Rightarrow> bytes \<times> bytes"
  p256_from_affine :: "bytes \<Rightarrow> bytes \<Rightarrow> 'h option"
  p256_encoded_point :: "'h \<Rightarrow> bytes"
  p256_to_sec1 :: "'h \<Rightarrow> bytes"

text \<open>Documented behaviour: what was serialised parses back, and the builders keep what they are
  given.\<close>

locale cose_codec =
  fixes key_to :: "cose_key \<Rightarrow> bytes option" and key_from :: "bytes \<Rightarrow> cose_key option"
    and build :: "string \<Rightarrow> string \<Rightarrow> (reg_label \<times> cbor_value) list \<Rightarrow> claims_set option"
    and claims_to :: "claims_set \<Rightarrow> bytes option" and claims_from :: "bytes \<Rightarrow> claims_set option"
    and create :: "bytes \<Rightarrow> int \<Rightarrow> bytes \<Rightarrow> bytes \<Rightarrow> (bytes \<Rightarrow> bytes) \<Rightarrow> cose_sign1"
    and tbs_of :: "cose_sign1 \<Rightarrow> bytes \<Rightarrow> bytes"
    and sign1_to :: "cose_sign1 \<Rightarrow> bytes option" and sign1_from :: "bytes \<Rightarrow> cose_sign1 option"
  assumes key_round: "key_to k = Some bs \<Longrightarrow> key_from bs = Some k"
    and claims_round: "claims_to c = Some bs \<Longrightarrow> claims_from bs = Some c"
    and sign1_round: "sign1_to s = Some bs \<Longrightarrow> sign1_from bs = Some s"
    and build_subject: "build i sub cs = Some c \<Longrightarrow> claims_subject c = Some sub"
    and build_issuer: "build i sub cs = Some c \<Longrightarrow> claims_issuer c = Some i"
    and build_rest: "build i sub cs = Some c \<Longrightarrow> claims_rest c = cs"
    and create_payload: "sign1_payload (create aad a kid p f) = Some p"
    and create_signature: "sign1_signature (create aad a kid p f) = f (tbs_of (create aad a kid p f) aad)"

abbreviation cose_ok :: "('h, 'z) dice_crates_scheme \<Rightarrow> bool" where
  "cose_ok cr \<equiv> cose_codec (cose_key_to_vec cr) (cose_key_from_slice cr) (claims_build cr)
     (claims_to_vec cr) (claims_from_slice cr) (sign1_create cr) (sign1_tbs cr)
     (sign1_to_vec cr) (sign1_from_slice cr)"

text \<open>Signatures made with a key verify with its public key, and the public key is determined by
  the coordinates of its point, 32 bytes each.\<close>

locale p256_scheme =
  fixes public :: "'h \<Rightarrow> 'h" and sign :: "'h \<Rightarrow> bytes \<Rightarrow> bytes"
    and sig_from :: "bytes \<Rightarrow> 'h option" and check :: "'h \<Rightarrow> bytes \<Rightarrow> 'h \<Rightarrow> bool"
    and point :: "'h \<Rightarrow> bytes \<times> bytes" and affine :: "bytes \<Rightarrow> bytes \<Rightarrow> 'h option"
  assumes sign_check: "\<exists>s. sig_from (sign k m) = Some s \<and> check (public k) m s"
    and point_affine: "affine (fst (point (public k))) (snd (point (public k))) = Some (public k)"
    and point_length: "length (fst (point (public k))) = 32" "length (snd (point (public k))) = 32"

abbreviation p256_ok :: "('h, 'z) dice_crates_scheme \<Rightarrow> bool" where
  "p256_ok cr \<equiv> p256_scheme (p256_public cr) (p256_sign cr) (p256_sig_from_slice cr)
     (p256_verify cr) (p256_point cr) (p256_from_affine cr)"

section \<open>Constants of cert.rs\<close>

abbreviation (input) KEY_ID_LENGTH :: nat where "KEY_ID_LENGTH \<equiv> 20"

abbreviation (input) SUBJECT_PUBLIC_KEY_ID :: int where "SUBJECT_PUBLIC_KEY_ID \<equiv> - 4670552"

abbreviation (input) KEY_USAGE_ID :: int where "KEY_USAGE_ID \<equiv> - 4670553"

abbreviation (input) KERNEL_LAYER_ID :: int where "KERNEL_LAYER_ID \<equiv> - 4670555"

abbreviation (input) ENCLAVE_APPLICATION_LAYER_ID :: int where
  "ENCLAVE_APPLICATION_LAYER_ID \<equiv> - 4670556"

abbreviation (input) SYSTEM_IMAGE_LAYER_ID :: int where "SYSTEM_IMAGE_LAYER_ID \<equiv> - 4670557"

abbreviation (input) CONTAINER_IMAGE_LAYER_ID :: int where "CONTAINER_IMAGE_LAYER_ID \<equiv> - 4670559"

abbreviation (input) KERNEL_MEASUREMENT_ID :: int where "KERNEL_MEASUREMENT_ID \<equiv> - 4670561"

abbreviation (input) KERNEL_COMMANDLINE_MEASUREMENT_ID :: int where
  "KERNEL_COMMANDLINE_MEASUREMENT_ID \<equiv> - 4670562"

abbreviation (input) KERNEL_COMMANDLINE_ID :: int where "KERNEL_COMMANDLINE_ID \<equiv> - 4670573"

abbreviation (input) SETUP_DATA_MEASUREMENT_ID :: int where "SETUP_DATA_MEASUREMENT_ID \<equiv> - 4670563"

abbreviation (input) INITRD_MEASUREMENT_ID :: int where "INITRD_MEASUREMENT_ID \<equiv> - 4670564"

abbreviation (input) MEMORY_MAP_MEASUREMENT_ID :: int where "MEMORY_MAP_MEASUREMENT_ID \<equiv> - 4670565"

abbreviation (input) ACPI_MEASUREMENT_ID :: int where "ACPI_MEASUREMENT_ID \<equiv> - 4670566"

abbreviation (input) LAYER_2_CODE_MEASUREMENT_ID :: int where
  "LAYER_2_CODE_MEASUREMENT_ID \<equiv> - 4670567"

abbreviation (input) LAYER_3_CODE_MEASUREMENT_ID :: int where
  "LAYER_3_CODE_MEASUREMENT_ID \<equiv> - 4670569"

abbreviation (input) FINAL_LAYER_CONFIG_MEASUREMENT_ID :: int where
  "FINAL_LAYER_CONFIG_MEASUREMENT_ID \<equiv> - 4670570"

abbreviation (input) SHA2_256_ID :: int where "SHA2_256_ID \<equiv> - 4670572"

definition ID_SALT :: bytes where "ID_SALT = as_bytes ''DICE_ID_SALT''"

definition INFO_STR :: bytes where "INFO_STR = as_bytes ''ID''"

definition EMPTY_ADDITIONAL_DATA :: bytes where "EMPTY_ADDITIONAL_DATA = []"

definition KeyUsage_KEY_CERT_SIGN :: u16 where "KeyUsage_KEY_CERT_SIGN = 0b100000"

section \<open>Keys\<close>

definition derive_verifying_key_id ::
  "('h, 'z) dice_crates_scheme \<Rightarrow> 'h \<Rightarrow> (bytes, 'e) result" where
  "derive_verifying_key_id cr public_key =
     expect (hkdf_sha256 cr ID_SALT (p256_encoded_point cr public_key) INFO_STR KEY_ID_LENGTH)
       ''invalid length for HKDF output''"

definition derive_kem_public_key_id ::
  "('h, 'z) dice_crates_scheme \<Rightarrow> bytes \<Rightarrow> (bytes, 'e) result" where
  "derive_kem_public_key_id cr public_key_bytes =
     expect (hkdf_sha256 cr ID_SALT public_key_bytes INFO_STR KEY_ID_LENGTH)
       ''invalid length for HKDF output''"

text \<open>The two closures over the parameters of a key: one parameter with a given value, and the
  first byte string with a given label.\<close>

definition has_param :: "int \<Rightarrow> cbor_value \<Rightarrow> (label \<times> cbor_value) list \<Rightarrow> bool" where
  "has_param l v params = list_ex (\<lambda>(label, w). label = LabelInt l \<and> w = v) params"

definition bytes_param :: "int \<Rightarrow> (label \<times> cbor_value) list \<Rightarrow> bytes option" where
  "bytes_param l params = find_map (\<lambda>(label, v).
     case v of Bytes bs \<Rightarrow> if label = LabelInt l then Some bs else None | _ \<Rightarrow> None) params"

definition cose_key_to_hpke_public_key :: "cose_key \<Rightarrow> (bytes, string) result" where
  "cose_key_to_hpke_public_key k =
     (if kty k \<noteq> Assigned KeyType_OKP then Error ''invalid key type''
      else if alg k \<noteq> Some (Assigned Algorithm_ECDH_ES_A256KW) then Error ''invalid algorithm''
      else if Assigned KeyOperation_WrapKey \<notin> set (key_ops k) then Error ''invalid key operations''
      else if \<not> has_param KeyParameter_Crv (Integer EllipticCurve_X25519) (key_params k)
      then Error ''invalid elliptic curve''
      else ok_or (bytes_param KeyParameter_X (key_params k)) ''public key not found'')"

definition hpke_public_key_to_cose_key ::
  "('h, 'z) dice_crates_scheme \<Rightarrow> bytes \<Rightarrow> (cose_key, 'e) result" where
  "hpke_public_key_to_cose_key cr public_key =
     and_then (derive_kem_public_key_id cr public_key) (\<lambda>kid.
     Ok \<lparr>kty = Assigned KeyType_OKP, key_id = kid,
       alg = Some (Assigned Algorithm_ECDH_ES_A256KW),
       key_ops = [Assigned KeyOperation_WrapKey], base_iv = [],
       key_params = [(LabelInt KeyParameter_Crv, Integer EllipticCurve_X25519),
         (LabelInt KeyParameter_X, Bytes public_key)]\<rparr>)"

text \<open>\<^verbatim>\<open>FieldBytes::from_slice\<close> panics unless it is given 32 bytes.\<close>

definition field_bytes :: "bytes \<Rightarrow> (bytes, 'e) result" where
  "field_bytes bs = (if length bs = 32 then Ok bs else panic ''assertion failed: 32 bytes'')"

definition cose_key_to_verifying_key ::
  "('h, 'z) dice_crates_scheme \<Rightarrow> cose_key \<Rightarrow> ('h, string) result" where
  "cose_key_to_verifying_key cr k =
     (if kty k \<noteq> Assigned KeyType_EC2 then Error ''invalid key type''
      else if alg k \<noteq> Some (Assigned Algorithm_ES256) then Error ''invalid algorithm''
      else if Assigned KeyOperation_Verify \<notin> set (key_ops k) then Error ''invalid key operations''
      else if \<not> has_param KeyParameter_Crv (Integer EllipticCurve_P_256) (key_params k)
      then Error ''invalid elliptic curve''
      else
        and_then (ok_or (bytes_param KeyParameter_X (key_params k))
          ''x component of public key not found'') (\<lambda>x.
        and_then (ok_or (bytes_param KeyParameter_Y (key_params k))
          ''x component of public key not found'') (\<lambda>y.
        and_then (field_bytes x) (\<lambda>fx.
        and_then (field_bytes y) (\<lambda>fy.
        ok_or (p256_from_affine cr fx fy) ''invalid public key coordinates'')))))"

definition verifying_key_to_cose_key ::
  "('h, 'z) dice_crates_scheme \<Rightarrow> 'h \<Rightarrow> (cose_key, 'e) result" where
  "verifying_key_to_cose_key cr public_key =
     and_then (derive_verifying_key_id cr public_key) (\<lambda>kid.
     Ok \<lparr>kty = Assigned KeyType_EC2, key_id = kid, alg = Some (Assigned Algorithm_ES256),
       key_ops = [Assigned KeyOperation_Verify], base_iv = [],
       key_params = [(LabelInt KeyParameter_Crv, Integer EllipticCurve_P_256),
         (LabelInt KeyParameter_X, Bytes (fst (p256_point cr public_key))),
         (LabelInt KeyParameter_Y, Bytes (snd (p256_point cr public_key)))]\<rparr>)"

section \<open>Certificates\<close>

text \<open>A \<^verbatim>\<open>CoseError\<close> is kept as the name of the call that returned it.\<close>

definition generate_certificate ::
  "('h, 'z) dice_crates_scheme \<Rightarrow> 'h \<Rightarrow> string \<Rightarrow> cose_key \<Rightarrow> string
     \<Rightarrow> (reg_label \<times> cbor_value) list \<Rightarrow> (cose_sign1, string) result" where
  "generate_certificate cr issuer_eca_key issuer_id public_key public_key_id additional_claims =
     and_then (ok_or (cose_key_to_vec cr public_key) ''to_vec'') (\<lambda>public_key_bytes.
     and_then (expect (claims_build cr issuer_id public_key_id
         ([(PrivateUse SUBJECT_PUBLIC_KEY_ID, Bytes public_key_bytes),
           (PrivateUse KEY_USAGE_ID, Bytes (le_bytes 2 (unat KeyUsage_KEY_CERT_SIGN)))]
          @ additional_claims)) ''core claim in the builder'') (\<lambda>claims.
     and_then (ok_or (claims_to_vec cr claims) ''to_vec'') (\<lambda>payload.
     Ok (sign1_create cr EMPTY_ADDITIONAL_DATA Algorithm_ES256 (as_bytes ''AsymmetricECDSA256'')
       payload (p256_sign cr issuer_eca_key)))))"

definition generate_signing_certificate ::
  "('h, 'z) dice_crates_scheme \<Rightarrow> 'h \<Rightarrow> string \<Rightarrow> 'h
     \<Rightarrow> (reg_label \<times> cbor_value) list \<Rightarrow> (cose_sign1, string) result" where
  "generate_signing_certificate cr issuer_eca_key issuer_id verifying_key additional_claims =
     and_then (verifying_key_to_cose_key cr verifying_key) (\<lambda>k.
     and_then (derive_verifying_key_id cr verifying_key) (\<lambda>kid.
     generate_certificate cr issuer_eca_key issuer_id k (hex_encode cr kid) additional_claims))"

definition generate_kem_certificate ::
  "('h, 'z) dice_crates_scheme \<Rightarrow> 'h \<Rightarrow> string \<Rightarrow> bytes
     \<Rightarrow> (reg_label \<times> cbor_value) list \<Rightarrow> (cose_sign1, string) result" where
  "generate_kem_certificate cr issuer_eca_key issuer_id kem_public_key additional_claims =
     and_then (hpke_public_key_to_cose_key cr kem_public_key) (\<lambda>k.
     and_then (derive_kem_public_key_id cr kem_public_key) (\<lambda>kid.
     generate_certificate cr issuer_eca_key issuer_id k (hex_encode cr kid) additional_claims))"

definition get_claims_set_from_certificate_bytes ::
  "('h, 'z) dice_crates_scheme \<Rightarrow> bytes \<Rightarrow> (claims_set, string) result" where
  "get_claims_set_from_certificate_bytes cr bs =
     and_then (ok_or (sign1_from_slice cr bs) ''from_slice'') (\<lambda>cwt.
     ok_or (claims_from_slice cr (case sign1_payload cwt of None \<Rightarrow> [] | Some p \<Rightarrow> p)) ''from_slice'')"

text \<open>The first byte string claimed under a private label.\<close>

definition private_bytes :: "int \<Rightarrow> (reg_label \<times> cbor_value) list \<Rightarrow> bytes option" where
  "private_bytes l rest = find_map (\<lambda>(label, v).
     case v of Bytes bs \<Rightarrow> if label = PrivateUse l then Some bs else None | _ \<Rightarrow> None) rest"

definition get_public_key_from_claims_set ::
  "('h, 'z) dice_crates_scheme \<Rightarrow> claims_set \<Rightarrow> (cose_key, string) result" where
  "get_public_key_from_claims_set cr claims =
     and_then (ok_or (private_bytes SUBJECT_PUBLIC_KEY_ID (claims_rest claims))
       ''public key not found'') (\<lambda>public_key_bytes.
     ok_or (cose_key_from_slice cr public_key_bytes) ''couldn't deserialize public key'')"

section \<open>Keys survive the conversion\<close>

lemmas cose_key_defs = KeyType_OKP_def KeyType_EC2_def Algorithm_ES256_def
  Algorithm_ECDH_ES_A256KW_def KeyOperation_Verify_def KeyOperation_WrapKey_def
  KeyParameter_Crv_def KeyParameter_X_def KeyParameter_Y_def EllipticCurve_P_256_def
  EllipticCurve_X25519_def

lemma field_bytes_Ok [result_simps]: "field_bytes bs = Ok v \<longleftrightarrow> length bs = 32 \<and> v = bs"
  by (auto simp: field_bytes_def)

lemma cose_key_to_verifying_key_of:
  assumes "p256_ok cr"
    and "verifying_key_to_cose_key cr (p256_public cr key) = (Ok k :: (cose_key, 'e) result)"
  shows "cose_key_to_verifying_key cr k = Ok (p256_public cr key)"
  using assms(2) p256_scheme.point_length [OF assms(1), of key]
    p256_scheme.point_affine [OF assms(1), of key]
  by (auto simp: verifying_key_to_cose_key_def cose_key_to_verifying_key_def has_param_def
      bytes_param_def cose_key_defs result_simps)

lemma cose_key_to_hpke_public_key_of:
  assumes "hpke_public_key_to_cose_key cr pk = (Ok k :: (cose_key, 'e) result)"
  shows "cose_key_to_hpke_public_key k = Ok pk"
  using assms
  by (auto simp: hpke_public_key_to_cose_key_def cose_key_to_hpke_public_key_def has_param_def
      bytes_param_def cose_key_defs and_then_eq_Ok)

text \<open>A key of one kind is never read as the other.\<close>

lemma key_kinds_disjoint:
  "cose_key_to_verifying_key cr k = Ok v \<Longrightarrow> cose_key_to_hpke_public_key k = Error ''invalid key type''"
  by (auto simp: cose_key_to_verifying_key_def cose_key_to_hpke_public_key_def cose_key_defs
      split: if_splits)

section \<open>What a generated certificate holds\<close>

text \<open>\<open>cert_signed_by\<close>: the envelope carries a signature that the key verifies.
  \<open>cert_claims\<close>: the claims in its payload.\<close>

definition cert_signed_by :: "('h, 'z) dice_crates_scheme \<Rightarrow> 'h \<Rightarrow> cose_sign1 \<Rightarrow> bool" where
  "cert_signed_by cr key c =
     (case p256_sig_from_slice cr (sign1_signature c) of None \<Rightarrow> False
      | Some s \<Rightarrow> p256_verify cr key (sign1_tbs cr c EMPTY_ADDITIONAL_DATA) s)"

definition cert_claims :: "('h, 'z) dice_crates_scheme \<Rightarrow> cose_sign1 \<Rightarrow> claims_set option" where
  "cert_claims cr c = Option.bind (sign1_payload c) (claims_from_slice cr)"

lemma generate_certificate_contents:
  assumes cose: "cose_ok cr" and p256: "p256_ok cr"
    and gen: "generate_certificate cr key issuer pk pk_id cs = Ok c"
  obtains claims where "cert_signed_by cr (p256_public cr key) c" "cert_claims cr c = Some claims"
    "claims_subject claims = Some pk_id" "claims_issuer claims = Some issuer"
    "get_public_key_from_claims_set cr claims = Ok pk"
    "\<exists>u v. claims_rest claims =
       (PrivateUse SUBJECT_PUBLIC_KEY_ID, Bytes u) # (PrivateUse KEY_USAGE_ID, Bytes v) # cs"
proof -
  from gen obtain kb where kb: "cose_key_to_vec cr pk = Some kb"
    by (auto simp: generate_certificate_def result_simps)
  from gen kb obtain claims p where claims: "claims_build cr issuer pk_id
      ([(PrivateUse SUBJECT_PUBLIC_KEY_ID, Bytes kb),
        (PrivateUse KEY_USAGE_ID, Bytes (le_bytes 2 (unat KeyUsage_KEY_CERT_SIGN)))] @ cs) = Some claims"
    and p: "claims_to_vec cr claims = Some p"
    and c: "c = sign1_create cr EMPTY_ADDITIONAL_DATA Algorithm_ES256
      (as_bytes ''AsymmetricECDSA256'') p (p256_sign cr key)"
    by (auto simp: generate_certificate_def result_simps)
  note laws = cose_codec.build_subject [OF cose claims] cose_codec.build_issuer [OF cose claims]
    cose_codec.build_rest [OF cose claims] cose_codec.create_payload [OF cose]
    cose_codec.create_signature [OF cose]
  have "cert_signed_by cr (p256_public cr key) c"
    using p256_scheme.sign_check [OF p256, of key "sign1_tbs cr c EMPTY_ADDITIONAL_DATA"]
      cose_codec.create_signature [OF cose, of EMPTY_ADDITIONAL_DATA Algorithm_ES256
        "as_bytes ''AsymmetricECDSA256''" p "p256_sign cr key", folded c]
    by (auto simp: cert_signed_by_def)
  moreover have "cert_claims cr c = Some claims"
    by (simp add: cert_claims_def c laws cose_codec.claims_round [OF cose p])
  moreover have "get_public_key_from_claims_set cr claims = Ok pk"
    by (simp add: get_public_key_from_claims_set_def laws private_bytes_def
        cose_codec.key_round [OF cose kb])
  ultimately show ?thesis
    using that by (auto simp: laws)
qed

lemma claims_of_certificate_bytes:
  assumes "cose_ok cr" "sign1_to_vec cr c = Some bs" "cert_claims cr c = Some claims"
  shows "get_claims_set_from_certificate_bytes cr bs = Ok claims"
    and "sign1_from_slice cr bs = Some c"
  using assms(3) cose_codec.sign1_round [OF assms(1,2)]
  by (auto simp: get_claims_set_from_certificate_bytes_def cert_claims_def split: bind_splits)

section \<open>Properties\<close>

text \<open>Example primitives. A signing key is any text, its public key the same text cut or filled to
  32 characters, a signature the public key followed by the message. Claims sets are numbered by
  the table \<open>tab\<close>; a serialiser fails on what its parser would not give back.\<close>

definition demo_public :: "string \<Rightarrow> string" where
  "demo_public k = take 32 (k @ replicate 32 (char_of_byte 0))"

definition demo_key_from :: "bytes \<Rightarrow> cose_key option" where
  "demo_key_from bs =
     (case bs of [] \<Rightarrow> None
      | b # bs \<Rightarrow> if b = 1
          then Some \<lparr>kty = Assigned KeyType_EC2, key_id = [9], alg = Some (Assigned Algorithm_ES256),
            key_ops = [Assigned KeyOperation_Verify], base_iv = [],
            key_params = [(LabelInt KeyParameter_Crv, Integer EllipticCurve_P_256),
              (LabelInt KeyParameter_X, Bytes bs), (LabelInt KeyParameter_Y, Bytes (replicate 32 0))]\<rparr>
          else Some \<lparr>kty = Assigned KeyType_OKP, key_id = [9],
            alg = Some (Assigned Algorithm_ECDH_ES_A256KW),
            key_ops = [Assigned KeyOperation_WrapKey], base_iv = [],
            key_params = [(LabelInt KeyParameter_Crv, Integer EllipticCurve_X25519),
              (LabelInt KeyParameter_X, Bytes bs)]\<rparr>)"

definition demo_key_to :: "cose_key \<Rightarrow> bytes option" where
  "demo_key_to k =
     (case bytes_param KeyParameter_X (key_params k) of None \<Rightarrow> None
      | Some x \<Rightarrow> let bs = (if kty k = Assigned KeyType_EC2 then 1 else 2) # x in
          if demo_key_from bs = Some k then Some bs else None)"

fun demo_index :: "claims_set \<Rightarrow> claims_set list \<Rightarrow> bytes option" where
  "demo_index c [] = None"
| "demo_index c (d # ds) = (if c = d then Some [] else map_option (Cons 0) (demo_index c ds))"

definition demo_claims_from :: "claims_set list \<Rightarrow> bytes \<Rightarrow> claims_set option" where
  "demo_claims_from tab bs = (if length bs < length tab then Some (tab ! length bs) else None)"

definition demo_sign1_from :: "bytes \<Rightarrow> cose_sign1 option" where
  "demo_sign1_from bs =
     (case bs of [] \<Rightarrow> None
      | n # bs \<Rightarrow> Some \<lparr>sign1_headers = [], sign1_payload = Some (take (unat n) bs),
          sign1_signature = drop (unat n) bs\<rparr>)"

definition demo_sign1_to :: "cose_sign1 \<Rightarrow> bytes option" where
  "demo_sign1_to c =
     (case sign1_payload c of None \<Rightarrow> None
      | Some p \<Rightarrow> let bs = word_of_nat (length p) # p @ sign1_signature c in
          if demo_sign1_from bs = Some c then Some bs else None)"

definition demo_dice_crates :: "claims_set list \<Rightarrow> string dice_crates" where
  "demo_dice_crates tab = report_crates.extend demo_report_crates (dice_crates.fields
     demo_key_to demo_key_from
     (\<lambda>i sub cs. Some \<lparr>claims_issuer = Some i, claims_subject = Some sub, claims_rest = cs\<rparr>)
     (\<lambda>c. demo_index c tab) (demo_claims_from tab)
     (\<lambda>aad a kid p f. \<lparr>sign1_headers = [], sign1_payload = Some p, sign1_signature = f p\<rparr>)
     (\<lambda>c aad. case sign1_payload c of None \<Rightarrow> [] | Some p \<Rightarrow> p)
     demo_sign1_to demo_sign1_from
     (\<lambda>salt ikm info n. Some [9]) demo_public
     (\<lambda>k m. as_bytes (demo_public k) @ m) (\<lambda>bs. Some (map char_of_byte bs))
     (\<lambda>v. (as_bytes v, replicate 32 0)) (\<lambda>x y. Some (map char_of_byte x)) as_bytes as_bytes)"

lemma demo_dice_crates_simps [simp]:
  "cose_key_to_vec (demo_dice_crates tab) = demo_key_to"
  "cose_key_from_slice (demo_dice_crates tab) = demo_key_from"
  "claims_build (demo_dice_crates tab) =
     (\<lambda>i sub cs. Some \<lparr>claims_issuer = Some i, claims_subject = Some sub, claims_rest = cs\<rparr>)"
  "claims_to_vec (demo_dice_crates tab) = (\<lambda>c. demo_index c tab)"
  "claims_from_slice (demo_dice_crates tab) = demo_claims_from tab"
  "sign1_create (demo_dice_crates tab) =
     (\<lambda>aad a kid p f. \<lparr>sign1_headers = [], sign1_payload = Some p, sign1_signature = f p\<rparr>)"
  "sign1_tbs (demo_dice_crates tab) = (\<lambda>c aad. case sign1_payload c of None \<Rightarrow> [] | Some p \<Rightarrow> p)"
  "sign1_to_vec (demo_dice_crates tab) = demo_sign1_to"
  "sign1_from_slice (demo_dice_crates tab) = demo_sign1_from"
  "hkdf_sha256 (demo_dice_crates tab) = (\<lambda>salt ikm info n. Some [9])"
  "p256_public (demo_dice_crates tab) = demo_public"
  "p256_sign (demo_dice_crates tab) = (\<lambda>k m. as_bytes (demo_public k) @ m)"
  "p256_sig_from_slice (demo_dice_crates tab) = (\<lambda>bs. Some (map char_of_byte bs))"
  "p256_point (demo_dice_crates tab) = (\<lambda>v. (as_bytes v, replicate 32 0))"
  "p256_from_affine (demo_dice_crates tab) = (\<lambda>x y. Some (map char_of_byte x))"
  "p256_encoded_point (demo_dice_crates tab) = as_bytes"
  "p256_to_sec1 (demo_dice_crates tab) = as_bytes"
  "hex_encode (demo_dice_crates tab) = hex_enc"
  "p256_verify (demo_dice_crates tab) = (\<lambda>key contents sig. as_bytes sig = as_bytes key @ contents)"
  by (simp_all add: demo_dice_crates_def demo_report_crates_def demo_crates_def
      report_crates.extend_def endorsement_crates.extend_def report_crates.fields_def
      dice_crates.fields_def)

lemma demo_index_nth: "demo_index c tab = Some bs \<Longrightarrow> length bs < length tab \<and> tab ! length bs = c"
  by (induction tab arbitrary: bs) (auto split: if_splits)

interpretation demo_cose: cose_codec demo_key_to demo_key_from
  "\<lambda>i sub cs. Some \<lparr>claims_issuer = Some i, claims_subject = Some sub, claims_rest = cs\<rparr>"
  "\<lambda>c. demo_index c tab" "demo_claims_from tab"
  "\<lambda>aad a kid p f. \<lparr>sign1_headers = [], sign1_payload = Some p, sign1_signature = f p\<rparr>"
  "\<lambda>c aad. case sign1_payload c of None \<Rightarrow> [] | Some p \<Rightarrow> p" demo_sign1_to demo_sign1_from
  for tab
  by unfold_locales
    (auto simp: demo_key_to_def demo_sign1_to_def demo_claims_from_def Let_def
      dest: demo_index_nth split: option.splits if_splits)

lemma cose_ok_demo: "cose_ok (demo_dice_crates tab)"
  using demo_cose.cose_codec_axioms [of tab] by simp

interpretation demo_p256: p256_scheme demo_public "\<lambda>k m. as_bytes (demo_public k) @ m"
  "\<lambda>bs. Some (map char_of_byte bs)" "\<lambda>key contents sig. as_bytes sig = as_bytes key @ contents"
  "\<lambda>v. (as_bytes v, replicate 32 0)" "\<lambda>x y. Some (map char_of_byte x)"
  by unfold_locales (auto simp: demo_public_def)

lemma p256_ok_demo: "p256_ok (demo_dice_crates tab)"
  using demo_p256.p256_scheme_axioms by simp

lemma demo_key_bytes:
  "verifying_key_to_cose_key (demo_dice_crates tab) v = Ok k \<Longrightarrow> demo_key_to k = Some (1 # as_bytes v)"
  "hpke_public_key_to_cose_key (demo_dice_crates tab) pk = Ok k \<Longrightarrow> demo_key_to k = Some (2 # pk)"
  by (auto simp: verifying_key_to_cose_key_def hpke_public_key_to_cose_key_def
      derive_verifying_key_id_def derive_kem_public_key_id_def demo_key_to_def demo_key_from_def
      bytes_param_def cose_key_defs)

text \<open>A verifying key and an HPKE key each survive the conversion to a COSE key and back, and
  neither is accepted as the other kind.\<close>

theorem cose_keys_round_trip:
  assumes "p256_ok cr"
    and "verifying_key_to_cose_key cr (p256_public cr key) = (Ok k :: (cose_key, string) result)"
    and "hpke_public_key_to_cose_key cr pk = (Ok h :: (cose_key, string) result)"
  shows "cose_key_to_verifying_key cr k = Ok (p256_public cr key) \<and>
    cose_key_to_hpke_public_key h = Ok pk \<and>
    cose_key_to_verifying_key cr h = Error ''invalid key type'' \<and>
    cose_key_to_hpke_public_key k = Error ''invalid key type''"
proof -
  have k: "cose_key_to_verifying_key cr k = Ok (p256_public cr key)"
    by (rule cose_key_to_verifying_key_of [OF assms(1,2)])
  have "kty h = Assigned KeyType_OKP"
    using assms(3) by (auto simp: hpke_public_key_to_cose_key_def result_simps)
  then have "cose_key_to_verifying_key cr h = Error ''invalid key type''"
    by (simp add: cose_key_to_verifying_key_def cose_key_defs)
  with k key_kinds_disjoint [OF k] cose_key_to_hpke_public_key_of [OF assms(3)] show ?thesis by simp
qed

theorem cose_keys_round_trip_witness:
  "\<exists>k h. cose_key_to_verifying_key (demo_dice_crates []) k = Ok (demo_public ''key'') \<and>
    cose_key_to_hpke_public_key h = Ok [1, 2, 3] \<and>
    cose_key_to_verifying_key (demo_dice_crates []) h = Error ''invalid key type'' \<and>
    cose_key_to_hpke_public_key k = Error ''invalid key type''"
proof -
  let ?cr = "demo_dice_crates []"
  have "\<exists>k. verifying_key_to_cose_key ?cr (p256_public ?cr ''key'') = (Ok k :: (cose_key, string) result)"
    "\<exists>h. hpke_public_key_to_cose_key ?cr [1, 2, 3] = (Ok h :: (cose_key, string) result)"
    by (simp_all add: verifying_key_to_cose_key_def hpke_public_key_to_cose_key_def
        derive_verifying_key_id_def derive_kem_public_key_id_def)
  then show ?thesis
    using cose_keys_round_trip [OF p256_ok_demo, of "[]" "''key''"] by fastforce
qed

text \<open>C30. A generated signing certificate, once serialised, parses to an envelope that the public
  key of the issuer verifies; its claims name the issuer and the subject key's identifier, hold the
  subject's verifying key, and carry the additional claims after the two claims of every
  certificate.\<close>

theorem signing_certificate_verifies:
  assumes "cose_ok cr" and "p256_ok cr"
    and "generate_signing_certificate cr key issuer (p256_public cr sub) cs = Ok c"
    and "sign1_to_vec cr c = Some bs"
  shows "\<exists>claims k kid u v. sign1_from_slice cr bs = Some c \<and>
    cert_signed_by cr (p256_public cr key) c \<and>
    get_claims_set_from_certificate_bytes cr bs = Ok claims \<and>
    claims_issuer claims = Some issuer \<and>
    derive_verifying_key_id cr (p256_public cr sub) = (Ok kid :: (bytes, string) result) \<and>
    claims_subject claims = Some (hex_encode cr kid) \<and>
    get_public_key_from_claims_set cr claims = Ok k \<and>
    cose_key_to_verifying_key cr k = Ok (p256_public cr sub) \<and>
    claims_rest claims =
      (PrivateUse SUBJECT_PUBLIC_KEY_ID, Bytes u) # (PrivateUse KEY_USAGE_ID, Bytes v) # cs"
proof -
  from assms(3) obtain k kid
    where k: "verifying_key_to_cose_key cr (p256_public cr sub) = (Ok k :: (cose_key, string) result)"
    and kid: "derive_verifying_key_id cr (p256_public cr sub) = (Ok kid :: (bytes, string) result)"
    and gen: "generate_certificate cr key issuer k (hex_encode cr kid) cs = Ok c"
    by (auto simp: generate_signing_certificate_def result_simps)
  from generate_certificate_contents [OF assms(1,2) gen] obtain claims
    where c: "cert_signed_by cr (p256_public cr key) c" "cert_claims cr c = Some claims"
      "claims_subject claims = Some (hex_encode cr kid)" "claims_issuer claims = Some issuer"
      "get_public_key_from_claims_set cr claims = Ok k"
      "\<exists>u v. claims_rest claims =
       (PrivateUse SUBJECT_PUBLIC_KEY_ID, Bytes u) # (PrivateUse KEY_USAGE_ID, Bytes v) # cs"
    by blast
  from c kid claims_of_certificate_bytes [OF assms(1,4) c(2)]
    cose_key_to_verifying_key_of [OF assms(2) k] show ?thesis by blast
qed

definition demo_certificate_claims :: claims_set where
  "demo_certificate_claims = \<lparr>claims_issuer = Some ''root'', claims_subject = Some ''09'',
     claims_rest = [(PrivateUse SUBJECT_PUBLIC_KEY_ID, Bytes (1 # as_bytes (demo_public ''b''))),
       (PrivateUse KEY_USAGE_ID, Bytes (le_bytes 2 (unat KeyUsage_KEY_CERT_SIGN))),
       (PrivateUse KERNEL_LAYER_ID, Map [])]\<rparr>"

theorem signing_certificate_verifies_witness:
  "\<exists>c. cert_signed_by (demo_dice_crates [demo_certificate_claims]) (demo_public ''a'') c"
proof -
  let ?cr = "demo_dice_crates [demo_certificate_claims]"
  obtain k where k: "verifying_key_to_cose_key ?cr (demo_public ''b'') = (Ok k :: (cose_key, string) result)"
    by (simp add: verifying_key_to_cose_key_def derive_verifying_key_id_def)
  have "hex_enc [9] = ''09''" by (simp add: hex_enc_def hex_digits_def)
  with k demo_key_bytes(1) [OF k]
  have gen: "generate_signing_certificate ?cr ''a'' ''root'' (p256_public ?cr ''b'') [(PrivateUse KERNEL_LAYER_ID, Map [])]
      = Ok \<lparr>sign1_headers = [], sign1_payload = Some [], sign1_signature = as_bytes (demo_public ''a'')\<rparr>"
    by (simp add: generate_signing_certificate_def generate_certificate_def
        derive_verifying_key_id_def demo_certificate_claims_def)
  have "sign1_to_vec ?cr \<lparr>sign1_headers = [], sign1_payload = Some [],
      sign1_signature = as_bytes (demo_public ''a'')\<rparr> = Some (0 # as_bytes (demo_public ''a''))"
    by (simp add: demo_sign1_to_def demo_sign1_from_def)
  from signing_certificate_verifies [OF cose_ok_demo p256_ok_demo gen this] show ?thesis by auto
qed

end
