(* ===== verification/Oak_Messages.thy ===== *)
theory Oak_Messages
  imports Oak_Dice
begin

text \<open>
  The protocol buffer messages of \<^verbatim>\<open>proto/attestation\<close> that the verifier reads and writes, as
  the Rust structs that are generated from them: a message field is an option, a \<^verbatim>\<open>oneof\<close> is
  an optional datatype with one constructor per case. Deprecated fields that no code reads are left
  out. Field names carry the message as a prefix, since records share one name space.
\<close>

section \<open>Evidence (evidence.proto)\<close>

text \<open>The value of the getter \<^verbatim>\<open>platform()\<close>, which maps unknown numbers to the first case.\<close>

datatype tee_platform = Unspecified | AmdSevSnp | IntelTdx | NonePlatform

record root_layer_evidence =
  platform :: tee_platform
  remote_attestation_report :: bytes
  eca_public_key :: bytes

record layer_evidence =
  eca_certificate :: bytes

record application_keys =
  encryption_public_key_certificate :: bytes
  signing_public_key_certificate :: bytes
  group_encryption_public_key_certificate :: bytes
  group_signing_public_key_certificate :: bytes

record evidence =
  ev_root_layer :: "root_layer_evidence option"
  ev_layers :: "layer_evidence list"
  ev_application_keys :: "application_keys option"

section \<open>Extracted values (verification.proto, tcb_version.proto)\<close>

record tcb_numbers =
  tcb_boot_loader :: u32
  tcb_tee :: u32
  tcb_snp :: u32
  tcb_microcode :: u32

record amd_attestation_report =
  amd_report_data :: bytes
  amd_current_tcb :: "tcb_numbers option"
  amd_reported_tcb :: "tcb_numbers option"
  amd_debug :: bool
  amd_initial_measurement :: bytes
  amd_hardware_id :: bytes
  amd_vmpl :: u32

datatype root_report = SevSnp amd_attestation_report | Tdx bytes | Fake bytes

record root_layer_data =
  root_report :: "root_report option"

record kernel_layer_data =
  kernel_image :: "raw_digest option"
  kernel_setup_data :: "raw_digest option"
  kernel_cmd_line :: "raw_digest option"
  kernel_raw_cmd_line :: "string option"
  kernel_init_ram_fs :: "raw_digest option"
  kernel_memory_map :: "raw_digest option"
  kernel_acpi :: "raw_digest option"

record application_layer_data =
  application_binary :: "raw_digest option"
  application_config :: "raw_digest option"

record system_layer_data =
  system_image :: "raw_digest option"

record container_layer_data =
  container_bundle :: "raw_digest option"
  container_config :: "raw_digest option"

record oak_restricted_kernel_data =
  rk_root_layer :: "root_layer_data option"
  rk_kernel_layer :: "kernel_layer_data option"
  rk_application_layer :: "application_layer_data option"

record oak_containers_data =
  oc_root_layer :: "root_layer_data option"
  oc_kernel_layer :: "kernel_layer_data option"
  oc_system_layer :: "system_layer_data option"
  oc_container_layer :: "container_layer_data option"

record cb_data =
  cb_root_layer :: "root_layer_data option"

datatype evidence_values = EvRestrictedKernel oak_restricted_kernel_data
  | EvContainers oak_containers_data | EvCb cb_data

record extracted_evidence =
  evidence_values :: "evidence_values option"
  encryption_public_key :: bytes
  signing_public_key :: bytes

datatype status = StatusUnspecified | Success | GenericFailure

record attestation_results =
  result_status :: status
  result_reason :: "string list"
  result_encryption_public_key :: bytes
  result_signing_public_key :: bytes
  result_extracted_evidence :: "extracted_evidence option"

section \<open>Endorsements (endorsement.proto, attachment.proto)\<close>

record transparent_release_endorsement =
  endorsement :: bytes
  endorsement_subject :: bytes
  endorsement_signature :: bytes
  rekor_log_entry :: bytes

record root_layer_endorsements =
  tee_certificate :: bytes
  stage0_endorsement :: "transparent_release_endorsement option"

record kernel_layer_endorsements =
  kernel_endorsement :: "transparent_release_endorsement option"
  kernel_cmd_line_endorsement :: "transparent_release_endorsement option"
  init_ram_fs_endorsement :: "transparent_release_endorsement option"
  memory_map_endorsement :: "transparent_release_endorsement option"
  acpi_endorsement :: "transparent_release_endorsement option"

record system_layer_endorsements =
  system_image_endorsement :: "transparent_release_endorsement option"

record application_layer_endorsements =
  application_binary_endorsement :: "transparent_release_endorsement option"
  application_configuration_endorsement :: "transparent_release_endorsement option"

record container_layer_endorsements =
  container_binary_endorsement :: "transparent_release_endorsement option"
  container_configuration_endorsement :: "transparent_release_endorsement option"

record oak_restricted_kernel_endorsements =
  rk_root_endorsements :: "root_layer_endorsements option"
  rk_kernel_endorsements :: "kernel_layer_endorsements option"
  rk_application_endorsements :: "application_layer_endorsements option"

record oak_containers_endorsements =
  oc_root_endorsements :: "root_layer_endorsements option"
  oc_kernel_endorsements :: "kernel_layer_endorsements option"
  oc_system_endorsements :: "system_layer_endorsements option"
  oc_container_endorsements :: "container_layer_endorsements option"

record cb_endorsements =
  cb_root_endorsements :: "root_layer_endorsements option"

datatype endorsements_type = EndRestrictedKernel oak_restricted_kernel_endorsements
  | EndContainers oak_containers_endorsements | EndCb cb_endorsements

record endorsements =
  endorsements_type :: "endorsements_type option"

record firmware_attachment =
  firmware_configs :: "(int \<times> hex_digest) list"

record kernel_attachment =
  attachment_image :: "hex_digest option"
  attachment_setup_data :: "hex_digest option"

section \<open>Reference values (reference\_value.proto)\<close>

record endorsement_reference_value =
  endorser_public_key :: bytes
  rekor_public_key :: bytes

datatype binary_reference_type = BinSkip | BinEndorsement endorsement_reference_value
  | BinDigests "raw_digest list"

record binary_reference_value =
  binary_type :: "binary_reference_type option"

record kernel_digests =
  image_digests :: "raw_digest list option"
  setup_data_digests :: "raw_digest list option"

datatype kernel_reference_type = KernelSkip | KernelEndorsement endorsement_reference_value
  | KernelDigests kernel_digests

record kernel_binary_reference_value =
  kernel_type :: "kernel_reference_type option"

datatype text_reference_type = TextSkip | TextEndorsement endorsement_reference_value
  | TextRegex string | TextLiterals "string list"

record text_reference_value =
  text_type :: "text_reference_type option"

record amd_sev_reference_values =
  ref_min_tcb_version :: "tcb_numbers option"
  ref_allow_debug :: bool
  ref_stage0 :: "binary_reference_value option"

record root_layer_reference_values =
  ref_amd_sev :: "amd_sev_reference_values option"
  ref_intel_tdx :: "unit option"
  ref_insecure :: "unit option"

record kernel_layer_reference_values =
  ref_kernel :: "kernel_binary_reference_value option"
  ref_kernel_cmd_line_text :: "text_reference_value option"
  ref_init_ram_fs :: "binary_reference_value option"
  ref_memory_map :: "binary_reference_value option"
  ref_acpi :: "binary_reference_value option"

record system_layer_reference_values =
  ref_system_image :: "binary_reference_value option"

record application_layer_reference_values =
  ref_application_binary :: "binary_reference_value option"
  ref_application_configuration :: "binary_reference_value option"

record container_layer_reference_values =
  ref_container_binary :: "binary_reference_value option"
  ref_container_configuration :: "binary_reference_value option"

record oak_restricted_kernel_reference_values =
  rk_root_reference :: "root_layer_reference_values option"
  rk_kernel_reference :: "kernel_layer_reference_values option"
  rk_application_reference :: "application_layer_reference_values option"

record oak_containers_reference_values =
  oc_root_reference :: "root_layer_reference_values option"
  oc_kernel_reference :: "kernel_layer_reference_values option"
  oc_system_reference :: "system_layer_reference_values option"
  oc_container_reference :: "container_layer_reference_values option"

record cb_reference_values =
  cb_root_reference :: "root_layer_reference_values option"

datatype reference_values_type = RefRestrictedKernel oak_restricted_kernel_reference_values
  | RefContainers oak_containers_reference_values | RefCb cb_reference_values

record reference_values =
  reference_values_type :: "reference_values_type option"

section \<open>Expected values (expected\_value.proto)\<close>

datatype expected_digests_type = DigestsSkipped | ExpectedRawDigests "raw_digest list"

record expected_digests =
  digests_type :: "expected_digests_type option"

record kernel_expected_values =
  expected_image :: "expected_digests option"
  expected_setup_data :: "expected_digests option"

datatype text_expected_type = TextSkipped | ExpectedRegex string | ExpectedLiterals "string list"

record text_expected_value =
  text_expected_type :: "text_expected_type option"

record amd_sev_expected_values =
  stage0_expected :: "expected_digests option"
  expected_min_tcb_version :: "tcb_numbers option"
  expected_allow_debug :: bool

record root_layer_expected_values =
  expected_amd_sev :: "amd_sev_expected_values option"
  expected_intel_tdx :: "unit option"
  expected_insecure :: "unit option"

record kernel_layer_expected_values =
  expected_kernel :: "kernel_expected_values option"
  expected_kernel_cmd_line_text :: "text_expected_value option"
  expected_init_ram_fs :: "expected_digests option"
  expected_memory_map :: "expected_digests option"
  expected_acpi :: "expected_digests option"

record system_layer_expected_values =
  expected_system_image :: "expected_digests option"

record application_layer_expected_values =
  expected_application_binary :: "expected_digests option"
  expected_application_configuration :: "expected_digests option"

record container_layer_expected_values =
  expected_container_bundle :: "expected_digests option"
  expected_container_config :: "expected_digests option"

record oak_restricted_kernel_expected_values =
  rk_root_expected :: "root_layer_expected_values option"
  rk_kernel_expected :: "kernel_layer_expected_values option"
  rk_application_expected :: "application_layer_expected_values option"

record oak_containers_expected_values =
  oc_root_expected :: "root_layer_expected_values option"
  oc_kernel_expected :: "kernel_layer_expected_values option"
  oc_system_expected :: "system_layer_expected_values option"
  oc_container_expected :: "container_layer_expected_values option"

record cb_expected_values =
  cb_root_expected :: "root_layer_expected_values option"

datatype expected_values_type = ExpRestrictedKernel oak_restricted_kernel_expected_values
  | ExpContainers oak_containers_expected_values | ExpCb cb_expected_values

record expected_values =
  expected_values_type :: "expected_values_type option"

end
