(* ===== verification/Oak_Extract.thy ===== *)
theory Oak_Extract
  imports Oak_Messages
begin

text \<open>
  The evidence half of \<^verbatim>\<open>oak_attestation_verification/src/verifier.rs\<close>: the signature of the
  attestation report, the signatures of the DICE chain, and the values read out of both. The
  parser of PEM certificates, the regular expressions and the decoders of attachments are added to
  the parameters; \<open>report_aligned\<close> says whether a buffer has the alignment that a \<^verbatim>\<open>zerocopy\<close>
  view needs.
\<close>

record 'h verifier_crates = "'h dice_crates" +
  report_aligned :: "bytes \<Rightarrow> bool"
  cert_from_pem :: "string \<Rightarrow> certificate option"
  ASK_MILAN_CERT_PEM :: string
  regex_new :: "string \<Rightarrow> (string \<Rightarrow> bool) option"
  decode_firmware_attachment :: "bytes \<Rightarrow> firmware_attachment option"
  decode_kernel_attachment :: "bytes \<Rightarrow> kernel_attachment option"

definition ADDITIONAL_DATA :: bytes where
  "ADDITIONAL_DATA = []"

text \<open>\<^verbatim>\<open>.map_err(|msg| anyhow::anyhow!(msg))\<close>, and \<^verbatim>\<open>if let Ok(v) = r \{ f \} else \{ g \}\<close>.\<close>

definition as_anyhow :: "('a, string) result \<Rightarrow> 'a anyhow" where
  "as_anyhow r = map_err (\<lambda>m. [m]) r"

definition if_ok :: "'a anyhow \<Rightarrow> ('a \<Rightarrow> 'b anyhow) \<Rightarrow> 'b anyhow \<Rightarrow> 'b anyhow" where
  "if_ok r f g = (case r of Inr v \<Rightarrow> f v | Inl (Err _) \<Rightarrow> g | Inl (Panic m) \<Rightarrow> panic m)"

definition report_ref :: "('h, 'z) verifier_crates_scheme \<Rightarrow> bytes \<Rightarrow> attestation_report option" where
  "report_ref cr bs = (if report_aligned cr bs then report_ref_from bs else None)"

section \<open>The attestation report\<close>

definition verify_root_attestation_signature ::
  "('h, 'z) verifier_crates_scheme \<Rightarrow> int \<Rightarrow> root_layer_evidence \<Rightarrow> bytes \<Rightarrow> unit anyhow" where
  "verify_root_attestation_signature cr now_utc_millis root_layer serialized_certificate =
     (case platform root_layer of
        Unspecified \<Rightarrow> Error [''unspecified TEE platform'']
      | AmdSevSnp \<Rightarrow>
          and_then (ok_or (cert_from_der cr serialized_certificate) [''could not parse VCEK cert'']) (\<lambda>vcek.
          and_then (ok_or (cert_from_pem cr (ASK_MILAN_CERT_PEM cr)) [''could not parse ASK cert'']) (\<lambda>ask_milan.
          and_then (verify_cert_signature cr ask_milan vcek) (\<lambda>_.
          and_then (ok_or (report_ref cr (remote_attestation_report root_layer))
            [''invalid AMD SEV-SNP attestation report'']) (\<lambda>report.
          and_then (as_anyhow (report_validate report)) (\<lambda>_.
          and_then (verify_attestation_report_signature cr vcek report) (\<lambda>_.
          (let expected = sha2_256_of cr (eca_public_key root_layer);
               actual = report_data (report_body report) in
           and_then (ensure (length expected < length actual \<and> expected = take (length expected) actual)
             [''The root layer's ECA public key is not bound to the attestation report'']) (\<lambda>_. Ok ()))))))))
      | IntelTdx \<Rightarrow> Error [''not supported'']
      | NonePlatform \<Rightarrow> Ok ())"

section \<open>Values of certificates\<close>

definition claims_set_from_serialized_cert ::
  "('h, 'z) verifier_crates_scheme \<Rightarrow> bytes \<Rightarrow> claims_set anyhow" where
  "claims_set_from_serialized_cert cr bs =
     and_then (ok_or (sign1_from_slice cr bs) [''could not parse certificate'']) (\<lambda>cert.
     and_then (ok_or (sign1_payload cert) [''no signing cert payload'']) (\<lambda>payload.
     ok_or (claims_from_slice cr payload) [''could not parse claims set'']))"

definition extract_layer_data :: "claims_set \<Rightarrow> int \<Rightarrow> (cbor_value \<times> cbor_value) list anyhow" where
  "extract_layer_data claims layer_id =
     ok_or (find_map (\<lambda>(label, v).
        case v of Map m \<Rightarrow> if label = PrivateUse layer_id then Some m else None | _ \<Rightarrow> None)
        (claims_rest claims)) [''couldn't find layer values'']"

definition extract_value :: "(cbor_value \<times> cbor_value) list \<Rightarrow> int \<Rightarrow> cbor_value anyhow" where
  "extract_value values label_id =
     ok_or (find_map (\<lambda>(key, v). if key = Integer label_id then Some v else None) values)
       [''couldn't find measurement'']"

definition digest_entry :: "raw_digest \<Rightarrow> cbor_value \<times> cbor_value \<Rightarrow> raw_digest anyhow" where
  "digest_entry acc e =
     (case snd e of
        Bytes bs \<Rightarrow> if fst e = Integer SHA2_256_ID then Ok (acc\<lparr>raw_sha2_256 := bs\<rparr>)
          else Error [''digest is not a byte array'']
      | _ \<Rightarrow> Error [''digest is not a byte array''])"

definition value_to_raw_digest :: "cbor_value \<Rightarrow> raw_digest anyhow" where
  "value_to_raw_digest v =
     (case v of Map m \<Rightarrow> try_fold digest_entry raw_default m
      | _ \<Rightarrow> Error [''value is not a map of digests''])"

definition extract_digest :: "(cbor_value \<times> cbor_value) list \<Rightarrow> int \<Rightarrow> raw_digest anyhow" where
  "extract_digest values label_id = and_then (extract_value values label_id) value_to_raw_digest"

definition as_text :: "cbor_value \<Rightarrow> string option" where
  "as_text v = (case v of Text s \<Rightarrow> Some s | _ \<Rightarrow> None)"

definition extract_raw_cmd_line :: "(cbor_value \<times> cbor_value) list \<Rightarrow> string option anyhow" where
  "extract_raw_cmd_line values =
     if_ok (extract_value values KERNEL_COMMANDLINE_ID)
       (\<lambda>v. and_then (expect (as_text v) ''kernel_raw_cmd_line found but is not a string'')
         (\<lambda>s. Ok (Some s)))
       (Ok None)"

definition extract_kernel_values :: "claims_set \<Rightarrow> kernel_layer_data anyhow" where
  "extract_kernel_values claims =
     and_then (context_of ''kernel layer ID not found'' (extract_layer_data claims KERNEL_LAYER_ID)) (\<lambda>values.
     and_then (extract_digest values KERNEL_MEASUREMENT_ID) (\<lambda>image.
     and_then (extract_digest values SETUP_DATA_MEASUREMENT_ID) (\<lambda>setup_data.
     and_then (extract_digest values KERNEL_COMMANDLINE_MEASUREMENT_ID) (\<lambda>cmd_line.
     and_then (extract_raw_cmd_line values) (\<lambda>raw_cmd_line.
     and_then (extract_digest values INITRD_MEASUREMENT_ID) (\<lambda>initrd.
     and_then (extract_digest values MEMORY_MAP_MEASUREMENT_ID) (\<lambda>memory_map.
     and_then (extract_digest values ACPI_MEASUREMENT_ID) (\<lambda>acpi.
     Ok \<lparr>kernel_image = Some image, kernel_setup_data = Some setup_data,
       kernel_cmd_line = Some cmd_line, kernel_raw_cmd_line = raw_cmd_line,
       kernel_init_ram_fs = Some initrd, kernel_memory_map = Some memory_map,
       kernel_acpi = Some acpi\<rparr>))))))))"

definition extract_system_layer_data :: "claims_set \<Rightarrow> system_layer_data anyhow" where
  "extract_system_layer_data claims =
     and_then (context_of ''system layer ID not found'' (extract_layer_data claims SYSTEM_IMAGE_LAYER_ID)) (\<lambda>values.
     and_then (extract_digest values LAYER_2_CODE_MEASUREMENT_ID) (\<lambda>image.
     Ok \<lparr>system_image = Some image\<rparr>))"

definition extract_container_layer_data :: "claims_set \<Rightarrow> container_layer_data anyhow" where
  "extract_container_layer_data claims =
     and_then (context_of ''system layer ID not found'' (extract_layer_data claims CONTAINER_IMAGE_LAYER_ID)) (\<lambda>values.
     and_then (extract_digest values LAYER_3_CODE_MEASUREMENT_ID) (\<lambda>bundle.
     and_then (extract_digest values FINAL_LAYER_CONFIG_MEASUREMENT_ID) (\<lambda>config.
     Ok \<lparr>container_bundle = Some bundle, container_config = Some config\<rparr>)))"

definition extract_application_layer_data :: "claims_set \<Rightarrow> application_layer_data anyhow" where
  "extract_application_layer_data claims =
     and_then (context_of ''system layer ID not found'' (extract_layer_data claims ENCLAVE_APPLICATION_LAYER_ID)) (\<lambda>values.
     and_then (extract_digest values LAYER_2_CODE_MEASUREMENT_ID) (\<lambda>binary.
     and_then (extract_digest values FINAL_LAYER_CONFIG_MEASUREMENT_ID) (\<lambda>config.
     Ok \<lparr>application_binary = Some binary, application_config = Some config\<rparr>)))"

section \<open>Values of the report\<close>

definition tcb_to_numbers :: "tcb_version \<Rightarrow> tcb_numbers" where
  "tcb_to_numbers t = \<lparr>tcb_boot_loader = ucast (boot_loader t), tcb_tee = ucast (tee t),
     tcb_snp = ucast (snp t), tcb_microcode = ucast (microcode t)\<rparr>"

definition extract_root_values ::
  "('h, 'z) verifier_crates_scheme \<Rightarrow> root_layer_evidence \<Rightarrow> root_layer_data anyhow" where
  "extract_root_values cr root_layer =
     (case platform root_layer of
        Unspecified \<Rightarrow> Error [''unspecified TEE platform'']
      | AmdSevSnp \<Rightarrow>
          and_then (ok_or (report_ref cr (remote_attestation_report root_layer))
            [''invalid AMD SEV-SNP attestation report'']) (\<lambda>report.
          and_then (as_anyhow (report_validate report)) (\<lambda>_.
          (let d = report_body report in
           and_then (as_anyhow (has_debug_flag report)) (\<lambda>debug.
           Ok \<lparr>root_report = Some (SevSnp \<lparr>amd_report_data = report_data d,
             amd_current_tcb = Some (tcb_to_numbers (current_tcb d)),
             amd_reported_tcb = Some (tcb_to_numbers (reported_tcb d)),
             amd_debug = debug, amd_initial_measurement = measurement d,
             amd_hardware_id = chip_id d, amd_vmpl = vmpl d\<rparr>)\<rparr>))))
      | IntelTdx \<Rightarrow> Error [''not supported'']
      | NonePlatform \<Rightarrow>
          and_then (ok_or (report_ref cr (remote_attestation_report root_layer))
            [''invalid fake attestation report'']) (\<lambda>report.
          and_then (as_anyhow (report_validate report)) (\<lambda>_.
          Ok \<lparr>root_report = Some (Fake (report_data (report_body report)))\<rparr>)))"

section \<open>Evidence\<close>

record application_key_values =
  encryption_key_value :: bytes
  signing_key_value :: bytes

definition extract_application_key_values ::
  "('h, 'z) verifier_crates_scheme \<Rightarrow> application_keys \<Rightarrow> application_key_values anyhow" where
  "extract_application_key_values cr application_keys =
     and_then (claims_set_from_serialized_cert cr (encryption_public_key_certificate application_keys)) (\<lambda>encryption_claims.
     and_then (as_anyhow (get_public_key_from_claims_set cr encryption_claims)) (\<lambda>encryption_cose_key.
     and_then (as_anyhow (cose_key_to_hpke_public_key encryption_cose_key)) (\<lambda>encryption_public_key.
     and_then (claims_set_from_serialized_cert cr (signing_public_key_certificate application_keys)) (\<lambda>signing_claims.
     and_then (as_anyhow (get_public_key_from_claims_set cr signing_claims)) (\<lambda>signing_cose_key.
     and_then (as_anyhow (cose_key_to_verifying_key cr signing_cose_key)) (\<lambda>signing_verifying_key.
     Ok \<lparr>encryption_key_value = encryption_public_key,
       signing_key_value = p256_to_sec1 cr signing_verifying_key\<rparr>))))))"

text \<open>The kernel certificate of the evidence, read for the values of its layer.\<close>

definition extract_kernel_layer ::
  "('h, 'z) verifier_crates_scheme \<Rightarrow> layer_evidence \<Rightarrow> kernel_layer_data anyhow" where
  "extract_kernel_layer cr layer =
     and_then (context_of ''couldn't parse kernel DICE layer certificate''
       (claims_set_from_serialized_cert cr (eca_certificate layer))) (\<lambda>claims.
     context_of ''couldn't extract kernel values'' (extract_kernel_values claims))"

definition extract_evidence_values ::
  "('h, 'z) verifier_crates_scheme \<Rightarrow> evidence \<Rightarrow> evidence_values anyhow" where
  "extract_evidence_values cr evidence =
     and_then (ok_or (ev_root_layer evidence) [''no root layer evidence'']) (\<lambda>root_evidence.
     and_then (extract_root_values cr root_evidence) (\<lambda>root_layer.
     and_then (ok_or (ev_application_keys evidence) [''no application keys'']) (\<lambda>keys.
     and_then (context_of ''couldn't parse final DICE layer certificate''
       (claims_set_from_serialized_cert cr (encryption_public_key_certificate keys))) (\<lambda>final_layer_claims.
     if_ok (extract_container_layer_data final_layer_claims)
       (\<lambda>container_layer_data.
          (case ev_layers evidence of
             [kernel_layer, system_layer] \<Rightarrow>
               and_then (extract_kernel_layer cr kernel_layer) (\<lambda>kernel.
               and_then (context_of ''couldn't parse system DICE layer certificate''
                 (claims_set_from_serialized_cert cr (eca_certificate system_layer))) (\<lambda>system_claims.
               and_then (context_of ''couldn't extract system layer values''
                 (extract_system_layer_data system_claims)) (\<lambda>system.
               Ok (EvContainers \<lparr>oc_root_layer = Some root_layer, oc_kernel_layer = Some kernel,
                 oc_system_layer = Some system, oc_container_layer = Some container_layer_data\<rparr>))))
           | _ \<Rightarrow> Error [''incorrect number of DICE layers for Oak Containers'']))
       (if_ok (extract_application_layer_data final_layer_claims)
          (\<lambda>application_layer_data.
             (case ev_layers evidence of
                [kernel_layer] \<Rightarrow>
                  and_then (extract_kernel_layer cr kernel_layer) (\<lambda>kernel.
                  Ok (EvRestrictedKernel \<lparr>rk_root_layer = Some root_layer,
                    rk_kernel_layer = Some kernel,
                    rk_application_layer = Some application_layer_data\<rparr>))
              | _ \<Rightarrow> Error [''incorrect number of DICE layers for Oak Containers'']))
          (Ok (EvCb \<lparr>cb_root_layer = Some root_layer\<rparr>)))))))"

definition extract_evidence ::
  "('h, 'z) verifier_crates_scheme \<Rightarrow> evidence \<Rightarrow> extracted_evidence anyhow" where
  "extract_evidence cr evidence =
     and_then (context_of ''couldn't extract evidence values'' (extract_evidence_values cr evidence)) (\<lambda>values.
     and_then (ok_or (ev_application_keys evidence) [''no application keys'']) (\<lambda>keys.
     and_then (context_of ''couldn't extract application key values''
       (extract_application_key_values cr keys)) (\<lambda>key_values.
     Ok \<lparr>evidence_values = Some values, encryption_public_key = encryption_key_value key_values,
       signing_public_key = signing_key_value key_values\<rparr>)))"

section \<open>The DICE chain\<close>

text \<open>\<^verbatim>\<open>CoseSign1::verify_signature\<close> with the closure that checks an ECDSA signature.\<close>

definition verify_sign1 ::
  "('h, 'z) verifier_crates_scheme \<Rightarrow> 'h \<Rightarrow> cose_sign1 \<Rightarrow> unit anyhow" where
  "verify_sign1 cr verifying_key cert =
     and_then (ok_or (p256_sig_from_slice cr (sign1_signature cert)) [''signature error'']) (\<lambda>sig.
     ensure (p256_verify cr verifying_key (sign1_tbs cr cert ADDITIONAL_DATA) sig) [''signature error''])"

definition verify_layer ::
  "('h, 'z) verifier_crates_scheme \<Rightarrow> 'h \<Rightarrow> layer_evidence \<Rightarrow> 'h anyhow" where
  "verify_layer cr previous_layer_verifying_key current_layer =
     and_then (ok_or (sign1_from_slice cr (eca_certificate current_layer))
       [''could not parse certificate'']) (\<lambda>cert.
     and_then (verify_sign1 cr previous_layer_verifying_key cert) (\<lambda>_.
     and_then (ok_or (sign1_payload cert) [''no cert payload'']) (\<lambda>payload.
     and_then (ok_or (claims_from_slice cr payload) [''could not parse claims set'']) (\<lambda>claims.
     and_then (as_anyhow (get_public_key_from_claims_set cr claims)) (\<lambda>cose_key.
     as_anyhow (cose_key_to_verifying_key cr cose_key))))))"

definition root_verifying_key ::
  "('h, 'z) verifier_crates_scheme \<Rightarrow> evidence \<Rightarrow> 'h anyhow" where
  "root_verifying_key cr evidence =
     and_then (ok_or (ev_root_layer evidence) [''no root layer evidence'']) (\<lambda>root_layer.
     and_then (ok_or (cose_key_from_slice cr (eca_public_key root_layer))
       [''couldn't deserialize root layer public key'']) (\<lambda>cose_key.
     as_anyhow (cose_key_to_verifying_key cr cose_key)))"

definition verify_dice_chain ::
  "('h, 'z) verifier_crates_scheme \<Rightarrow> evidence \<Rightarrow> extracted_evidence anyhow" where
  "verify_dice_chain cr evidence =
     and_then (root_verifying_key cr evidence) (\<lambda>root_layer_verifying_key.
     and_then (try_fold (verify_layer cr) root_layer_verifying_key (ev_layers evidence)) (\<lambda>last_layer_verifying_key.
     and_then (ok_or (ev_application_keys evidence) [''no application keys in evidence'']) (\<lambda>appl_keys.
     and_then (ok_or (sign1_from_slice cr (encryption_public_key_certificate appl_keys))
       [''could not parse encryption certificate'']) (\<lambda>encryption_cert.
     and_then (verify_sign1 cr last_layer_verifying_key encryption_cert) (\<lambda>_.
     and_then (ok_or (sign1_from_slice cr (signing_public_key_certificate appl_keys))
       [''could not parse encryption certificate'']) (\<lambda>signing_cert.
     and_then (verify_sign1 cr last_layer_verifying_key signing_cert) (\<lambda>_.
     extract_evidence cr evidence)))))))"

section \<open>Chains of trust\<close>

text \<open>
  \<open>certifies cr k layer k'\<close>: the certificate of the layer is signed by \<open>k\<close> and claims the key
  \<open>k'\<close>. A chain goes from the root key through every layer in order.
\<close>

definition certifies ::
  "('h, 'z) verifier_crates_scheme \<Rightarrow> 'h \<Rightarrow> layer_evidence \<Rightarrow> 'h \<Rightarrow> bool" where
  "certifies cr k layer k' \<longleftrightarrow> (\<exists>cert claims ck.
     sign1_from_slice cr (eca_certificate layer) = Some cert \<and> cert_signed_by cr k cert \<and>
     cert_claims cr cert = Some claims \<and> get_public_key_from_claims_set cr claims = Ok ck \<and>
     cose_key_to_verifying_key cr ck = Ok k')"

inductive chain ::
  "('h, 'z) verifier_crates_scheme \<Rightarrow> 'h \<Rightarrow> layer_evidence list \<Rightarrow> 'h \<Rightarrow> bool"
  for cr where
  root: "chain cr k [] k"
| layer: "certifies cr k l k' \<Longrightarrow> chain cr k' ls k'' \<Longrightarrow> chain cr k (l # ls) k''"

inductive_simps chain_Nil [simp]: "chain cr k [] k'"
inductive_simps chain_Cons [simp]: "chain cr k (l # ls) k'"

lemma as_anyhow_Ok [result_simps]: "as_anyhow r = Ok v \<longleftrightarrow> r = Ok v"
  by (simp add: as_anyhow_def map_err_eq_Ok)

lemma as_anyhow_simps [simp]: "as_anyhow (Ok v) = Ok v" "as_anyhow (Error m) = Error [m]"
  by (simp_all add: as_anyhow_def)

lemma verify_sign1_Ok [result_simps]:
  "verify_sign1 cr k cert = Ok u \<longleftrightarrow> cert_signed_by cr k cert"
  by (auto simp: verify_sign1_def cert_signed_by_def ADDITIONAL_DATA_def EMPTY_ADDITIONAL_DATA_def
      result_simps split: option.splits)

lemma verify_layer_Ok [result_simps]: "verify_layer cr k l = Ok k' \<longleftrightarrow> certifies cr k l k'"
  by (fastforce simp: verify_layer_def certifies_def cert_claims_def result_simps
      bind_eq_Some_conv)

lemma verify_layers_Ok: "try_fold (verify_layer cr) k ls = Ok k' \<longleftrightarrow> chain cr k ls k'"
  by (induction ls arbitrary: k) (auto simp: result_simps)

lemma chain_append: "chain cr k (ls @ ls') k'' \<longleftrightarrow> (\<exists>k'. chain cr k ls k' \<and> chain cr k' ls' k'')"
  by (induction ls arbitrary: k) auto

lemma chain_unique: "chain cr k ls a \<Longrightarrow> chain cr k ls b \<Longrightarrow> a = b"
  by (metis verify_layers_Ok Inr_inject)

definition cert_signed_bytes ::
  "('h, 'z) verifier_crates_scheme \<Rightarrow> 'h \<Rightarrow> bytes \<Rightarrow> bool" where
  "cert_signed_bytes cr k bs = (case sign1_from_slice cr bs of None \<Rightarrow> False
     | Some c \<Rightarrow> cert_signed_by cr k c)"

definition chain_accepted :: "('h, 'z) verifier_crates_scheme \<Rightarrow> evidence \<Rightarrow> bool" where
  "chain_accepted cr ev \<longleftrightarrow> (\<exists>root ck root_key last_key keys.
     ev_root_layer ev = Some root \<and> cose_key_from_slice cr (eca_public_key root) = Some ck \<and>
     cose_key_to_verifying_key cr ck = Ok root_key \<and> chain cr root_key (ev_layers ev) last_key \<and>
     ev_application_keys ev = Some keys \<and>
     cert_signed_bytes cr last_key (encryption_public_key_certificate keys) \<and>
     cert_signed_bytes cr last_key (signing_public_key_certificate keys))"

lemma verify_dice_chain_Ok:
  "verify_dice_chain cr ev = Ok x \<longleftrightarrow> chain_accepted cr ev \<and> extract_evidence cr ev = Ok x"
  by (fastforce simp: verify_dice_chain_def chain_accepted_def root_verifying_key_def result_simps
      verify_layers_Ok cert_signed_bytes_def split: option.splits)

end
