(* ===== verification/Oak_Expected.thy ===== *)
theory Oak_Expected
  imports Oak_Extract
begin

text \<open>
  The expectation half of \<^verbatim>\<open>oak_attestation_verification/src/verifier.rs\<close>: the expected values
  that endorsements and reference values give for each layer, and the comparison of the extracted
  values with them.
\<close>

section \<open>Digests\<close>

definition into_expected_digests :: "raw_digest list \<Rightarrow> expected_digests" where
  "into_expected_digests source = \<lparr>digests_type = Some (ExpectedRawDigests source)\<rparr>"

definition skipped_digests :: expected_digests where
  "skipped_digests = \<lparr>digests_type = Some DigestsSkipped\<rparr>"

text \<open>The call of \<^verbatim>\<open>verify_binary_endorsement\<close> on the fields of an endorsement and of a
  reference value, which all callers share.\<close>

definition verify_release ::
  "('h, 'z) verifier_crates_scheme \<Rightarrow> int \<Rightarrow> transparent_release_endorsement
     \<Rightarrow> endorsement_reference_value \<Rightarrow> unit anyhow" where
  "verify_release cr now_utc_millis e public_keys =
     verify_binary_endorsement cr now_utc_millis (endorsement e) (endorsement_signature e)
       (rekor_log_entry e) (endorser_public_key public_keys) (rekor_public_key public_keys)"

definition get_expected_measurement_digest ::
  "('h, 'z) verifier_crates_scheme \<Rightarrow> int \<Rightarrow> transparent_release_endorsement option
     \<Rightarrow> binary_reference_value \<Rightarrow> expected_digests anyhow" where
  "get_expected_measurement_digest cr now_utc_millis endo reference_value =
     (case binary_type reference_value of
        Some BinSkip \<Rightarrow> Ok skipped_digests
      | Some (BinEndorsement public_keys) \<Rightarrow>
          and_then (ok_or endo [''matching endorsement not found for reference value'']) (\<lambda>e.
          and_then (verify_release cr now_utc_millis e public_keys) (\<lambda>_.
          and_then (parse_endorsement_statement cr (endorsement e)) (\<lambda>statement.
          and_then (get_digest statement) (\<lambda>hex.
          and_then (hex_to_raw_digest cr hex) (\<lambda>raw.
          Ok (into_expected_digests [raw]))))))
      | Some (BinDigests digests) \<Rightarrow> Ok (into_expected_digests digests)
      | None \<Rightarrow> Error [''empty binary reference value''])"

definition compare_measurement_digest ::
  "('h, 'z) verifier_crates_scheme \<Rightarrow> raw_digest \<Rightarrow> expected_digests \<Rightarrow> unit anyhow" where
  "compare_measurement_digest cr measured expected =
     (case digests_type expected of
        Some DigestsSkipped \<Rightarrow> Ok ()
      | Some (ExpectedRawDigests digests) \<Rightarrow>
          (case find (\<lambda>d. is_ok (is_raw_digest_match cr measured d)) digests of
             Some _ \<Rightarrow> Ok ()
           | None \<Rightarrow> Error [''measurement digest does not match any reference values''])
      | None \<Rightarrow> Error [''empty expected value''])"

section \<open>Attachments\<close>

text \<open>The statement of a verified endorsement whose usage is the given one and whose digest is that
  of the attached subject: the part that the stage 0 and the kernel attachment share.\<close>

definition verified_subject ::
  "('h, 'z) verifier_crates_scheme \<Rightarrow> int \<Rightarrow> string \<Rightarrow> transparent_release_endorsement
     \<Rightarrow> endorsement_reference_value \<Rightarrow> bytes anyhow" where
  "verified_subject cr now_utc_millis usage e public_keys =
     and_then (verify_release cr now_utc_millis e public_keys) (\<lambda>_.
     and_then (parse_endorsement_statement cr (endorsement e)) (\<lambda>parsed_statement.
     if claim_usage (predicate parsed_statement) \<noteq> usage
     then Error [''unexpected endorsement usage'']
     else
       and_then (get_digest parsed_statement) (\<lambda>expected_digest.
       (let actual_digest = raw_to_hex_digest cr (raw_digest_from_contents cr (endorsement_subject e)) in
       and_then (is_hex_digest_match actual_digest expected_digest) (\<lambda>_.
       Ok (endorsement_subject e))))))"

definition get_verified_stage0_attachment ::
  "('h, 'z) verifier_crates_scheme \<Rightarrow> int \<Rightarrow> transparent_release_endorsement
     \<Rightarrow> endorsement_reference_value \<Rightarrow> firmware_attachment anyhow" where
  "get_verified_stage0_attachment cr now_utc_millis e public_keys =
     and_then (verified_subject cr now_utc_millis ''firmware'' e public_keys) (\<lambda>subject.
     ok_or (decode_firmware_attachment cr subject) [''couldn't parse stage0 attachment''])"

definition get_verified_kernel_attachment ::
  "('h, 'z) verifier_crates_scheme \<Rightarrow> int \<Rightarrow> transparent_release_endorsement
     \<Rightarrow> endorsement_reference_value \<Rightarrow> kernel_attachment anyhow" where
  "get_verified_kernel_attachment cr now_utc_millis e public_keys =
     and_then (verified_subject cr now_utc_millis ''kernel'' e public_keys) (\<lambda>subject.
     ok_or (decode_kernel_attachment cr subject) [''couldn't parse kernel attachment''])"

text \<open>\<^verbatim>\<open>Result::unwrap\<close>: an error is a panic.\<close>

definition unwrap :: "('a, 'e) result \<Rightarrow> ('a, 'f) result" where
  "unwrap r = (case r of Inr v \<Rightarrow> Ok v | Inl (Err _) \<Rightarrow> panic ''called `Result::unwrap()` on an `Err` value''
     | Inl (Panic m) \<Rightarrow> panic m)"

definition get_stage0_expected_values ::
  "('h, 'z) verifier_crates_scheme \<Rightarrow> int \<Rightarrow> transparent_release_endorsement option
     \<Rightarrow> binary_reference_value \<Rightarrow> expected_digests anyhow" where
  "get_stage0_expected_values cr now_utc_millis endo reference_value =
     (case binary_type reference_value of
        Some BinSkip \<Rightarrow> Ok skipped_digests
      | Some (BinEndorsement public_keys) \<Rightarrow>
          and_then (ok_or endo [''matching endorsement not found for reference value'']) (\<lambda>e.
          and_then (get_verified_stage0_attachment cr now_utc_millis e public_keys) (\<lambda>attachment.
          and_then (try_map (\<lambda>(_, digest). unwrap (hex_to_raw_digest cr digest))
            (firmware_configs attachment)) (\<lambda>raws.
          Ok (into_expected_digests raws))))
      | Some (BinDigests digests) \<Rightarrow> Ok (into_expected_digests digests)
      | None \<Rightarrow> Error [''empty stage0 reference value''])"

definition get_kernel_expected_values ::
  "('h, 'z) verifier_crates_scheme \<Rightarrow> int \<Rightarrow> transparent_release_endorsement option
     \<Rightarrow> kernel_binary_reference_value \<Rightarrow> kernel_expected_values anyhow" where
  "get_kernel_expected_values cr now_utc_millis endo reference_value =
     (case kernel_type reference_value of
        Some KernelSkip \<Rightarrow> Ok \<lparr>expected_image = Some skipped_digests,
          expected_setup_data = Some skipped_digests\<rparr>
      | Some (KernelEndorsement public_keys) \<Rightarrow>
          and_then (ok_or endo [''matching endorsement not found for reference value'']) (\<lambda>e.
          and_then (get_verified_kernel_attachment cr now_utc_millis e public_keys) (\<lambda>attachment.
          and_then (ok_or (attachment_image attachment) [''no image digest in kernel attachment'']) (\<lambda>image.
          and_then (ok_or (attachment_setup_data attachment)
            [''no setup data digest in kernel attachment'']) (\<lambda>setup_data.
          and_then (hex_to_raw_digest cr image) (\<lambda>raw_image.
          and_then (hex_to_raw_digest cr setup_data) (\<lambda>raw_setup_data.
          Ok \<lparr>expected_image = Some (into_expected_digests [raw_image]),
            expected_setup_data = Some (into_expected_digests [raw_setup_data])\<rparr>))))))
      | Some (KernelDigests digests) \<Rightarrow>
          and_then (ok_or (image_digests digests) [''no image digests provided'']) (\<lambda>images.
          and_then (ok_or (setup_data_digests digests) [''no setup_data digests provided'']) (\<lambda>setups.
          Ok \<lparr>expected_image = Some (into_expected_digests images),
            expected_setup_data = Some (into_expected_digests setups)\<rparr>))
      | None \<Rightarrow> Error [''empty binary reference value''])"

section \<open>Text values\<close>

definition verify_regex :: "('h, 'z) verifier_crates_scheme \<Rightarrow> string \<Rightarrow> string \<Rightarrow> unit anyhow" where
  "verify_regex cr actual regex =
     and_then (ok_or (regex_new cr regex) [''couldn't parse regex in the reference value'']) (\<lambda>re.
     ensure (re actual) [''value doesn't match the reference value regex''])"

definition compare_text_value ::
  "('h, 'z) verifier_crates_scheme \<Rightarrow> string \<Rightarrow> text_expected_value \<Rightarrow> unit anyhow" where
  "compare_text_value cr actual expected =
     (case text_expected_type expected of
        Some TextSkipped \<Rightarrow> Ok ()
      | Some (ExpectedRegex regex) \<Rightarrow>
          context_of ''regex from endorsement does not match'' (verify_regex cr actual regex)
      | Some (ExpectedLiterals literals) \<Rightarrow>
          if list_ex (\<lambda>sl. sl = actual) literals then Ok ()
          else Error [''value doesn't match the reference value string literal'']
      | None \<Rightarrow> Error [''missing skip or value in the text expected value''])"

definition get_text_expected_values ::
  "('h, 'z) verifier_crates_scheme \<Rightarrow> int \<Rightarrow> text_reference_value
     \<Rightarrow> transparent_release_endorsement option \<Rightarrow> text_expected_value anyhow" where
  "get_text_expected_values cr now_utc_millis reference_value endo =
     (case text_type reference_value of
        Some TextSkip \<Rightarrow> Ok \<lparr>text_expected_type = Some TextSkipped\<rparr>
      | Some (TextEndorsement public_keys) \<Rightarrow>
          and_then (ok_or endo [''matching endorsement not found for text reference value'']) (\<lambda>e.
          and_then (verify_release cr now_utc_millis e public_keys) (\<lambda>_.
          and_then (expect (from_utf8 (endorsement_subject e)) ''endorsement subject is not utf8'') (\<lambda>regex.
          Ok \<lparr>text_expected_type = Some (ExpectedRegex regex)\<rparr>)))
      | Some (TextRegex regex) \<Rightarrow> Ok \<lparr>text_expected_type = Some (ExpectedRegex regex)\<rparr>
      | Some (TextLiterals literals) \<Rightarrow> Ok \<lparr>text_expected_type = Some (ExpectedLiterals literals)\<rparr>
      | None \<Rightarrow> Error [''missing skip or value in the text reference value''])"

section \<open>The root layer\<close>

definition get_root_layer_expected_values ::
  "('h, 'z) verifier_crates_scheme \<Rightarrow> int \<Rightarrow> root_layer_endorsements option
     \<Rightarrow> root_layer_reference_values \<Rightarrow> root_layer_expected_values anyhow" where
  "get_root_layer_expected_values cr now_utc_millis ends reference_values =
     and_then
       (case ref_amd_sev reference_values of
          Some amd_sev_values \<Rightarrow>
            and_then (ok_or (ref_stage0 amd_sev_values)
              [''stage0 binary reference values not found'']) (\<lambda>stage0_reference.
            and_then (get_stage0_expected_values cr now_utc_millis
              (Option.bind ends stage0_endorsement) stage0_reference) (\<lambda>stage0.
            Ok (Some \<lparr>stage0_expected = Some stage0,
              expected_min_tcb_version = ref_min_tcb_version amd_sev_values,
              expected_allow_debug = ref_allow_debug amd_sev_values\<rparr>)))
        | None \<Rightarrow> Ok None) (\<lambda>amd_sev.
     Ok \<lparr>expected_amd_sev = amd_sev,
       expected_intel_tdx = map_option (\<lambda>_. ()) (ref_intel_tdx reference_values),
       expected_insecure = map_option (\<lambda>_. ()) (ref_insecure reference_values)\<rparr>)"

definition verify_amd_sev_attestation_report ::
  "amd_attestation_report \<Rightarrow> amd_sev_expected_values \<Rightarrow> unit anyhow" where
  "verify_amd_sev_attestation_report values expected =
     and_then (ensure (amd_vmpl values = 0) [''attestation report was not generated from VMPL 0'']) (\<lambda>_.
     if \<not> expected_allow_debug expected \<and> amd_debug values then Error [''debug mode not allowed'']
     else
       (case (expected_min_tcb_version expected, amd_reported_tcb values) of
          (Some min_tcb, Some reported) \<Rightarrow>
            and_then (ensure (tcb_boot_loader min_tcb \<le> tcb_boot_loader reported)
              [''unsupported boot loader version in the reported TCB'']) (\<lambda>_.
            and_then (ensure (tcb_tee min_tcb \<le> tcb_tee reported)
              [''unsupported tee version in the reported TCB'']) (\<lambda>_.
            and_then (ensure (tcb_snp min_tcb \<le> tcb_snp reported)
              [''unsupported snp version in the reported TCB'']) (\<lambda>_.
            and_then (ensure (tcb_microcode min_tcb \<le> tcb_microcode reported)
              [''unsupported microcode version in the reported TCB'']) (\<lambda>_. Ok ()))))
        | (Some _, None) \<Rightarrow> Error [''no reported TCB version in the attestation report'']
        | (None, _) \<Rightarrow> Error [''no min TCB version reference value'']))"

definition verify_intel_tdx_attestation_report :: "bytes \<Rightarrow> unit \<Rightarrow> unit anyhow" where
  "verify_intel_tdx_attestation_report values expected = Error [''needs implementation'']"

definition verify_insecure :: "unit \<Rightarrow> unit anyhow" where
  "verify_insecure expected = Ok ()"

definition compare_root_layer_measurement_digests ::
  "('h, 'z) verifier_crates_scheme \<Rightarrow> root_layer_data \<Rightarrow> root_layer_expected_values \<Rightarrow> unit anyhow" where
  "compare_root_layer_measurement_digests cr values expected =
     (case (root_report values, expected_amd_sev expected, expected_intel_tdx expected,
         expected_insecure expected) of
        (Some (SevSnp report_values), Some amd_sev_values, _, _) \<Rightarrow>
          and_then (ok_or (stage0_expected amd_sev_values) [''no stage0 expected value provided'']) (\<lambda>stage0.
          and_then (context_of ''stage0 measurement values failed verification''
            (compare_measurement_digest cr
              (raw_default\<lparr>raw_sha2_384 := amd_initial_measurement report_values\<rparr>) stage0)) (\<lambda>_.
          verify_amd_sev_attestation_report report_values amd_sev_values))
      | (Some (Tdx report_values), _, Some intel_tdx_values, _) \<Rightarrow>
          verify_intel_tdx_attestation_report report_values intel_tdx_values
      | (_, _, _, Some insecure_values) \<Rightarrow>
          context_of ''insecure root layer verification failed'' (verify_insecure insecure_values)
      | (Some (Fake _), _, _, None) \<Rightarrow> Error [''unexpected insecure attestation report'']
      | (None, _, _, _) \<Rightarrow> Error [''no attestation report'']
      | (_, _, _, _) \<Rightarrow>
          Error [''invalid combination of root layer reference values and endorsed evidence''])"

section \<open>The kernel layer\<close>

definition get_kernel_layer_expected_values ::
  "('h, 'z) verifier_crates_scheme \<Rightarrow> int \<Rightarrow> kernel_layer_endorsements option
     \<Rightarrow> kernel_layer_reference_values \<Rightarrow> kernel_layer_expected_values anyhow" where
  "get_kernel_layer_expected_values cr now_utc_millis ends reference_values =
     and_then (ok_or (ref_kernel reference_values) [''no kernel reference value'']) (\<lambda>kernel_reference.
     and_then (context_of ''failed to get kernel expected values''
       (get_kernel_expected_values cr now_utc_millis (Option.bind ends kernel_endorsement)
         kernel_reference)) (\<lambda>kernel.
     and_then (ok_or (ref_kernel_cmd_line_text reference_values)
       [''no kernel command line text reference values'']) (\<lambda>cmd_line_reference.
     and_then (context_of ''failed to get kernel cmd line expected value''
       (get_text_expected_values cr now_utc_millis cmd_line_reference
         (Option.bind ends kernel_cmd_line_endorsement))) (\<lambda>cmd_line.
     and_then (ok_or (ref_init_ram_fs reference_values) [''no initial RAM disk reference value'']) (\<lambda>initrd_reference.
     and_then (context_of ''failed to get initramfs expected value''
       (get_expected_measurement_digest cr now_utc_millis
         (Option.bind ends init_ram_fs_endorsement) initrd_reference)) (\<lambda>initrd.
     and_then (ok_or (ref_memory_map reference_values) [''no memory map reference value'']) (\<lambda>map_reference.
     and_then (context_of ''failed to get memory map expected value''
       (get_expected_measurement_digest cr now_utc_millis
         (Option.bind ends memory_map_endorsement) map_reference)) (\<lambda>memory_map.
     and_then (ok_or (ref_acpi reference_values) [''no ACPI reference value'']) (\<lambda>acpi_reference.
     and_then (context_of ''failed to get ACPI table expected value''
       (get_expected_measurement_digest cr now_utc_millis
         (Option.bind ends acpi_endorsement) acpi_reference)) (\<lambda>acpi.
     Ok \<lparr>expected_kernel = Some kernel, expected_kernel_cmd_line_text = Some cmd_line,
       expected_init_ram_fs = Some initrd, expected_memory_map = Some memory_map,
       expected_acpi = Some acpi\<rparr>))))))))))"

text \<open>A measurement and its expectation, both of which must be present.\<close>

definition compare_present ::
  "('h, 'z) verifier_crates_scheme \<Rightarrow> raw_digest option \<Rightarrow> string \<Rightarrow> expected_digests option \<Rightarrow> string
     \<Rightarrow> string \<Rightarrow> unit anyhow" where
  "compare_present cr measured no_value expected no_expected failed =
     and_then (ok_or measured [no_value]) (\<lambda>m.
     and_then (ok_or expected [no_expected]) (\<lambda>e.
     context_of failed (compare_measurement_digest cr m e)))"

definition compare_kernel_cmd_line ::
  "('h, 'z) verifier_crates_scheme \<Rightarrow> string option \<Rightarrow> text_expected_value option \<Rightarrow> unit anyhow" where
  "compare_kernel_cmd_line cr raw_cmd_line expected =
     (case expected of
        Some e \<Rightarrow>
          if text_expected_type e = Some TextSkipped then Ok ()
          else (case raw_cmd_line of
              Some s \<Rightarrow> if length s < 256 then compare_text_value cr s e
                else Error [''No valid kernel_raw_cmd_line provided'']
            | None \<Rightarrow> Error [''No valid kernel_raw_cmd_line provided''])
      | None \<Rightarrow> Error [''No valid kernel_raw_cmd_line provided''])"

definition compare_kernel_layer_measurement_digests ::
  "('h, 'z) verifier_crates_scheme \<Rightarrow> kernel_layer_data \<Rightarrow> kernel_layer_expected_values \<Rightarrow> unit anyhow" where
  "compare_kernel_layer_measurement_digests cr values expected =
     and_then (ok_or (expected_kernel expected) [''no kernel expected values'']) (\<lambda>kernel.
     and_then (compare_present cr (kernel_image values) ''no kernel evidence value''
       (expected_image kernel) ''expected values contained no image digests''
       ''kernel image failed verification'') (\<lambda>_.
     and_then (compare_present cr (kernel_setup_data values) ''no kernel setup data evidence value''
       (expected_setup_data kernel) ''expected values contained no setup_data digests''
       ''kernel setup data failed verification'') (\<lambda>_.
     and_then (compare_kernel_cmd_line cr (kernel_raw_cmd_line values)
       (expected_kernel_cmd_line_text expected)) (\<lambda>_.
     and_then (compare_present cr (kernel_init_ram_fs values) ''no initramfs value provided''
       (expected_init_ram_fs expected) ''no initramfs expected value provided''
       ''initramfs value failed verification'') (\<lambda>_.
     and_then (compare_present cr (kernel_memory_map values) ''no memory_map value provided''
       (expected_memory_map expected) ''no memory_map expected value provided''
       ''memory_map value failed verification'') (\<lambda>_.
     compare_present cr (kernel_acpi values) ''no ACPI table value provided''
       (expected_acpi expected) ''no ACPI table expected value provided''
       ''ACPI table value failed verification''))))))"

section \<open>The other layers\<close>

definition get_system_layer_expected_values ::
  "('h, 'z) verifier_crates_scheme \<Rightarrow> int \<Rightarrow> system_layer_endorsements option
     \<Rightarrow> system_layer_reference_values \<Rightarrow> system_layer_expected_values anyhow" where
  "get_system_layer_expected_values cr now_utc_millis ends reference_values =
     and_then (ok_or (ref_system_image reference_values) [''container bundle reference value'']) (\<lambda>reference.
     and_then (get_expected_measurement_digest cr now_utc_millis
       (Option.bind ends system_image_endorsement) reference) (\<lambda>image.
     Ok \<lparr>expected_system_image = Some image\<rparr>))"

definition compare_system_layer_measurement_digests ::
  "('h, 'z) verifier_crates_scheme \<Rightarrow> system_layer_data \<Rightarrow> system_layer_expected_values \<Rightarrow> unit anyhow" where
  "compare_system_layer_measurement_digests cr values expected =
     compare_present cr (system_image values) ''no system image evidence value''
       (expected_system_image expected) ''no expected system image value''
       ''system layer system image failed verification''"

definition get_application_layer_expected_values ::
  "('h, 'z) verifier_crates_scheme \<Rightarrow> int \<Rightarrow> application_layer_endorsements option
     \<Rightarrow> application_layer_reference_values \<Rightarrow> application_layer_expected_values anyhow" where
  "get_application_layer_expected_values cr now_utc_millis ends reference_values =
     and_then (ok_or (ref_application_binary reference_values)
       [''container bundle reference value'']) (\<lambda>binary_reference.
     and_then (get_expected_measurement_digest cr now_utc_millis
       (Option.bind ends application_binary_endorsement) binary_reference) (\<lambda>binary.
     and_then (ok_or (ref_application_configuration reference_values)
       [''container bundle reference value'']) (\<lambda>configuration_reference.
     and_then (get_expected_measurement_digest cr now_utc_millis
       (Option.bind ends application_configuration_endorsement) configuration_reference) (\<lambda>configuration.
     Ok \<lparr>expected_application_binary = Some binary,
       expected_application_configuration = Some configuration\<rparr>))))"

definition compare_application_layer_measurement_digests ::
  "('h, 'z) verifier_crates_scheme \<Rightarrow> application_layer_data \<Rightarrow> application_layer_expected_values
     \<Rightarrow> unit anyhow" where
  "compare_application_layer_measurement_digests cr values expected =
     and_then (compare_present cr (application_binary values) ''no binary evidence value''
       (expected_application_binary expected) ''no expected binary value''
       ''application layer binary failed verification'') (\<lambda>_.
     compare_present cr (application_config values) ''no config evidence value''
       (expected_application_configuration expected) ''no expected config value''
       ''application layer config failed verification'')"

text \<open>The configuration is looked up with the endorsement of the binary, as in the source.\<close>

definition get_container_layer_expected_values ::
  "('h, 'z) verifier_crates_scheme \<Rightarrow> int \<Rightarrow> container_layer_endorsements option
     \<Rightarrow> container_layer_reference_values \<Rightarrow> container_layer_expected_values anyhow" where
  "get_container_layer_expected_values cr now_utc_millis ends reference_values =
     and_then (ok_or (ref_container_binary reference_values)
       [''container bundle reference value'']) (\<lambda>binary_reference.
     and_then (get_expected_measurement_digest cr now_utc_millis
       (Option.bind ends container_binary_endorsement) binary_reference) (\<lambda>bundle.
     and_then (ok_or (ref_container_configuration reference_values)
       [''container config reference value'']) (\<lambda>configuration_reference.
     and_then (get_expected_measurement_digest cr now_utc_millis
       (Option.bind ends container_binary_endorsement) configuration_reference) (\<lambda>config.
     Ok \<lparr>expected_container_bundle = Some bundle, expected_container_config = Some config\<rparr>))))"

definition compare_container_layer_measurement_digests ::
  "('h, 'z) verifier_crates_scheme \<Rightarrow> container_layer_data \<Rightarrow> container_layer_expected_values
     \<Rightarrow> unit anyhow" where
  "compare_container_layer_measurement_digests cr values expected =
     and_then (compare_present cr (container_bundle values) ''no bundle evidence value''
       (expected_container_bundle expected) ''no expected bundle value''
       ''container bundle failed verification'') (\<lambda>_.
     compare_present cr (container_config values) ''no config evidence value''
       (expected_container_config expected) ''no expected config value''
       ''container config failed verification'')"

end
