(* ===== verification/Oak_Verifier.thy ===== *)
theory Oak_Verifier
  imports Oak_Expected
begin

text \<open>
  The entry points of \<^verbatim>\<open>oak_attestation_verification/src/verifier.rs\<close>: \<^verbatim>\<open>verify\<close> and what it
  calls, and what they accept. The specification is stated per layer: \<open>binary_accepts\<close> and its
  relatives say which measurement a reference value accepts, given the endorsement, without the
  intermediate expected values.
\<close>

section \<open>Chains of layers\<close>

definition get_oak_restricted_kernel_expected_values ::
  "('h, 'z) verifier_crates_scheme \<Rightarrow> int \<Rightarrow> oak_restricted_kernel_endorsements
     \<Rightarrow> oak_restricted_kernel_reference_values \<Rightarrow> oak_restricted_kernel_expected_values anyhow" where
  "get_oak_restricted_kernel_expected_values cr now_utc_millis ends refs =
     and_then (ok_or (rk_root_reference refs) [''no root layer reference values'']) (\<lambda>root_reference.
     and_then (get_root_layer_expected_values cr now_utc_millis (rk_root_endorsements ends)
       root_reference) (\<lambda>root.
     and_then (ok_or (rk_kernel_reference refs) [''no kernel layer reference values'']) (\<lambda>kernel_reference.
     and_then (get_kernel_layer_expected_values cr now_utc_millis (rk_kernel_endorsements ends)
       kernel_reference) (\<lambda>kernel.
     and_then (ok_or (rk_application_reference refs)
       [''no application layer reference values'']) (\<lambda>application_reference.
     and_then (get_application_layer_expected_values cr now_utc_millis
       (rk_application_endorsements ends) application_reference) (\<lambda>application.
     Ok \<lparr>rk_root_expected = Some root, rk_kernel_expected = Some kernel,
       rk_application_expected = Some application\<rparr>))))))"

definition compare_oak_restricted_kernel_measurement_digests ::
  "('h, 'z) verifier_crates_scheme \<Rightarrow> oak_restricted_kernel_data
     \<Rightarrow> oak_restricted_kernel_expected_values \<Rightarrow> unit anyhow" where
  "compare_oak_restricted_kernel_measurement_digests cr values expected =
     and_then (ok_or (rk_root_layer values) [''no root layer evidence values'']) (\<lambda>root.
     and_then (ok_or (rk_root_expected expected) [''no root layer expected values'']) (\<lambda>root_expected.
     and_then (compare_root_layer_measurement_digests cr root root_expected) (\<lambda>_.
     and_then (ok_or (rk_kernel_layer values) [''no kernel layer evidence values'']) (\<lambda>kernel.
     and_then (ok_or (rk_kernel_expected expected) [''no kernel layer expected values'']) (\<lambda>kernel_expected.
     and_then (compare_kernel_layer_measurement_digests cr kernel kernel_expected) (\<lambda>_.
     and_then (ok_or (rk_application_layer values) [''no applications layer evidence values'']) (\<lambda>application.
     and_then (ok_or (rk_application_expected expected)
       [''no application layer expected values'']) (\<lambda>application_expected.
     context_of ''application layer verification failed''
       (compare_application_layer_measurement_digests cr application application_expected)))))))))"

definition get_oak_containers_expected_values ::
  "('h, 'z) verifier_crates_scheme \<Rightarrow> int \<Rightarrow> oak_containers_endorsements
     \<Rightarrow> oak_containers_reference_values \<Rightarrow> oak_containers_expected_values anyhow" where
  "get_oak_containers_expected_values cr now_utc_millis ends refs =
     and_then (ok_or (oc_root_reference refs) [''no root layer reference values'']) (\<lambda>root_reference.
     and_then (get_root_layer_expected_values cr now_utc_millis (oc_root_endorsements ends)
       root_reference) (\<lambda>root.
     and_then (ok_or (oc_kernel_reference refs) [''no kernel layer reference values'']) (\<lambda>kernel_reference.
     and_then (get_kernel_layer_expected_values cr now_utc_millis (oc_kernel_endorsements ends)
       kernel_reference) (\<lambda>kernel.
     and_then (ok_or (oc_system_reference refs)
       [''no application layer reference values'']) (\<lambda>system_reference.
     and_then (get_system_layer_expected_values cr now_utc_millis (oc_system_endorsements ends)
       system_reference) (\<lambda>system.
     and_then (ok_or (oc_container_reference refs)
       [''no kernel layer reference values'']) (\<lambda>container_reference.
     and_then (get_container_layer_expected_values cr now_utc_millis
       (oc_container_endorsements ends) container_reference) (\<lambda>container.
     Ok \<lparr>oc_root_expected = Some root, oc_kernel_expected = Some kernel,
       oc_system_expected = Some system, oc_container_expected = Some container\<rparr>))))))))"

definition compare_oak_containers_measurement_digests ::
  "('h, 'z) verifier_crates_scheme \<Rightarrow> oak_containers_data \<Rightarrow> oak_containers_expected_values
     \<Rightarrow> unit anyhow" where
  "compare_oak_containers_measurement_digests cr values expected =
     and_then (ok_or (oc_root_layer values) [''no root layer evidence values'']) (\<lambda>root.
     and_then (ok_or (oc_root_expected expected) [''no root layer expected values'']) (\<lambda>root_expected.
     and_then (compare_root_layer_measurement_digests cr root root_expected) (\<lambda>_.
     and_then (ok_or (oc_kernel_layer values) [''no kernel layer evidence values'']) (\<lambda>kernel.
     and_then (ok_or (oc_kernel_expected expected) [''no kernel layer expected_values'']) (\<lambda>kernel_expected.
     and_then (compare_kernel_layer_measurement_digests cr kernel kernel_expected) (\<lambda>_.
     and_then (ok_or (oc_system_layer values) [''no system layer evidence values'']) (\<lambda>system.
     and_then (ok_or (oc_system_expected expected) [''no system layer expected_values'']) (\<lambda>system_expected.
     and_then (context_of ''system layer verification failed''
       (compare_system_layer_measurement_digests cr system system_expected)) (\<lambda>_.
     and_then (ok_or (oc_container_layer values) [''no container layer evidence values'']) (\<lambda>container.
     and_then (ok_or (oc_container_expected expected)
       [''no system layer expected_values'']) (\<lambda>container_expected.
     context_of ''container layer verification failed''
       (compare_container_layer_measurement_digests cr container container_expected))))))))))))"

definition get_cb_expected_values ::
  "('h, 'z) verifier_crates_scheme \<Rightarrow> int \<Rightarrow> cb_endorsements \<Rightarrow> cb_reference_values
     \<Rightarrow> cb_expected_values anyhow" where
  "get_cb_expected_values cr now_utc_millis ends refs =
     and_then (ok_or (cb_root_reference refs) [''no root layer reference values'']) (\<lambda>root_reference.
     and_then (get_root_layer_expected_values cr now_utc_millis (cb_root_endorsements ends)
       root_reference) (\<lambda>root.
     Ok \<lparr>cb_root_expected = Some root\<rparr>))"

definition compare_cb_measurement_digests ::
  "('h, 'z) verifier_crates_scheme \<Rightarrow> cb_data \<Rightarrow> cb_expected_values \<Rightarrow> unit anyhow" where
  "compare_cb_measurement_digests cr values expected =
     and_then (ok_or (cb_root_layer values) [''no root layer evidence values'']) (\<lambda>root.
     and_then (ok_or (cb_root_expected expected) [''no root layer expected values'']) (\<lambda>root_expected.
     and_then (context_of ''root layer verification failed''
       (compare_root_layer_measurement_digests cr root root_expected)) (\<lambda>_.
     Error [''needs more implementation''])))"

section \<open>Entry points\<close>

definition get_expected_values ::
  "('h, 'z) verifier_crates_scheme \<Rightarrow> int \<Rightarrow> endorsements \<Rightarrow> reference_values
     \<Rightarrow> expected_values anyhow" where
  "get_expected_values cr now_utc_millis ends refs =
     (case (endorsements_type ends, reference_values_type refs) of
        (Some (EndRestrictedKernel e), Some (RefRestrictedKernel r)) \<Rightarrow>
          and_then (get_oak_restricted_kernel_expected_values cr now_utc_millis e r) (\<lambda>x.
          Ok \<lparr>expected_values_type = Some (ExpRestrictedKernel x)\<rparr>)
      | (Some (EndContainers e), Some (RefContainers r)) \<Rightarrow>
          and_then (get_oak_containers_expected_values cr now_utc_millis e r) (\<lambda>x.
          Ok \<lparr>expected_values_type = Some (ExpContainers x)\<rparr>)
      | (Some (EndCb e), Some (RefCb r)) \<Rightarrow>
          and_then (get_cb_expected_values cr now_utc_millis e r) (\<lambda>x.
          Ok \<lparr>expected_values_type = Some (ExpCb x)\<rparr>)
      | (None, _) \<Rightarrow> Error [''Endorsements are empty'']
      | (_, None) \<Rightarrow> Error [''Reference values are empty'']
      | (Some _, Some _) \<Rightarrow>
          Error [''Mismatch between evidence, endorsements and reference values''])"

definition compare_expected_values ::
  "('h, 'z) verifier_crates_scheme \<Rightarrow> extracted_evidence \<Rightarrow> expected_values \<Rightarrow> unit anyhow" where
  "compare_expected_values cr extracted expected =
     (case (evidence_values extracted, expected_values_type expected) of
        (Some (EvRestrictedKernel v), Some (ExpRestrictedKernel x)) \<Rightarrow>
          compare_oak_restricted_kernel_measurement_digests cr v x
      | (Some (EvContainers v), Some (ExpContainers x)) \<Rightarrow>
          compare_oak_containers_measurement_digests cr v x
      | (Some (EvCb v), Some (ExpCb x)) \<Rightarrow> compare_cb_measurement_digests cr v x
      | (None, _) \<Rightarrow> Error [''Reference values are empty'']
      | (_, None) \<Rightarrow> Error [''Expected values are empty'']
      | (Some _, Some _) \<Rightarrow>
          Error [''Mismatch between evidence, endorsements and reference values''])"

definition root_endorsements_of :: "endorsements_type \<Rightarrow> root_layer_endorsements option" where
  "root_endorsements_of t = (case t of EndRestrictedKernel e \<Rightarrow> rk_root_endorsements e
     | EndContainers e \<Rightarrow> oc_root_endorsements e | EndCb e \<Rightarrow> cb_root_endorsements e)"

definition verify ::
  "('h, 'z) verifier_crates_scheme \<Rightarrow> int \<Rightarrow> evidence \<Rightarrow> endorsements \<Rightarrow> reference_values
     \<Rightarrow> extracted_evidence anyhow" where
  "verify cr now_utc_millis ev ends refs =
     and_then (ok_or (endorsements_type ends) [''no endorsements'']) (\<lambda>end_type.
     and_then (ok_or (root_endorsements_of end_type) [''no root layer endorsements'']) (\<lambda>root_ends.
     and_then (ok_or (ev_root_layer ev) [''no root layer evidence'']) (\<lambda>root_layer.
     and_then (verify_root_attestation_signature cr now_utc_millis root_layer
       (tee_certificate root_ends)) (\<lambda>_.
     and_then (context_of ''invalid DICE chain'' (verify_dice_chain cr ev)) (\<lambda>extracted.
     and_then (get_expected_values cr now_utc_millis ends refs) (\<lambda>expected.
     and_then (compare_expected_values cr extracted expected) (\<lambda>_. Ok extracted)))))))"

text \<open>A panic does not return, so only the two other outcomes are converted.\<close>

definition to_attestation_results :: "string list + extracted_evidence \<Rightarrow> attestation_results" where
  "to_attestation_results verify_result =
     (case verify_result of
        Inr extracted \<Rightarrow> \<lparr>result_status = Success, result_reason = [],
          result_encryption_public_key = encryption_public_key extracted,
          result_signing_public_key = signing_public_key extracted,
          result_extracted_evidence = Some extracted\<rparr>
      | Inl err \<Rightarrow> \<lparr>result_status = GenericFailure, result_reason = err,
          result_encryption_public_key = [], result_signing_public_key = [],
          result_extracted_evidence = None\<rparr>)"

section \<open>What a reference value accepts\<close>

definition agrees :: "raw_digest \<Rightarrow> raw_digest \<Rightarrow> bool" where
  "agrees m d \<longleftrightarrow> digests_agree (raw_fields m) (raw_fields d)"

definition release_accepted ::
  "('h, 'z) verifier_crates_scheme \<Rightarrow> int \<Rightarrow> transparent_release_endorsement
     \<Rightarrow> endorsement_reference_value \<Rightarrow> endorsement_statement \<Rightarrow> bool" where
  "release_accepted cr now e keys st \<longleftrightarrow>
     verify_release cr now e keys = Ok () \<and> json_statement cr (endorsement e) = Some st"

definition binary_accepts ::
  "('h, 'z) verifier_crates_scheme \<Rightarrow> int \<Rightarrow> transparent_release_endorsement option
     \<Rightarrow> binary_reference_value \<Rightarrow> raw_digest \<Rightarrow> bool" where
  "binary_accepts cr now endo ref m \<longleftrightarrow>
     (case binary_type ref of
        None \<Rightarrow> False
      | Some BinSkip \<Rightarrow> True
      | Some (BinDigests ds) \<Rightarrow> \<exists>d \<in> set ds. agrees m d
      | Some (BinEndorsement keys) \<Rightarrow>
          \<exists>e st hex d. endo = Some e \<and> release_accepted cr now e keys st \<and> get_digest st = Ok hex \<and>
            hex_to_raw_digest cr hex = Ok d \<and> agrees m d)"

text \<open>An attachment that an endorsement covers: the endorsement is accepted, names the usage, and
  its digest is that of the attached subject.\<close>

definition subject_endorsed ::
  "('h, 'z) verifier_crates_scheme \<Rightarrow> int \<Rightarrow> string \<Rightarrow> transparent_release_endorsement
     \<Rightarrow> endorsement_reference_value \<Rightarrow> bool" where
  "subject_endorsed cr now usage e keys \<longleftrightarrow> (\<exists>st hex. release_accepted cr now e keys st \<and>
     claim_usage (predicate st) = usage \<and> get_digest st = Ok hex \<and>
     digests_agree (hex_fields (raw_to_hex_digest cr (raw_digest_from_contents cr (endorsement_subject e))))
       (hex_fields hex))"

definition stage0_accepts ::
  "('h, 'z) verifier_crates_scheme \<Rightarrow> int \<Rightarrow> transparent_release_endorsement option
     \<Rightarrow> binary_reference_value \<Rightarrow> raw_digest \<Rightarrow> bool" where
  "stage0_accepts cr now endo ref m \<longleftrightarrow>
     (case binary_type ref of
        None \<Rightarrow> False
      | Some BinSkip \<Rightarrow> True
      | Some (BinDigests ds) \<Rightarrow> \<exists>d \<in> set ds. agrees m d
      | Some (BinEndorsement keys) \<Rightarrow>
          \<exists>e a ds. endo = Some e \<and> subject_endorsed cr now ''firmware'' e keys \<and>
            decode_firmware_attachment cr (endorsement_subject e) = Some a \<and>
            list_all2 (\<lambda>c d. hex_to_raw_digest cr (snd c) = Ok d) (firmware_configs a) ds \<and>
            (\<exists>d \<in> set ds. agrees m d))"

definition kernel_accepts ::
  "('h, 'z) verifier_crates_scheme \<Rightarrow> int \<Rightarrow> transparent_release_endorsement option
     \<Rightarrow> kernel_binary_reference_value \<Rightarrow> raw_digest \<Rightarrow> raw_digest \<Rightarrow> bool" where
  "kernel_accepts cr now endo ref im su \<longleftrightarrow>
     (case kernel_type ref of
        None \<Rightarrow> False
      | Some KernelSkip \<Rightarrow> True
      | Some (KernelDigests ds) \<Rightarrow>
          \<exists>is ss. image_digests ds = Some is \<and> setup_data_digests ds = Some ss \<and>
            (\<exists>d \<in> set is. agrees im d) \<and> (\<exists>d \<in> set ss. agrees su d)
      | Some (KernelEndorsement keys) \<Rightarrow>
          \<exists>e a hi hs di ds. endo = Some e \<and> subject_endorsed cr now ''kernel'' e keys \<and>
            decode_kernel_attachment cr (endorsement_subject e) = Some a \<and>
            attachment_image a = Some hi \<and> attachment_setup_data a = Some hs \<and>
            hex_to_raw_digest cr hi = Ok di \<and> hex_to_raw_digest cr hs = Ok ds \<and>
            agrees im di \<and> agrees su ds)"

definition regex_accepts :: "('h, 'z) verifier_crates_scheme \<Rightarrow> string \<Rightarrow> string \<Rightarrow> bool" where
  "regex_accepts cr regex s = (case regex_new cr regex of None \<Rightarrow> False | Some re \<Rightarrow> re s)"

definition cmd_line_accepts ::
  "('h, 'z) verifier_crates_scheme \<Rightarrow> int \<Rightarrow> transparent_release_endorsement option
     \<Rightarrow> text_reference_value \<Rightarrow> string option \<Rightarrow> bool" where
  "cmd_line_accepts cr now endo ref line \<longleftrightarrow>
     (case text_type ref of
        None \<Rightarrow> False
      | Some TextSkip \<Rightarrow> True
      | Some (TextRegex re) \<Rightarrow> \<exists>s. line = Some s \<and> length s < 256 \<and> regex_accepts cr re s
      | Some (TextLiterals ls) \<Rightarrow> \<exists>s. line = Some s \<and> length s < 256 \<and> s \<in> set ls
      | Some (TextEndorsement keys) \<Rightarrow>
          \<exists>e s re. endo = Some e \<and> verify_release cr now e keys = Ok () \<and>
            from_utf8 (endorsement_subject e) = Some re \<and> line = Some s \<and> length s < 256 \<and>
            regex_accepts cr re s)"

section \<open>Single values\<close>

lemma and_then_assoc: "and_then (and_then r f) g = and_then r (\<lambda>x. and_then (f x) g)"
  by (cases r) simp_all

lemma ex_and_then: "(\<exists>k. r = Ok k \<and> f k = Ok ()) \<longleftrightarrow> and_then r f = Ok ()"
  by (simp add: and_then_eq_Ok)

text \<open>\<open>expected_ok\<close>: a measurement that the expected digests admit.\<close>

definition expected_ok :: "expected_digests \<Rightarrow> raw_digest \<Rightarrow> bool" where
  "expected_ok e m \<longleftrightarrow> (case digests_type e of None \<Rightarrow> False | Some DigestsSkipped \<Rightarrow> True
     | Some (ExpectedRawDigests ds) \<Rightarrow> \<exists>d \<in> set ds. agrees m d)"

lemma expected_ok_simps [simp]:
  "expected_ok skipped_digests m"
  "expected_ok (into_expected_digests ds) m \<longleftrightarrow> (\<exists>d \<in> set ds. agrees m d)"
  by (simp_all add: expected_ok_def skipped_digests_def into_expected_digests_def)

lemma compare_measurement_digest_Ok:
  assumes "hex_ok cr"
  shows "compare_measurement_digest cr m e = Ok u \<longleftrightarrow> expected_ok e m"
proof -
  have "is_ok (is_raw_digest_match cr m d) \<longleftrightarrow> agrees m d" for d
    by (simp add: is_ok_iff is_raw_digest_match_Ok [OF assms] agrees_def)
  then show ?thesis
    by (auto simp: compare_measurement_digest_def expected_ok_def find_None_iff find_Some_iff
        dest: nth_mem split: option.splits expected_digests_type.splits)
qed

lemma compare_present_Ok:
  assumes "hex_ok cr"
  shows "compare_present cr mo a eo b c = Ok u \<longleftrightarrow>
    (\<exists>m e. mo = Some m \<and> eo = Some e \<and> expected_ok e m)"
  by (auto simp: compare_present_def result_simps compare_measurement_digest_Ok [OF assms])

lemma parse_endorsement_statement_Ok [result_simps]:
  "parse_endorsement_statement cr bs = Ok st \<longleftrightarrow> json_statement cr bs = Some st"
  by (simp add: parse_endorsement_statement_def result_simps)

lemma binary_expected_iff:
  "(\<exists>e. get_expected_measurement_digest cr now endo ref = Ok e \<and> expected_ok e m)
     \<longleftrightarrow> binary_accepts cr now endo ref m"
  by (auto simp: get_expected_measurement_digest_def binary_accepts_def release_accepted_def
      and_then_eq_Ok ok_or_eq_Ok parse_endorsement_statement_Ok
      split: option.splits binary_reference_type.splits)

lemma verified_subject_Ok:
  "verified_subject cr now usage e keys = Ok s \<longleftrightarrow>
     subject_endorsed cr now usage e keys \<and> s = endorsement_subject e"
  by (auto simp: verified_subject_def subject_endorsed_def release_accepted_def and_then_eq_Ok
      parse_endorsement_statement_Ok is_hex_digest_match_Ok Let_def split: if_splits)

lemma unwrap_Ok [result_simps]: "unwrap r = Ok v \<longleftrightarrow> r = Ok v"
  by (auto simp: unwrap_def split: sum.splits fault.splits)

lemma get_verified_stage0_attachment_Ok:
  "get_verified_stage0_attachment cr now e keys = Ok a \<longleftrightarrow>
     subject_endorsed cr now ''firmware'' e keys \<and>
     decode_firmware_attachment cr (endorsement_subject e) = Some a"
  by (auto simp: get_verified_stage0_attachment_def and_then_eq_Ok ok_or_eq_Ok verified_subject_Ok)

lemma stage0_expected_iff:
  "(\<exists>e. get_stage0_expected_values cr now endo ref = Ok e \<and> expected_ok e m)
     \<longleftrightarrow> stage0_accepts cr now endo ref m"
proof (cases "binary_type ref")
  case None
  then show ?thesis by (simp add: get_stage0_expected_values_def stage0_accepts_def)
next
  case (Some ty)
  have raws: "try_map (\<lambda>(_, digest). unwrap (hex_to_raw_digest cr digest)) cs = Ok ds \<longleftrightarrow>
      list_all2 (\<lambda>c d. hex_to_raw_digest cr (snd c) = Ok d) cs ds" for cs ds
    by (simp add: try_map_Ok_iff unwrap_Ok case_prod_unfold)
  show ?thesis
  proof (cases ty)
    case (BinEndorsement keys)
    have "(\<exists>e. get_stage0_expected_values cr now endo ref = Ok e \<and> expected_ok e m) \<longleftrightarrow>
      (\<exists>e a ds. endo = Some e \<and> get_verified_stage0_attachment cr now e keys = Ok a \<and>
        list_all2 (\<lambda>c d. hex_to_raw_digest cr (snd c) = Ok d) (firmware_configs a) ds \<and>
        expected_ok (into_expected_digests ds) m)"
      by (simp add: get_stage0_expected_values_def Some BinEndorsement and_then_eq_Ok ok_or_eq_Ok raws
          del: expected_ok_simps) blast
    then show ?thesis
      by (auto simp: stage0_accepts_def Some BinEndorsement get_verified_stage0_attachment_Ok)
  qed (simp_all add: get_stage0_expected_values_def stage0_accepts_def Some)
qed

lemma kernel_expected_iff:
  "(\<exists>k ei es. get_kernel_expected_values cr now endo ref = Ok k \<and> expected_image k = Some ei \<and>
      expected_setup_data k = Some es \<and> expected_ok ei im \<and> expected_ok es su)
     \<longleftrightarrow> kernel_accepts cr now endo ref im su"
  by (auto simp: get_kernel_expected_values_def kernel_accepts_def get_verified_kernel_attachment_def
      and_then_eq_Ok ok_or_eq_Ok verified_subject_Ok
      split: option.splits kernel_reference_type.splits)

lemma verify_regex_Ok [result_simps]: "verify_regex cr s re = Ok u \<longleftrightarrow> regex_accepts cr re s"
  by (auto simp: verify_regex_def regex_accepts_def result_simps split: option.splits)

lemma compare_kernel_cmd_line_Ok:
  "compare_kernel_cmd_line cr line (Some \<lparr>text_expected_type = t\<rparr>) = Ok u \<longleftrightarrow>
     (case t of None \<Rightarrow> False | Some TextSkipped \<Rightarrow> True
      | Some (ExpectedRegex re) \<Rightarrow> \<exists>s. line = Some s \<and> length s < 256 \<and> regex_accepts cr re s
      | Some (ExpectedLiterals ls) \<Rightarrow> \<exists>s. line = Some s \<and> length s < 256 \<and> s \<in> set ls)"
proof (cases t)
  case None
  then show ?thesis
    by (cases line) (simp_all add: compare_kernel_cmd_line_def compare_text_value_def)
next
  case (Some ty)
  then show ?thesis
    by (cases line; cases ty) (auto simp: compare_kernel_cmd_line_def compare_text_value_def
        context_of_eq_Ok verify_regex_Ok list_ex_iff)
qed

lemma cmd_line_expected_iff:
  "(\<exists>t. get_text_expected_values cr now ref endo = Ok t \<and>
      compare_kernel_cmd_line cr line (Some t) = Ok ())
     \<longleftrightarrow> cmd_line_accepts cr now endo ref line"
proof (cases "text_type ref")
  case None
  then show ?thesis by (simp add: get_text_expected_values_def cmd_line_accepts_def)
next
  case (Some ty)
  then show ?thesis
    by (cases ty) (auto simp: get_text_expected_values_def cmd_line_accepts_def and_then_eq_Ok
        ok_or_eq_Ok expect_eq_Ok compare_kernel_cmd_line_Ok)
qed

section \<open>Layers\<close>

definition both_accept ::
  "('r \<Rightarrow> 'm \<Rightarrow> bool) \<Rightarrow> 'r option \<Rightarrow> 'm option \<Rightarrow> bool" where
  "both_accept P ro mo \<longleftrightarrow> (\<exists>r m. ro = Some r \<and> mo = Some m \<and> P r m)"

definition kernel_layer_accepts ::
  "('h, 'z) verifier_crates_scheme \<Rightarrow> int \<Rightarrow> kernel_layer_endorsements option
     \<Rightarrow> kernel_layer_reference_values \<Rightarrow> kernel_layer_data \<Rightarrow> bool" where
  "kernel_layer_accepts cr now ends ref v \<longleftrightarrow>
     (\<exists>kr im su. ref_kernel ref = Some kr \<and> kernel_image v = Some im \<and> kernel_setup_data v = Some su \<and>
        kernel_accepts cr now (Option.bind ends kernel_endorsement) kr im su) \<and>
     (\<exists>tr. ref_kernel_cmd_line_text ref = Some tr \<and>
        cmd_line_accepts cr now (Option.bind ends kernel_cmd_line_endorsement) tr
          (kernel_raw_cmd_line v)) \<and>
     both_accept (binary_accepts cr now (Option.bind ends init_ram_fs_endorsement))
       (ref_init_ram_fs ref) (kernel_init_ram_fs v) \<and>
     both_accept (binary_accepts cr now (Option.bind ends memory_map_endorsement))
       (ref_memory_map ref) (kernel_memory_map v) \<and>
     both_accept (binary_accepts cr now (Option.bind ends acpi_endorsement))
       (ref_acpi ref) (kernel_acpi v)"

definition system_layer_accepts ::
  "('h, 'z) verifier_crates_scheme \<Rightarrow> int \<Rightarrow> system_layer_endorsements option
     \<Rightarrow> system_layer_reference_values \<Rightarrow> system_layer_data \<Rightarrow> bool" where
  "system_layer_accepts cr now ends ref v \<longleftrightarrow>
     both_accept (binary_accepts cr now (Option.bind ends system_image_endorsement))
       (ref_system_image ref) (system_image v)"

definition application_layer_accepts ::
  "('h, 'z) verifier_crates_scheme \<Rightarrow> int \<Rightarrow> application_layer_endorsements option
     \<Rightarrow> application_layer_reference_values \<Rightarrow> application_layer_data \<Rightarrow> bool" where
  "application_layer_accepts cr now ends ref v \<longleftrightarrow>
     both_accept (binary_accepts cr now (Option.bind ends application_binary_endorsement))
       (ref_application_binary ref) (application_binary v) \<and>
     both_accept (binary_accepts cr now (Option.bind ends application_configuration_endorsement))
       (ref_application_configuration ref) (application_config v)"

text \<open>Both values of the container layer are held against the endorsement of the binary.\<close>

definition container_layer_accepts ::
  "('h, 'z) verifier_crates_scheme \<Rightarrow> int \<Rightarrow> container_layer_endorsements option
     \<Rightarrow> container_layer_reference_values \<Rightarrow> container_layer_data \<Rightarrow> bool" where
  "container_layer_accepts cr now ends ref v \<longleftrightarrow>
     both_accept (binary_accepts cr now (Option.bind ends container_binary_endorsement))
       (ref_container_binary ref) (container_bundle v) \<and>
     both_accept (binary_accepts cr now (Option.bind ends container_binary_endorsement))
       (ref_container_configuration ref) (container_config v)"

lemma kernel_layer_iff:
  assumes "hex_ok cr"
  shows "(\<exists>k. get_kernel_layer_expected_values cr now ends ref = Ok k \<and>
      compare_kernel_layer_measurement_digests cr v k = Ok ())
    \<longleftrightarrow> kernel_layer_accepts cr now ends ref v"
  unfolding kernel_layer_accepts_def both_accept_def binary_expected_iff [symmetric]
    kernel_expected_iff [symmetric] cmd_line_expected_iff [symmetric]
  unfolding ex_and_then get_kernel_layer_expected_values_def compare_kernel_layer_measurement_digests_def
  by (simp add: and_then_assoc and_then_eq_Ok ok_or_eq_Ok context_of_eq_Ok
      compare_present_Ok [OF assms]) blast

lemma system_layer_iff:
  assumes "hex_ok cr"
  shows "(\<exists>k. get_system_layer_expected_values cr now ends ref = Ok k \<and>
      compare_system_layer_measurement_digests cr v k = Ok ())
    \<longleftrightarrow> system_layer_accepts cr now ends ref v"
  unfolding system_layer_accepts_def both_accept_def binary_expected_iff [symmetric]
  unfolding ex_and_then get_system_layer_expected_values_def compare_system_layer_measurement_digests_def
  by (simp add: and_then_assoc and_then_eq_Ok ok_or_eq_Ok context_of_eq_Ok
      compare_present_Ok [OF assms]) blast

lemma application_layer_iff:
  assumes "hex_ok cr"
  shows "(\<exists>k. get_application_layer_expected_values cr now ends ref = Ok k \<and>
      compare_application_layer_measurement_digests cr v k = Ok ())
    \<longleftrightarrow> application_layer_accepts cr now ends ref v"
  unfolding application_layer_accepts_def both_accept_def binary_expected_iff [symmetric]
  unfolding ex_and_then get_application_layer_expected_values_def compare_application_layer_measurement_digests_def
  by (simp add: and_then_assoc and_then_eq_Ok ok_or_eq_Ok context_of_eq_Ok
      compare_present_Ok [OF assms]) blast

lemma container_layer_iff:
  assumes "hex_ok cr"
  shows "(\<exists>k. get_container_layer_expected_values cr now ends ref = Ok k \<and>
      compare_container_layer_measurement_digests cr v k = Ok ())
    \<longleftrightarrow> container_layer_accepts cr now ends ref v"
  unfolding container_layer_accepts_def both_accept_def binary_expected_iff [symmetric]
  unfolding ex_and_then get_container_layer_expected_values_def compare_container_layer_measurement_digests_def
  by (simp add: and_then_assoc and_then_eq_Ok ok_or_eq_Ok context_of_eq_Ok
      compare_present_Ok [OF assms]) blast

section \<open>The root layer\<close>

text \<open>\<open>amd_policy_ok\<close>: the report comes from VMPL 0, debugging is off unless allowed, and every
  component of the TCB is at least the minimum.\<close>

definition amd_policy_ok ::
  "tcb_numbers option \<Rightarrow> bool \<Rightarrow> amd_attestation_report \<Rightarrow> bool" where
  "amd_policy_ok min_tcb allow_debug r \<longleftrightarrow> amd_vmpl r = 0 \<and> (amd_debug r \<longrightarrow> allow_debug) \<and>
     (\<exists>m t. min_tcb = Some m \<and> amd_reported_tcb r = Some t \<and>
        tcb_boot_loader m \<le> tcb_boot_loader t \<and> tcb_tee m \<le> tcb_tee t \<and>
        tcb_snp m \<le> tcb_snp t \<and> tcb_microcode m \<le> tcb_microcode t)"

lemma verify_amd_sev_attestation_report_Ok:
  "verify_amd_sev_attestation_report r x = Ok u \<longleftrightarrow>
     amd_policy_ok (expected_min_tcb_version x) (expected_allow_debug x) r"
  by (auto simp: verify_amd_sev_attestation_report_def amd_policy_ok_def result_simps
      split: option.splits if_splits)

definition stage0_available ::
  "('h, 'z) verifier_crates_scheme \<Rightarrow> int \<Rightarrow> root_layer_endorsements option
     \<Rightarrow> root_layer_reference_values \<Rightarrow> bool" where
  "stage0_available cr now ends ref \<longleftrightarrow>
     (case ref_amd_sev ref of None \<Rightarrow> True
      | Some a \<Rightarrow> \<exists>s e. ref_stage0 a = Some s \<and>
          get_stage0_expected_values cr now (Option.bind ends stage0_endorsement) s = Ok e)"

definition root_layer_accepts ::
  "('h, 'z) verifier_crates_scheme \<Rightarrow> int \<Rightarrow> root_layer_endorsements option
     \<Rightarrow> root_layer_reference_values \<Rightarrow> root_layer_data \<Rightarrow> bool" where
  "root_layer_accepts cr now ends ref v \<longleftrightarrow>
     (case (root_report v, ref_amd_sev ref) of
        (Some (SevSnp r), Some a) \<Rightarrow>
          (\<exists>s. ref_stage0 a = Some s \<and> stage0_accepts cr now (Option.bind ends stage0_endorsement) s
             (raw_default\<lparr>raw_sha2_384 := amd_initial_measurement r\<rparr>)) \<and>
          amd_policy_ok (ref_min_tcb_version a) (ref_allow_debug a) r
      | (Some (Tdx _), _) \<Rightarrow> ref_intel_tdx ref = None \<and> ref_insecure ref \<noteq> None \<and>
          stage0_available cr now ends ref
      | _ \<Rightarrow> ref_insecure ref \<noteq> None \<and> stage0_available cr now ends ref)"

lemma root_layer_iff:
  assumes "hex_ok cr"
  shows "(\<exists>k. get_root_layer_expected_values cr now ends ref = Ok k \<and>
      compare_root_layer_measurement_digests cr v k = Ok ())
    \<longleftrightarrow> root_layer_accepts cr now ends ref v"
proof (cases "ref_amd_sev ref")
  case None
  then show ?thesis
    unfolding ex_and_then get_root_layer_expected_values_def root_layer_accepts_def
      stage0_available_def compare_root_layer_measurement_digests_def
    by (auto simp: verify_intel_tdx_attestation_report_def verify_insecure_def
        split: option.splits root_report.splits)
next
  case (Some a)
  have insecure: "(\<exists>s. ref_stage0 a = Some s \<and> (\<exists>e. get_stage0_expected_values cr now
      (Option.bind ends stage0_endorsement) s = Ok e)) \<longleftrightarrow> stage0_available cr now ends ref"
    by (auto simp: stage0_available_def Some)
  show ?thesis
    unfolding ex_and_then get_root_layer_expected_values_def root_layer_accepts_def
      compare_root_layer_measurement_digests_def stage0_expected_iff [symmetric]
      insecure [symmetric]
    by (simp add: Some and_then_assoc and_then_eq_Ok ok_or_eq_Ok context_of_eq_Ok
        compare_measurement_digest_Ok [OF assms] verify_amd_sev_attestation_report_Ok
        verify_intel_tdx_attestation_report_def verify_insecure_def
        split: option.splits root_report.splits) blast
qed

section \<open>Acceptance\<close>

text \<open>The whole of the layers: endorsements, reference values and evidence are of the same kind, and
  every layer is accepted. Nothing is accepted for the third kind.\<close>

definition layers_accept ::
  "('h, 'z) verifier_crates_scheme \<Rightarrow> int \<Rightarrow> endorsements \<Rightarrow> reference_values \<Rightarrow> evidence_values \<Rightarrow> bool" where
  "layers_accept cr now ends refs values \<longleftrightarrow>
     (case (endorsements_type ends, reference_values_type refs, values) of
        (Some (EndRestrictedKernel e), Some (RefRestrictedKernel r), EvRestrictedKernel v) \<Rightarrow>
          both_accept (root_layer_accepts cr now (rk_root_endorsements e))
            (rk_root_reference r) (rk_root_layer v) \<and>
          both_accept (kernel_layer_accepts cr now (rk_kernel_endorsements e))
            (rk_kernel_reference r) (rk_kernel_layer v) \<and>
          both_accept (application_layer_accepts cr now (rk_application_endorsements e))
            (rk_application_reference r) (rk_application_layer v)
      | (Some (EndContainers e), Some (RefContainers r), EvContainers v) \<Rightarrow>
          both_accept (root_layer_accepts cr now (oc_root_endorsements e))
            (oc_root_reference r) (oc_root_layer v) \<and>
          both_accept (kernel_layer_accepts cr now (oc_kernel_endorsements e))
            (oc_kernel_reference r) (oc_kernel_layer v) \<and>
          both_accept (system_layer_accepts cr now (oc_system_endorsements e))
            (oc_system_reference r) (oc_system_layer v) \<and>
          both_accept (container_layer_accepts cr now (oc_container_endorsements e))
            (oc_container_reference r) (oc_container_layer v)
      | _ \<Rightarrow> False)"

lemma restricted_kernel_iff:
  assumes "hex_ok cr"
  shows "(\<exists>x. get_oak_restricted_kernel_expected_values cr now e r = Ok x \<and>
      compare_oak_restricted_kernel_measurement_digests cr v x = Ok ()) \<longleftrightarrow>
    both_accept (root_layer_accepts cr now (rk_root_endorsements e))
      (rk_root_reference r) (rk_root_layer v) \<and>
    both_accept (kernel_layer_accepts cr now (rk_kernel_endorsements e))
      (rk_kernel_reference r) (rk_kernel_layer v) \<and>
    both_accept (application_layer_accepts cr now (rk_application_endorsements e))
      (rk_application_reference r) (rk_application_layer v)"
  unfolding both_accept_def root_layer_iff [OF assms, symmetric] kernel_layer_iff [OF assms, symmetric]
    application_layer_iff [OF assms, symmetric]
  unfolding ex_and_then get_oak_restricted_kernel_expected_values_def
    compare_oak_restricted_kernel_measurement_digests_def
  by (simp add: and_then_assoc and_then_eq_Ok ok_or_eq_Ok context_of_eq_Ok) blast

lemma containers_iff:
  assumes "hex_ok cr"
  shows "(\<exists>x. get_oak_containers_expected_values cr now e r = Ok x \<and>
      compare_oak_containers_measurement_digests cr v x = Ok ()) \<longleftrightarrow>
    both_accept (root_layer_accepts cr now (oc_root_endorsements e))
      (oc_root_reference r) (oc_root_layer v) \<and>
    both_accept (kernel_layer_accepts cr now (oc_kernel_endorsements e))
      (oc_kernel_reference r) (oc_kernel_layer v) \<and>
    both_accept (system_layer_accepts cr now (oc_system_endorsements e))
      (oc_system_reference r) (oc_system_layer v) \<and>
    both_accept (container_layer_accepts cr now (oc_container_endorsements e))
      (oc_container_reference r) (oc_container_layer v)"
  unfolding both_accept_def root_layer_iff [OF assms, symmetric] kernel_layer_iff [OF assms, symmetric]
    system_layer_iff [OF assms, symmetric] container_layer_iff [OF assms, symmetric]
  unfolding ex_and_then get_oak_containers_expected_values_def
    compare_oak_containers_measurement_digests_def
  by (simp add: and_then_assoc and_then_eq_Ok ok_or_eq_Ok context_of_eq_Ok) blast

lemma compare_cb_never_Ok: "compare_cb_measurement_digests cr v x \<noteq> Ok u"
  by (simp add: compare_cb_measurement_digests_def and_then_eq_Ok)

lemma layers_accept_iff:
  assumes "hex_ok cr"
  shows "(\<exists>x. get_expected_values cr now ends refs = Ok x \<and> compare_expected_values cr ev x = Ok ())
    \<longleftrightarrow> (\<exists>v. evidence_values ev = Some v \<and> layers_accept cr now ends refs v)"
proof (cases "endorsements_type ends")
  case None
  then show ?thesis by (simp add: get_expected_values_def layers_accept_def)
next
  case (Some et)
  note e = Some
  show ?thesis
  proof (cases "reference_values_type refs")
    case None
    with e show ?thesis by (cases et) (simp_all add: get_expected_values_def layers_accept_def)
  next
    case (Some rt)
    note kinds = restricted_kernel_iff [OF assms, symmetric] containers_iff [OF assms, symmetric]
    show ?thesis
    proof (cases "evidence_values ev")
      case None
      with e Some show ?thesis
        by (cases et; cases rt) (auto simp: get_expected_values_def compare_expected_values_def
            and_then_eq_Ok)
    next
      case (Some v)
      with e \<open>reference_values_type refs = Some rt\<close> show ?thesis
        by (cases et; cases rt; cases v) (simp_all add: get_expected_values_def
            compare_expected_values_def layers_accept_def kinds ex_and_then and_then_assoc,
            simp_all add: and_then_eq_Ok compare_cb_never_Ok)
    qed
  qed
qed

lemma verify_Ok:
  assumes "hex_ok cr"
  shows "verify cr now ev ends refs = Ok x \<longleftrightarrow>
    (\<exists>et root_ends root v. endorsements_type ends = Some et \<and>
       root_endorsements_of et = Some root_ends \<and> ev_root_layer ev = Some root \<and>
       verify_root_attestation_signature cr now root (tee_certificate root_ends) = Ok () \<and>
       chain_accepted cr ev \<and> extract_evidence cr ev = Ok x \<and>
       evidence_values x = Some v \<and> layers_accept cr now ends refs v)"
  unfolding verify_def and_then_eq_Ok ok_or_eq_Ok context_of_eq_Ok verify_dice_chain_Ok
  using layers_accept_iff [OF assms, of now ends refs x] by auto

end
