(* ===== verification/Oak_Acceptance.thy ===== *)
theory Oak_Acceptance
  imports Oak_Verifier
begin

text \<open>
  What the verifier's acceptance means: consequences of the characterisation of \<open>verify\<close> for the
  trust in the root layer, the kinds of evidence and the endorsements, and a complete example of
  accepted evidence.
\<close>

section \<open>Consequences\<close>

definition root_reference_of :: "reference_values \<Rightarrow> root_layer_reference_values option" where
  "root_reference_of refs =
     (case reference_values_type refs of None \<Rightarrow> None
      | Some (RefRestrictedKernel r) \<Rightarrow> rk_root_reference r
      | Some (RefContainers r) \<Rightarrow> oc_root_reference r
      | Some (RefCb r) \<Rightarrow> cb_root_reference r)"

definition root_data_of :: "evidence_values \<Rightarrow> root_layer_data option" where
  "root_data_of v = (case v of EvRestrictedKernel d \<Rightarrow> rk_root_layer d
     | EvContainers d \<Rightarrow> oc_root_layer d | EvCb d \<Rightarrow> cb_root_layer d)"

lemma layers_accept_types:
  assumes "layers_accept cr now ends refs v"
  obtains et rt where "endorsements_type ends = Some et" "reference_values_type refs = Some rt"
  using assms
  by (cases "endorsements_type ends"; cases "reference_values_type refs")
    (auto simp: layers_accept_def split: endorsements_type.splits)

lemma layers_accept_root:
  assumes "layers_accept cr now ends refs v"
  obtains et rr rd where "endorsements_type ends = Some et" "root_reference_of refs = Some rr"
    "root_data_of v = Some rd" "root_layer_accepts cr now (root_endorsements_of et) rr rd"
proof -
  from assms obtain et rt where "endorsements_type ends = Some et" "reference_values_type refs = Some rt"
    by (rule layers_accept_types)
  with assms that show ?thesis
    by (cases et; cases rt; cases v)
      (auto simp: layers_accept_def both_accept_def root_reference_of_def root_data_of_def
        root_endorsements_of_def)
qed

lemma if_ok_Ok:
  "if_ok r f g = Ok x \<longleftrightarrow> (\<exists>v. r = Ok v \<and> f v = Ok x) \<or> (\<exists>e. r = Error e \<and> g = Ok x)"
  by (auto simp: if_ok_def split: sum.splits fault.splits)

lemma extract_evidence_root:
  assumes "extract_evidence cr ev = Ok x" "evidence_values x = Some v" "ev_root_layer ev = Some root"
  obtains rd where "root_data_of v = Some rd" "extract_root_values cr root = Ok rd"
proof -
  from assms have "extract_evidence_values cr ev = Ok v"
    by (auto simp: extract_evidence_def result_simps)
  with assms(3) obtain rd where "extract_root_values cr root = Ok rd" "root_data_of v = Some rd"
    by (cases "ev_layers ev"; cases "tl (ev_layers ev)"; cases "tl (tl (ev_layers ev))")
      (auto simp: extract_evidence_values_def and_then_eq_Ok ok_or_eq_Ok if_ok_Ok root_data_of_def)
  then show ?thesis using that by blast
qed

text \<open>\<open>amd_root_trusted\<close>: the certificate under the given bytes is signed by the ASK, the report is
  valid and signed under that certificate, and its report data starts with the digest of the root
  key of the DICE chain.\<close>

definition amd_root_trusted ::
  "('h, 'z) verifier_crates_scheme \<Rightarrow> root_layer_evidence \<Rightarrow> bytes \<Rightarrow> attestation_report \<Rightarrow> bool" where
  "amd_root_trusted cr root der r \<longleftrightarrow> (\<exists>vcek ask.
     cert_from_der cr der = Some vcek \<and> cert_from_pem cr (ASK_MILAN_CERT_PEM cr) = Some ask \<and>
     verify_cert_signature cr ask vcek = Ok () \<and>
     report_ref cr (remote_attestation_report root) = Some r \<and> report_validate r = Ok () \<and>
     vouched cr vcek r (take 672 (remote_attestation_report root)) \<and>
     (let h = sha2_256_of cr (eca_public_key root) in
        length h < 64 \<and> take (length h) (report_data (report_body r)) = h))"

lemma report_ref_wf: "report_ref cr bs = Some r \<Longrightarrow> report_wf r \<and> report_bytes r = bs"
  by (auto simp: report_ref_def report_ref_from_Some split: if_splits)

lemma verify_root_amd_Ok:
  assumes "platform root = AmdSevSnp"
  shows "verify_root_attestation_signature cr now root der = Ok u \<longleftrightarrow>
    (\<exists>r. amd_root_trusted cr root der r)"
proof -
  have "length (report_data (report_body r)) = 64"
    "verify_attestation_report_signature cr vcek r = Ok () \<longleftrightarrow>
       vouched cr vcek r (take 672 (remote_attestation_report root))"
    if "report_ref cr (remote_attestation_report root) = Some r" for r vcek
    using report_ref_wf [OF that] verify_attestation_report_signature_Ok [of r cr vcek "()"]
      report_data_bytes_take [of r]
    by (auto simp: report_wf_def report_data_wf_def REPORT_DATA_SIZE_def)
  then show ?thesis
    by (auto simp: verify_root_attestation_signature_def assms amd_root_trusted_def and_then_eq_Ok
        ok_or_eq_Ok as_anyhow_Ok ensure_eq_Ok Let_def)
qed

lemma extract_root_amd:
  assumes "extract_root_values cr root = Ok rd" "root_report rd = Some (SevSnp a)"
  shows "platform root = AmdSevSnp"
    and "\<exists>r. report_ref cr (remote_attestation_report root) = Some r \<and>
      amd_vmpl a = vmpl (report_body r) \<and> has_debug_flag r = Ok (amd_debug a) \<and>
      amd_reported_tcb a = Some (tcb_to_numbers (reported_tcb (report_body r))) \<and>
      amd_initial_measurement a = measurement (report_body r)"
  using assms by (auto simp: extract_root_values_def result_simps Let_def split: tee_platform.splits)

lemma extract_root_report:
  "extract_root_values cr root = Ok rd \<Longrightarrow>
     (\<exists>a. root_report rd = Some (SevSnp a)) \<or> (\<exists>d. root_report rd = Some (Fake d))"
  by (auto simp: extract_root_values_def result_simps Let_def split: tee_platform.splits)

text \<open>C1. With a reference value that does not admit insecure attestation, acceptance implies
  hardware trust: the evidence is from AMD SEV-SNP, its VCEK certificate is signed by the ASK, the
  report is valid and signed by the VCEK over its first 672 bytes, it binds the root key of the DICE
  chain, it was made at VMPL 0, without the debug flag unless that is allowed, with every firmware
  version at least the minimum, its measurement is one that the stage 0 reference value accepts, and
  every certificate of the chain is signed from the root key down.\<close>

theorem verified_evidence_is_rooted_in_hardware:
  assumes "hex_ok cr" and "verify cr now ev ends refs = Ok x"
    and "root_reference_of refs = Some rr" and "ref_insecure rr = None"
  shows "\<exists>et root_ends root r amd s debug. endorsements_type ends = Some et \<and>
    root_endorsements_of et = Some root_ends \<and> ev_root_layer ev = Some root \<and>
    platform root = AmdSevSnp \<and> amd_root_trusted cr root (tee_certificate root_ends) r \<and>
    vmpl (report_body r) = 0 \<and> has_debug_flag r = Ok debug \<and>
    ref_amd_sev rr = Some amd \<and> (debug \<longrightarrow> ref_allow_debug amd) \<and>
    (\<exists>m. ref_min_tcb_version amd = Some m \<and> (let t = tcb_to_numbers (reported_tcb (report_body r)) in
       tcb_boot_loader m \<le> tcb_boot_loader t \<and> tcb_tee m \<le> tcb_tee t \<and> tcb_snp m \<le> tcb_snp t \<and>
       tcb_microcode m \<le> tcb_microcode t)) \<and>
    ref_stage0 amd = Some s \<and> stage0_accepts cr now (stage0_endorsement root_ends) s
      (raw_default\<lparr>raw_sha2_384 := measurement (report_body r)\<rparr>) \<and>
    chain_accepted cr ev"
proof -
  from assms(1,2) obtain et root_ends root v where v: "endorsements_type ends = Some et"
    "root_endorsements_of et = Some root_ends" "ev_root_layer ev = Some root"
    "verify_root_attestation_signature cr now root (tee_certificate root_ends) = Ok ()"
    "chain_accepted cr ev" "extract_evidence cr ev = Ok x" "evidence_values x = Some v"
    "layers_accept cr now ends refs v"
    using verify_Ok [OF assms(1)] by metis
  from layers_accept_root [OF v(8)] v(1) assms(3) obtain rd
    where rd: "root_data_of v = Some rd" "root_layer_accepts cr now (Some root_ends) rr rd"
    using v(2) by (metis option.inject)
  from extract_evidence_root [OF v(6,7,3)] rd(1) have x: "extract_root_values cr root = Ok rd"
    by (metis option.inject)
  from extract_root_report [OF x] rd(2) assms(4) obtain a where a: "root_report rd = Some (SevSnp a)"
    by (auto simp: root_layer_accepts_def)
  from rd(2) a assms(4) obtain amd s where amd: "ref_amd_sev rr = Some amd" "ref_stage0 amd = Some s"
    "stage0_accepts cr now (stage0_endorsement root_ends) s
      (raw_default\<lparr>raw_sha2_384 := amd_initial_measurement a\<rparr>)"
    "amd_policy_ok (ref_min_tcb_version amd) (ref_allow_debug amd) a"
    by (auto simp: root_layer_accepts_def split: option.splits)
  note p = extract_root_amd [OF x a]
  from v(4) p(1) obtain r where r: "amd_root_trusted cr root (tee_certificate root_ends) r"
    by (auto simp: verify_root_amd_Ok)
  from p(2) r have "amd_vmpl a = vmpl (report_body r)" "has_debug_flag r = Ok (amd_debug a)"
    "amd_reported_tcb a = Some (tcb_to_numbers (reported_tcb (report_body r)))"
    "amd_initial_measurement a = measurement (report_body r)"
    by (auto simp: amd_root_trusted_def)
  with v r p amd show ?thesis
    by (auto simp: amd_policy_ok_def Let_def)
qed

section \<open>An accepted example\<close>

text \<open>A machine with the report of \<open>demo_report\<close>, a kernel certificate signed by the root key, and
  two application certificates signed by the kernel's key.\<close>

definition demo_verifier_crates :: "claims_set list \<Rightarrow> string verifier_crates" where
  "demo_verifier_crates tab = dice_crates.extend (demo_dice_crates tab) (verifier_crates.fields
     (\<lambda>bs. True) (\<lambda>pem. Some (demo_cert [5] [])) [] (\<lambda>re. Some (\<lambda>s. s = re))
     (\<lambda>bs. None) (\<lambda>bs. None))"

lemmas demo_verifier_defs = demo_verifier_crates_def demo_dice_crates_def demo_report_crates_def
  demo_crates_def endorsement_crates.extend_def report_crates.extend_def report_crates.fields_def
  dice_crates.extend_def dice_crates.fields_def verifier_crates.fields_def

lemma demo_verifier_crates_simps [simp]:
  "hex_encode (demo_verifier_crates tab) = hex_enc" "hex_decode (demo_verifier_crates tab) = hex_dec"
  "sha2_256_of (demo_verifier_crates tab) bs = 2 # bs"
  "cert_from_der (demo_verifier_crates tab) der = Some (demo_cert (take 1 der) (drop 1 der))"
  "tbs_to_der (demo_verifier_crates tab) t = Some (subject_public_key (tbs_spki t))"
  "rsa_public_key (demo_verifier_crates tab) spki = Some (map char_of_byte (subject_public_key spki))"
  "rsa_pss_signature (demo_verifier_crates tab) bs = Some (map char_of_byte bs)"
  "rsa_pss_verify (demo_verifier_crates tab) key msg sig \<longleftrightarrow> as_bytes sig = as_bytes key @ msg"
  "p384_from_sec1 (demo_verifier_crates tab) = p384_from_sec1 demo_report_crates"
  "p384_from_scalars (demo_verifier_crates tab) = p384_from_scalars demo_report_crates"
  "p384_verify (demo_verifier_crates tab) = p384_verify demo_report_crates"
  "cose_key_from_slice (demo_verifier_crates tab) = demo_key_from"
  "claims_from_slice (demo_verifier_crates tab) = demo_claims_from tab"
  "sign1_tbs (demo_verifier_crates tab) = (\<lambda>c aad. case sign1_payload c of None \<Rightarrow> [] | Some p \<Rightarrow> p)"
  "sign1_from_slice (demo_verifier_crates tab) = demo_sign1_from"
  "p256_sig_from_slice (demo_verifier_crates tab) = (\<lambda>bs. Some (map char_of_byte bs))"
  "p256_from_affine (demo_verifier_crates tab) = (\<lambda>x y. Some (map char_of_byte x))"
  "p256_to_sec1 (demo_verifier_crates tab) = as_bytes"
  "p256_verify (demo_verifier_crates tab) = (\<lambda>key contents sig. as_bytes sig = as_bytes key @ contents)"
  "report_aligned (demo_verifier_crates tab) bs" "ASK_MILAN_CERT_PEM (demo_verifier_crates tab) = []"
  "cert_from_pem (demo_verifier_crates tab) pem = Some (demo_cert [5] [])"
  by (simp_all add: demo_verifier_defs)

lemma hex_ok_demo_verifier: "hex_ok (demo_verifier_crates tab)"
  using hex_ok_demo by (simp add: demo_digest_crates_def)

definition demo_seal :: "string \<Rightarrow> nat \<Rightarrow> bytes" where
  "demo_seal key n = word_of_nat n # replicate n 0 @ as_bytes (demo_public key) @ replicate n 0"

lemma demo_seal_cert:
  "n < 256 \<Longrightarrow> demo_sign1_from (demo_seal key n) = Some \<lparr>sign1_headers = [],
     sign1_payload = Some (replicate n 0), sign1_signature = as_bytes (demo_public key) @ replicate n 0\<rparr>"
  by (simp add: demo_sign1_from_def demo_seal_def unat_of_nat)

lemma length_demo_public [simp]: "length (demo_public k) = 32"
  by (simp add: demo_public_def)

lemma demo_verifying_key:
  "\<exists>k. demo_key_from (1 # as_bytes (demo_public v)) = Some k \<and>
    cose_key_to_verifying_key (demo_verifier_crates tab) k = Ok (demo_public v)"
  by (simp add: demo_key_from_def cose_key_to_verifying_key_def bytes_param_def has_param_def
      field_bytes_def cose_key_defs result_simps)

definition demo_digests :: "cbor_value" where
  "demo_digests = Map [(Integer SHA2_256_ID, Bytes [1])]"

definition demo_kernel_claims :: claims_set where
  "demo_kernel_claims = \<lparr>claims_issuer = None, claims_subject = None,
     claims_rest = [(PrivateUse SUBJECT_PUBLIC_KEY_ID, Bytes (1 # as_bytes (demo_public ''k''))),
       (PrivateUse KERNEL_LAYER_ID, Map (map (\<lambda>i. (Integer i, demo_digests))
         [KERNEL_MEASUREMENT_ID, SETUP_DATA_MEASUREMENT_ID, KERNEL_COMMANDLINE_MEASUREMENT_ID,
          INITRD_MEASUREMENT_ID, MEMORY_MAP_MEASUREMENT_ID, ACPI_MEASUREMENT_ID]))]\<rparr>"

definition demo_kem_claims :: claims_set where
  "demo_kem_claims = \<lparr>claims_issuer = None, claims_subject = None,
     claims_rest = [(PrivateUse SUBJECT_PUBLIC_KEY_ID, Bytes [2, 4]),
       (PrivateUse ENCLAVE_APPLICATION_LAYER_ID, Map (map (\<lambda>i. (Integer i, demo_digests))
         [LAYER_2_CODE_MEASUREMENT_ID, FINAL_LAYER_CONFIG_MEASUREMENT_ID]))]\<rparr>"

definition demo_signing_claims :: claims_set where
  "demo_signing_claims = \<lparr>claims_issuer = None, claims_subject = None,
     claims_rest = [(PrivateUse SUBJECT_PUBLIC_KEY_ID, Bytes (1 # as_bytes (demo_public ''s'')))]\<rparr>"

definition demo_vcr :: "string verifier_crates" where
  "demo_vcr = demo_verifier_crates [demo_kernel_claims, demo_kem_claims, demo_signing_claims]"

definition demo_nonce :: bytes where
  "demo_nonce = 2 # 1 # as_bytes (demo_public ''r'') @ replicate 30 0"

definition demo_root :: root_layer_evidence where
  "demo_root = \<lparr>platform = AmdSevSnp,
     remote_attestation_report = report_bytes (demo_report demo_nonce),
     eca_public_key = 1 # as_bytes (demo_public ''r'')\<rparr>"

definition demo_evidence :: evidence where
  "demo_evidence = \<lparr>ev_root_layer = Some demo_root,
     ev_layers = [\<lparr>eca_certificate = demo_seal ''r'' 0\<rparr>],
     ev_application_keys = Some \<lparr>encryption_public_key_certificate = demo_seal ''k'' 1,
       signing_public_key_certificate = demo_seal ''k'' 2,
       group_encryption_public_key_certificate = [], group_signing_public_key_certificate = []\<rparr>\<rparr>"

definition demo_endorsements :: endorsements where
  "demo_endorsements = \<lparr>endorsements_type = Some (EndRestrictedKernel
     \<lparr>rk_root_endorsements = Some \<lparr>tee_certificate = [7, 5, 7], stage0_endorsement = None\<rparr>,
      rk_kernel_endorsements = None, rk_application_endorsements = None\<rparr>)\<rparr>"

definition demo_binary :: "binary_reference_value option" where
  "demo_binary = Some \<lparr>binary_type = Some (BinDigests [raw_default\<lparr>raw_sha2_256 := [1]\<rparr>])\<rparr>"

definition demo_root_reference :: root_layer_reference_values where
  "demo_root_reference = \<lparr>ref_amd_sev = Some \<lparr>ref_min_tcb_version =
       Some \<lparr>tcb_boot_loader = 3, tcb_tee = 0, tcb_snp = 8, tcb_microcode = 100\<rparr>,
       ref_allow_debug = False, ref_stage0 = Some \<lparr>binary_type = Some BinSkip\<rparr>\<rparr>,
     ref_intel_tdx = None, ref_insecure = None\<rparr>"

definition demo_references :: reference_values where
  "demo_references = \<lparr>reference_values_type = Some (RefRestrictedKernel
     \<lparr>rk_root_reference = Some demo_root_reference,
      rk_kernel_reference = Some \<lparr>ref_kernel = Some \<lparr>kernel_type = Some KernelSkip\<rparr>,
        ref_kernel_cmd_line_text = Some \<lparr>text_type = Some TextSkip\<rparr>,
        ref_init_ram_fs = demo_binary, ref_memory_map = demo_binary, ref_acpi = demo_binary\<rparr>,
      rk_application_reference = Some \<lparr>ref_application_binary = demo_binary,
        ref_application_configuration = demo_binary\<rparr>\<rparr>)\<rparr>"

lemma length_demo_nonce [simp]: "length demo_nonce = 64"
  by (simp add: demo_nonce_def)

lemma demo_report_ref: "report_ref demo_vcr (report_bytes (demo_report demo_nonce)) =
    Some (demo_report demo_nonce)"
  by (simp add: report_ref_def demo_vcr_def report_ref_from_bytes demo_report_wf)

lemma report_new_zeroed_valid:
  "report_validate report_new_zeroed = Ok ()" "has_debug_flag report_new_zeroed = Ok False"
proof -
  have z: "report_ref_from (replicate 1184 0) = Some report_new_zeroed"
    by (simp add: report_ref_from_def report_new_zeroed_def)
  have "u16_at (replicate 1184 0) 0x00A = 0" "u32_at (replicate 1184 0) 0x034 = 0"
    "u64_at (replicate 1184 0) 0x040 = 0" "u64_at (replicate 1184 0) 0x048 = 0"
    by (simp_all add: u16_at_def u32_at_def u64_at_def slice_def)
  moreover have "\<forall>i \<in> checked_zero. replicate 1184 0 ! i = (0 :: u8)"
    by (auto simp: checked_zero_def)
  ultimately show "report_validate report_new_zeroed = Ok ()" "has_debug_flag report_new_zeroed = Ok False"
    using report_validate_bytes [OF z] has_debug_flag_bytes [OF z] by simp_all
qed

lemma demo_report_valid:
  "report_validate (demo_report d) = Ok ()" "has_debug_flag (demo_report d) = Ok False"
  using report_new_zeroed_valid
  by (auto simp: demo_report_def report_validate_def report_data_validate_def validate_format_def
      has_debug_flag_def get_flags_def get_signature_algo_def signing_algorithm_from_repr_def
      get_platform_info_def get_author_key_en_def tcb_validate_def result_simps list_ex_iff
      split: if_splits)

lemma demo_root_trusted:
  "amd_root_trusted demo_vcr demo_root [7, 5, 7] (demo_report demo_nonce)"
proof -
  have "vouched demo_vcr (demo_cert [7] [5, 7]) (demo_report demo_nonce)
      (take 672 (report_bytes (demo_report demo_nonce)))"
    using demo_report_vouched [of demo_nonce "[5, 7]"] by (simp add: vouched_def demo_vcr_def)
  moreover have "verify_cert_signature demo_vcr (demo_cert [5] []) (demo_cert [7] [5, 7]) = Ok ()"
    by (simp add: verify_cert_signature_def demo_vcr_def demo_cert_def)
  moreover have "take 34 demo_nonce = 2 # 1 # as_bytes (demo_public ''r'')"
    by (simp add: demo_nonce_def)
  moreover have "report_data (report_body (demo_report demo_nonce)) = demo_nonce"
    by (simp add: demo_report_def)
  ultimately show ?thesis
    using demo_report_ref demo_report_valid(1) [of demo_nonce]
    by (simp add: amd_root_trusted_def demo_root_def Let_def)
      (simp add: demo_vcr_def)
qed

lemma demo_claims:
  "sign1_from_slice demo_vcr (demo_seal k n) = demo_sign1_from (demo_seal k n)"
  "n < 256 \<Longrightarrow> cert_signed_bytes demo_vcr (demo_public k) (demo_seal k n)"
  by (simp_all add: demo_vcr_def cert_signed_bytes_def demo_seal_cert cert_signed_by_def)

lemma demo_chain_accepted: "chain_accepted demo_vcr demo_evidence"
proof -
  have k: "\<exists>k. demo_key_from (1 # as_bytes (demo_public v)) = Some k \<and>
      cose_key_to_verifying_key demo_vcr k = Ok (demo_public v)" for v
    unfolding demo_vcr_def by (rule demo_verifying_key)
  from k [of "''k''"] have "certifies demo_vcr (demo_public ''r'') \<lparr>eca_certificate = demo_seal ''r'' 0\<rparr>
      (demo_public ''k'')"
    using demo_claims(2) [of 0 "''r''"]
    by (auto simp: certifies_def cert_signed_bytes_def demo_vcr_def demo_seal_cert cert_claims_def
        demo_claims_from_def demo_kernel_claims_def get_public_key_from_claims_set_def
        private_bytes_def)
  with k [of "''r''"] demo_claims(2) [of 1 "''k''"] demo_claims(2) [of 2 "''k''"] show ?thesis
    by (auto simp: chain_accepted_def demo_evidence_def demo_root_def demo_vcr_def)
qed

definition demo_extracted :: extracted_evidence where
  "demo_extracted = \<lparr>evidence_values = Some (EvRestrictedKernel
       \<lparr>rk_root_layer = Some \<lparr>root_report = Some (SevSnp \<lparr>amd_report_data = demo_nonce,
          amd_current_tcb = Some (tcb_to_numbers (current_tcb (report_body report_new_zeroed))),
          amd_reported_tcb = Some \<lparr>tcb_boot_loader = 3, tcb_tee = 0, tcb_snp = 8, tcb_microcode = 115\<rparr>,
          amd_debug = False, amd_initial_measurement = measurement (report_body report_new_zeroed),
          amd_hardware_id = chip_id (report_body report_new_zeroed), amd_vmpl = 0\<rparr>)\<rparr>,
        rk_kernel_layer = Some \<lparr>kernel_image = Some (raw_default\<lparr>raw_sha2_256 := [1]\<rparr>),
          kernel_setup_data = Some (raw_default\<lparr>raw_sha2_256 := [1]\<rparr>),
          kernel_cmd_line = Some (raw_default\<lparr>raw_sha2_256 := [1]\<rparr>), kernel_raw_cmd_line = None,
          kernel_init_ram_fs = Some (raw_default\<lparr>raw_sha2_256 := [1]\<rparr>),
          kernel_memory_map = Some (raw_default\<lparr>raw_sha2_256 := [1]\<rparr>),
          kernel_acpi = Some (raw_default\<lparr>raw_sha2_256 := [1]\<rparr>)\<rparr>,
        rk_application_layer = Some \<lparr>application_binary = Some (raw_default\<lparr>raw_sha2_256 := [1]\<rparr>),
          application_config = Some (raw_default\<lparr>raw_sha2_256 := [1]\<rparr>)\<rparr>\<rparr>),
     encryption_public_key = [4], signing_public_key = as_bytes (demo_public ''s'')\<rparr>"

lemma demo_claims_read:
  "extract_kernel_values demo_kernel_claims = Ok
     \<lparr>kernel_image = Some (raw_default\<lparr>raw_sha2_256 := [1]\<rparr>),
      kernel_setup_data = Some (raw_default\<lparr>raw_sha2_256 := [1]\<rparr>),
      kernel_cmd_line = Some (raw_default\<lparr>raw_sha2_256 := [1]\<rparr>), kernel_raw_cmd_line = None,
      kernel_init_ram_fs = Some (raw_default\<lparr>raw_sha2_256 := [1]\<rparr>),
      kernel_memory_map = Some (raw_default\<lparr>raw_sha2_256 := [1]\<rparr>),
      kernel_acpi = Some (raw_default\<lparr>raw_sha2_256 := [1]\<rparr>)\<rparr>"
  "extract_application_layer_data demo_kem_claims = Ok
     \<lparr>application_binary = Some (raw_default\<lparr>raw_sha2_256 := [1]\<rparr>),
      application_config = Some (raw_default\<lparr>raw_sha2_256 := [1]\<rparr>)\<rparr>"
  "\<exists>e. extract_container_layer_data demo_kem_claims = Error e"
  by (simp_all add: extract_kernel_values_def extract_application_layer_data_def
      extract_container_layer_data_def extract_layer_data_def extract_digest_def extract_value_def
      extract_raw_cmd_line_def if_ok_def value_to_raw_digest_def digest_entry_def
      demo_kernel_claims_def demo_kem_claims_def demo_digests_def context_of_def)

lemma demo_keys_read:
  "extract_application_key_values demo_vcr \<lparr>encryption_public_key_certificate = demo_seal ''k'' 1,
     signing_public_key_certificate = demo_seal ''k'' 2, group_encryption_public_key_certificate = [],
     group_signing_public_key_certificate = []\<rparr> = Ok \<lparr>encryption_key_value = [4],
     signing_key_value = as_bytes (demo_public ''s'')\<rparr>"
proof -
  obtain k where "demo_key_from (1 # as_bytes (demo_public ''s'')) = Some k"
    "cose_key_to_verifying_key demo_vcr k = Ok (demo_public ''s'')"
    unfolding demo_vcr_def using demo_verifying_key by blast
  then show ?thesis
    by (auto simp: extract_application_key_values_def claims_set_from_serialized_cert_def demo_claims
        demo_seal_cert demo_vcr_def demo_claims_from_def demo_kem_claims_def
        demo_signing_claims_def get_public_key_from_claims_set_def private_bytes_def)
      (simp add: demo_key_from_def cose_key_to_hpke_public_key_def bytes_param_def has_param_def
        cose_key_defs)
qed

lemma demo_root_read: "extract_root_values demo_vcr demo_root = Ok \<lparr>root_report =
    Some (SevSnp \<lparr>amd_report_data = demo_nonce,
      amd_current_tcb = Some (tcb_to_numbers (current_tcb (report_body report_new_zeroed))),
      amd_reported_tcb = Some \<lparr>tcb_boot_loader = 3, tcb_tee = 0, tcb_snp = 8, tcb_microcode = 115\<rparr>,
      amd_debug = False, amd_initial_measurement = measurement (report_body report_new_zeroed),
      amd_hardware_id = chip_id (report_body report_new_zeroed), amd_vmpl = 0\<rparr>)\<rparr>"
  using demo_report_valid [of demo_nonce]
  by (simp add: extract_root_values_def demo_root_def demo_report_ref Let_def)
    (simp add: demo_report_def tcb_to_numbers_def report_new_zeroed_def read_report_data_def slice_def)

lemma demo_extract: "extract_evidence demo_vcr demo_evidence = Ok demo_extracted"
proof -
  from demo_claims_read(3) obtain e where "extract_container_layer_data demo_kem_claims = Error e"
    by blast
  moreover have "claims_set_from_serialized_cert demo_vcr (demo_seal ''k'' 1) = Ok demo_kem_claims"
    "claims_set_from_serialized_cert demo_vcr (demo_seal ''r'' 0) = Ok demo_kernel_claims"
    by (simp_all add: claims_set_from_serialized_cert_def demo_claims demo_seal_cert demo_vcr_def
        demo_claims_from_def)
  ultimately show ?thesis
    by (simp add: extract_evidence_def extract_evidence_values_def extract_kernel_layer_def
        demo_evidence_def demo_root_read demo_keys_read demo_claims_read if_ok_def context_of_def
        demo_extracted_def del: One_nat_def)
qed

lemma demo_layers_accept:
  assumes "evidence_values demo_extracted = Some v"
  shows "layers_accept demo_vcr now demo_endorsements demo_references v"
proof -
  have "agrees (raw_default\<lparr>raw_sha2_256 := [1]\<rparr>) (raw_default\<lparr>raw_sha2_256 := [1]\<rparr>)"
    by (simp add: agrees_def digests_agree_def raw_fields_def raw_default_def common_fields_def)
  with assms show ?thesis
    by (auto simp: demo_extracted_def layers_accept_def demo_endorsements_def demo_references_def
        both_accept_def root_layer_accepts_def kernel_layer_accepts_def application_layer_accepts_def
        demo_root_reference_def demo_binary_def stage0_accepts_def kernel_accepts_def
        cmd_line_accepts_def binary_accepts_def amd_policy_ok_def)
qed

lemma hex_ok_demo_vcr: "hex_ok demo_vcr"
  unfolding demo_vcr_def by (rule hex_ok_demo_verifier)

lemma demo_signature_verified:
  "verify_root_attestation_signature demo_vcr now demo_root [7, 5, 7] = Ok ()"
  using demo_root_trusted by (auto simp: verify_root_amd_Ok demo_root_def)

lemma demo_verified:
  "verify demo_vcr now demo_evidence demo_endorsements demo_references = Ok demo_extracted"
  unfolding verify_Ok [OF hex_ok_demo_vcr]
  using demo_chain_accepted demo_extract demo_layers_accept demo_signature_verified
  by (auto simp: demo_endorsements_def root_endorsements_of_def demo_evidence_def demo_extracted_def)

theorem verified_evidence_is_rooted_in_hardware_witness:
  "\<exists>root r. ev_root_layer demo_evidence = Some root \<and> platform root = AmdSevSnp \<and>
    amd_root_trusted demo_vcr root [7, 5, 7] r \<and> vmpl (report_body r) = 0"
  using verified_evidence_is_rooted_in_hardware
    [OF hex_ok_demo_vcr demo_verified [of 0], of demo_root_reference]
  by (auto simp: demo_references_def root_reference_of_def demo_root_reference_def
      demo_endorsements_def root_endorsements_of_def)

text \<open>C2. Acceptance by \<open>verify\<close>, decomposed: it succeeds exactly when the endorsements name a root
  layer, the attestation report is verified with the certificate they carry, the DICE chain is
  intact, values can be extracted, and every layer of them is accepted by the reference value and
  endorsement of that layer; what it returns is the extracted evidence. Where the messages of the reference
  values are commented otherwise, this is what the code does: an empty list of digests accepts nothing,
  evidence from outside a TEE is accepted only with insecure reference values, and those do not waive the
  check of an AMD report's signature.\<close>

theorem verify_accepted_iff:
  assumes "hex_ok cr"
  shows "verify cr now ev ends refs = Ok x \<longleftrightarrow>
    (\<exists>et root_ends root v. endorsements_type ends = Some et \<and>
       root_endorsements_of et = Some root_ends \<and> ev_root_layer ev = Some root \<and>
       verify_root_attestation_signature cr now root (tee_certificate root_ends) = Ok () \<and>
       chain_accepted cr ev \<and> extract_evidence cr ev = Ok x \<and>
       evidence_values x = Some v \<and> layers_accept cr now ends refs v)"
  by (rule verify_Ok [OF assms])

theorem verify_accepted_iff_witness:
  "verify demo_vcr 0 demo_evidence demo_endorsements demo_references = Ok demo_extracted"
  unfolding verify_accepted_iff [OF hex_ok_demo_vcr]
  using demo_chain_accepted demo_extract demo_layers_accept demo_signature_verified
  by (auto simp: demo_endorsements_def root_endorsements_of_def demo_evidence_def demo_extracted_def)

text \<open>C23. The DICE chain: it is accepted exactly when the root key parses, each layer's
  certificate is signed by the key that the layer before certifies, and both application
  certificates are signed by the last key; the keys and values returned are those of these
  certificates.\<close>

theorem dice_chain_accepted_iff:
  "verify_dice_chain cr ev = Ok x \<longleftrightarrow>
    (\<exists>root ck root_key last_key keys.
       ev_root_layer ev = Some root \<and> cose_key_from_slice cr (eca_public_key root) = Some ck \<and>
       cose_key_to_verifying_key cr ck = Ok root_key \<and> chain cr root_key (ev_layers ev) last_key \<and>
       ev_application_keys ev = Some keys \<and>
       cert_signed_bytes cr last_key (encryption_public_key_certificate keys) \<and>
       cert_signed_bytes cr last_key (signing_public_key_certificate keys)) \<and>
    extract_evidence cr ev = Ok x"
  unfolding verify_dice_chain_Ok chain_accepted_def ..

lemma extract_evidence_layers:
  assumes "extract_evidence cr ev = Ok x" "evidence_values x = Some v"
  shows "(case v of EvRestrictedKernel _ \<Rightarrow> length (ev_layers ev) = 1
    | EvContainers _ \<Rightarrow> length (ev_layers ev) = 2 | EvCb _ \<Rightarrow> True)"
proof -
  from assms have "extract_evidence_values cr ev = Ok v"
    by (auto simp: extract_evidence_def result_simps)
  then show ?thesis
    by (cases "ev_layers ev"; cases "tl (ev_layers ev)"; cases "tl (tl (ev_layers ev))")
      (auto simp: extract_evidence_values_def and_then_eq_Ok ok_or_eq_Ok if_ok_Ok)
qed

text \<open>Accepted evidence, endorsements and reference values are of one kind: either all for the
  Restricted Kernel, with one DICE layer, or all for Oak Containers, with two. A confidential
  boot ("CB") chain is never accepted.\<close>

theorem verified_kinds_agree:
  assumes "hex_ok cr" and "verify cr now ev ends refs = Ok x"
  shows "(\<exists>e r v. endorsements_type ends = Some (EndRestrictedKernel e) \<and>
      reference_values_type refs = Some (RefRestrictedKernel r) \<and>
      evidence_values x = Some (EvRestrictedKernel v) \<and> length (ev_layers ev) = 1) \<or>
    (\<exists>e r v. endorsements_type ends = Some (EndContainers e) \<and>
      reference_values_type refs = Some (RefContainers r) \<and>
      evidence_values x = Some (EvContainers v) \<and> length (ev_layers ev) = 2)"
proof -
  from assms obtain v where v: "extract_evidence cr ev = Ok x" "evidence_values x = Some v"
    "layers_accept cr now ends refs v"
    unfolding verify_Ok [OF assms(1)] by blast
  from v(3) obtain et rt where "endorsements_type ends = Some et" "reference_values_type refs = Some rt"
    by (rule layers_accept_types)
  with v(3) extract_evidence_layers [OF v(1,2)] v(2) show ?thesis
    by (cases et; cases rt; cases v) (auto simp: layers_accept_def)
qed

theorem verified_kinds_agree_witness: "length (ev_layers demo_evidence) \<in> {1, 2}"
  using verified_kinds_agree [OF hex_ok_demo_vcr demo_verified [of 0]] by auto

section \<open>What endorsements do not cover\<close>

text \<open>C29. The regular expression for the kernel command line is not covered by the signature: once
  an endorsement is accepted, it is accepted with any other subject in its place, and the new
  subject becomes the expected expression. (The subjects of firmware and kernel endorsements are
  checked against the signed digest, see \<open>subject_endorsed\<close>.)\<close>

theorem cmd_line_subject_unchecked:
  assumes "text_type ref = Some (TextEndorsement keys)"
    and "get_text_expected_values cr now ref (Some e) = Ok v"
    and "from_utf8 s = Some regex"
  shows "get_text_expected_values cr now ref (Some (e\<lparr>endorsement_subject := s\<rparr>))
    = Ok \<lparr>text_expected_type = Some (ExpectedRegex regex)\<rparr>"
  using assms by (auto simp: get_text_expected_values_def verify_release_def result_simps)

theorem cmd_line_subject_unchecked_witness:
  "get_text_expected_values demo_vcr 0
     \<lparr>text_type = Some (TextEndorsement \<lparr>endorser_public_key = [7], rekor_public_key = []\<rparr>)\<rparr>
     (Some \<lparr>endorsement = [1], endorsement_subject = as_bytes ''.*'',
       endorsement_signature = demo_signature [7] [1], rekor_log_entry = []\<rparr>)
   = Ok \<lparr>text_expected_type = Some (ExpectedRegex ''.*'')\<rparr>"
proof -
  let ?ref = "\<lparr>text_type = Some (TextEndorsement \<lparr>endorser_public_key = [7], rekor_public_key = []\<rparr>)\<rparr>"
  let ?e = "\<lparr>endorsement = [1], endorsement_subject = [], endorsement_signature = demo_signature [7] [1],
    rekor_log_entry = []\<rparr>"
  have "parsed_key demo_vcr [7] = parsed_key demo_crates [7]"
    "signature_over demo_vcr (demo_pem [7]) [1] (demo_signature [7] [1])"
    "json_statement demo_vcr [1] = Some demo_statement"
    by (simp_all add: parsed_key_def convert_raw_to_pem_def signature_over_def demo_signature_def demo_vcr_def
        demo_verifier_defs)
  then have "verify_binary_endorsement demo_vcr 0 [1] (demo_signature [7] [1]) [] [7] [] = Ok ()"
    unfolding verify_binary_endorsement_Ok by (simp add: demo_parsed_key)
  then have "\<exists>v. get_text_expected_values demo_vcr 0 ?ref (Some ?e) = Ok v"
    by (simp add: get_text_expected_values_def verify_release_def from_utf8_def)
  moreover have "utf8_valid (as_bytes ''.*'')"
    by (rule utf8_valid_ascii) (simp add: byte_of_char_def)
  then have "from_utf8 (as_bytes ''.*'') = Some ''.*''"
    by (simp add: from_utf8_def del: as_bytes_Cons)
  ultimately show ?thesis using cmd_line_subject_unchecked [of ?ref _ demo_vcr 0 ?e] by auto
qed

text \<open>The endorsement of a container's configuration is never read: the configuration is held
  against the endorsement of the container binary.\<close>

lemma container_configuration_endorsement_ignored:
  "get_container_layer_expected_values cr now
     (Some (e\<lparr>container_configuration_endorsement := anything\<rparr>)) ref
   = get_container_layer_expected_values cr now (Some e) ref"
  by (simp add: get_container_layer_expected_values_def)

text \<open>A key of the evidence whose coordinate does not have 32 bytes ends the verifier with a panic
  instead of an error.\<close>

lemma short_coordinate_panics:
  assumes "kty k = Assigned KeyType_EC2" "alg k = Some (Assigned Algorithm_ES256)"
    "Assigned KeyOperation_Verify \<in> set (key_ops k)"
    "has_param KeyParameter_Crv (Integer EllipticCurve_P_256) (key_params k)"
    "bytes_param KeyParameter_X (key_params k) = Some x"
    "bytes_param KeyParameter_Y (key_params k) = Some y" "length x \<noteq> 32"
    "ev_root_layer ev = Some root" "cose_key_from_slice cr (eca_public_key root) = Some k"
  shows "\<not> no_panic (verify_dice_chain cr ev)"
  using assms by (simp add: verify_dice_chain_def root_verifying_key_def cose_key_to_verifying_key_def
      field_bytes_def as_anyhow_def)

end
