(* ===== verification/Oak_Generation.thy ===== *)
theory Oak_Generation
  imports Oak_Acceptance Oak_Slices
begin

text \<open>
  How evidence comes about: the C structs that carry DICE data between the boot stages
  (\<^verbatim>\<open>oak_dice/src/evidence.rs\<close>, \<^verbatim>\<open>oak_dice/src/utils.rs\<close>), the generation of
  the first layer by stage 0 (\<^verbatim>\<open>stage0_dice/src/lib.rs\<close>) and of the application layer by the
  restricted kernel (\<^verbatim>\<open>oak_restricted_kernel_dice/src/lib.rs\<close>), and the builder of further
  layers and the conversion to messages (\<^verbatim>\<open>oak_attestation/src/dice.rs\<close>). The CBOR reader
  and writer and the encoding of private keys are added to the parameters; a freshly drawn key is an
  argument. The hardware's report and key are the functions that the code takes.
\<close>

record 'h generation_crates = "'h verifier_crates" +
  cbor_from_reader :: "bytes \<Rightarrow> cbor_value option"
  cbor_into_writer :: "cbor_value \<Rightarrow> bytes option"
  p256_private_bytes :: "'h \<Rightarrow> bytes"
  p256_private_from_slice :: "bytes \<Rightarrow> 'h option"

text \<open>Documented behaviour: the reader takes one item and leaves what follows it, and the writer
  gives back the bytes of an item that was serialised by the same library. The 32 bytes of a private
  key parse to a key with the same public key.\<close>

locale cbor_items =
  fixes from_reader :: "bytes \<Rightarrow> cbor_value option" and into_writer :: "cbor_value \<Rightarrow> bytes option"
    and key_to :: "cose_key \<Rightarrow> bytes option" and sign1_to :: "cose_sign1 \<Rightarrow> bytes option"
  assumes key_item: "key_to k = Some bs \<Longrightarrow> \<exists>v. from_reader (bs @ pad) = Some v \<and> into_writer v = Some bs"
    and sign1_item: "sign1_to c = Some bs \<Longrightarrow> \<exists>v. from_reader (bs @ pad) = Some v \<and> into_writer v = Some bs"

locale p256_private =
  fixes private_to :: "'h \<Rightarrow> bytes" and private_from :: "bytes \<Rightarrow> 'h option" and public :: "'h \<Rightarrow> 'h"
  assumes private_round: "\<exists>k'. private_from (private_to k) = Some k' \<and> public k' = public k"
    and private_length: "length (private_to k) = 32"

abbreviation cbor_ok :: "('h, 'z) generation_crates_scheme \<Rightarrow> bool" where
  "cbor_ok cr \<equiv> cbor_items (cbor_from_reader cr) (cbor_into_writer cr) (cose_key_to_vec cr) (sign1_to_vec cr)"

abbreviation private_ok :: "('h, 'z) generation_crates_scheme \<Rightarrow> bool" where
  "private_ok cr \<equiv> p256_private (p256_private_bytes cr) (p256_private_from_slice cr) (p256_public cr)"

text \<open>\<^verbatim>\<open>Result::expect\<close>.\<close>

definition expect_ok :: "('a, 'e) result \<Rightarrow> string \<Rightarrow> ('a, 'f) result" where
  "expect_ok r m = (case r of Inr v \<Rightarrow> Ok v | Inl (Err _) \<Rightarrow> panic m | Inl (Panic p) \<Rightarrow> panic p)"

lemma expect_ok_Ok [result_simps]: "expect_ok r m = Ok v \<longleftrightarrow> r = Ok v"
  by (auto simp: expect_ok_def split: sum.splits fault.splits)

lemma expect_ok_simps [simp]: "expect_ok (Ok v) m = Ok v"
  by (simp add: expect_ok_def)

section \<open>The C structs\<close>

abbreviation (input) REPORT_SIZE :: nat where "REPORT_SIZE \<equiv> 2048"

abbreviation (input) AMD_SEV_SNP_ATTESTATION_REPORT_SIZE :: nat where
  "AMD_SEV_SNP_ATTESTATION_REPORT_SIZE \<equiv> 1184"

abbreviation (input) CDI_SIZE :: nat where "CDI_SIZE \<equiv> 32"

abbreviation (input) PRIVATE_KEY_SIZE :: nat where "PRIVATE_KEY_SIZE \<equiv> 64"

abbreviation (input) P256_PRIVATE_KEY_SIZE :: nat where "P256_PRIVATE_KEY_SIZE \<equiv> 32"

abbreviation (input) PUBLIC_KEY_SIZE :: nat where "PUBLIC_KEY_SIZE \<equiv> 256"

abbreviation (input) CERTIFICATE_SIZE :: nat where "CERTIFICATE_SIZE \<equiv> 1024"

definition STAGE0_MAGIC :: u64 where
  "STAGE0_MAGIC = word_of_nat (le_value (as_bytes ''oak.dice''))"

datatype TeePlatform = TeeUnspecified | TeeAmdSevSnp | TeeIntelTdx | TeeNone

fun TeePlatform_repr :: "TeePlatform \<Rightarrow> u64" where
  "TeePlatform_repr TeeUnspecified = 0"
| "TeePlatform_repr TeeAmdSevSnp = 1"
| "TeePlatform_repr TeeIntelTdx = 2"
| "TeePlatform_repr TeeNone = 3"

definition TeePlatform_from_repr :: "u64 \<Rightarrow> TeePlatform option" where
  "TeePlatform_from_repr n =
     find (\<lambda>t. TeePlatform_repr t = n) [TeeUnspecified, TeeAmdSevSnp, TeeIntelTdx, TeeNone]"

record c_root_layer_evidence =
  c_tee_platform :: u64
  c_remote_attestation_report :: bytes
  c_eca_public_key :: bytes

record c_layer_evidence =
  c_eca_certificate :: bytes

record stage0_dice_data =
  s0_magic :: u64
  s0_root_layer_evidence :: c_root_layer_evidence
  s0_layer_1_evidence :: c_layer_evidence
  s0_layer_1_eca_private_key :: bytes
  s0_layer_1_cdi :: bytes

record c_application_keys =
  c_signing_public_key_certificate :: bytes
  c_encryption_public_key_certificate :: bytes

record c_application_private_keys =
  c_signing_private_key :: bytes
  c_encryption_private_key :: bytes

record c_evidence =
  c_root_layer :: c_root_layer_evidence
  c_restricted_kernel_evidence :: c_layer_evidence
  c_app_keys :: c_application_keys

record restricted_kernel_dice_data =
  rk_evidence :: c_evidence
  rk_application_private_keys :: c_application_private_keys

definition stage0_new_zeroed :: stage0_dice_data where
  "stage0_new_zeroed = \<lparr>s0_magic = 0,
     s0_root_layer_evidence = \<lparr>c_tee_platform = 0, c_remote_attestation_report = replicate REPORT_SIZE 0,
       c_eca_public_key = replicate PUBLIC_KEY_SIZE 0\<rparr>,
     s0_layer_1_evidence = \<lparr>c_eca_certificate = replicate CERTIFICATE_SIZE 0\<rparr>,
     s0_layer_1_eca_private_key = replicate PRIVATE_KEY_SIZE 0,
     s0_layer_1_cdi = replicate CDI_SIZE 0\<rparr>"

section \<open>Encoded objects in fixed-size fields\<close>

definition cbor_encoded_bytes_to_vec ::
  "('h, 'z) generation_crates_scheme \<Rightarrow> bytes \<Rightarrow> (bytes, string) result" where
  "cbor_encoded_bytes_to_vec cr bs =
     and_then (ok_or (cbor_from_reader cr bs) ''failed to read bytes'') (\<lambda>v.
     ok_or (cbor_into_writer cr v) ''failed to write bytes'')"

definition padded_copy_from_slice :: "bytes \<Rightarrow> bytes \<Rightarrow> (bytes, string) result" where
  "padded_copy_from_slice dst src =
     (if length dst < length src then Error ''destination slice length shorter than source slice length''
      else Ok (src @ replicate (length dst - length src) 0))"

definition get_tee_platform :: "c_root_layer_evidence \<Rightarrow> (TeePlatform, string) result" where
  "get_tee_platform r = ok_or (TeePlatform_from_repr (c_tee_platform r)) ''invalid TEE Platform value''"

definition get_remote_attestation_report :: "c_root_layer_evidence \<Rightarrow> (bytes, string) result" where
  "get_remote_attestation_report r =
     and_then (get_tee_platform r) (\<lambda>p.
     case p of
       TeeNone \<Rightarrow> sub_slice (c_remote_attestation_report r) 0 AMD_SEV_SNP_ATTESTATION_REPORT_SIZE
     | TeeAmdSevSnp \<Rightarrow> sub_slice (c_remote_attestation_report r) 0 AMD_SEV_SNP_ATTESTATION_REPORT_SIZE
     | TeeIntelTdx \<Rightarrow> Ok (c_remote_attestation_report r)
     | TeeUnspecified \<Rightarrow> Error ''TEE platform not specified'')"

definition set_remote_attestation_report ::
  "c_root_layer_evidence \<Rightarrow> bytes \<Rightarrow> (c_root_layer_evidence, string) result" where
  "set_remote_attestation_report r src =
     and_then (padded_copy_from_slice (c_remote_attestation_report r) src) (\<lambda>bs.
     Ok (r\<lparr>c_remote_attestation_report := bs\<rparr>))"

definition get_eca_public_key ::
  "('h, 'z) generation_crates_scheme \<Rightarrow> c_root_layer_evidence \<Rightarrow> (bytes, string) result" where
  "get_eca_public_key cr r = cbor_encoded_bytes_to_vec cr (c_eca_public_key r)"

definition set_eca_public_key ::
  "c_root_layer_evidence \<Rightarrow> bytes \<Rightarrow> (c_root_layer_evidence, string) result" where
  "set_eca_public_key r src =
     and_then (padded_copy_from_slice (c_eca_public_key r) src) (\<lambda>bs. Ok (r\<lparr>c_eca_public_key := bs\<rparr>))"

definition layer_claims ::
  "('h, 'z) generation_crates_scheme \<Rightarrow> c_layer_evidence \<Rightarrow> (claims_set, string) result" where
  "layer_claims cr l =
     and_then (cbor_encoded_bytes_to_vec cr (c_eca_certificate l)) (\<lambda>decoded.
     map_err (\<lambda>_. ''failed get claims'') (get_claims_set_from_certificate_bytes cr decoded))"

definition application_keys_claims ::
  "('h, 'z) generation_crates_scheme \<Rightarrow> c_application_keys \<Rightarrow> (claims_set, string) result" where
  "application_keys_claims cr k =
     and_then (cbor_encoded_bytes_to_vec cr (c_encryption_public_key_certificate k)) (\<lambda>decoded.
     map_err (\<lambda>_. ''failed get claims'') (get_claims_set_from_certificate_bytes cr decoded))"

text \<open>\<^verbatim>\<open>generate_ecdsa_key_pair\<close> for the key that was drawn.\<close>

definition generate_ecdsa_key_pair :: "('h, 'z) generation_crates_scheme \<Rightarrow> 'h \<Rightarrow> 'h \<times> 'h" where
  "generate_ecdsa_key_pair cr drawn = (drawn, p256_public cr drawn)"

section \<open>Stage 0\<close>

record measurements =
  kernel_sha2_256_digest :: bytes
  cmdline_sha2_256_digest :: bytes
  m_cmdline :: string
  setup_data_sha2_256_digest :: bytes
  ram_disk_sha2_256_digest :: bytes
  memory_map_sha2_256_digest :: bytes
  acpi_sha2_256_digest :: bytes

definition digest_value :: "bytes \<Rightarrow> cbor_value" where
  "digest_value d = Map [(Integer SHA2_256_ID, Bytes d)]"

definition kernel_layer_claims :: "measurements \<Rightarrow> (reg_label \<times> cbor_value) list" where
  "kernel_layer_claims m = [(PrivateUse KERNEL_LAYER_ID, Map [
     (Integer KERNEL_MEASUREMENT_ID, digest_value (kernel_sha2_256_digest m)),
     (Integer KERNEL_COMMANDLINE_MEASUREMENT_ID, digest_value (cmdline_sha2_256_digest m)),
     (Integer KERNEL_COMMANDLINE_ID, Text (m_cmdline m)),
     (Integer SETUP_DATA_MEASUREMENT_ID, digest_value (setup_data_sha2_256_digest m)),
     (Integer INITRD_MEASUREMENT_ID, digest_value (ram_disk_sha2_256_digest m)),
     (Integer MEMORY_MAP_MEASUREMENT_ID, digest_value (memory_map_sha2_256_digest m)),
     (Integer ACPI_MEASUREMENT_ID, digest_value (acpi_sha2_256_digest m))])]"

definition generate_stage1_certificate ::
  "('h, 'z) generation_crates_scheme \<Rightarrow> 'h \<Rightarrow> string \<Rightarrow> measurements \<Rightarrow> 'h \<Rightarrow> (cose_sign1 \<times> 'h) anyhow" where
  "generate_stage1_certificate cr stage0_eca_key stage0_cert_issuer m drawn =
     (let (signing_key, verifying_key) = generate_ecdsa_key_pair cr drawn in
      and_then (expect_ok (generate_signing_certificate cr stage0_eca_key stage0_cert_issuer verifying_key
        (kernel_layer_claims m)) ''couldn't generate ECA certificate'') (\<lambda>cert. Ok (cert, signing_key)))"

definition stage0_generate_dice_data ::
  "('h, 'z) generation_crates_scheme \<Rightarrow> measurements \<Rightarrow> (bytes \<Rightarrow> (attestation_report, string) result)
     \<Rightarrow> (bytes, string) result \<Rightarrow> TeePlatform \<Rightarrow> 'h \<Rightarrow> 'h \<Rightarrow> stage0_dice_data anyhow" where
  "stage0_generate_dice_data cr m get_attestation derived_key tee_kind stage0_drawn stage1_drawn =
     (let result = stage0_new_zeroed;
          (stage0_eca_key, stage0_eca_verifying_key) = generate_ecdsa_key_pair cr stage0_drawn in
      and_then (derive_verifying_key_id cr stage0_eca_verifying_key) (\<lambda>kid.
      and_then (generate_stage1_certificate cr stage0_eca_key (hex_encode cr kid) m stage1_drawn)
        (\<lambda>(stage1_eca_cert, stage1_eca_signing_key).
      and_then (verifying_key_to_cose_key cr stage0_eca_verifying_key) (\<lambda>cose_key.
      and_then (expect (cose_key_to_vec cr cose_key) ''couldn't serialize the ECA public key'')
        (\<lambda>stage0_eca_verifying_key.
      and_then (expect (sign1_to_vec cr stage1_eca_cert) ''couldn't serialize stage 1 ECA certificate'')
        (\<lambda>stage1_eca_cert.
      let eca_sha2_256_digest = sha2_256_of cr stage0_eca_verifying_key in
      and_then (copy_at (replicate 64 0) 0 eca_sha2_256_digest) (\<lambda>nonce.
      and_then (expect_ok (get_attestation nonce) ''couldn't get attestation report.'') (\<lambda>report.
      and_then (expect_ok derived_key ''couldn't get derived key'') (\<lambda>ikm.
      let salt = kernel_sha2_256_digest m @ as_bytes (m_cmdline m) @ setup_data_sha2_256_digest m
            @ ram_disk_sha2_256_digest m;
          root = (s0_root_layer_evidence result)\<lparr>c_tee_platform := TeePlatform_repr tee_kind\<rparr> in
      and_then (expect_ok (set_remote_attestation_report root (report_bytes report))
        ''failed to set remote attestation report'') (\<lambda>root.
      and_then (expect_ok (set_eca_public_key root stage0_eca_verifying_key) ''failed to set eca public key'') (\<lambda>root.
      and_then (copy_at (c_eca_certificate (s0_layer_1_evidence result)) 0 stage1_eca_cert) (\<lambda>cert.
      and_then (copy_at (s0_layer_1_eca_private_key result) 0 (p256_private_bytes cr stage1_eca_signing_key))
        (\<lambda>private_key.
      and_then (expect (hkdf_sha256 cr salt ikm (as_bytes ''CDI_Seal'') CDI_SIZE)
        ''invalid length for HKDF output'') (\<lambda>cdi.
      Ok \<lparr>s0_magic = STAGE0_MAGIC, s0_root_layer_evidence = root,
        s0_layer_1_evidence = \<lparr>c_eca_certificate = cert\<rparr>,
        s0_layer_1_eca_private_key = private_key, s0_layer_1_cdi = cdi\<rparr>))))))))))))))"

definition mock_attestation_report :: "bytes \<Rightarrow> (attestation_report, string) result" where
  "mock_attestation_report d = Ok (from_report_data d)"

definition mock_derived_key :: "(bytes, string) result" where
  "mock_derived_key = Ok (replicate 32 0)"

section \<open>The restricted kernel\<close>

definition measure_app_digest_sha2_256 :: "('h, 'z) generation_crates_scheme \<Rightarrow> bytes \<Rightarrow> bytes" where
  "measure_app_digest_sha2_256 cr app_bytes = sha2_256_of cr app_bytes"

definition generate_derived_key ::
  "('h, 'z) generation_crates_scheme \<Rightarrow> stage0_dice_data \<Rightarrow> bytes \<Rightarrow> bytes anyhow" where
  "generate_derived_key cr data app_digest =
     expect (hkdf_sha256 cr app_digest (s0_layer_1_cdi data) (as_bytes ''CDI_Seal'') 32)
       ''invalid length for derived key''"

definition certificate_to_byte_array ::
  "('h, 'z) generation_crates_scheme \<Rightarrow> cose_sign1 \<Rightarrow> bytes anyhow" where
  "certificate_to_byte_array cr cert =
     and_then (expect (sign1_to_vec cr cert) ''couldn't serialize certificate'') (\<lambda>vec.
     copy_at (replicate CERTIFICATE_SIZE 0) 0 vec)"

definition application_layer_claims :: "bytes \<Rightarrow> (reg_label \<times> cbor_value) list" where
  "application_layer_claims app_digest = [(PrivateUse ENCLAVE_APPLICATION_LAYER_ID, Map [
     (Integer LAYER_2_CODE_MEASUREMENT_ID, digest_value app_digest),
     (Integer FINAL_LAYER_CONFIG_MEASUREMENT_ID, digest_value [])])]"

text \<open>The drawn keys: the signing key, and the serialised private and public encryption key.\<close>

definition rk_generate_dice_data ::
  "('h, 'z) generation_crates_scheme \<Rightarrow> stage0_dice_data \<Rightarrow> bytes \<Rightarrow> 'h \<Rightarrow> bytes \<times> bytes
     \<Rightarrow> restricted_kernel_dice_data anyhow" where
  "rk_generate_dice_data cr data app_digest drawn kem =
     and_then (sub_slice (s0_layer_1_eca_private_key data) 0 P256_PRIVATE_KEY_SIZE) (\<lambda>key_bytes.
     and_then (expect (p256_private_from_slice cr key_bytes)
       ''failed to parse the layer1 ECDSA private key bytes'') (\<lambda>kernel_signing_key.
     and_then (expect_ok (layer_claims cr (s0_layer_1_evidence data)) ''failed to get stage0 claims'') (\<lambda>claims.
     and_then (expect (claims_subject claims) ''expected to find the subject'') (\<lambda>kernel_cert_issuer.
     let (signing_key, verifying_key) = generate_ecdsa_key_pair cr drawn;
         additional_claims = application_layer_claims app_digest in
     and_then (expect_ok (generate_signing_certificate cr kernel_signing_key kernel_cert_issuer
       verifying_key additional_claims) ''couldn't generate signing certificate'') (\<lambda>signing_cert.
     let (kem_private, kem_public) = kem in
     and_then (expect_ok (generate_kem_certificate cr kernel_signing_key kernel_cert_issuer
       kem_public additional_claims) ''couldn't generate encryption public certificate'') (\<lambda>kem_cert.
     and_then (certificate_to_byte_array cr signing_cert) (\<lambda>signing_bytes.
     and_then (certificate_to_byte_array cr kem_cert) (\<lambda>kem_bytes.
     and_then (copy_at (replicate PRIVATE_KEY_SIZE 0) 0 (p256_private_bytes cr signing_key)) (\<lambda>signing_private.
     and_then (copy_at (replicate PRIVATE_KEY_SIZE 0) 0 kem_private) (\<lambda>encryption_private.
     Ok \<lparr>rk_evidence = \<lparr>c_root_layer = s0_root_layer_evidence data,
           c_restricted_kernel_evidence = s0_layer_1_evidence data,
           c_app_keys = \<lparr>c_signing_public_key_certificate = signing_bytes,
             c_encryption_public_key_certificate = kem_bytes\<rparr>\<rparr>,
         rk_application_private_keys = \<lparr>c_signing_private_key = signing_private,
           c_encryption_private_key = encryption_private\<rparr>\<rparr>))))))))))"

section \<open>Conversion to messages\<close>

fun tee_platform_to_proto :: "TeePlatform \<Rightarrow> tee_platform" where
  "tee_platform_to_proto TeeUnspecified = Unspecified"
| "tee_platform_to_proto TeeAmdSevSnp = AmdSevSnp"
| "tee_platform_to_proto TeeIntelTdx = IntelTdx"
| "tee_platform_to_proto TeeNone = NonePlatform"

definition root_layer_evidence_to_proto ::
  "('h, 'z) generation_crates_scheme \<Rightarrow> c_root_layer_evidence \<Rightarrow> root_layer_evidence anyhow" where
  "root_layer_evidence_to_proto cr r =
     and_then (as_anyhow (get_tee_platform r)) (\<lambda>p.
     and_then (as_anyhow (get_remote_attestation_report r)) (\<lambda>report.
     and_then (as_anyhow (get_eca_public_key cr r)) (\<lambda>key.
     Ok \<lparr>platform = tee_platform_to_proto p, remote_attestation_report = report, eca_public_key = key\<rparr>)))"

definition layer_evidence_to_proto ::
  "('h, 'z) generation_crates_scheme \<Rightarrow> c_layer_evidence \<Rightarrow> layer_evidence anyhow" where
  "layer_evidence_to_proto cr l =
     and_then (as_anyhow (cbor_encoded_bytes_to_vec cr (c_eca_certificate l))) (\<lambda>cert.
     Ok \<lparr>eca_certificate = cert\<rparr>)"

definition application_keys_to_proto ::
  "('h, 'z) generation_crates_scheme \<Rightarrow> c_application_keys \<Rightarrow> application_keys anyhow" where
  "application_keys_to_proto cr k =
     and_then (as_anyhow (cbor_encoded_bytes_to_vec cr (c_encryption_public_key_certificate k))) (\<lambda>e.
     and_then (as_anyhow (cbor_encoded_bytes_to_vec cr (c_signing_public_key_certificate k))) (\<lambda>s.
     Ok \<lparr>encryption_public_key_certificate = e, signing_public_key_certificate = s,
       group_encryption_public_key_certificate = [], group_signing_public_key_certificate = []\<rparr>))"

definition evidence_to_proto ::
  "('h, 'z) generation_crates_scheme \<Rightarrow> c_evidence \<Rightarrow> evidence anyhow" where
  "evidence_to_proto cr e =
     and_then (root_layer_evidence_to_proto cr (c_root_layer e)) (\<lambda>root_layer.
     and_then (layer_evidence_to_proto cr (c_restricted_kernel_evidence e)) (\<lambda>layer.
     and_then (application_keys_to_proto cr (c_app_keys e)) (\<lambda>keys.
     Ok \<lparr>ev_root_layer = Some root_layer, ev_layers = [layer], ev_application_keys = Some keys\<rparr>)))"

section \<open>The builder\<close>

record dice_data_msg =
  dd_evidence :: "evidence option"
  dd_certificate_authority :: "bytes option"

record 'h dice_builder =
  builder_evidence :: evidence
  builder_signing_key :: 'h

definition stage0_dice_data_to_proto ::
  "('h, 'z) generation_crates_scheme \<Rightarrow> stage0_dice_data \<Rightarrow> dice_data_msg anyhow" where
  "stage0_dice_data_to_proto cr data =
     and_then (as_anyhow (cbor_encoded_bytes_to_vec cr (c_eca_certificate (s0_layer_1_evidence data)))) (\<lambda>_.
     and_then (root_layer_evidence_to_proto cr (s0_root_layer_evidence data)) (\<lambda>root_layer.
     and_then (layer_evidence_to_proto cr (s0_layer_1_evidence data)) (\<lambda>layer.
     and_then (sub_slice (s0_layer_1_eca_private_key data) 0 P256_PRIVATE_KEY_SIZE) (\<lambda>key.
     Ok \<lparr>dd_evidence = Some \<lparr>ev_root_layer = Some root_layer, ev_layers = [layer], ev_application_keys = None\<rparr>,
       dd_certificate_authority = Some key\<rparr>))))"

definition builder_try_from ::
  "('h, 'z) generation_crates_scheme \<Rightarrow> dice_data_msg \<Rightarrow> 'h dice_builder anyhow" where
  "builder_try_from cr data =
     and_then (ok_or (dd_evidence data) [''no evidence'']) (\<lambda>evidence.
     and_then (ok_or (dd_certificate_authority data) [''no certificate authority'']) (\<lambda>eca_private_key.
     and_then (ok_or (p256_private_from_slice cr eca_private_key) [''signature error'']) (\<lambda>signing_key.
     Ok \<lparr>builder_evidence = evidence, builder_signing_key = signing_key\<rparr>)))"

definition builder_serialize ::
  "('h, 'z) generation_crates_scheme \<Rightarrow> 'h dice_builder \<Rightarrow> dice_data_msg" where
  "builder_serialize cr b = \<lparr>dd_evidence = Some (builder_evidence b),
     dd_certificate_authority = Some (p256_private_bytes cr (builder_signing_key b))\<rparr>"

text \<open>The issuer of the next certificate: the subject of the last layer.\<close>

definition last_layer_subject ::
  "('h, 'z) generation_crates_scheme \<Rightarrow> evidence \<Rightarrow> string anyhow" where
  "last_layer_subject cr e =
     (case ev_layers e of [] \<Rightarrow> Error [''no evidence layers found'']
      | _ \<Rightarrow>
        and_then (as_anyhow (get_claims_set_from_certificate_bytes cr (eca_certificate (last (ev_layers e)))))
          (\<lambda>claims_set. ok_or (claims_subject claims_set) [''no subject in certificate'']))"

definition add_layer ::
  "('h, 'z) generation_crates_scheme \<Rightarrow> 'h dice_builder \<Rightarrow> (reg_label \<times> cbor_value) list \<Rightarrow> 'h
     \<Rightarrow> 'h dice_builder anyhow" where
  "add_layer cr b additional_claims drawn =
     and_then (last_layer_subject cr (builder_evidence b)) (\<lambda>issuer_id.
     let (signing_key, verifying_key) = generate_ecdsa_key_pair cr drawn in
     and_then (context_of ''couldn't generate ECA certificate for the next layer''
       (as_anyhow (generate_signing_certificate cr (builder_signing_key b) issuer_id verifying_key
         additional_claims))) (\<lambda>cert.
     and_then (ok_or (sign1_to_vec cr cert) [''to_vec'']) (\<lambda>bs.
     Ok \<lparr>builder_evidence = (builder_evidence b)\<lparr>ev_layers := ev_layers (builder_evidence b) @
           [\<lparr>eca_certificate = bs\<rparr>]\<rparr>,
         builder_signing_key = signing_key\<rparr>)))"

definition sealed_certificate ::
  "('h, 'z) generation_crates_scheme \<Rightarrow> string \<Rightarrow> (cose_sign1, string) result \<Rightarrow> bytes anyhow" where
  "sealed_certificate cr msg r =
     and_then (context_of msg (as_anyhow r)) (\<lambda>cert. ok_or (sign1_to_vec cr cert) [''to_vec''])"

definition add_application_keys ::
  "('h, 'z) generation_crates_scheme \<Rightarrow> 'h dice_builder \<Rightarrow> (reg_label \<times> cbor_value) list \<Rightarrow> bytes \<Rightarrow> 'h
     \<Rightarrow> bytes option \<Rightarrow> 'h option \<Rightarrow> evidence anyhow" where
  "add_application_keys cr b additional_claims kem_public_key verifying_key group_kem_public_key group_verifying_key =
     and_then (last_layer_subject cr (builder_evidence b)) (\<lambda>issuer_id.
     and_then (sealed_certificate cr ''couldn't generate encryption public key certificate''
       (generate_kem_certificate cr (builder_signing_key b) issuer_id kem_public_key additional_claims)) (\<lambda>e.
     and_then (sealed_certificate cr ''couldn't generate signing public key certificate''
       (generate_signing_certificate cr (builder_signing_key b) issuer_id verifying_key additional_claims)) (\<lambda>s.
     and_then (case group_kem_public_key of None \<Rightarrow> Ok []
       | Some k \<Rightarrow> sealed_certificate cr ''couldn't generate encryption public key certificate''
           (generate_kem_certificate cr (builder_signing_key b) issuer_id k [])) (\<lambda>ge.
     and_then (case group_verifying_key of None \<Rightarrow> Ok []
       | Some k \<Rightarrow> sealed_certificate cr ''couldn't generate signing public key certificate''
           (generate_signing_certificate cr (builder_signing_key b) issuer_id k [])) (\<lambda>gs.
     Ok ((builder_evidence b)\<lparr>ev_application_keys := Some
       \<lparr>encryption_public_key_certificate = e, signing_public_key_certificate = s,
        group_encryption_public_key_certificate = ge, group_signing_public_key_certificate = gs\<rparr>\<rparr>))))))"

section \<open>What generation leaves behind\<close>

lemma overwrite_zeros [simp]:
  "overwrite (replicate n 0) 0 ys = ys @ replicate (n - length ys) (0 :: u8)"
  by (simp add: overwrite_def)

lemma padded_copy_Ok [result_simps]:
  "padded_copy_from_slice dst src = Ok bs \<longleftrightarrow> length src \<le> length dst \<and> bs = src @ replicate (length dst - length src) 0"
  by (auto simp: padded_copy_from_slice_def)

lemma TeePlatform_from_repr_repr [simp]: "TeePlatform_from_repr (TeePlatform_repr t) = Some t"
  by (cases t) (simp_all add: TeePlatform_from_repr_def)

lemma reencode_key:
  assumes "cbor_ok cr" "cose_key_to_vec cr k = Some bs"
  shows "cbor_encoded_bytes_to_vec cr (bs @ pad) = Ok bs"
  using cbor_items.key_item [OF assms, of pad] by (auto simp: cbor_encoded_bytes_to_vec_def)

lemma reencode_sign1:
  assumes "cbor_ok cr" "sign1_to_vec cr c = Some bs"
  shows "cbor_encoded_bytes_to_vec cr (bs @ pad) = Ok bs"
  using cbor_items.sign1_item [OF assms, of pad] by (auto simp: cbor_encoded_bytes_to_vec_def)

text \<open>A sealed certificate: its bytes parse to an envelope that the key of the issuer signed, and
  its claims hold the subject's key and the additional claims.\<close>

definition sealed_for ::
  "('h, 'z) generation_crates_scheme \<Rightarrow> 'h \<Rightarrow> cose_key \<Rightarrow> (reg_label \<times> cbor_value) list \<Rightarrow> bytes \<Rightarrow> bool" where
  "sealed_for cr key k cs bs \<longleftrightarrow> (\<exists>c claims u v. sign1_from_slice cr bs = Some c \<and>
     cert_signed_by cr (p256_public cr key) c \<and> cert_claims cr c = Some claims \<and>
     claims_subject claims \<noteq> None \<and> get_public_key_from_claims_set cr claims = Ok k \<and>
     claims_rest claims = (PrivateUse SUBJECT_PUBLIC_KEY_ID, Bytes u) # (PrivateUse KEY_USAGE_ID, Bytes v) # cs)"

lemma sealed_for_same_public:
  "p256_public cr key = p256_public cr key' \<Longrightarrow> sealed_for cr key = sealed_for cr key'"
  by (simp add: fun_eq_iff sealed_for_def)

lemma sealed_certificate_for:
  assumes "cose_ok cr" "p256_ok cr" "generate_certificate cr key issuer k pk_id cs = Ok c"
    and "sign1_to_vec cr c = Some bs"
  shows "sealed_for cr key k cs bs"
proof -
  obtain claims where c: "cert_signed_by cr (p256_public cr key) c" "cert_claims cr c = Some claims"
    "claims_subject claims = Some pk_id" "get_public_key_from_claims_set cr claims = Ok k"
    "\<exists>u v. claims_rest claims =
       (PrivateUse SUBJECT_PUBLIC_KEY_ID, Bytes u) # (PrivateUse KEY_USAGE_ID, Bytes v) # cs"
    by (rule generate_certificate_contents [OF assms(1-3)])
  from c cose_codec.sign1_round [OF assms(1,4)] show ?thesis unfolding sealed_for_def by blast
qed

lemma sealed_signing_key:
  assumes "cose_ok cr" "p256_ok cr" "sign1_to_vec cr c = Some bs"
    and "generate_signing_certificate cr key issuer (p256_public cr sub) cs = Ok c"
  shows "\<exists>k. sealed_for cr key k cs bs \<and> cose_key_to_verifying_key cr k = Ok (p256_public cr sub)"
proof -
  from assms(4) obtain k kid
    where k: "verifying_key_to_cose_key cr (p256_public cr sub) = (Ok k :: (cose_key, string) result)"
    and gen: "generate_certificate cr key issuer k (hex_encode cr kid) cs = Ok c"
    by (auto simp: generate_signing_certificate_def result_simps)
  from sealed_certificate_for [OF assms(1,2) gen assms(3)] cose_key_to_verifying_key_of [OF assms(2) k]
  show ?thesis by blast
qed

lemma sealed_kem_key:
  assumes "cose_ok cr" "p256_ok cr" "sign1_to_vec cr c = Some bs"
    and "generate_kem_certificate cr key issuer pk cs = Ok c"
  shows "\<exists>k. sealed_for cr key k cs bs \<and> cose_key_to_hpke_public_key k = Ok pk"
proof -
  from assms(4) obtain k kid
    where k: "hpke_public_key_to_cose_key cr pk = (Ok k :: (cose_key, string) result)"
    and gen: "generate_certificate cr key issuer k (hex_encode cr kid) cs = Ok c"
    by (auto simp: generate_kem_certificate_def result_simps)
  from sealed_certificate_for [OF assms(1,2) gen assms(3)] cose_key_to_hpke_public_key_of [OF k]
  show ?thesis by blast
qed

lemma sealed_for_signed: "sealed_for cr key k cs bs \<Longrightarrow> cert_signed_bytes cr (p256_public cr key) bs"
  by (auto simp: sealed_for_def cert_signed_bytes_def)

lemma sealed_for_certifies:
  "sealed_for cr key k cs bs \<Longrightarrow> cose_key_to_verifying_key cr k = Ok v \<Longrightarrow>
     certifies cr (p256_public cr key) \<lparr>eca_certificate = bs\<rparr> v"
  unfolding sealed_for_def certifies_def by (metis layer_evidence.select_convs(1))

lemma sealed_for_claims:
  "sealed_for cr key k cs bs \<Longrightarrow> \<exists>claims. claims_set_from_serialized_cert cr bs = Ok claims \<and>
     get_public_key_from_claims_set cr claims = Ok k \<and>
     (\<exists>u v. claims_rest claims = (PrivateUse SUBJECT_PUBLIC_KEY_ID, Bytes u) # (PrivateUse KEY_USAGE_ID, Bytes v) # cs)"
  by (auto simp: sealed_for_def claims_set_from_serialized_cert_def cert_claims_def bind_eq_Some_conv)

text \<open>The state after stage 0.\<close>

definition stage0_result ::
  "('h, 'z) generation_crates_scheme \<Rightarrow> measurements \<Rightarrow> (bytes \<Rightarrow> (attestation_report, string) result)
     \<Rightarrow> TeePlatform \<Rightarrow> 'h \<Rightarrow> 'h \<Rightarrow> stage0_dice_data \<Rightarrow> attestation_report \<Rightarrow> bytes \<Rightarrow> bytes \<Rightarrow> bool" where
  "stage0_result cr m att tk s0 s1 d report kb bs \<longleftrightarrow>
     (\<exists>ck. cose_key_to_vec cr ck = Some kb \<and> cose_key_from_slice cr kb = Some ck \<and>
        cose_key_to_verifying_key cr ck = Ok (p256_public cr s0)) \<and>
     (\<exists>c. sign1_to_vec cr c = Some bs) \<and>
     (\<exists>k. sealed_for cr s0 k (kernel_layer_claims m) bs \<and> cose_key_to_verifying_key cr k = Ok (p256_public cr s1)) \<and>
     att (sha2_256_of cr kb @ replicate (64 - length (sha2_256_of cr kb)) 0) = Ok report \<and>
     length (sha2_256_of cr kb) \<le> 64 \<and> length (report_bytes report) \<le> REPORT_SIZE \<and>
     s0_root_layer_evidence d = \<lparr>c_tee_platform = TeePlatform_repr tk,
       c_remote_attestation_report = report_bytes report @ replicate (REPORT_SIZE - length (report_bytes report)) 0,
       c_eca_public_key = kb @ replicate (PUBLIC_KEY_SIZE - length kb) 0\<rparr> \<and>
     s0_layer_1_evidence d = \<lparr>c_eca_certificate = bs @ replicate (CERTIFICATE_SIZE - length bs) 0\<rparr> \<and>
     take P256_PRIVATE_KEY_SIZE (s0_layer_1_eca_private_key d) = p256_private_bytes cr s1 \<and>
     P256_PRIVATE_KEY_SIZE \<le> length (s0_layer_1_eca_private_key d)"

lemma stage0_generated:
  assumes "cose_ok cr" "p256_ok cr" "private_ok cr"
    and "stage0_generate_dice_data cr m att dk tk s0 s1 = Ok d"
  shows "\<exists>report kb bs. stage0_result cr m att tk s0 s1 d report kb bs"
proof -
  from assms(4) obtain kid cert ck kb bs report ikm cdi where
    cert: "generate_signing_certificate cr s0 (hex_encode cr kid) (p256_public cr s1) (kernel_layer_claims m) = Ok cert"
    and ck: "verifying_key_to_cose_key cr (p256_public cr s0) = (Ok ck :: cose_key anyhow)"
    and kb: "cose_key_to_vec cr ck = Some kb" and bs: "sign1_to_vec cr cert = Some bs"
    and report: "att (sha2_256_of cr kb @ replicate (64 - length (sha2_256_of cr kb)) 0) = Ok report"
    and len: "length (sha2_256_of cr kb) \<le> 64" "length (report_bytes report) \<le> REPORT_SIZE"
    and d: "d = \<lparr>s0_magic = STAGE0_MAGIC, s0_root_layer_evidence = \<lparr>c_tee_platform = TeePlatform_repr tk,
       c_remote_attestation_report = report_bytes report @ replicate (REPORT_SIZE - length (report_bytes report)) 0,
       c_eca_public_key = kb @ replicate (PUBLIC_KEY_SIZE - length kb) 0\<rparr>,
       s0_layer_1_evidence = \<lparr>c_eca_certificate = bs @ replicate (CERTIFICATE_SIZE - length bs) 0\<rparr>,
       s0_layer_1_eca_private_key = p256_private_bytes cr s1 @
         replicate (PRIVATE_KEY_SIZE - length (p256_private_bytes cr s1)) 0, s0_layer_1_cdi = cdi\<rparr>"
    by (auto simp: stage0_generate_dice_data_def generate_stage1_certificate_def generate_ecdsa_key_pair_def
        stage0_new_zeroed_def set_remote_attestation_report_def set_eca_public_key_def Let_def result_simps)
  have "cose_key_to_verifying_key cr ck = Ok (p256_public cr s0)"
    using cose_key_to_verifying_key_of [OF assms(2) ck] .
  moreover have "cose_key_from_slice cr kb = Some ck" using cose_codec.key_round [OF assms(1) kb] .
  moreover have "length (p256_private_bytes cr s1) = 32" using p256_private.private_length [OF assms(3)] .
  ultimately have "stage0_result cr m att tk s0 s1 d report kb bs"
    using kb bs report len d sealed_signing_key [OF assms(1,2) bs cert]
    by (auto simp: stage0_result_def)
  then show ?thesis by blast
qed

section \<open>What the verifier reads back\<close>

definition sha2_256_digest :: "bytes \<Rightarrow> raw_digest" where
  "sha2_256_digest d = raw_default\<lparr>raw_sha2_256 := d\<rparr>"

definition measured_kernel :: "measurements \<Rightarrow> kernel_layer_data" where
  "measured_kernel m = \<lparr>kernel_image = Some (sha2_256_digest (kernel_sha2_256_digest m)),
     kernel_setup_data = Some (sha2_256_digest (setup_data_sha2_256_digest m)),
     kernel_cmd_line = Some (sha2_256_digest (cmdline_sha2_256_digest m)),
     kernel_raw_cmd_line = Some (m_cmdline m),
     kernel_init_ram_fs = Some (sha2_256_digest (ram_disk_sha2_256_digest m)),
     kernel_memory_map = Some (sha2_256_digest (memory_map_sha2_256_digest m)),
     kernel_acpi = Some (sha2_256_digest (acpi_sha2_256_digest m))\<rparr>"

lemmas extraction_defs = extract_layer_data_def extract_digest_def extract_value_def
  extract_raw_cmd_line_def if_ok_def as_text_def value_to_raw_digest_def digest_entry_def
  digest_value_def sha2_256_digest_def context_of_def

lemma kernel_claims_read:
  assumes "claims_rest claims = (PrivateUse SUBJECT_PUBLIC_KEY_ID, Bytes u) # (PrivateUse KEY_USAGE_ID, Bytes v)
      # kernel_layer_claims m"
  shows "extract_kernel_values claims = Ok (measured_kernel m)"
  using assms by (simp add: extract_kernel_values_def kernel_layer_claims_def measured_kernel_def
      extraction_defs)

lemma application_claims_read:
  assumes "claims_rest claims = (PrivateUse SUBJECT_PUBLIC_KEY_ID, Bytes u) # (PrivateUse KEY_USAGE_ID, Bytes v)
      # application_layer_claims d"
  shows "extract_application_layer_data claims = Ok \<lparr>application_binary = Some (sha2_256_digest d),
      application_config = Some (sha2_256_digest [])\<rparr>"
    and "\<exists>e. extract_container_layer_data claims = Error e"
  using assms by (simp_all add: extract_application_layer_data_def extract_container_layer_data_def
      application_layer_claims_def extraction_defs)

lemma layer_to_proto:
  assumes "cbor_ok cr" "sign1_to_vec cr c = Some bs"
  shows "layer_evidence_to_proto cr \<lparr>c_eca_certificate = bs @ pad\<rparr> = Ok \<lparr>eca_certificate = bs\<rparr>"
  by (simp add: layer_evidence_to_proto_def reencode_sign1 [OF assms])

lemma root_to_proto_key:
  assumes "cbor_ok cr" "cose_key_to_vec cr ck = Some kb" "c_eca_public_key r = kb @ pad"
    and "root_layer_evidence_to_proto cr r = Ok rl"
  shows "eca_public_key rl = kb"
  using assms(4) by (auto simp: root_layer_evidence_to_proto_def get_eca_public_key_def assms(3)
      reencode_key [OF assms(1,2)] result_simps)

lemma chain_accepted_verifies:
  assumes "chain_accepted cr ev"
  shows "verify_dice_chain cr ev = extract_evidence cr ev"
proof -
  from assms obtain rl ck root_key last_key keys where
    c: "ev_root_layer ev = Some rl" "cose_key_from_slice cr (eca_public_key rl) = Some ck"
     "cose_key_to_verifying_key cr ck = Ok root_key" "try_fold (verify_layer cr) root_key (ev_layers ev) = Ok last_key"
     "ev_application_keys ev = Some keys"
     "cert_signed_bytes cr last_key (encryption_public_key_certificate keys)"
     "cert_signed_bytes cr last_key (signing_public_key_certificate keys)"
    unfolding chain_accepted_def verify_layers_Ok by blast
  from c(6,7) obtain e s where es: "sign1_from_slice cr (encryption_public_key_certificate keys) = Some e"
    "verify_sign1 cr last_key e = Ok ()" "sign1_from_slice cr (signing_public_key_certificate keys) = Some s"
    "verify_sign1 cr last_key s = Ok ()"
    by (auto simp: cert_signed_bytes_def verify_sign1_Ok split: option.splits)
  show ?thesis by (simp add: verify_dice_chain_def root_verifying_key_def c es)
qed

section \<open>The builder\<close>

text \<open>The invariant of the builder: a chain of certificates from the root key to the key that the
  builder signs with.\<close>

definition builder_ok :: "('h, 'z) generation_crates_scheme \<Rightarrow> 'h dice_builder \<Rightarrow> bool" where
  "builder_ok cr b \<longleftrightarrow> (\<exists>rl ck root_key. ev_root_layer (builder_evidence b) = Some rl \<and>
     cose_key_from_slice cr (eca_public_key rl) = Some ck \<and>
     cose_key_to_verifying_key cr ck = Ok root_key \<and>
     chain cr root_key (ev_layers (builder_evidence b)) (p256_public cr (builder_signing_key b)))"

text \<open>One step between boot stages: a new layer, or the transfer of the builder as a message.\<close>

inductive builder_step ::
  "('h, 'z) generation_crates_scheme \<Rightarrow> 'h dice_builder \<Rightarrow> 'h dice_builder \<Rightarrow> bool"
  for cr where
  step_layer: "add_layer cr b cs drawn = Ok b' \<Longrightarrow> builder_step cr b b'"
| step_transfer: "builder_try_from cr (builder_serialize cr b) = Ok b' \<Longrightarrow> builder_step cr b b'"

lemma add_layer_ok:
  assumes "cose_ok cr" "p256_ok cr" "builder_ok cr b" "add_layer cr b cs drawn = Ok b'"
  shows "builder_ok cr b'"
proof -
  from assms(4) obtain issuer c bs where
    c: "generate_signing_certificate cr (builder_signing_key b) issuer (p256_public cr drawn) cs = Ok c"
      "sign1_to_vec cr c = Some bs"
    and b': "b' = \<lparr>builder_evidence = (builder_evidence b)\<lparr>ev_layers := ev_layers (builder_evidence b) @
           [\<lparr>eca_certificate = bs\<rparr>]\<rparr>, builder_signing_key = drawn\<rparr>"
    by (auto simp: add_layer_def generate_ecdsa_key_pair_def result_simps)
  from sealed_signing_key [OF assms(1,2) c(2,1)] have
    "certifies cr (p256_public cr (builder_signing_key b)) \<lparr>eca_certificate = bs\<rparr> (p256_public cr drawn)"
    by (auto intro: sealed_for_certifies)
  with assms(3) b' show ?thesis by (auto simp: builder_ok_def chain_append)
qed

lemma transfer_ok:
  assumes "private_ok cr" "builder_ok cr b" "builder_try_from cr (builder_serialize cr b) = Ok b'"
  shows "builder_ok cr b'"
  using assms(2,3) p256_private.private_round [OF assms(1), of "builder_signing_key b"]
  by (auto simp: builder_try_from_def builder_serialize_def builder_ok_def)

lemma builder_steps_ok:
  assumes "cose_ok cr" "p256_ok cr" "private_ok cr" "(builder_step cr)\<^sup>*\<^sup>* b b'" "builder_ok cr b"
  shows "builder_ok cr b'"
  using assms(4,5)
proof (induction rule: rtranclp_induct)
  case (step y z)
  from step.hyps(2) show ?case
  proof cases
    case (step_layer cs drawn)
    then show ?thesis using add_layer_ok [OF assms(1,2) step.IH [OF step.prems]] by blast
  next
    case step_transfer
    then show ?thesis using transfer_ok [OF assms(3) step.IH [OF step.prems]] by blast
  qed
qed

lemma stage0_builder_ok:
  assumes "cose_ok cr" "p256_ok cr" "private_ok cr" "cbor_ok cr"
    and "stage0_generate_dice_data cr m att dk tk s0 s1 = Ok d"
    and "stage0_dice_data_to_proto cr d = Ok msg" "builder_try_from cr msg = Ok b"
  shows "builder_ok cr b"
proof -
  obtain report kb bs where r: "stage0_result cr m att tk s0 s1 d report kb bs"
    using stage0_generated [OF assms(1-3,5)] by blast
  then obtain ck c k where ck: "cose_key_to_vec cr ck = Some kb" "cose_key_from_slice cr kb = Some ck"
      "cose_key_to_verifying_key cr ck = Ok (p256_public cr s0)"
    and c: "sign1_to_vec cr c = Some bs"
    and k: "sealed_for cr s0 k (kernel_layer_claims m) bs" "cose_key_to_verifying_key cr k = Ok (p256_public cr s1)"
    by (auto simp: stage0_result_def)
  have layer: "layer_evidence_to_proto cr (s0_layer_1_evidence d) = Ok \<lparr>eca_certificate = bs\<rparr>"
    using r layer_to_proto [OF assms(4) c] by (simp add: stage0_result_def)
  from assms(6) r obtain rl where rl: "root_layer_evidence_to_proto cr (s0_root_layer_evidence d) = Ok rl"
    and msg: "msg = \<lparr>dd_evidence = Some \<lparr>ev_root_layer = Some rl, ev_layers = [\<lparr>eca_certificate = bs\<rparr>],
      ev_application_keys = None\<rparr>, dd_certificate_authority = Some (p256_private_bytes cr s1)\<rparr>"
    by (auto simp: stage0_dice_data_to_proto_def layer result_simps stage0_result_def)
  obtain s where "p256_private_from_slice cr (p256_private_bytes cr s1) = Some s"
      "p256_public cr s = p256_public cr s1"
    using p256_private.private_round [OF assms(3)] by blast
  then have "b = \<lparr>builder_evidence = \<lparr>ev_root_layer = Some rl, ev_layers = [\<lparr>eca_certificate = bs\<rparr>],
      ev_application_keys = None\<rparr>, builder_signing_key = s\<rparr>" "p256_public cr s = p256_public cr s1"
    using assms(7) by (simp_all add: msg builder_try_from_def)
  moreover have "eca_public_key rl = kb"
    using root_to_proto_key [OF assms(4) ck(1) _ rl] r by (simp add: stage0_result_def)
  ultimately show ?thesis
    using ck sealed_for_certifies [OF k] by (simp add: builder_ok_def)
qed

section \<open>The restricted kernel's evidence\<close>

text \<open>What the hardware promises of the reports it gives out: they are well formed, carry the data
  that was asked for, pass validation and have a readable policy.\<close>

definition honest_reports ::
  "('h, 'z) generation_crates_scheme \<Rightarrow> (bytes \<Rightarrow> (attestation_report, string) result) \<Rightarrow> bool" where
  "honest_reports cr att \<longleftrightarrow> (\<forall>n r. length n = 64 \<longrightarrow> att n = Ok r \<longrightarrow>
     report_wf r \<and> report_data (report_body r) = n \<and> report_validate r = Ok () \<and>
     (\<exists>b. has_debug_flag r = Ok b) \<and> report_aligned cr (report_bytes r))"

definition restricted_kernel_result ::
  "('h, 'z) generation_crates_scheme \<Rightarrow> stage0_dice_data \<Rightarrow> 'h \<Rightarrow> bytes \<Rightarrow> 'h \<Rightarrow> bytes
     \<Rightarrow> restricted_kernel_dice_data \<Rightarrow> bytes \<Rightarrow> bytes \<Rightarrow> bool" where
  "restricted_kernel_result cr d s1 app_digest drawn kem_public rk sb eb \<longleftrightarrow>
     (\<exists>c. sign1_to_vec cr c = Some sb) \<and> (\<exists>c. sign1_to_vec cr c = Some eb) \<and>
     (\<exists>k. sealed_for cr s1 k (application_layer_claims app_digest) sb \<and>
        cose_key_to_verifying_key cr k = Ok (p256_public cr drawn)) \<and>
     (\<exists>k. sealed_for cr s1 k (application_layer_claims app_digest) eb \<and>
        cose_key_to_hpke_public_key k = Ok kem_public) \<and>
     c_root_layer (rk_evidence rk) = s0_root_layer_evidence d \<and>
     c_restricted_kernel_evidence (rk_evidence rk) = s0_layer_1_evidence d \<and>
     c_signing_public_key_certificate (c_app_keys (rk_evidence rk)) = sb @ replicate (CERTIFICATE_SIZE - length sb) 0 \<and>
     c_encryption_public_key_certificate (c_app_keys (rk_evidence rk)) = eb @ replicate (CERTIFICATE_SIZE - length eb) 0"

lemma restricted_kernel_generated:
  assumes "cose_ok cr" "p256_ok cr" "private_ok cr"
    and "stage0_result cr m att tk s0 s1 d report kb bs"
    and "rk_generate_dice_data cr d app_digest drawn (kem_private, kem_public) = Ok rk"
  shows "\<exists>sb eb. restricted_kernel_result cr d s1 app_digest drawn kem_public rk sb eb"
proof -
  have key: "sub_slice (s0_layer_1_eca_private_key d) 0 P256_PRIVATE_KEY_SIZE = Ok (p256_private_bytes cr s1)"
    using assms(4) by (simp add: stage0_result_def sub_slice_def)
  obtain s where s: "p256_private_from_slice cr (p256_private_bytes cr s1) = Some s"
      "p256_public cr s = p256_public cr s1"
    using p256_private.private_round [OF assms(3)] by blast
  from assms(5) obtain issuer sc ec sb eb where
    sc: "generate_signing_certificate cr s issuer (p256_public cr drawn) (application_layer_claims app_digest) = Ok sc"
      "sign1_to_vec cr sc = Some sb"
    and ec: "generate_kem_certificate cr s issuer kem_public (application_layer_claims app_digest) = Ok ec"
      "sign1_to_vec cr ec = Some eb"
    and rk: "rk_evidence rk = \<lparr>c_root_layer = s0_root_layer_evidence d,
           c_restricted_kernel_evidence = s0_layer_1_evidence d,
           c_app_keys = \<lparr>c_signing_public_key_certificate = sb @ replicate (CERTIFICATE_SIZE - length sb) 0,
             c_encryption_public_key_certificate = eb @ replicate (CERTIFICATE_SIZE - length eb) 0\<rparr>\<rparr>"
    by (auto simp: rk_generate_dice_data_def key s(1) Let_def
        certificate_to_byte_array_def generate_ecdsa_key_pair_def result_simps)
  have "restricted_kernel_result cr d s1 app_digest drawn kem_public rk sb eb"
    unfolding restricted_kernel_result_def sealed_for_same_public [OF s(2) [symmetric]]
    using sealed_signing_key [OF assms(1,2) sc(2,1)] sealed_kem_key [OF assms(1,2) ec(2,1)] sc(2) ec(2) rk
    by auto
  then show ?thesis by blast
qed

lemma restricted_kernel_to_proto:
  assumes "cbor_ok cr" "stage0_result cr m att tk s0 s1 d report kb bs"
    and "restricted_kernel_result cr d s1 app_digest drawn kem_public rk sb eb"
    and "evidence_to_proto cr (rk_evidence rk) = Ok ev"
  shows "\<exists>rl. root_layer_evidence_to_proto cr (s0_root_layer_evidence d) = Ok rl \<and>
     ev = \<lparr>ev_root_layer = Some rl, ev_layers = [\<lparr>eca_certificate = bs\<rparr>],
       ev_application_keys = Some \<lparr>encryption_public_key_certificate = eb, signing_public_key_certificate = sb,
         group_encryption_public_key_certificate = [], group_signing_public_key_certificate = []\<rparr>\<rparr>"
proof -
  from assms(2,3) obtain c sc ec where
    v: "sign1_to_vec cr c = Some bs" "sign1_to_vec cr sc = Some sb" "sign1_to_vec cr ec = Some eb"
    by (auto simp: stage0_result_def restricted_kernel_result_def)
  from assms(2-4) layer_to_proto [OF assms(1) v(1)] reencode_sign1 [OF assms(1) v(2)]
    reencode_sign1 [OF assms(1) v(3)]
  show ?thesis by (auto simp: evidence_to_proto_def application_keys_to_proto_def stage0_result_def
        restricted_kernel_result_def result_simps)
qed

lemma stage0_root_values:
  assumes "cbor_ok cr" "stage0_result cr m att tk s0 s1 d report kb bs"
    and "tk = TeeAmdSevSnp \<or> tk = TeeNone" "honest_reports cr att"
    and "root_layer_evidence_to_proto cr (s0_root_layer_evidence d) = Ok rl"
  shows "eca_public_key rl = kb" "\<exists>v. extract_root_values cr rl = Ok v"
    "report_ref cr (remote_attestation_report rl) = Some report"
    "take (length (sha2_256_of cr kb)) (report_data (report_body report)) = sha2_256_of cr kb"
proof -
  from assms(2) obtain ck where ck: "cose_key_to_vec cr ck = Some kb" by (auto simp: stage0_result_def)
  let ?n = "sha2_256_of cr kb @ replicate (64 - length (sha2_256_of cr kb)) 0"
  have n: "att ?n = Ok report" "length ?n = 64" using assms(2) by (simp_all add: stage0_result_def)
  then have h: "report_wf report" "report_data (report_body report) = ?n" "report_validate report = Ok ()"
    "\<exists>b. has_debug_flag report = Ok b" "report_aligned cr (report_bytes report)"
    using assms(4) unfolding honest_reports_def by blast+
  have rl: "rl = \<lparr>platform = tee_platform_to_proto tk, remote_attestation_report = report_bytes report,
      eca_public_key = kb\<rparr>"
    using assms(2,3,5) h(1) reencode_key [OF assms(1) ck]
    by (auto simp: root_layer_evidence_to_proto_def get_tee_platform_def get_remote_attestation_report_def
        get_eca_public_key_def stage0_result_def sub_slice_def result_simps)
  have ref: "report_ref cr (report_bytes report) = Some report"
    using h by (simp add: report_ref_def report_ref_from_bytes)
  show "eca_public_key rl = kb" "report_ref cr (remote_attestation_report rl) = Some report"
    "take (length (sha2_256_of cr kb)) (report_data (report_body report)) = sha2_256_of cr kb"
    using rl ref h(2) by simp_all
  show "\<exists>v. extract_root_values cr rl = Ok v"
    using assms(3) rl ref h(3,4) by (auto simp: extract_root_values_def Let_def)
qed

lemma restricted_kernel_chain:
  assumes "stage0_result cr m att tk s0 s1 d report kb bs"
    and "restricted_kernel_result cr d s1 app_digest drawn kem_public rk sb eb" "eca_public_key rl = kb"
  shows "chain_accepted cr \<lparr>ev_root_layer = Some rl, ev_layers = [\<lparr>eca_certificate = bs\<rparr>],
       ev_application_keys = Some \<lparr>encryption_public_key_certificate = eb, signing_public_key_certificate = sb,
         group_encryption_public_key_certificate = [], group_signing_public_key_certificate = []\<rparr>\<rparr>"
proof -
  from assms(1) obtain ck k where ck: "cose_key_from_slice cr kb = Some ck"
      "cose_key_to_verifying_key cr ck = Ok (p256_public cr s0)"
    and k: "sealed_for cr s0 k (kernel_layer_claims m) bs" "cose_key_to_verifying_key cr k = Ok (p256_public cr s1)"
    by (auto simp: stage0_result_def)
  have "cert_signed_bytes cr (p256_public cr s1) eb" "cert_signed_bytes cr (p256_public cr s1) sb"
    using assms(2) by (auto simp: restricted_kernel_result_def intro: sealed_for_signed)
  with ck sealed_for_certifies [OF k] assms(3) show ?thesis by (auto simp: chain_accepted_def)
qed

lemma restricted_kernel_extraction:
  assumes "stage0_result cr m att tk s0 s1 d report kb bs"
    and "restricted_kernel_result cr d s1 app_digest drawn kem_public rk sb eb"
    and "extract_root_values cr rl = Ok v"
  shows "extract_evidence cr \<lparr>ev_root_layer = Some rl, ev_layers = [\<lparr>eca_certificate = bs\<rparr>],
       ev_application_keys = Some \<lparr>encryption_public_key_certificate = eb, signing_public_key_certificate = sb,
         group_encryption_public_key_certificate = [], group_signing_public_key_certificate = []\<rparr>\<rparr> =
    Ok \<lparr>evidence_values = Some (EvRestrictedKernel \<lparr>rk_root_layer = Some v, rk_kernel_layer = Some (measured_kernel m),
        rk_application_layer = Some \<lparr>application_binary = Some (sha2_256_digest app_digest),
          application_config = Some (sha2_256_digest [])\<rparr>\<rparr>),
      encryption_public_key = kem_public, signing_public_key = p256_to_sec1 cr (p256_public cr drawn)\<rparr>"
proof -
  from assms(1) obtain k where k: "sealed_for cr s0 k (kernel_layer_claims m) bs"
    by (auto simp: stage0_result_def)
  from assms(2) obtain ks ke where
    ks: "sealed_for cr s1 ks (application_layer_claims app_digest) sb" "cose_key_to_verifying_key cr ks = Ok (p256_public cr drawn)"
    and ke: "sealed_for cr s1 ke (application_layer_claims app_digest) eb" "cose_key_to_hpke_public_key ke = Ok kem_public"
    by (auto simp: restricted_kernel_result_def)
  obtain kc where kc: "claims_set_from_serialized_cert cr bs = Ok kc" "extract_kernel_values kc = Ok (measured_kernel m)"
    using sealed_for_claims [OF k] kernel_claims_read by blast
  obtain ec where ec: "claims_set_from_serialized_cert cr eb = Ok ec" "get_public_key_from_claims_set cr ec = Ok ke"
    "extract_application_layer_data ec = Ok \<lparr>application_binary = Some (sha2_256_digest app_digest),
       application_config = Some (sha2_256_digest [])\<rparr>" "\<exists>e. extract_container_layer_data ec = Error e"
    using sealed_for_claims [OF ke(1)] application_claims_read by blast
  obtain sc where sc: "claims_set_from_serialized_cert cr sb = Ok sc" "get_public_key_from_claims_set cr sc = Ok ks"
    using sealed_for_claims [OF ks(1)] by blast
  from ec(4) obtain e where e: "extract_container_layer_data ec = Error e" by blast
  show ?thesis
    by (simp add: extract_evidence_def extract_evidence_values_def extract_application_key_values_def
        extract_kernel_layer_def if_ok_def context_of_def assms(3) kc ec(1-3) e sc ke(2) ks(2))
qed

lemma generated_evidence:
  assumes "cose_ok cr" "p256_ok cr" "private_ok cr" "cbor_ok cr" "honest_reports cr att"
    and "stage0_generate_dice_data cr m att dk tk s0 s1 = Ok d" "tk = TeeAmdSevSnp \<or> tk = TeeNone"
    and "rk_generate_dice_data cr d app_digest drawn (kem_private, kem_public) = Ok rk"
    and "evidence_to_proto cr (rk_evidence rk) = Ok ev"
  shows "\<exists>rl v report. ev_root_layer ev = Some rl \<and>
    verify_dice_chain cr ev = Ok \<lparr>evidence_values = Some (EvRestrictedKernel
      \<lparr>rk_root_layer = Some v, rk_kernel_layer = Some (measured_kernel m),
       rk_application_layer = Some \<lparr>application_binary = Some (sha2_256_digest app_digest),
          application_config = Some (sha2_256_digest [])\<rparr>\<rparr>),
      encryption_public_key = kem_public, signing_public_key = p256_to_sec1 cr (p256_public cr drawn)\<rparr> \<and>
    report_ref cr (remote_attestation_report rl) = Some report \<and>
    (let h = sha2_256_of cr (eca_public_key rl) in take (length h) (report_data (report_body report)) = h)"
proof -
  obtain report kb bs where s: "stage0_result cr m att tk s0 s1 d report kb bs"
    using stage0_generated [OF assms(1-3,6)] by blast
  obtain sb eb where r: "restricted_kernel_result cr d s1 app_digest drawn kem_public rk sb eb"
    using restricted_kernel_generated [OF assms(1-3) s assms(8)] by auto
  obtain rl where rl: "root_layer_evidence_to_proto cr (s0_root_layer_evidence d) = Ok rl"
    and ev: "ev = \<lparr>ev_root_layer = Some rl, ev_layers = [\<lparr>eca_certificate = bs\<rparr>],
       ev_application_keys = Some \<lparr>encryption_public_key_certificate = eb, signing_public_key_certificate = sb,
         group_encryption_public_key_certificate = [], group_signing_public_key_certificate = []\<rparr>\<rparr>"
    using restricted_kernel_to_proto [OF assms(4) s r assms(9)] by blast
  note root_facts = stage0_root_values [OF assms(4) s assms(7,5) rl]
  from root_facts(2) obtain v where v: "extract_root_values cr rl = Ok v" by blast
  show ?thesis
    using chain_accepted_verifies [OF restricted_kernel_chain [OF s r root_facts(1)]]
      restricted_kernel_extraction [OF s r v] root_facts ev by (auto simp: Let_def)
qed

section \<open>An instance\<close>

text \<open>A codec whose items begin with their length.\<close>

definition delimit :: "bytes \<Rightarrow> bytes option" where
  "delimit bs = (if length bs < 256 then Some (word_of_nat (length bs) # bs) else None)"

definition undelimit :: "bytes \<Rightarrow> bytes option" where
  "undelimit bs = (case bs of [] \<Rightarrow> None | n # bs \<Rightarrow> if length bs < unat n then None else Some (take (unat n) bs))"

lemma undelimit_delimit: "delimit bs = Some ds \<Longrightarrow> undelimit (ds @ pad) = Some bs"
  by (auto simp: delimit_def undelimit_def unat_of_nat split: if_splits)

definition demo_key_item :: "cose_key \<Rightarrow> bytes option" where
  "demo_key_item k = Option.bind (demo_key_to k) delimit"

definition demo_item_key :: "bytes \<Rightarrow> cose_key option" where
  "demo_item_key bs = Option.bind (undelimit bs) demo_key_from"

definition demo_sign1_item :: "cose_sign1 \<Rightarrow> bytes option" where
  "demo_sign1_item c = Option.bind (demo_sign1_to c) delimit"

definition demo_item_sign1 :: "bytes \<Rightarrow> cose_sign1 option" where
  "demo_item_sign1 bs = Option.bind (undelimit bs) demo_sign1_from"

definition demo_from_reader :: "bytes \<Rightarrow> cbor_value option" where
  "demo_from_reader bs = map_option Bytes (undelimit bs)"

definition demo_into_writer :: "cbor_value \<Rightarrow> bytes option" where
  "demo_into_writer v = (case v of Bytes bs \<Rightarrow> delimit bs | _ \<Rightarrow> None)"

definition demo_generation_crates :: "claims_set list \<Rightarrow> string generation_crates" where
  "demo_generation_crates tab = verifier_crates.extend ((demo_verifier_crates tab)
     \<lparr>cose_key_to_vec := demo_key_item, cose_key_from_slice := demo_item_key,
      sign1_to_vec := demo_sign1_item, sign1_from_slice := demo_item_sign1\<rparr>)
     (generation_crates.fields demo_from_reader demo_into_writer
       (\<lambda>k. as_bytes (demo_public k)) (\<lambda>bs. Some (map char_of_byte bs)))"

lemma demo_generation_crates_simps [simp]:
  "hex_encode (demo_generation_crates tab) = hex_enc"
  "sha2_256_of (demo_generation_crates tab) bs = 2 # bs"
  "cose_key_to_vec (demo_generation_crates tab) = demo_key_item"
  "cose_key_from_slice (demo_generation_crates tab) = demo_item_key"
  "claims_build (demo_generation_crates tab) =
     (\<lambda>i sub cs. Some \<lparr>claims_issuer = Some i, claims_subject = Some sub, claims_rest = cs\<rparr>)"
  "claims_to_vec (demo_generation_crates tab) = (\<lambda>c. demo_index c tab)"
  "claims_from_slice (demo_generation_crates tab) = demo_claims_from tab"
  "sign1_create (demo_generation_crates tab) =
     (\<lambda>aad a kid p f. \<lparr>sign1_headers = [], sign1_payload = Some p, sign1_signature = f p\<rparr>)"
  "sign1_tbs (demo_generation_crates tab) = (\<lambda>c aad. case sign1_payload c of None \<Rightarrow> [] | Some p \<Rightarrow> p)"
  "sign1_to_vec (demo_generation_crates tab) = demo_sign1_item"
  "sign1_from_slice (demo_generation_crates tab) = demo_item_sign1"
  "hkdf_sha256 (demo_generation_crates tab) = (\<lambda>salt ikm info n. Some [9])"
  "p256_public (demo_generation_crates tab) = demo_public"
  "p256_sign (demo_generation_crates tab) = (\<lambda>k m. as_bytes (demo_public k) @ m)"
  "p256_sig_from_slice (demo_generation_crates tab) = (\<lambda>bs. Some (map char_of_byte bs))"
  "p256_point (demo_generation_crates tab) = (\<lambda>v. (as_bytes v, replicate 32 0))"
  "p256_from_affine (demo_generation_crates tab) = (\<lambda>x y. Some (map char_of_byte x))"
  "p256_to_sec1 (demo_generation_crates tab) = as_bytes"
  "p256_verify (demo_generation_crates tab) = (\<lambda>key contents sig. as_bytes sig = as_bytes key @ contents)"
  "report_aligned (demo_generation_crates tab) bs"
  "cbor_from_reader (demo_generation_crates tab) = demo_from_reader"
  "cbor_into_writer (demo_generation_crates tab) = demo_into_writer"
  "p256_private_bytes (demo_generation_crates tab) = (\<lambda>k. as_bytes (demo_public k))"
  "p256_private_from_slice (demo_generation_crates tab) = (\<lambda>bs. Some (map char_of_byte bs))"
  by (simp_all add: demo_generation_crates_def verifier_crates.extend_def generation_crates.fields_def
      demo_verifier_defs)

interpretation demo_items: cose_codec demo_key_item demo_item_key
  "\<lambda>i sub cs. Some \<lparr>claims_issuer = Some i, claims_subject = Some sub, claims_rest = cs\<rparr>"
  "\<lambda>c. demo_index c tab" "demo_claims_from tab"
  "\<lambda>aad a kid p f. \<lparr>sign1_headers = [], sign1_payload = Some p, sign1_signature = f p\<rparr>"
  "\<lambda>c aad. case sign1_payload c of None \<Rightarrow> [] | Some p \<Rightarrow> p" demo_sign1_item demo_item_sign1
  for tab
  by unfold_locales
    (auto simp: demo_key_item_def demo_item_key_def demo_sign1_item_def demo_item_sign1_def
      bind_eq_Some_conv demo_cose.key_round demo_cose.sign1_round demo_cose.claims_round
      dest: undelimit_delimit [where pad = "[]", simplified])

lemma delimited_item:
  "delimit y = Some bs \<Longrightarrow> \<exists>v. demo_from_reader (bs @ pad) = Some v \<and> demo_into_writer v = Some bs"
  by (simp add: demo_from_reader_def demo_into_writer_def undelimit_delimit)

interpretation demo_cbor: cbor_items demo_from_reader demo_into_writer demo_key_item demo_sign1_item
  by unfold_locales
    (auto simp: demo_key_item_def demo_sign1_item_def bind_eq_Some_conv intro: delimited_item)

lemma demo_public_idem [simp]: "demo_public (demo_public k) = demo_public k"
  by (simp add: demo_public_def)

interpretation demo_private: p256_private "\<lambda>k. as_bytes (demo_public k)" "\<lambda>bs. Some (map char_of_byte bs)"
  demo_public
  by unfold_locales simp_all

lemma demo_generation_laws:
  "cose_ok (demo_generation_crates tab)" "p256_ok (demo_generation_crates tab)"
  "cbor_ok (demo_generation_crates tab)" "private_ok (demo_generation_crates tab)"
  using demo_items.cose_codec_axioms [of tab] demo_p256.p256_scheme_axioms
    demo_cbor.cbor_items_axioms demo_private.p256_private_axioms by simp_all

text \<open>The certificates of the instance, whose claims are those of a table.\<close>

definition demo_sealed_claims :: "bytes \<Rightarrow> (reg_label \<times> cbor_value) list \<Rightarrow> claims_set" where
  "demo_sealed_claims kb cs = \<lparr>claims_issuer = Some (hex_enc [9]), claims_subject = Some (hex_enc [9]),
     claims_rest = [(PrivateUse SUBJECT_PUBLIC_KEY_ID, Bytes kb),
       (PrivateUse KEY_USAGE_ID, Bytes (le_bytes 2 (unat KeyUsage_KEY_CERT_SIGN)))] @ cs\<rparr>"

definition demo_signing_item :: "string \<Rightarrow> bytes" where
  "demo_signing_item k = 33 # 1 # as_bytes (demo_public k)"

definition demo_kem_item :: "bytes" where
  "demo_kem_item = [2, 2, 4]"

definition demo_issue :: "string \<Rightarrow> bytes \<Rightarrow> cose_sign1" where
  "demo_issue key p = \<lparr>sign1_headers = [], sign1_payload = Some p, sign1_signature = as_bytes (demo_public key) @ p\<rparr>"

lemma demo_index_mem: "c \<in> set tab \<Longrightarrow> \<exists>p. demo_index c tab = Some p"
  by (induction tab) auto

lemma demo_table:
  assumes "c \<in> set tab"
  shows "\<exists>p. demo_index c tab = Some p \<and> length p < length tab \<and> demo_claims_from tab p = Some c"
  using demo_index_mem [OF assms] by (auto simp: demo_claims_from_def dest: demo_index_nth)

lemma demo_issue_item:
  assumes "length p < 50"
  shows "\<exists>bs. demo_sign1_item (demo_issue key p) = Some bs \<and> length bs \<le> 255"
  using assms by (simp add: demo_issue_def demo_sign1_item_def demo_sign1_to_def demo_sign1_from_def
      delimit_def unat_of_nat)

lemma demo_signing_key_item:
  "verifying_key_to_cose_key (demo_generation_crates tab) (demo_public k) = (Ok ck :: (cose_key, 'e) result) \<Longrightarrow>
     demo_key_item ck = Some (demo_signing_item k)"
  by (auto simp: verifying_key_to_cose_key_def derive_verifying_key_id_def demo_key_item_def demo_key_to_def
      demo_key_from_def bytes_param_def cose_key_defs delimit_def demo_signing_item_def)

lemma demo_signing_issue:
  assumes "demo_sealed_claims (demo_signing_item k) cs \<in> set tab"
  shows "\<exists>p. length p < length tab \<and> demo_claims_from tab p = Some (demo_sealed_claims (demo_signing_item k) cs) \<and>
    generate_signing_certificate (demo_generation_crates tab) key (hex_enc [9]) (demo_public k) cs =
      Ok (demo_issue key p)"
proof -
  obtain ck where ck: "verifying_key_to_cose_key (demo_generation_crates tab) (demo_public k) =
      (Ok ck :: (cose_key, string) result)"
    by (simp add: verifying_key_to_cose_key_def derive_verifying_key_id_def)
  from demo_table [OF assms] show ?thesis
    by (auto simp: generate_signing_certificate_def ck generate_certificate_def derive_verifying_key_id_def
        demo_signing_key_item [OF ck] demo_sealed_claims_def demo_issue_def)
qed

lemma demo_kem_issue:
  assumes "demo_sealed_claims demo_kem_item cs \<in> set tab"
  shows "\<exists>p. length p < length tab \<and>
    generate_kem_certificate (demo_generation_crates tab) key (hex_enc [9]) [4] cs = Ok (demo_issue key p)"
proof -
  obtain ck where ck: "hpke_public_key_to_cose_key (demo_generation_crates tab) [4] =
      (Ok ck :: (cose_key, string) result)"
    by (simp add: hpke_public_key_to_cose_key_def derive_kem_public_key_id_def)
  have "demo_key_item ck = Some demo_kem_item"
    using ck by (auto simp: hpke_public_key_to_cose_key_def derive_kem_public_key_id_def demo_key_item_def
        demo_key_to_def demo_key_from_def bytes_param_def cose_key_defs delimit_def demo_kem_item_def)
  with demo_table [OF assms] show ?thesis
    by (auto simp: generate_kem_certificate_def ck generate_certificate_def derive_kem_public_key_id_def
        demo_sealed_claims_def demo_issue_def)
qed

lemma from_report_data_valid:
  "length n = 64 \<Longrightarrow> report_wf (from_report_data n)"
  "report_validate (from_report_data n) = Ok ()" "has_debug_flag (from_report_data n) = Ok False"
proof -
  show "length n = 64 \<Longrightarrow> report_wf (from_report_data n)"
    using report_new_zeroed_wf
    by (simp add: from_report_data_def report_wf_def report_data_wf_def signature_wf_def REPORT_DATA_SIZE_def)
  show "report_validate (from_report_data n) = Ok ()" "has_debug_flag (from_report_data n) = Ok False"
    using report_new_zeroed_valid
    by (auto simp: from_report_data_def report_validate_def report_data_validate_def validate_format_def
        has_debug_flag_def get_flags_def get_signature_algo_def get_platform_info_def get_author_key_en_def
        result_simps list_ex_iff split: if_splits)
qed

lemma mock_reports_honest: "honest_reports (demo_generation_crates tab) mock_attestation_report"
  using from_report_data_valid
  by (auto simp: honest_reports_def mock_attestation_report_def) (simp add: from_report_data_def)

lemma demo_issue_claims:
  assumes "demo_sign1_item (demo_issue key p) = Some bs" "demo_claims_from tab p = Some c"
  shows "layer_claims (demo_generation_crates tab) \<lparr>c_eca_certificate = bs @ pad\<rparr> = Ok c"
    "get_claims_set_from_certificate_bytes (demo_generation_crates tab) bs = Ok c"
  using assms reencode_sign1 [OF demo_generation_laws(3), of tab "demo_issue key p" bs pad]
    demo_items.sign1_round [of "demo_issue key p" bs]
  by (simp_all add: layer_claims_def get_claims_set_from_certificate_bytes_def demo_issue_def)

lemma demo_stage0:
  assumes "demo_sealed_claims (demo_signing_item k1) (kernel_layer_claims m) \<in> set tab" "length tab \<le> 50"
  shows "\<exists>d p bs. stage0_generate_dice_data (demo_generation_crates tab) m mock_attestation_report mock_derived_key
       TeeNone k0 k1 = Ok d \<and>
     s0_root_layer_evidence d = \<lparr>c_tee_platform = 3,
       c_remote_attestation_report = report_bytes (from_report_data
         (2 # demo_signing_item k0 @ replicate 29 0)) @ replicate 864 0,
       c_eca_public_key = demo_signing_item k0 @ replicate 222 0\<rparr> \<and>
     s0_layer_1_evidence d = \<lparr>c_eca_certificate = bs @ replicate (1024 - length bs) 0\<rparr> \<and>
     take 32 (s0_layer_1_eca_private_key d) = as_bytes (demo_public k1) \<and> 32 \<le> length (s0_layer_1_eca_private_key d) \<and>
     demo_sign1_item (demo_issue k0 p) = Some bs \<and>
     demo_claims_from tab p = Some (demo_sealed_claims (demo_signing_item k1) (kernel_layer_claims m))"
proof -
  obtain p where p: "length p < length tab"
    "demo_claims_from tab p = Some (demo_sealed_claims (demo_signing_item k1) (kernel_layer_claims m))"
    "generate_signing_certificate (demo_generation_crates tab) k0 (hex_enc [9]) (demo_public k1) (kernel_layer_claims m) =
      Ok (demo_issue k0 p)"
    using demo_signing_issue [OF assms(1)] by blast
  obtain bs where bs: "demo_sign1_item (demo_issue k0 p) = Some bs" "length bs \<le> 255"
    using demo_issue_item p(1) assms(2) by force
  obtain ck where ck: "verifying_key_to_cose_key (demo_generation_crates tab) (demo_public k0) =
      (Ok ck :: cose_key anyhow)"
    by (simp add: verifying_key_to_cose_key_def derive_verifying_key_id_def)
  have len: "length (demo_signing_item k0) = 34"
    "length (report_bytes (from_report_data (2 # demo_signing_item k0 @ replicate 29 0))) = 1184"
    by (simp_all add: demo_signing_item_def from_report_data_valid)
  from p bs demo_signing_key_item [OF ck] show ?thesis
    by (auto simp: stage0_generate_dice_data_def generate_stage1_certificate_def generate_ecdsa_key_pair_def
        derive_verifying_key_id_def ck len stage0_new_zeroed_def set_remote_attestation_report_def
        set_eca_public_key_def padded_copy_from_slice_def copy_at_def Let_def
        mock_attestation_report_def mock_derived_key_def)
qed

lemma demo_root_to_proto:
  assumes "s0_root_layer_evidence d = \<lparr>c_tee_platform = 3, c_remote_attestation_report = rep @ replicate 864 0,
       c_eca_public_key = demo_signing_item k0 @ replicate 222 0\<rparr>" "length rep = 1184"
  shows "\<exists>rl. root_layer_evidence_to_proto (demo_generation_crates tab) (s0_root_layer_evidence d) = Ok rl"
proof -
  obtain ck where ck: "verifying_key_to_cose_key (demo_generation_crates tab) (demo_public k0) =
      (Ok ck :: cose_key anyhow)"
    by (simp add: verifying_key_to_cose_key_def derive_verifying_key_id_def)
  have "cose_key_to_vec (demo_generation_crates tab) ck = Some (demo_signing_item k0)"
    using demo_signing_key_item [OF ck] by simp
  from assms reencode_key [OF demo_generation_laws(3) this] show ?thesis
    by (simp add: root_layer_evidence_to_proto_def get_tee_platform_def TeePlatform_from_repr_def
        get_remote_attestation_report_def get_eca_public_key_def sub_slice_def)
qed

definition demo_measurements :: measurements where
  "demo_measurements = \<lparr>kernel_sha2_256_digest = [1], cmdline_sha2_256_digest = [2], m_cmdline = ''quiet'',
     setup_data_sha2_256_digest = [3], ram_disk_sha2_256_digest = [4], memory_map_sha2_256_digest = [5],
     acpi_sha2_256_digest = [6]\<rparr>"

definition demo_table_claims :: "claims_set list" where
  "demo_table_claims = [demo_sealed_claims (demo_signing_item ''k'') (kernel_layer_claims demo_measurements),
     demo_sealed_claims (demo_signing_item ''l'') [],
     demo_sealed_claims (demo_signing_item ''s'') (application_layer_claims [7]),
     demo_sealed_claims demo_kem_item (application_layer_claims [7])]"

abbreviation demo_gcr :: "string generation_crates" where
  "demo_gcr \<equiv> demo_generation_crates demo_table_claims"

lemma demo_table_size: "length demo_table_claims \<le> 50" "p < length demo_table_claims \<Longrightarrow> p < 50"
  by (simp_all add: demo_table_claims_def)

lemma demo_application_certificates:
  "\<exists>p q sb eb. generate_signing_certificate demo_gcr key (hex_enc [9]) (demo_public ''s'') (application_layer_claims [7]) =
      Ok (demo_issue key p) \<and>
     generate_kem_certificate demo_gcr key (hex_enc [9]) [4] (application_layer_claims [7]) = Ok (demo_issue key q) \<and>
     demo_sign1_item (demo_issue key p) = Some sb \<and> demo_sign1_item (demo_issue key q) = Some eb \<and>
     length sb \<le> 255 \<and> length eb \<le> 255"
proof -
  have "demo_sealed_claims (demo_signing_item ''s'') (application_layer_claims [7]) \<in> set demo_table_claims"
    "demo_sealed_claims demo_kem_item (application_layer_claims [7]) \<in> set demo_table_claims"
    by (simp_all add: demo_table_claims_def)
  from demo_signing_issue [OF this(1)] demo_kem_issue [OF this(2)] show ?thesis
    by (meson demo_issue_item demo_table_size(2))
qed

lemma demo_restricted_kernel:
  "\<exists>d rk ev. stage0_generate_dice_data demo_gcr demo_measurements mock_attestation_report mock_derived_key
       TeeNone ''r'' ''k'' = Ok d \<and>
     rk_generate_dice_data demo_gcr d [7] ''s'' ([8], [4]) = Ok rk \<and>
     evidence_to_proto demo_gcr (rk_evidence rk) = Ok ev"
proof -
  have "demo_sealed_claims (demo_signing_item ''k'') (kernel_layer_claims demo_measurements) \<in> set demo_table_claims"
    by (simp add: demo_table_claims_def)
  from demo_stage0 [OF this demo_table_size(1)] obtain d p bs where
    d: "stage0_generate_dice_data demo_gcr demo_measurements mock_attestation_report mock_derived_key
       TeeNone ''r'' ''k'' = Ok d"
    and dr: "s0_root_layer_evidence d = \<lparr>c_tee_platform = 3, c_remote_attestation_report = report_bytes
       (from_report_data (2 # demo_signing_item ''r'' @ replicate 29 0)) @ replicate 864 0,
       c_eca_public_key = demo_signing_item ''r'' @ replicate 222 0\<rparr>"
    and dl: "s0_layer_1_evidence d = \<lparr>c_eca_certificate = bs @ replicate (1024 - length bs) 0\<rparr>"
    and dk: "take 32 (s0_layer_1_eca_private_key d) = as_bytes (demo_public ''k'')"
      "32 \<le> length (s0_layer_1_eca_private_key d)"
    and bs: "demo_sign1_item (demo_issue ''r'' p) = Some bs"
    and c: "demo_claims_from demo_table_claims p =
      Some (demo_sealed_claims (demo_signing_item ''k'') (kernel_layer_claims demo_measurements))"
    by blast
  obtain q q' sb eb where app:
    "generate_signing_certificate demo_gcr (demo_public ''k'') (hex_enc [9]) (demo_public ''s'')
       (application_layer_claims [7]) = Ok (demo_issue (demo_public ''k'') q)"
    "generate_kem_certificate demo_gcr (demo_public ''k'') (hex_enc [9]) [4] (application_layer_claims [7]) =
       Ok (demo_issue (demo_public ''k'') q')"
    "demo_sign1_item (demo_issue (demo_public ''k'') q) = Some sb" "length sb \<le> 255"
    "demo_sign1_item (demo_issue (demo_public ''k'') q') = Some eb" "length eb \<le> 255"
    using demo_application_certificates by blast
  have vec: "sign1_to_vec demo_gcr (demo_issue ''r'' p) = Some bs"
    "sign1_to_vec demo_gcr (demo_issue (demo_public ''k'') q) = Some sb"
    "sign1_to_vec demo_gcr (demo_issue (demo_public ''k'') q') = Some eb" using bs app by simp_all
  have "\<exists>rk. rk_generate_dice_data demo_gcr d [7] ''s'' ([8], [4]) = Ok rk \<and>
      rk_evidence rk = \<lparr>c_root_layer = s0_root_layer_evidence d, c_restricted_kernel_evidence = s0_layer_1_evidence d,
         c_app_keys = \<lparr>c_signing_public_key_certificate = sb @ replicate (1024 - length sb) 0,
           c_encryption_public_key_certificate = eb @ replicate (1024 - length eb) 0\<rparr>\<rparr>"
    using dk app demo_issue_claims(1) [OF bs c]
    by (simp add: rk_generate_dice_data_def dl sub_slice_def generate_ecdsa_key_pair_def
        certificate_to_byte_array_def copy_at_def demo_sealed_claims_def)
  moreover obtain rl where "root_layer_evidence_to_proto demo_gcr (s0_root_layer_evidence d) = Ok rl"
    using demo_root_to_proto [OF dr] by (auto simp: from_report_data_valid demo_signing_item_def)
  ultimately show ?thesis
    using d layer_to_proto [OF demo_generation_laws(3) vec(1)] reencode_sign1 [OF demo_generation_laws(3) vec(2)]
      reencode_sign1 [OF demo_generation_laws(3) vec(3)]
    by (auto simp: evidence_to_proto_def application_keys_to_proto_def dl)
qed

abbreviation demo_builder :: "root_layer_evidence \<Rightarrow> bytes \<Rightarrow> string dice_builder" where
  "demo_builder rl bs \<equiv> \<lparr>builder_evidence = \<lparr>ev_root_layer = Some rl, ev_layers = [\<lparr>eca_certificate = bs\<rparr>],
      ev_application_keys = None\<rparr>, builder_signing_key = demo_public ''k''\<rparr>"

lemma demo_first_builder:
  "\<exists>d msg rl bs. stage0_generate_dice_data demo_gcr demo_measurements mock_attestation_report mock_derived_key
       TeeNone ''r'' ''k'' = Ok d \<and>
     stage0_dice_data_to_proto demo_gcr d = Ok msg \<and> builder_try_from demo_gcr msg = Ok (demo_builder rl bs) \<and>
     get_claims_set_from_certificate_bytes demo_gcr bs =
       Ok (demo_sealed_claims (demo_signing_item ''k'') (kernel_layer_claims demo_measurements))"
proof -
  have "demo_sealed_claims (demo_signing_item ''k'') (kernel_layer_claims demo_measurements) \<in> set demo_table_claims"
    by (simp add: demo_table_claims_def)
  from demo_stage0 [OF this demo_table_size(1)] obtain d p bs where
    d: "stage0_generate_dice_data demo_gcr demo_measurements mock_attestation_report mock_derived_key
       TeeNone ''r'' ''k'' = Ok d"
    and dr: "s0_root_layer_evidence d = \<lparr>c_tee_platform = 3, c_remote_attestation_report = report_bytes
       (from_report_data (2 # demo_signing_item ''r'' @ replicate 29 0)) @ replicate 864 0,
       c_eca_public_key = demo_signing_item ''r'' @ replicate 222 0\<rparr>"
    and dl: "s0_layer_1_evidence d = \<lparr>c_eca_certificate = bs @ replicate (1024 - length bs) 0\<rparr>"
    and dk: "take 32 (s0_layer_1_eca_private_key d) = as_bytes (demo_public ''k'')"
      "32 \<le> length (s0_layer_1_eca_private_key d)"
    and bs: "demo_sign1_item (demo_issue ''r'' p) = Some bs"
    and c: "demo_claims_from demo_table_claims p =
      Some (demo_sealed_claims (demo_signing_item ''k'') (kernel_layer_claims demo_measurements))"
    by blast
  obtain rl where rl: "root_layer_evidence_to_proto demo_gcr (s0_root_layer_evidence d) = Ok rl"
    using demo_root_to_proto [OF dr] by (auto simp: from_report_data_valid demo_signing_item_def)
  have "sign1_to_vec demo_gcr (demo_issue ''r'' p) = Some bs" using bs by simp
  note re = layer_to_proto [OF demo_generation_laws(3) this] reencode_sign1 [OF demo_generation_laws(3) this]
  have "\<exists>msg. stage0_dice_data_to_proto demo_gcr d = Ok msg \<and> builder_try_from demo_gcr msg = Ok (demo_builder rl bs)"
    using dk rl re by (simp add: stage0_dice_data_to_proto_def dl sub_slice_def builder_try_from_def)
  with d demo_issue_claims(2) [OF bs c] show ?thesis by blast
qed

lemma demo_built:
  "\<exists>d msg b b' ev. stage0_generate_dice_data demo_gcr demo_measurements mock_attestation_report mock_derived_key
       TeeNone ''r'' ''k'' = Ok d \<and>
     stage0_dice_data_to_proto demo_gcr d = Ok msg \<and> builder_try_from demo_gcr msg = Ok b \<and>
     builder_step demo_gcr b b' \<and>
     add_application_keys demo_gcr b' (application_layer_claims [7]) [4] (p256_public demo_gcr ''s'') None None = Ok ev"
proof -
  obtain d msg rl bs where b: "stage0_generate_dice_data demo_gcr demo_measurements mock_attestation_report
       mock_derived_key TeeNone ''r'' ''k'' = Ok d"
    "stage0_dice_data_to_proto demo_gcr d = Ok msg" "builder_try_from demo_gcr msg = Ok (demo_builder rl bs)"
    "get_claims_set_from_certificate_bytes demo_gcr bs =
       Ok (demo_sealed_claims (demo_signing_item ''k'') (kernel_layer_claims demo_measurements))"
    using demo_first_builder by blast
  have "demo_sealed_claims (demo_signing_item ''l'') [] \<in> set demo_table_claims"
    by (simp add: demo_table_claims_def)
  from demo_signing_issue [OF this] obtain q ls where q:
    "demo_claims_from demo_table_claims q = Some (demo_sealed_claims (demo_signing_item ''l'') [])"
    "generate_signing_certificate demo_gcr (demo_public ''k'') (hex_enc [9]) (demo_public ''l'') [] =
       Ok (demo_issue (demo_public ''k'') q)" "demo_sign1_item (demo_issue (demo_public ''k'') q) = Some ls"
    by (meson demo_issue_item demo_table_size(2))
  let ?b' = "\<lparr>builder_evidence = \<lparr>ev_root_layer = Some rl, ev_layers = [\<lparr>eca_certificate = bs\<rparr>, \<lparr>eca_certificate = ls\<rparr>],
      ev_application_keys = None\<rparr>, builder_signing_key = ''l''\<rparr>"
  have "add_layer demo_gcr (demo_builder rl bs) [] ''l'' = Ok ?b'"
    using q b(4)
    by (simp add: add_layer_def last_layer_subject_def generate_ecdsa_key_pair_def demo_sealed_claims_def context_of_def)
  then have step: "builder_step demo_gcr (demo_builder rl bs) ?b'" by (rule step_layer)
  obtain q q' sb eb where
    "generate_signing_certificate demo_gcr ''l'' (hex_enc [9]) (demo_public ''s'')
       (application_layer_claims [7]) = Ok (demo_issue ''l'' q)"
    "generate_kem_certificate demo_gcr ''l'' (hex_enc [9]) [4] (application_layer_claims [7]) = Ok (demo_issue ''l'' q')"
    "demo_sign1_item (demo_issue ''l'' q) = Some sb" "demo_sign1_item (demo_issue ''l'' q') = Some eb"
    using demo_application_certificates by blast
  then have "\<exists>ev. add_application_keys demo_gcr ?b' (application_layer_claims [7]) [4] (p256_public demo_gcr ''s'')
      None None = Ok ev"
    using demo_issue_claims(2) [OF q(3,1)]
    by (simp add: add_application_keys_def sealed_certificate_def last_layer_subject_def demo_sealed_claims_def
        context_of_def)
  with b step show ?thesis by blast
qed

section \<open>Properties\<close>

text \<open>C7. Evidence built in stages verifies: starting from the DICE data of stage 0, after any number
  of further layers and transfers between stages, the evidence with application keys passes every
  signature check of the verifier, so that the verdict is the extraction of its values.\<close>
theorem built_evidence_chain_verifies:
  assumes "cose_ok cr" "p256_ok cr" "private_ok cr" "cbor_ok cr"
    and "stage0_generate_dice_data cr m att dk tk s0 s1 = Ok d"
    and "stage0_dice_data_to_proto cr d = Ok msg" "builder_try_from cr msg = Ok b"
    and "(builder_step cr)\<^sup>*\<^sup>* b b'"
    and "add_application_keys cr b' cs kem (p256_public cr app_key) group_kem group_key = Ok ev"
  shows "verify_dice_chain cr ev = extract_evidence cr ev"
proof -
  have "builder_ok cr b'"
    using builder_steps_ok [OF assms(1-3,8) stage0_builder_ok [OF assms(1-7)]] .
  then obtain rl ck root_key where b: "ev_root_layer (builder_evidence b') = Some rl"
     "cose_key_from_slice cr (eca_public_key rl) = Some ck" "cose_key_to_verifying_key cr ck = Ok root_key"
     "chain cr root_key (ev_layers (builder_evidence b')) (p256_public cr (builder_signing_key b'))"
    by (auto simp: builder_ok_def)
  from assms(9) obtain issuer ec sc e s ge gs where
    gen: "generate_kem_certificate cr (builder_signing_key b') issuer kem cs = Ok ec" "sign1_to_vec cr ec = Some e"
      "generate_signing_certificate cr (builder_signing_key b') issuer (p256_public cr app_key) cs = Ok sc"
      "sign1_to_vec cr sc = Some s"
    and ev: "ev = (builder_evidence b')\<lparr>ev_application_keys := Some
       \<lparr>encryption_public_key_certificate = e, signing_public_key_certificate = s,
        group_encryption_public_key_certificate = ge, group_signing_public_key_certificate = gs\<rparr>\<rparr>"
    by (auto simp: add_application_keys_def sealed_certificate_def result_simps)
  have "cert_signed_bytes cr (p256_public cr (builder_signing_key b')) e"
    "cert_signed_bytes cr (p256_public cr (builder_signing_key b')) s"
    using sealed_kem_key [OF assms(1,2) gen(2,1)] sealed_signing_key [OF assms(1,2) gen(4,3)]
    by (auto intro: sealed_for_signed)
  with b ev have "chain_accepted cr ev" by (auto simp: chain_accepted_def)
  then show ?thesis by (rule chain_accepted_verifies)
qed

theorem built_evidence_chain_verifies_witness:
  "\<exists>b b' ev. builder_step demo_gcr b b' \<and> add_application_keys demo_gcr b' (application_layer_claims [7]) [4]
     (p256_public demo_gcr ''s'') None None = Ok ev \<and> verify_dice_chain demo_gcr ev = extract_evidence demo_gcr ev"
  using demo_built built_evidence_chain_verifies [OF demo_generation_laws(1,2,4,3)] by (meson r_into_rtranclp)

text \<open>C4. What the restricted kernel generates is what the verifier reads: the evidence of stage 0
  and the restricted kernel, converted to messages, passes the DICE chain and yields exactly the
  measurements that stage 0 took, the digest of the application and the two application keys; and the
  attestation report binds the root key.\<close>
theorem generated_evidence_verifies:
  assumes "cose_ok cr" "p256_ok cr" "private_ok cr" "cbor_ok cr" "honest_reports cr att"
    and "stage0_generate_dice_data cr m att dk tk s0 s1 = Ok d" "tk = TeeAmdSevSnp \<or> tk = TeeNone"
    and "rk_generate_dice_data cr d app_digest drawn (kem_private, kem_public) = Ok rk"
    and "evidence_to_proto cr (rk_evidence rk) = Ok ev"
  shows "\<exists>rl v report. ev_root_layer ev = Some rl \<and>
    verify_dice_chain cr ev = Ok \<lparr>evidence_values = Some (EvRestrictedKernel
      \<lparr>rk_root_layer = Some v, rk_kernel_layer = Some (measured_kernel m),
       rk_application_layer = Some \<lparr>application_binary = Some (sha2_256_digest app_digest),
          application_config = Some (sha2_256_digest [])\<rparr>\<rparr>),
      encryption_public_key = kem_public, signing_public_key = p256_to_sec1 cr (p256_public cr drawn)\<rparr> \<and>
    report_ref cr (remote_attestation_report rl) = Some report \<and>
    (let h = sha2_256_of cr (eca_public_key rl) in take (length h) (report_data (report_body report)) = h)"
  by (rule generated_evidence [OF assms])

theorem generated_evidence_verifies_witness:
  "\<exists>ev v. verify_dice_chain demo_gcr ev = Ok \<lparr>evidence_values = Some (EvRestrictedKernel
      \<lparr>rk_root_layer = Some v, rk_kernel_layer = Some (measured_kernel demo_measurements),
       rk_application_layer = Some \<lparr>application_binary = Some (sha2_256_digest [7]),
          application_config = Some (sha2_256_digest [])\<rparr>\<rparr>),
      encryption_public_key = [4], signing_public_key = as_bytes (demo_public ''s'')\<rparr>"
proof -
  obtain d rk ev where g: "stage0_generate_dice_data demo_gcr demo_measurements mock_attestation_report
       mock_derived_key TeeNone ''r'' ''k'' = Ok d"
    "rk_generate_dice_data demo_gcr d [7] ''s'' ([8], [4]) = Ok rk" "evidence_to_proto demo_gcr (rk_evidence rk) = Ok ev"
    using demo_restricted_kernel by blast
  show ?thesis
    using generated_evidence_verifies [OF demo_generation_laws(1,2,4,3) mock_reports_honest g(1) _ g(2,3)]
    by auto
qed

end
