(* ===== verification/Oak_Functions.thy ===== *)
theory Oak_Functions
  imports Oak_Wasm Oak_Hpke Oak_Generation
begin

text \<open>
  The Oak Functions service in the enclave: the instance of \<^verbatim>\<open>oak_functions_service/src/instance.rs\<close>, the
  service of \<^verbatim>\<open>oak_functions_enclave_service/src/lib.rs\<close> and the encryption around a request, of
  \<^verbatim>\<open>oak_attestation/src/handler.rs\<close>. The numbers that the hash table draws and the nonces are arguments. An
  operation that does not end is \<open>None\<close>.
\<close>

section \<open>The instance\<close>

record 'm OakFunctionsInstance =
  inst_mgr :: lookup_data_manager
  inst_module :: 'm

definition Instance_new :: "('m, 'i) wasmi \<Rightarrow> bytes \<Rightarrow> ('m OakFunctionsInstance, Status) result" where
  "Instance_new eng wasm_module =
     and_then (map_err (\<lambda>_. Status_new_with_message Internal ''couldn't initialize Wasm handler'')
       (WasmHandler_create eng wasm_module)) (\<lambda>m.
     Ok \<lparr>inst_mgr = new_empty, inst_module = m\<rparr>)"

definition inst_handle_user_request ::
  "('m, 'i) wasmi \<Rightarrow> prost \<Rightarrow> api_codec \<Rightarrow> 'm OakFunctionsInstance \<Rightarrow> bytes \<Rightarrow> (bytes, Status) result option" where
  "inst_handle_user_request eng pr cd inst request =
     Option.bind (handle_invoke eng pr cd (inst_module inst) (inst_mgr inst) request) (\<lambda>r.
     Some (and_then r (\<lambda>response. Ok (res_body response))))"

text \<open>
  The data of an extension, and the loop over entries that each follow their length: it stops at the first
  one that cannot be decoded.
\<close>

datatype extend_data = Chunk "(bytes \<times> bytes) list" | LengthDelimitedEntries bytes

type_synonym entry_decoder = "bytes \<Rightarrow> ((bytes \<times> bytes) \<times> bytes) option"

partial_function (option) insert_entries ::
  "entry_decoder \<Rightarrow> u64 \<Rightarrow> lookup_data_manager \<Rightarrow> bytes \<Rightarrow> lookup_data_manager run" where
  "insert_entries dec random m data = (case dec data of
       None \<Rightarrow> Some (Ok m)
     | Some (entry, rest) \<Rightarrow>
         Option.bind (mgr_insert m random (fst entry) (snd entry)) (\<lambda>r. case r of
           Inl x \<Rightarrow> Some (Inl x)
         | Inr m \<Rightarrow> insert_entries dec random m rest))"

text \<open>The manager's operations panic or do not end, but give no errors.\<close>

definition with_mgr ::
  "'m OakFunctionsInstance \<Rightarrow> StatusCode \<Rightarrow> lookup_data_manager run \<Rightarrow> ('m OakFunctionsInstance, Status) result option" where
  "with_mgr inst code r = map_option (\<lambda>r. and_then (map_err (Status_new_with_message code) r) (\<lambda>m.
     Ok (inst\<lparr>inst_mgr := m\<rparr>))) r"

definition inst_extend_next_lookup_data ::
  "entry_decoder \<Rightarrow> u64 \<Rightarrow> 'm OakFunctionsInstance \<Rightarrow> extend_data option \<Rightarrow> ('m OakFunctionsInstance, Status) result option" where
  "inst_extend_next_lookup_data dec random inst request = (case request of
       None \<Rightarrow> Some (Error (Status_new_with_message InvalidArgument ''no chunk in extend request''))
     | Some (Chunk items) \<Rightarrow> with_mgr inst Internal (extend_next_lookup_data (inst_mgr inst) random items)
     | Some (LengthDelimitedEntries data) \<Rightarrow> with_mgr inst Internal (insert_entries dec random (inst_mgr inst) data))"

definition inst_extend_lookup_data_chunk ::
  "u64 \<Rightarrow> 'm OakFunctionsInstance \<Rightarrow> (bytes \<times> bytes) list \<Rightarrow> ('m OakFunctionsInstance, Status) result option" where
  "inst_extend_lookup_data_chunk random inst items =
     with_mgr inst Internal (extend_next_lookup_data (inst_mgr inst) random items)"

definition inst_finish_next_lookup_data ::
  "'m OakFunctionsInstance \<Rightarrow> ('m OakFunctionsInstance, Status) result option" where
  "inst_finish_next_lookup_data inst = Some (Ok (inst\<lparr>inst_mgr := finish_next_lookup_data (inst_mgr inst)\<rparr>))"

definition inst_abort_next_lookup_data ::
  "'m OakFunctionsInstance \<Rightarrow> ('m OakFunctionsInstance, Status) result option" where
  "inst_abort_next_lookup_data inst = Some (Ok (inst\<lparr>inst_mgr := abort_next_lookup_data (inst_mgr inst)\<rparr>))"

definition inst_reserve ::
  "u64 \<Rightarrow> 'm OakFunctionsInstance \<Rightarrow> u64 \<Rightarrow> ('m OakFunctionsInstance, Status) result option" where
  "inst_reserve random inst additional_entries =
     with_mgr inst ResourceExhausted (mgr_reserve (inst_mgr inst) additional_entries random)"

section \<open>Encryption around a request\<close>

definition EncryptionHandler_invoke ::
  "('k, 'z) hpke_crates_scheme \<Rightarrow> 'k \<Rightarrow> (bytes \<Rightarrow> bytes anyhow option) \<Rightarrow> bytes \<Rightarrow> encrypted_request
     \<Rightarrow> encrypted_response anyhow option" where
  "EncryptionHandler_invoke hc private_key request_handler nonce encrypted_request =
     (case context_of ''couldn't create server encryptor'' (server_decrypt hc encrypted_request private_key) of
        Inl x \<Rightarrow> Some (Inl x)
      | Inr (server_encryptor, request, _) \<Rightarrow>
          Option.bind (request_handler request) (\<lambda>r. Some (and_then r (\<lambda>response.
            context_of ''couldn't encrypt response'' (server_encrypt hc server_encryptor nonce response [])))))"

section \<open>The service\<close>

record ('m, 'k) OakFunctionsService =
  svc_instance :: "'m OakFunctionsInstance option"
  svc_evidence :: c_evidence
  svc_key :: 'k

definition Service_new :: "c_evidence \<Rightarrow> 'k \<Rightarrow> ('m, 'k) OakFunctionsService" where
  "Service_new evidence private_key = \<lparr>svc_instance = None, svc_evidence = evidence, svc_key = private_key\<rparr>"

definition get_instance :: "('m, 'k) OakFunctionsService \<Rightarrow> ('m OakFunctionsInstance, Status) result" where
  "get_instance svc = ok_or (svc_instance svc) (Status_new_with_message FailedPrecondition ''not initialized'')"

text \<open>The instance is kept before the evidence is converted. Setting the empty cell does not fail.\<close>

definition svc_initialize ::
  "('m, 'i) wasmi \<Rightarrow> ('h, 'z) generation_crates_scheme \<Rightarrow> ('m, 'k) OakFunctionsService \<Rightarrow> bytes
     \<Rightarrow> (evidence, Status) result \<times> ('m, 'k) OakFunctionsService" where
  "svc_initialize eng gcr svc wasm_module = (case svc_instance svc of
       Some _ \<Rightarrow> (Error (Status_new_with_message FailedPrecondition ''already initialized''), svc)
     | None \<Rightarrow> (case Instance_new eng wasm_module of
         Inl x \<Rightarrow> (Inl x, svc)
       | Inr inst \<Rightarrow>
           (map_err (\<lambda>_. Status_new_with_message Internal ''failed to convert evidence to proto'')
              (evidence_to_proto gcr (svc_evidence svc)),
            svc\<lparr>svc_instance := Some inst\<rparr>)))"

definition svc_handle_user_request ::
  "('m, 'i) wasmi \<Rightarrow> prost \<Rightarrow> api_codec \<Rightarrow> ('k, 'z) hpke_crates_scheme \<Rightarrow> bytes \<Rightarrow> ('m, 'k) OakFunctionsService
     \<Rightarrow> encrypted_request option \<Rightarrow> (encrypted_response, Status) result option" where
  "svc_handle_user_request eng pr cd hc nonce svc request =
     (case get_instance svc of
        Inl x \<Rightarrow> Some (Inl x)
      | Inr inst \<Rightarrow> (case request of
          None \<Rightarrow> Some (Error (Status_new_with_message InvalidArgument
            ''InvokeRequest doesn't contain an encrypted request''))
        | Some encrypted_request \<Rightarrow>
            map_option (map_err (\<lambda>_. Status_new_with_message Internal ''couldn't call handle_user_request handler''))
              (EncryptionHandler_invoke hc (svc_key svc) (\<lambda>r.
                 map_option (\<lambda>response_result. and_then (wrapper_of_result response_result) (\<lambda>response.
                   Ok (encode_response_wrapper pr response))) (inst_handle_user_request eng pr cd inst r))
               nonce encrypted_request)))"

text \<open>The other methods forward to the instance, if there is one.\<close>

definition with_instance ::
  "('m OakFunctionsInstance \<Rightarrow> ('m OakFunctionsInstance, Status) result option) \<Rightarrow> ('m, 'k) OakFunctionsService
     \<Rightarrow> (unit, Status) result option \<times> ('m, 'k) OakFunctionsService" where
  "with_instance f svc = (case get_instance svc of
       Inl x \<Rightarrow> (Some (Inl x), svc)
     | Inr inst \<Rightarrow> (case f inst of
         None \<Rightarrow> (None, svc)
       | Some (Inl x) \<Rightarrow> (Some (Inl x), svc)
       | Some (Inr inst) \<Rightarrow> (Some (Ok ()), svc\<lparr>svc_instance := Some inst\<rparr>)))"

definition svc_extend_next_lookup_data ::
  "entry_decoder \<Rightarrow> u64 \<Rightarrow> ('m, 'k) OakFunctionsService \<Rightarrow> extend_data option
     \<Rightarrow> (unit, Status) result option \<times> ('m, 'k) OakFunctionsService" where
  "svc_extend_next_lookup_data dec random svc request =
     with_instance (\<lambda>inst. inst_extend_next_lookup_data dec random inst request) svc"

definition svc_finish_next_lookup_data ::
  "('m, 'k) OakFunctionsService \<Rightarrow> (unit, Status) result option \<times> ('m, 'k) OakFunctionsService" where
  "svc_finish_next_lookup_data svc = with_instance inst_finish_next_lookup_data svc"

definition svc_abort_next_lookup_data ::
  "('m, 'k) OakFunctionsService \<Rightarrow> (unit, Status) result option \<times> ('m, 'k) OakFunctionsService" where
  "svc_abort_next_lookup_data svc = with_instance inst_abort_next_lookup_data svc"

definition svc_stream_lookup_data ::
  "u64 \<Rightarrow> ('m, 'k) OakFunctionsService \<Rightarrow> (bytes \<times> bytes) list
     \<Rightarrow> (unit, Status) result option \<times> ('m, 'k) OakFunctionsService" where
  "svc_stream_lookup_data random svc items =
     with_instance (\<lambda>inst. Option.bind (inst_extend_lookup_data_chunk random inst items) (\<lambda>r. case r of
       Inl x \<Rightarrow> Some (Inl x)
     | Inr inst \<Rightarrow> inst_finish_next_lookup_data inst)) svc"

definition svc_reserve ::
  "u64 \<Rightarrow> ('m, 'k) OakFunctionsService \<Rightarrow> u64 \<Rightarrow> (unit, Status) result option \<times> ('m, 'k) OakFunctionsService" where
  "svc_reserve random svc additional_entries =
     with_instance (\<lambda>inst. inst_reserve random inst additional_entries) svc"

section \<open>What the service promises\<close>

text \<open>The calls of the service, a request with the nonce that its answer is encrypted under, and their results.\<close>

datatype svc_op = SvcInitialize bytes | SvcRequest bytes "encrypted_request option" | SvcExtend u64 "extend_data option"
  | SvcFinish | SvcAbort | SvcStream u64 "(bytes \<times> bytes) list" | SvcReserve u64 u64

datatype svc_out = SvcDone | SvcEvidence evidence | SvcAnswer encrypted_response

type_synonym svc_result = "(svc_out, Status) result option"

definition svc_returns :: "('a \<Rightarrow> svc_out) \<Rightarrow> ('a, Status) result option \<Rightarrow> svc_result" where
  "svc_returns f r = map_option (\<lambda>r. and_then r (\<lambda>x. Ok (f x))) r"

fun svc_exec ::
  "('m, 'i) wasmi \<Rightarrow> prost \<Rightarrow> api_codec \<Rightarrow> ('k, 'y) hpke_crates_scheme \<Rightarrow> ('h, 'z) generation_crates_scheme \<Rightarrow> entry_decoder
     \<Rightarrow> ('m, 'k) OakFunctionsService \<Rightarrow> svc_op \<Rightarrow> svc_result \<times> ('m, 'k) OakFunctionsService" where
  "svc_exec eng pr cd hc gcr dec svc (SvcInitialize b) =
     map_prod (\<lambda>r. svc_returns SvcEvidence (Some r)) id (svc_initialize eng gcr svc b)"
| "svc_exec eng pr cd hc gcr dec svc (SvcRequest nonce q) =
     (svc_returns SvcAnswer (svc_handle_user_request eng pr cd hc nonce svc q), svc)"
| "svc_exec eng pr cd hc gcr dec svc (SvcExtend random q) =
     map_prod (svc_returns (\<lambda>_. SvcDone)) id (svc_extend_next_lookup_data dec random svc q)"
| "svc_exec eng pr cd hc gcr dec svc SvcFinish =
     map_prod (svc_returns (\<lambda>_. SvcDone)) id (svc_finish_next_lookup_data svc)"
| "svc_exec eng pr cd hc gcr dec svc SvcAbort =
     map_prod (svc_returns (\<lambda>_. SvcDone)) id (svc_abort_next_lookup_data svc)"
| "svc_exec eng pr cd hc gcr dec svc (SvcStream random items) =
     map_prod (svc_returns (\<lambda>_. SvcDone)) id (svc_stream_lookup_data random svc items)"
| "svc_exec eng pr cd hc gcr dec svc (SvcReserve random n) =
     map_prod (svc_returns (\<lambda>_. SvcDone)) id (svc_reserve random svc n)"

text \<open>A call that panics or does not return is the last one of the enclave.\<close>

fun is_last :: "svc_result \<Rightarrow> bool" where
  "is_last None = True"
| "is_last (Some (Inl (Panic _))) = True"
| "is_last _ = False"

fun calls :: "('s \<Rightarrow> svc_op \<Rightarrow> svc_result \<times> 's) \<Rightarrow> 's \<Rightarrow> svc_op list \<Rightarrow> svc_result list \<times> 's" where
  "calls step s [] = ([], s)"
| "calls step s (op # ops) = (case step s op of (r, s) \<Rightarrow>
     if is_last r then ([r], s) else (case calls step s ops of (rs, s) \<Rightarrow> (r # rs, s)))"

definition svc_run ::
  "('m, 'i) wasmi \<Rightarrow> prost \<Rightarrow> api_codec \<Rightarrow> ('k, 'y) hpke_crates_scheme \<Rightarrow> ('h, 'z) generation_crates_scheme \<Rightarrow> entry_decoder
     \<Rightarrow> ('m, 'k) OakFunctionsService \<Rightarrow> svc_op list \<Rightarrow> svc_result list \<times> ('m, 'k) OakFunctionsService" where
  "svc_run eng pr cd hc gcr dec = calls (svc_exec eng pr cd hc gcr dec)"

text \<open>The entries in a byte string up to the first that cannot be decoded; there are at most as many as bytes.\<close>

fun entries_upto :: "entry_decoder \<Rightarrow> nat \<Rightarrow> bytes \<Rightarrow> (bytes \<times> bytes) list" where
  "entries_upto dec 0 data = []"
| "entries_upto dec (Suc n) data = (case dec data of None \<Rightarrow> [] | Some (e, rest) \<Rightarrow> e # entries_upto dec n rest)"

abbreviation consuming :: "entry_decoder \<Rightarrow> bool" where
  "consuming dec \<equiv> \<forall>data e rest. dec data = Some (e, rest) \<longrightarrow> length rest < length data"

text \<open>The operations on the lookup data that a method stands for.\<close>

fun svc_mgr_ops :: "entry_decoder \<Rightarrow> svc_op \<Rightarrow> mgr_op list" where
  "svc_mgr_ops dec (SvcExtend random (Some (Chunk items))) = [Extend random items]"
| "svc_mgr_ops dec (SvcExtend random (Some (LengthDelimitedEntries data))) =
     map (\<lambda>e. Insert random (fst e) (snd e)) (entries_upto dec (length data) data)"
| "svc_mgr_ops dec SvcFinish = [Finish]"
| "svc_mgr_ops dec SvcAbort = [Abort]"
| "svc_mgr_ops dec (SvcStream random items) = [Extend random items, Finish]"
| "svc_mgr_ops dec (SvcReserve random n) = [Reserve n random]"
| "svc_mgr_ops dec _ = []"

text \<open>
  The answer to an encrypted request: the response of the module on the published map, or the status with
  which the request failed, encrypted for the client.
\<close>

definition spec_answer ::
  "('m, 'i) wasmi \<Rightarrow> prost \<Rightarrow> api_codec \<Rightarrow> ('k, 'y) hpke_crates_scheme \<Rightarrow> 'k \<Rightarrow> 'm \<Rightarrow> (bytes \<rightharpoonup> bytes) \<Rightarrow> bytes
     \<Rightarrow> encrypted_request \<Rightarrow> svc_result" where
  "spec_answer eng pr cd hc key m cur nonce req =
     (let failed = Error (Status_new_with_message Internal ''couldn't call handle_user_request handler'');
          encrypted = (\<lambda>server w. case server_encrypt hc server nonce (encode_response_wrapper pr (Some w)) [] of
            Inr answer \<Rightarrow> Ok (SvcAnswer answer) | Inl (Err _) \<Rightarrow> failed | Inl (Panic e) \<Rightarrow> panic e)
      in case server_decrypt hc req key of
         Inl (Panic e) \<Rightarrow> Some (panic e)
       | Inl (Err _) \<Rightarrow> Some failed
       | Inr (server, request, _) \<Rightarrow> (case spec_response eng pr cd m cur request of
           None \<Rightarrow> None
         | Some (Inl (Panic e)) \<Rightarrow> Some (panic e)
         | Some (Inl (Err status)) \<Rightarrow> Some (encrypted server (ResponseError (proto_of_status status)))
         | Some (Inr response) \<Rightarrow> Some (encrypted server (ResponseBody response))))"

text \<open>
  The specification: no module and no data before the first successful initialisation, which happens once
  and returns the evidence; then a module and the two maps of the lookup data.
\<close>

fun svc_spec ::
  "('m, 'i) wasmi \<Rightarrow> prost \<Rightarrow> api_codec \<Rightarrow> ('k, 'y) hpke_crates_scheme \<Rightarrow> 'k \<Rightarrow> evidence \<Rightarrow> entry_decoder
     \<Rightarrow> ('m \<times> lookup_spec) option \<Rightarrow> svc_op \<Rightarrow> svc_result \<times> ('m \<times> lookup_spec) option" where
  "svc_spec eng pr cd hc key ev dec None (SvcInitialize b) = (case module_new eng b of
       None \<Rightarrow> (Some (Error (Status_new_with_message Internal ''couldn't initialize Wasm handler'')), None)
     | Some m \<Rightarrow> (Some (Ok (SvcEvidence ev)), Some (m, Map.empty, Map.empty)))"
| "svc_spec eng pr cd hc key ev dec (Some st) (SvcInitialize b) =
     (Some (Error (Status_new_with_message FailedPrecondition ''already initialized'')), Some st)"
| "svc_spec eng pr cd hc key ev dec (Some st) (SvcRequest nonce None) =
     (Some (Error (Status_new_with_message InvalidArgument ''InvokeRequest doesn't contain an encrypted request'')), Some st)"
| "svc_spec eng pr cd hc key ev dec (Some (m, cur, nxt)) (SvcRequest nonce (Some req)) =
     (spec_answer eng pr cd hc key m cur nonce req, Some (m, cur, nxt))"
| "svc_spec eng pr cd hc key ev dec (Some st) (SvcExtend random None) =
     (Some (Error (Status_new_with_message InvalidArgument ''no chunk in extend request'')), Some st)"
| "svc_spec eng pr cd hc key ev dec None op =
     (Some (Error (Status_new_with_message FailedPrecondition ''not initialized'')), None)"
| "svc_spec eng pr cd hc key ev dec (Some (m, maps)) op =
     (Some (Ok SvcDone), Some (m, foldl spec_step maps (svc_mgr_ops dec op)))"

definition svc_abs :: "('m, 'k) OakFunctionsService \<Rightarrow> ('m \<times> lookup_spec) option" where
  "svc_abs svc = map_option (\<lambda>inst. (inst_module inst, mgr_abs (inst_mgr inst))) (svc_instance svc)"

definition svc_ok :: "c_evidence \<Rightarrow> 'k \<Rightarrow> ('m, 'k) OakFunctionsService \<Rightarrow> bool" where
  "svc_ok ev key svc \<longleftrightarrow> svc_evidence svc = ev \<and> svc_key svc = key \<and>
     (case svc_instance svc of None \<Rightarrow> True | Some inst \<Rightarrow> mgr_ok (inst_mgr inst))"

text \<open>There is room for the data of the operations.\<close>

definition svc_fits :: "entry_decoder \<Rightarrow> ('m, 'k) OakFunctionsService \<Rightarrow> svc_op \<Rightarrow> bool" where
  "svc_fits dec svc op = (case svc_instance svc of None \<Rightarrow> True | Some inst \<Rightarrow> run_can (inst_mgr inst) (svc_mgr_ops dec op))"

fun all_fit :: "('s \<Rightarrow> svc_op \<Rightarrow> bool) \<Rightarrow> ('s \<Rightarrow> svc_op \<Rightarrow> svc_result \<times> 's) \<Rightarrow> 's \<Rightarrow> svc_op list \<Rightarrow> bool" where
  "all_fit fits step s [] = True"
| "all_fit fits step s (op # ops) = (fits s op \<and> (is_last (fst (step s op)) \<or> all_fit fits step (snd (step s op)) ops))"

text \<open>A step that simulates another one simulates its sequences of calls.\<close>

lemma calls_refine:
  assumes "\<And>s op. Q s \<Longrightarrow> fits s op \<Longrightarrow> \<exists>r s'. step s op = (r, s') \<and> Q s' \<and> spec (view s) op = (r, view s')"
  shows "Q s \<Longrightarrow> all_fit fits step s ops \<Longrightarrow>
    \<exists>rs s'. calls step s ops = (rs, s') \<and> Q s' \<and> calls spec (view s) ops = (rs, view s')"
proof (induction ops arbitrary: s)
  case (Cons op ops)
  from Cons.prems assms [of s op] obtain r s1 where
    e: "step s op = (r, s1)" "Q s1" "spec (view s) op = (r, view s1)" by auto
  with Cons.IH [of s1] Cons.prems show ?case by fastforce
qed simp

lemma run_then_Ok_right [simp]: "run_then r (\<lambda>m. Some (Ok m)) = r"
  by (cases r) (auto simp: run_then_def split: sum.split)

lemma insert_entries_run:
  assumes "consuming dec"
  shows "length data \<le> n \<Longrightarrow>
    insert_entries dec random m data = mgr_run m (map (\<lambda>e. Insert random (fst e) (snd e)) (entries_upto dec n data))"
proof (induction n arbitrary: m data)
  case 0
  then have "dec data = None" using assms by (cases "dec data") (auto dest!: spec)
  then show ?case by (subst insert_entries.simps) simp
next
  case (Suc n)
  show ?case
  proof (cases "dec data")
    case None
    then show ?thesis by (subst insert_entries.simps) simp
  next
    case (Some x)
    then obtain e rest where x: "dec data = Some (e, rest)" by (cases x) auto
    have "length rest \<le> n" using assms x Suc.prems by fastforce
    from Suc.IH [OF this] show ?thesis
      by (subst insert_entries.simps) (simp add: x run_then_def)
  qed
qed

text \<open>A call that works on the lookup data, and so succeeds wherever the data fit.\<close>

fun data_op :: "svc_op \<Rightarrow> bool" where
  "data_op (SvcInitialize b) = False"
| "data_op (SvcRequest nonce q) = False"
| "data_op (SvcExtend random None) = False"
| "data_op op = True"

text \<open>Every such method after initialisation runs its operations on the manager.\<close>

lemma svc_exec_mgr_run:
  assumes "consuming dec" "svc_instance svc = Some inst" "mgr_run (inst_mgr inst) (svc_mgr_ops dec op) = Some (Ok m)"
    and "data_op op"
  shows "svc_exec eng pr cd hc gcr dec svc op = (Some (Ok SvcDone), svc\<lparr>svc_instance := Some (inst\<lparr>inst_mgr := m\<rparr>)\<rparr>)"
proof (cases op)
  case (SvcExtend r q)
  then obtain d where q: "q = Some d" using assms(4) by (cases q) auto
  show ?thesis
  proof (cases d)
    case (Chunk items)
    with assms(2,3) SvcExtend q show ?thesis
      by (simp add: svc_extend_next_lookup_data_def with_instance_def get_instance_def
          inst_extend_next_lookup_data_def with_mgr_def svc_returns_def)
  next
    case (LengthDelimitedEntries data)
    with assms(2,3) SvcExtend q insert_entries_run [OF assms(1) order_refl, of r "inst_mgr inst" data] show ?thesis
      by (simp add: svc_extend_next_lookup_data_def with_instance_def get_instance_def
          inst_extend_next_lookup_data_def with_mgr_def svc_returns_def)
  qed
next
  case (SvcStream random items)
  with assms(2,3) obtain m1 where "extend_next_lookup_data (inst_mgr inst) random items = Some (Ok m1)"
      "m = finish_next_lookup_data m1"
    by (auto simp: run_then_eq_Ok)
  with assms(2) SvcStream show ?thesis
    by (simp add: svc_stream_lookup_data_def with_instance_def get_instance_def inst_extend_lookup_data_chunk_def
        inst_finish_next_lookup_data_def with_mgr_def svc_returns_def)
qed (use assms(2-4) in \<open>simp_all add: svc_finish_next_lookup_data_def svc_abort_next_lookup_data_def svc_reserve_def
    with_instance_def get_instance_def inst_finish_next_lookup_data_def inst_abort_next_lookup_data_def
    inst_reserve_def with_mgr_def svc_returns_def\<close>)

lemma svc_uninitialised:
  assumes "svc_instance svc = None" "\<And>b. op \<noteq> SvcInitialize b"
  shows "svc_exec eng pr cd hc gcr dec svc op =
      (Some (Error (Status_new_with_message FailedPrecondition ''not initialized'')), svc)"
    and "svc_spec eng pr cd hc key ev dec None op =
      (Some (Error (Status_new_with_message FailedPrecondition ''not initialized'')), None)"
  by (cases op; use assms in \<open>simp add: svc_extend_next_lookup_data_def svc_finish_next_lookup_data_def
    svc_abort_next_lookup_data_def svc_stream_lookup_data_def svc_reserve_def svc_handle_user_request_def
    with_instance_def get_instance_def svc_returns_def\<close>)+

lemma svc_spec_data:
  assumes "data_op op"
  shows "svc_spec eng pr cd hc key ev dec (Some (m, maps)) op =
    (Some (Ok SvcDone), Some (m, foldl spec_step maps (svc_mgr_ops dec op)))"
  using assms by (cases op rule: data_op.cases) simp_all

text \<open>A request is answered from the published map.\<close>

lemma inst_request_spec:
  assumes "mgr_ok (inst_mgr inst)" "mgr_abs (inst_mgr inst) = (cur, nxt)"
  shows "inst_handle_user_request eng pr cd inst request = spec_response eng pr cd (inst_module inst) cur request"
proof -
  have "htbl_ok (ld_data (create_lookup_data (inst_mgr inst)))" "htbl_map (ld_data (create_lookup_data (inst_mgr inst))) = cur"
    using assms by (simp_all add: mgr_ok_def mgr_abs_def create_lookup_data_def)
  from handle_invoke_spec [OF this, of eng pr cd "inst_module inst" request] show ?thesis
    by (simp add: inst_handle_user_request_def map_conv_bind_option comp_def)
qed

lemma svc_request_spec:
  assumes "svc_instance svc = Some inst" "mgr_ok (inst_mgr inst)" "mgr_abs (inst_mgr inst) = (cur, nxt)"
  shows "svc_returns SvcAnswer (svc_handle_user_request eng pr cd hc nonce svc (Some req)) =
    spec_answer eng pr cd hc (svc_key svc) (inst_module inst) cur nonce req"
proof (cases "server_decrypt hc req (svc_key svc)")
  case (Inl x)
  then show ?thesis using assms
    by (cases x) (simp_all add: svc_handle_user_request_def get_instance_def EncryptionHandler_invoke_def
        svc_returns_def spec_answer_def context_of_def)
next
  case (Inr x)
  obtain server request a where x: "x = (server, request, a)" by (cases x)
  show ?thesis
  proof (cases "spec_response eng pr cd (inst_module inst) cur request")
    case (Some result)
    then show ?thesis using assms Inr x
      by (cases result rule: wrapper_of_result.cases)
        (auto simp: svc_handle_user_request_def get_instance_def EncryptionHandler_invoke_def svc_returns_def
          spec_answer_def inst_request_spec context_of_def map_err_def and_then_def Let_def split: sum.split fault.split)
  qed (use assms Inr x in \<open>simp add: svc_handle_user_request_def get_instance_def EncryptionHandler_invoke_def
      svc_returns_def spec_answer_def inst_request_spec context_of_def\<close>)
qed

lemma svc_initialize_refines:
  assumes "evidence_to_proto gcr ev = Ok p" "svc_ok ev key svc"
  shows "\<exists>r svc'. svc_exec eng pr cd hc gcr dec svc (SvcInitialize b) = (r, svc') \<and> svc_ok ev key svc' \<and>
    svc_spec eng pr cd hc key p dec (svc_abs svc) (SvcInitialize b) = (r, svc_abs svc')"
proof (cases "svc_instance svc")
  case None
  show ?thesis
  proof (cases "module_new eng b")
    case M: None
    then show ?thesis using None assms(2)
      by (simp add: svc_abs_def svc_initialize_def Instance_new_def WasmHandler_create_def svc_returns_def)
  next
    case (Some m)
    then show ?thesis using None assms
      by (simp add: svc_initialize_def Instance_new_def WasmHandler_create_def svc_ok_def svc_abs_def new_empty_ok
          svc_returns_def)
  qed
qed (use assms in \<open>simp add: svc_initialize_def svc_abs_def svc_returns_def\<close>)

lemma svc_exec_refines:
  assumes "consuming dec" "evidence_to_proto gcr ev = Ok p" "svc_ok ev key svc" "svc_fits dec svc op"
  shows "\<exists>r svc'. svc_exec eng pr cd hc gcr dec svc op = (r, svc') \<and> svc_ok ev key svc' \<and>
    svc_spec eng pr cd hc key p dec (svc_abs svc) op = (r, svc_abs svc')"
proof (cases "\<exists>b. op = SvcInitialize b")
  case True
  then show ?thesis using svc_initialize_refines [OF assms(2,3)] by blast
next
  case no_init: False
  show ?thesis
  proof (cases "svc_instance svc")
    case None
    with no_init have op: "\<And>b. op \<noteq> SvcInitialize b" by blast
    show ?thesis using svc_uninitialised(2) [OF None op] None assms(3)
      by (simp add: svc_uninitialised(1) [OF None op] svc_abs_def)
  next
    case (Some inst)
    then have a: "svc_abs svc = Some (inst_module inst, mgr_abs (inst_mgr inst))" and ok: "mgr_ok (inst_mgr inst)"
      and key: "svc_key svc = key"
      using assms(3) by (simp_all add: svc_abs_def svc_ok_def)
    consider nonce where "op = SvcRequest nonce None" | nonce req where "op = SvcRequest nonce (Some req)"
      | random where "op = SvcExtend random None" | "data_op op"
      using no_init by (cases op rule: data_op.cases) (auto simp: not_Some_eq)
    then show ?thesis
    proof cases
      case 2
      obtain cur nxt where m: "mgr_abs (inst_mgr inst) = (cur, nxt)" by fastforce
      from svc_request_spec [OF Some ok m, of eng pr cd hc nonce req] show ?thesis using 2 a m key assms(3) by simp
    next
      case 4
      obtain m where m: "mgr_run (inst_mgr inst) (svc_mgr_ops dec op) = Some (Ok m)" "mgr_ok m"
          "mgr_abs m = foldl spec_step (mgr_abs (inst_mgr inst)) (svc_mgr_ops dec op)"
        using mgr_run_refines [OF ok] assms(4) Some by (auto simp: svc_fits_def)
      have "svc_spec eng pr cd hc key p dec (svc_abs svc) op = (Some (Ok SvcDone), Some (inst_module inst, mgr_abs m))"
        using svc_spec_data [OF 4] a m(3) by simp
      with svc_exec_mgr_run [OF assms(1) Some m(1) 4, of eng pr cd hc gcr] m(2) assms(3) show ?thesis
        by (simp add: svc_ok_def svc_abs_def)
    qed (use Some a assms(3) in \<open>simp_all add: svc_extend_next_lookup_data_def svc_handle_user_request_def
        with_instance_def get_instance_def inst_extend_next_lookup_data_def svc_returns_def\<close>)
  qed
qed

section \<open>Properties\<close>

text \<open>C13. From its start on, the service implements its specification, whatever the sequence of calls: it is
  initialised once, refuses every other call before that, keeps the module, builds the next lookup data
  apart from the published ones and publishes them only by finishing. Every call has the specified
  result: a data call returns, and a user request is answered with what the module responds when its lookups
  are served by exactly the published map. It can also panic or run forever with the module, and then
  no further call is served.\<close>

theorem service_refines_spec:
  assumes "consuming dec" "evidence_to_proto gcr ev = Ok p"
    and "all_fit (svc_fits dec) (svc_exec eng pr cd hc gcr dec) (Service_new ev key) ops"
  shows "\<exists>rs svc. svc_run eng pr cd hc gcr dec (Service_new ev key) ops = (rs, svc) \<and>
    calls (svc_spec eng pr cd hc key p dec) None ops = (rs, svc_abs svc)"
proof -
  let ?svc = "Service_new ev key"
  have ok: "svc_ok ev key ?svc" and none: "svc_abs ?svc = None"
    by (simp_all add: svc_ok_def svc_abs_def Service_new_def)
  from calls_refine [where Q = "svc_ok ev key" and view = svc_abs, OF svc_exec_refines [OF assms(1,2)] ok assms(3)]
  show ?thesis unfolding svc_run_def none by blast
qed

text \<open>Entries of one byte each for key and value; the byte left over at the end is ignored.\<close>

fun demo_decode_entry :: entry_decoder where
  "demo_decode_entry (k # v # rest) = Some (([k], [v]), rest)"
| "demo_decode_entry _ = None"

lemma demo_decode_entry_consuming: "consuming demo_decode_entry"
proof (intro allI impI)
  fix data e rest assume "demo_decode_entry data = Some (e, rest)"
  then show "length rest < length data" by (cases data rule: demo_decode_entry.cases) auto
qed

text \<open>The module writes one byte as its response; a client sends it a request.\<close>

abbreviation demo_module :: bytes where
  "demo_module \<equiv> [1, 0, 0, 0, 7] @ replicate 19 0"

lemma demo_handles:
  "inst_handle_user_request demo_wasmi demo_prost demo_api_codec \<lparr>inst_mgr = new_empty, inst_module = demo_module\<rparr> [3] =
     Some (Ok [7])"
proof -
  obtain s where "run_module demo_wasmi demo_prost demo_api_codec demo_module (create_wasm_api new_empty [3]) = Some (Ok s)"
      "api_response s = [7]" using demo_run by blast
  then show ?thesis by (simp add: inst_handle_user_request_def handle_invoke_def Response_create_def)
qed

lemma demo_client:
  "\<exists>cl req cl'. client_create demo_hpke_crates (public_to_bytes demo_hpke_crates (public_of_private demo_hpke_crates [1, 2])) [3] = Ok cl \<and>
     client_encrypt demo_hpke_crates cl (replicate 12 0) [3] [6] = Ok (req, cl')"
  by (simp add: client_create_def setup_base_sender_def client_encrypt_def hpke_steps demo_hpke_crates_def)

lemma demo_answer:
  "\<exists>req answer. spec_answer demo_wasmi demo_prost demo_api_codec demo_hpke_crates [1, 2] demo_module Map.empty (replicate 12 1) req =
     Some (Ok (SvcAnswer answer))"
proof -
  obtain cl req cl' where c: "client_create demo_hpke_crates
      (public_to_bytes demo_hpke_crates (public_of_private demo_hpke_crates [1, 2])) [3] = Ok cl"
    "client_encrypt demo_hpke_crates cl (replicate 12 0) [3] [6] = Ok (req, cl')" using demo_client by blast
  obtain server where "server_decrypt demo_hpke_crates req [1, 2] = Ok (server, [3], [6])"
    using hpke_session [OF demo_hpke.hpke_scheme_axioms c] by auto
  moreover have "spec_response demo_wasmi demo_prost demo_api_codec demo_module Map.empty [3] = Some (Ok [7])"
    using demo_handles inst_request_spec [of "\<lparr>inst_mgr = new_empty, inst_module = demo_module\<rparr>" Map.empty Map.empty
        demo_wasmi demo_prost demo_api_codec "[3]"]
    by (simp add: new_empty_ok)
  moreover obtain answer where "server_encrypt demo_hpke_crates server (replicate 12 1)
      (encode_response_wrapper demo_prost (Some (ResponseBody [7]))) [] = Ok answer"
    by (simp add: server_encrypt_def hpke_steps demo_hpke_crates_def)
  ultimately show ?thesis by (intro exI [of _ req] exI [of _ answer]) (simp add: spec_answer_def)
qed

theorem service_refines_spec_witness:
  "\<exists>ev p req answer svc. svc_run demo_wasmi demo_prost demo_api_codec demo_hpke_crates demo_gcr demo_decode_entry
       (Service_new ev [1, 2]) [SvcFinish, SvcInitialize demo_module, SvcRequest (replicate 12 1) (Some req),
         SvcExtend 7 (Some (LengthDelimitedEntries [1, 2, 9])), SvcFinish] =
     ([Some (Error (Status_new_with_message FailedPrecondition ''not initialized'')), Some (Ok (SvcEvidence p)),
       Some (Ok (SvcAnswer answer)), Some (Ok SvcDone), Some (Ok SvcDone)], svc) \<and>
     svc_abs svc = Some (demo_module, [[1] \<mapsto> [2]], Map.empty)"
proof -
  let ?exec = "svc_exec demo_wasmi demo_prost demo_api_codec demo_hpke_crates demo_gcr demo_decode_entry"
  let ?extend = "SvcExtend 7 (Some (LengthDelimitedEntries [1, 2, 9]))"
  obtain ev p where ev: "evidence_to_proto demo_gcr ev = Ok p" using demo_restricted_kernel by blast
  obtain req answer where a: "spec_answer demo_wasmi demo_prost demo_api_codec demo_hpke_crates [1, 2] demo_module Map.empty
      (replicate 12 1) req = Some (Ok (SvcAnswer answer))" using demo_answer by blast
  let ?ops = "[SvcFinish, SvcInitialize demo_module, SvcRequest (replicate 12 1) (Some req), ?extend, SvcFinish]"
  let ?svc = "Service_new ev [1, 2] :: (bytes, bytes) OakFunctionsService"
  let ?svc1 = "?svc\<lparr>svc_instance := Some \<lparr>inst_mgr = new_empty, inst_module = demo_module\<rparr>\<rparr>"
  have m: "module_new demo_wasmi demo_module = Some demo_module" by (simp add: demo_wasmi_def)
  have e: "svc_mgr_ops demo_decode_entry ?extend = [Insert 7 [1] [2]]" by (simp add: eval_nat_numeral(3))
  have "?exec ?svc SvcFinish = (Some (Error (Status_new_with_message FailedPrecondition ''not initialized'')), ?svc)"
      "?exec ?svc (SvcInitialize demo_module) = (Some (Ok (SvcEvidence p)), ?svc1)"
      "snd (?exec ?svc1 (SvcRequest (replicate 12 1) (Some req))) = ?svc1"
    using ev m by (simp_all add: Service_new_def svc_finish_next_lookup_data_def with_instance_def get_instance_def
        svc_initialize_def Instance_new_def WasmHandler_create_def svc_returns_def)
  moreover have "svc_fits demo_decode_entry svc SvcFinish" "svc_fits demo_decode_entry svc (SvcRequest n q)"
    for svc :: "(bytes, bytes) OakFunctionsService" and n q
    by (simp_all add: svc_fits_def split: option.split)
  moreover have "svc_fits demo_decode_entry ?svc1 ?extend" "svc_fits demo_decode_entry ?svc op" for op
    by (simp_all add: svc_fits_def e can_insert_def new_empty_def builder_default_def htbl_default_def INDEX_SIZE_def
        Service_new_def del: svc_mgr_ops.simps)
  ultimately have "all_fit (svc_fits demo_decode_entry) ?exec ?svc ?ops" by (simp del: svc_exec.simps)
  from service_refines_spec [OF demo_decode_entry_consuming ev this] obtain rs svc where
    r: "svc_run demo_wasmi demo_prost demo_api_codec demo_hpke_crates demo_gcr demo_decode_entry ?svc ?ops = (rs, svc)"
      "calls (svc_spec demo_wasmi demo_prost demo_api_codec demo_hpke_crates [1, 2] p demo_decode_entry) None ?ops =
        (rs, svc_abs svc)" by blast
  from r(2) m a have "rs = [Some (Error (Status_new_with_message FailedPrecondition ''not initialized'')),
        Some (Ok (SvcEvidence p)), Some (Ok (SvcAnswer answer)), Some (Ok SvcDone), Some (Ok SvcDone)]"
      "svc_abs svc = Some (demo_module, [[1] \<mapsto> [2]], Map.empty)"
    by (simp_all add: e del: svc_mgr_ops.simps(2))
  with r(1) show ?thesis by blast
qed

text \<open>C12. End to end: a client encrypts a request for the service's key. The service runs the module on exactly
  that request; what the client decrypts from the answer is the module's response, or the status with
  which handling the request failed. The service fails only if the cipher refuses to encrypt exactly that
  answer.\<close>

theorem user_request_round_trip:
  assumes "hpke_ok hc" "prost_ok pr" "svc_instance svc = Some inst"
    and "client_create hc (public_to_bytes hc (public_of_private hc (svc_key svc))) random = Ok cl"
    and "client_encrypt hc cl nonce request a = Ok (req, cl')" "length nonce = 12" "length nonce' = 12"
    and "inst_handle_user_request eng pr cd inst request = Some result" "no_panic result"
  shows "\<exists>r. svc_handle_user_request eng pr cd hc nonce' svc (Some req) = Some r \<and>
    (case r of
       Inr res \<Rightarrow> \<exists>bs w. client_decrypt hc cl' res = Ok (bs, []) \<and> decode_response_wrapper pr bs = Some w \<and>
         result_of_wrapper w = result
     | Inl x \<Rightarrow> x = Err (Status_new_with_message Internal ''couldn't call handle_user_request handler'') \<and>
         (\<exists>server w. server_decrypt hc req (svc_key svc) = Ok (server, request, a) \<and> result_of_wrapper w = result \<and>
           gcm_encrypt hc (response_key server) nonce' (encode_response_wrapper pr w) [] = None))"
proof -
  obtain server where server: "server_decrypt hc req (svc_key svc) = Ok (server, request, a)"
      "\<And>nonce' q b res. length nonce' = 12 \<Longrightarrow> server_encrypt hc server nonce' q b = Ok res \<Longrightarrow>
        client_decrypt hc cl' res = Ok (q, b)"
    using hpke_session [OF assms(1,4,5,6)] by blast
  obtain w where w: "wrapper_of_result result = (Ok w :: (ResponseWrapper, string list) result)" "result_of_wrapper w = result"
    using assms(9) by (cases result rule: wrapper_of_result.cases) (auto simp: no_panic_def)
  let ?bs = "encode_response_wrapper pr w"
  have h: "svc_handle_user_request eng pr cd hc nonce' svc (Some req) =
      Some (map_err (\<lambda>_. Status_new_with_message Internal ''couldn't call handle_user_request handler'')
        (context_of ''couldn't encrypt response'' (server_encrypt hc server nonce' ?bs [])))"
    using assms(3,8) server(1) w(1)
    by (simp add: svc_handle_user_request_def get_instance_def EncryptionHandler_invoke_def)
  show ?thesis
  proof (cases "gcm_encrypt hc (response_key server) nonce' ?bs []")
    case None
    then show ?thesis using server(1) w(2)
      by (auto simp: h server_encrypt_def hpke_steps context_of_def)
  next
    case (Some c)
    then obtain res where res: "server_encrypt hc server nonce' ?bs [] = Ok res"
      by (simp add: server_encrypt_def hpke_steps context_of_def)
    then show ?thesis
      using server(2) [OF assms(7) res] w(2) prost_codec.response_round [OF assms(2), of w] by (simp add: h)
  qed
qed

theorem user_request_round_trip_witness:
  "\<exists>svc req cl' r bs w. svc_handle_user_request demo_wasmi demo_prost demo_api_codec demo_hpke_crates (replicate 12 1) svc (Some req) =
       Some (Ok r) \<and> client_decrypt demo_hpke_crates cl' r = Ok (bs, []) \<and>
     decode_response_wrapper demo_prost bs = Some w \<and> result_of_wrapper w = Ok [7]"
proof -
  let ?inst = "\<lparr>inst_mgr = new_empty, inst_module = demo_module\<rparr>"
  obtain ev :: c_evidence where True by blast
  let ?svc = "\<lparr>svc_instance = Some ?inst, svc_evidence = ev, svc_key = [1, 2]\<rparr> :: (bytes, bytes) OakFunctionsService"
  obtain cl req cl' where c: "client_create demo_hpke_crates
      (public_to_bytes demo_hpke_crates (public_of_private demo_hpke_crates (svc_key ?svc))) [3] = Ok cl"
    "client_encrypt demo_hpke_crates cl (replicate 12 0) [3] [6] = Ok (req, cl')"
    using demo_client by auto
  have g: "gcm_encrypt demo_hpke_crates k n x y \<noteq> None" for k n x y by (simp add: demo_hpke_crates_def)
  obtain r where r: "svc_handle_user_request demo_wasmi demo_prost demo_api_codec demo_hpke_crates (replicate 12 1) ?svc (Some req) = Some r"
      "case r of
       Inr res \<Rightarrow> \<exists>bs w. client_decrypt demo_hpke_crates cl' res = Ok (bs, []) \<and> decode_response_wrapper demo_prost bs = Some w \<and>
         result_of_wrapper w = Ok [7]
     | Inl x \<Rightarrow> x = Err (Status_new_with_message Internal ''couldn't call handle_user_request handler'') \<and>
         (\<exists>server w. server_decrypt demo_hpke_crates req (svc_key ?svc) = Ok (server, [3], [6]) \<and> result_of_wrapper w = Ok [7] \<and>
           gcm_encrypt demo_hpke_crates (response_key server) (replicate 12 1) (encode_response_wrapper demo_prost w) [] = None)"
    using user_request_round_trip [OF demo_hpke.hpke_scheme_axioms prost_ok_demo _ c _ _ demo_handles, of "replicate 12 1"]
    by (auto simp: no_panic_def)
  show ?thesis
  proof (cases r)
    case (Inr res)
    with r show ?thesis by (simp del: ex_simps) blast
  qed (use r(2) g in auto)
qed

end
