(* ===== verification/Oak_Virtq.thy ===== *)
theory Oak_Virtq
  imports Oak_Slices "HOL-Library.Multiset"
begin

text \<open>
  The queues of the virtio drivers: the split virtqueue in the memory that driver and device share
  (\<^verbatim>\<open>oak_virtio/src/queue/virtq.rs\<close>), the driver's side of it
  (\<^verbatim>\<open>oak_virtio/src/queue/mod.rs\<close>) and the device's side, as the testing transport plays it
  (\<^verbatim>\<open>oak_virtio/src/test.rs\<close>). Driver and device take turns, so the memory fences are left out.
  The constants \<^verbatim>\<open>QUEUE_SIZE\<close> and \<^verbatim>\<open>BUFFER_SIZE\<close> are the arguments \<open>n\<close> and \<open>b\<close>. Physical
  addresses are natural numbers; the address that the buffer is translated to is an argument.
\<close>

section \<open>The shared memory\<close>

record Desc =
  addr :: nat
  desc_length :: u32
  desc_flags :: u16
  desc_next :: u16

abbreviation (input) VIRTQ_DESC_F_NEXT :: u16 where "VIRTQ_DESC_F_NEXT \<equiv> 1"

abbreviation (input) VIRTQ_DESC_F_WRITE :: u16 where "VIRTQ_DESC_F_WRITE \<equiv> 2"

abbreviation (input) VIRTQ_DESC_F_INDIRECT :: u16 where "VIRTQ_DESC_F_INDIRECT \<equiv> 4"

abbreviation (input) NO_NOTIFY :: u16 where "NO_NOTIFY \<equiv> 1"

definition desc_flag :: "u16 \<Rightarrow> u16 \<Rightarrow> bool" where
  "desc_flag flags f \<longleftrightarrow> flags AND f = f"

definition Desc_new :: "u16 \<Rightarrow> nat \<Rightarrow> u32 \<Rightarrow> Desc anyhow" where
  "Desc_new flags a len =
     (if desc_flag flags VIRTQ_DESC_F_INDIRECT then panic ''indirect descriptors not supported''
      else if desc_flag flags VIRTQ_DESC_F_NEXT then panic ''chained descriptors not supported''
      else Ok \<lparr>addr = a, desc_length = len, desc_flags = flags, desc_next = 0\<rparr>)"

record AvailRing =
  avail_flags :: u16
  avail_idx :: u16
  avail_slots :: "u16 list"
  used_event :: u16

definition AvailRing_default :: "nat \<Rightarrow> AvailRing" where
  "AvailRing_default n =
     \<lparr>avail_flags = NO_NOTIFY, avail_idx = 0, avail_slots = replicate n 0, used_event = 0\<rparr>"

record UsedElem =
  elem_id :: u32
  elem_len :: u32

record UsedRing =
  used_flags :: u16
  used_idx :: u16
  used_slots :: "UsedElem list"
  avail_event :: u16

definition UsedRing_default :: "nat \<Rightarrow> UsedRing" where
  "UsedRing_default n = \<lparr>used_flags = 0, used_idx = 0,
     used_slots = replicate n \<lparr>elem_id = 0, elem_len = 0\<rparr>, avail_event = 0\<rparr>"

record VirtQueue =
  descs :: "Desc list"
  avail :: AvailRing
  used :: UsedRing

record Queue =
  virt_queue :: VirtQueue
  buffer :: bytes
  base_offset :: nat
  last_used_idx :: u16

section \<open>The driver's side\<close>

definition is_power_of_two :: "nat \<Rightarrow> bool" where
  "is_power_of_two n \<longleftrightarrow> n \<noteq> 0 \<and> n AND (n - 1) = 0"

text \<open>A physical address has 52 bits; an addition that leaves them panics.\<close>

definition addr_add :: "nat \<Rightarrow> nat \<Rightarrow> nat anyhow" where
  "addr_add a k = (if a + k < 2 ^ 52 then Ok (a + k) else panic ''address out of range'')"

definition Queue_new :: "nat \<Rightarrow> nat \<Rightarrow> u16 \<Rightarrow> nat option \<Rightarrow> Queue anyhow" where
  "Queue_new n b flags translated =
     (if \<not> is_power_of_two n then panic ''queue size must be a power of 2''
      else and_then (expect translated ''called unwrap on None'') (\<lambda>base.
        and_then (try_map (\<lambda>i. and_then (addr_add base (i * b)) (\<lambda>a. Desc_new flags a (word_of_nat b)))
          [0..<n]) (\<lambda>ds.
        Ok \<lparr>virt_queue = \<lparr>descs = ds, avail = AvailRing_default n, used = UsedRing_default n\<rparr>,
            buffer = replicate (b * n) 0, base_offset = base, last_used_idx = 0\<rparr>)))"

definition must_notify_device :: "Queue \<Rightarrow> bool" where
  "must_notify_device q \<longleftrightarrow> \<not> desc_flag (used_flags (used (virt_queue q))) NO_NOTIFY"

text \<open>The start of a slice of the buffer that is known to lie in it.\<close>

definition get_mut_slice_from_index :: "Queue \<Rightarrow> nat \<Rightarrow> nat \<Rightarrow> nat anyhow" where
  "get_mut_slice_from_index q index len =
     and_then (index_at (descs (virt_queue q)) index) (\<lambda>d.
     if addr d < base_offset q then panic ''attempt to subtract with overflow''
     else let start = addr d - base_offset q in
       if start + len \<le> length (buffer q) then Ok start else panic ''range out of bounds'')"

definition get_next_used_element :: "nat \<Rightarrow> Queue \<Rightarrow> (UsedElem option \<times> Queue) anyhow" where
  "get_next_used_element n q =
     (let next_used = last_used_idx q in
      if next_used = used_idx (used (virt_queue q)) then Ok (None, q)
      else and_then (index_at (used_slots (used (virt_queue q))) (unat next_used mod n)) (\<lambda>e.
        Ok (Some e, q\<lparr>last_used_idx := next_used + 1\<rparr>)))"

definition add_available_descriptor :: "nat \<Rightarrow> Queue \<Rightarrow> u16 \<Rightarrow> Queue anyhow" where
  "add_available_descriptor n q index =
     (let vq = virt_queue q; av = avail vq in
      and_then (set_at (avail_slots av) (unat (avail_idx av) mod n) index) (\<lambda>slots.
      Ok (q\<lparr>virt_queue := vq\<lparr>avail := av\<lparr>avail_slots := slots, avail_idx := avail_idx av + 1\<rparr>\<rparr>\<rparr>)))"

record DriverWriteOnlyQueue =
  inner :: Queue
  free_ids :: "u16 list"

text \<open>The range \<^verbatim>\<open>0..QUEUE_SIZE as u16\<close>.\<close>

definition all_ids :: "nat \<Rightarrow> u16 list" where
  "all_ids n = map word_of_nat [0..<unat (word_of_nat n :: u16)]"

definition DriverWriteOnlyQueue_new :: "nat \<Rightarrow> nat \<Rightarrow> nat option \<Rightarrow> DriverWriteOnlyQueue anyhow" where
  "DriverWriteOnlyQueue_new n b translated =
     and_then (Queue_new n b 0 translated) (\<lambda>q.
     Ok \<lparr>inner = q, free_ids = all_ids n\<rparr>)"

text \<open>The loop that takes back what the device has used: the distance of the two indices shrinks.\<close>

definition used_dist :: "Queue \<Rightarrow> nat" where
  "used_dist q = unat (used_idx (used (virt_queue q)) - last_used_idx q)"

lemma unat_minus_one_less: "x \<noteq> 0 \<Longrightarrow> unat (x - 1) < unat (x :: u16)"
  by (metis lessI unat_minus_one unat_gt_0 Suc_pred' word_neq_0_conv)

lemma get_next_used_element_dist:
  "get_next_used_element n q = Ok (Some e, q') \<Longrightarrow> used_dist q' < used_dist q"
  by (auto simp: get_next_used_element_def used_dist_def Let_def result_simps diff_diff_eq [symmetric]
      split: if_splits intro!: unat_minus_one_less)

function reclaim :: "nat \<Rightarrow> DriverWriteOnlyQueue \<Rightarrow> DriverWriteOnlyQueue anyhow" where
  "reclaim n d = (case get_next_used_element n (inner d) of
       Inl x \<Rightarrow> Inl x
     | Inr (None, q) \<Rightarrow> Ok (d\<lparr>inner := q\<rparr>)
     | Inr (Some e, q) \<Rightarrow> reclaim n (d\<lparr>inner := q, free_ids := free_ids d @ [ucast (elem_id e)]\<rparr>))"
  by pat_completeness auto
termination
  by (relation "measure (\<lambda>(n, d). used_dist (inner d))") (auto intro: get_next_used_element_dist)

declare reclaim.simps [simp del]

definition write_buffer ::
    "nat \<Rightarrow> nat \<Rightarrow> DriverWriteOnlyQueue \<Rightarrow> bytes \<Rightarrow> (nat option \<times> DriverWriteOnlyQueue) anyhow" where
  "write_buffer n b d data =
     and_then (reclaim n d) (\<lambda>d.
     let len = min (length data) b in
     if free_ids d = [] then Ok (None, d)
     else let i = last (free_ids d); q = inner d in
       and_then (get_mut_slice_from_index q (unat i) len) (\<lambda>start.
       let vq = virt_queue q;
           ds = (descs vq)[unat i := (descs vq ! unat i)\<lparr>desc_length := word_of_nat len\<rparr>];
           q = q\<lparr>buffer := overwrite (buffer q) start (take len data), virt_queue := vq\<lparr>descs := ds\<rparr>\<rparr> in
       and_then (add_available_descriptor n q i) (\<lambda>q.
       Ok (Some len, \<lparr>inner = q, free_ids = butlast (free_ids d)\<rparr>))))"

definition DeviceWriteOnlyQueue_new :: "nat \<Rightarrow> nat \<Rightarrow> nat option \<Rightarrow> Queue anyhow" where
  "DeviceWriteOnlyQueue_new n b translated =
     and_then (Queue_new n b VIRTQ_DESC_F_WRITE translated) (\<lambda>q.
     try_fold (add_available_descriptor n) q (all_ids n))"

definition read_next_used_buffer :: "nat \<Rightarrow> Queue \<Rightarrow> (bytes option \<times> Queue) anyhow" where
  "read_next_used_buffer n q =
     and_then (get_next_used_element n q) (\<lambda>(elem, q). case elem of
       None \<Rightarrow> Ok (None, q)
     | Some e \<Rightarrow>
         and_then (get_mut_slice_from_index q (unat (elem_id e)) (unat (elem_len e))) (\<lambda>start.
         let result = slice (buffer q) start (unat (elem_len e)) in
         and_then (add_available_descriptor n q (ucast (elem_id e))) (\<lambda>q. Ok (Some result, q))))"

section \<open>The device's side\<close>

definition get_desc :: "nat \<Rightarrow> Queue \<Rightarrow> u16 \<Rightarrow> Desc anyhow" where
  "get_desc n q index =
     (if unat index < n then index_at (descs (virt_queue q)) (unat index)
      else panic ''assertion failed: (index as usize) < QUEUE_SIZE'')"

text \<open>The device goes by raw addresses; those outside the buffer are memory of someone else.\<close>

definition device_range :: "Queue \<Rightarrow> nat \<Rightarrow> nat \<Rightarrow> nat anyhow" where
  "device_range q a len =
     (if base_offset q \<le> a \<and> a + len \<le> base_offset q + length (buffer q) then Ok (a - base_offset q)
      else panic ''outside the buffer'')"

definition device_read_once_from_queue :: "nat \<Rightarrow> Queue \<Rightarrow> (bytes option \<times> Queue) anyhow" where
  "device_read_once_from_queue n q =
     (let vq = virt_queue q; av = avail vq; us = used vq in
      if avail_idx av = used_idx us then Ok (None, q)
      else let ring_index = unat (used_idx us) mod n in
        and_then (index_at (avail_slots av) ring_index) (\<lambda>index.
        and_then (get_desc n q index) (\<lambda>desc.
        if desc_flag (desc_flags desc) VIRTQ_DESC_F_WRITE then panic ''assertion failed''
        else and_then (set_at (used_slots us) ring_index \<lparr>elem_id = ucast index, elem_len = 0\<rparr>) (\<lambda>slots.
          let q = q\<lparr>virt_queue := vq\<lparr>used := us\<lparr>used_slots := slots, used_idx := used_idx us + 1\<rparr>\<rparr>\<rparr> in
          and_then (device_range q (addr desc) (unat (desc_length desc))) (\<lambda>start.
          Ok (Some (slice (buffer q) start (unat (desc_length desc))), q))))))"

definition device_write_to_queue :: "nat \<Rightarrow> Queue \<Rightarrow> bytes \<Rightarrow> (nat option \<times> Queue) anyhow" where
  "device_write_to_queue n q data =
     (let vq = virt_queue q; av = avail vq; us = used vq in
      if avail_idx av = used_idx us then Ok (None, q)
      else let ring_index = unat (used_idx us) mod n in
        and_then (index_at (avail_slots av) ring_index) (\<lambda>index.
        and_then (get_desc n q index) (\<lambda>desc.
        let len = min (length data) (unat (desc_length desc)) in
        if \<not> desc_flag (desc_flags desc) VIRTQ_DESC_F_WRITE then panic ''assertion failed''
        else and_then (set_at (used_slots us) ring_index
            \<lparr>elem_id = ucast index, elem_len = word_of_nat len\<rparr>) (\<lambda>slots.
          let q = q\<lparr>virt_queue := vq\<lparr>used := us\<lparr>used_slots := slots, used_idx := used_idx us + 1\<rparr>\<rparr>\<rparr> in
          and_then (device_range q (addr desc) len) (\<lambda>start.
          if length data \<noteq> len then panic ''source slice length does not match''
          else Ok (Some len, q\<lparr>buffer := overwrite (buffer q) start data\<rparr>))))))"

section \<open>Rings\<close>

text \<open>The entries between two free-running indices of a ring, the second one excluded.\<close>

definition ring_list :: "nat \<Rightarrow> 'a list \<Rightarrow> u16 \<Rightarrow> u16 \<Rightarrow> 'a list" where
  "ring_list n slots i j = map (\<lambda>k. slots ! (unat (i + word_of_nat k) mod n)) [0..<unat (j - i)]"

text \<open>The sizes for which the indices of a ring stay in step when they wrap around: a power of two
  below \<open>2 ^ 16\<close>.\<close>

definition ring_size :: "nat \<Rightarrow> bool" where
  "ring_size n \<longleftrightarrow> (\<exists>k \<le> 15. n = 2 ^ k)"

lemma ring_size_pos: "ring_size n \<Longrightarrow> 0 < n"
  by (auto simp: ring_size_def)

lemma ring_size_less: "ring_size n \<Longrightarrow> n < 2 ^ 16"
proof -
  assume "ring_size n"
  then obtain k where "k \<le> 15" "n = 2 ^ k" by (auto simp: ring_size_def)
  then show ?thesis by (simp only: power_strict_increasing_iff)
qed

lemma ring_size_dvd: "ring_size n \<Longrightarrow> n dvd 2 ^ 16"
  by (auto simp: ring_size_def simp del: power_numeral intro: le_imp_power_dvd)

lemma ring_list_same [simp]: "ring_list n slots i i = []"
  by (simp add: ring_list_def)

lemma length_ring_list [simp]: "length (ring_list n slots i j) = unat (j - i)"
  by (simp add: ring_list_def)

lemma ring_list_Nil_iff: "ring_list n slots i j = [] \<longleftrightarrow> i = j"
  by (auto simp: ring_list_def unat_eq_0)

lemma ring_list_pop:
  assumes "i \<noteq> j"
  shows "ring_list n slots i j = slots ! (unat i mod n) # ring_list n slots (i + 1) j"
proof -
  have "j - i \<noteq> 0" using assms by simp
  then have "unat (j - i) = Suc (unat (j - i - 1))"
    by (metis Suc_pred' unat_gt_0 unat_minus_one word_neq_0_conv)
  then have d: "unat (j - i) = Suc (unat (j - (i + 1)))" by (simp add: diff_diff_eq)
  show ?thesis
    unfolding ring_list_def d
    by (simp add: upt_conv_Cons map_Suc_upt [symmetric] o_def add_ac del: upt_Suc)
qed

lemma ring_list_ConsD:
  assumes "ring_list n slots i j = x # xs"
  shows "i \<noteq> j" "slots ! (unat i mod n) = x" "ring_list n slots (i + 1) j = xs"
proof -
  show ne: "i \<noteq> j" using assms by auto
  show "slots ! (unat i mod n) = x" "ring_list n slots (i + 1) j = xs"
    using assms unfolding ring_list_pop [OF ne] by simp_all
qed

lemma ring_index_mod:
  assumes "ring_size n"
  shows "unat (i + word_of_nat k :: u16) mod n = (unat i + k) mod n"
proof -
  have "unat (i + word_of_nat k :: u16) = (unat i + k) mod 2 ^ 16"
    by (simp add: unat_word_ariths unat_of_nat mod_simps)
  then show ?thesis using ring_size_dvd [OF assms] by (simp add: mod_mod_cancel)
qed

lemma ring_slots_differ:
  assumes n: "ring_size n" and k: "k < unat (j - i)" and d: "unat (j - i) < n"
  shows "unat (i + word_of_nat k :: u16) mod n \<noteq> unat j mod n"
proof
  assume e: "unat (i + word_of_nat k) mod n = unat j mod n"
  have "j = i + word_of_nat (unat (j - i))" by simp
  then have "unat j mod n = (unat i + unat (j - i)) mod n"
    using ring_index_mod [OF n, of i "unat (j - i)"] by simp
  with e have "(unat i + unat (j - i)) mod n = (unat i + k) mod n"
    using ring_index_mod [OF n, of i k] by simp
  then have "n dvd unat (j - i) - k" using k by (simp add: mod_eq_dvd_iff_nat)
  then show False using k d by (auto dest: dvd_imp_le)
qed

lemma ring_list_push:
  assumes n: "ring_size n" and l: "length slots = n" and d: "unat (j - i) < n"
  shows "ring_list n (slots[unat j mod n := v]) i (j + 1) = ring_list n slots i j @ [v]"
proof -
  have "unat (j - i + 1) = Suc (unat (j - i))"
    using d ring_size_less [OF n] by (subst unat_word_ariths) simp
  then have s: "unat (j + 1 - i) = Suc (unat (j - i))" by (simp add: algebra_simps)
  have "unat j mod n < n" using ring_size_pos [OF n] by simp
  then show ?thesis
    unfolding ring_list_def s using l ring_slots_differ [OF n _ d, THEN not_sym] by simp
qed

section \<open>Bounded pipes of messages\<close>

text \<open>
  What both kinds of queue promise: a first-in first-out pipe for up to \<open>n\<close> messages of up to \<open>b\<close>
  bytes. Sending fails, with no effect, exactly when the pipe is full; receiving, when it is empty.
\<close>

locale message_pipe =
  fixes n b :: nat and ok :: "'s \<Rightarrow> bool" and content :: "'s \<Rightarrow> bytes list"
    and send :: "'s \<Rightarrow> bytes \<Rightarrow> (nat option \<times> 's) anyhow"
    and recv :: "'s \<Rightarrow> (bytes option \<times> 's) anyhow"
  assumes content_bound: "ok s \<Longrightarrow> length (content s) \<le> n"
    and send_full: "ok s \<Longrightarrow> length data \<le> b \<Longrightarrow> length (content s) = n \<Longrightarrow>
      \<exists>s'. send s data = Ok (None, s') \<and> ok s' \<and> content s' = content s"
    and send_room: "ok s \<Longrightarrow> length data \<le> b \<Longrightarrow> length (content s) < n \<Longrightarrow>
      \<exists>s'. send s data = Ok (Some (length data), s') \<and> ok s' \<and> content s' = content s @ [data]"
    and recv_empty: "ok s \<Longrightarrow> content s = [] \<Longrightarrow>
      \<exists>s'. recv s = Ok (None, s') \<and> ok s' \<and> content s' = []"
    and recv_next: "ok s \<Longrightarrow> content s = m # ms \<Longrightarrow>
      \<exists>s'. recv s = Ok (Some m, s') \<and> ok s' \<and> content s' = ms"

datatype pipe_op = Send bytes | Recv

text \<open>A sequence of operations, with the messages that were accepted and those that came out.\<close>

fun pipe_run :: "('s \<Rightarrow> bytes \<Rightarrow> (nat option \<times> 's) anyhow) \<Rightarrow> ('s \<Rightarrow> (bytes option \<times> 's) anyhow)
    \<Rightarrow> pipe_op list \<Rightarrow> 's \<Rightarrow> (bytes list \<times> bytes list \<times> 's) anyhow" where
  "pipe_run send recv [] s = Ok ([], [], s)"
| "pipe_run send recv (Send data # ops) s =
     and_then (send s data) (\<lambda>(r, s).
     and_then (pipe_run send recv ops s) (\<lambda>(acc, got, s).
     Ok (if r = None then acc else data # acc, got, s)))"
| "pipe_run send recv (Recv # ops) s =
     and_then (recv s) (\<lambda>(r, s).
     and_then (pipe_run send recv ops s) (\<lambda>(acc, got, s).
     Ok (acc, (case r of None \<Rightarrow> got | Some m \<Rightarrow> m # got), s)))"

text \<open>The same operations on a bounded first-in first-out list.\<close>

fun fifo_run :: "nat \<Rightarrow> pipe_op list \<Rightarrow> bytes list \<Rightarrow> bytes list \<times> bytes list \<times> bytes list" where
  "fifo_run n [] c = ([], [], c)"
| "fifo_run n (Send data # ops) c =
     (if length c < n then let (acc, got, c') = fifo_run n ops (c @ [data]) in (data # acc, got, c')
      else fifo_run n ops c)"
| "fifo_run n (Recv # ops) [] = fifo_run n ops []"
| "fifo_run n (Recv # ops) (m # ms) = (let (acc, got, c') = fifo_run n ops ms in (acc, m # got, c'))"

lemma fifo_run_in_order: "fifo_run n ops c = (acc, got, c') \<Longrightarrow> c @ acc = got @ c'"
  by (induction n ops c arbitrary: acc got rule: fifo_run.induct) (auto split: if_splits prod.splits)

context message_pipe
begin

lemma run_refines:
  assumes "ok s" and "\<And>data. Send data \<in> set ops \<Longrightarrow> length data \<le> b"
  shows "\<exists>acc got s'. pipe_run send recv ops s = Ok (acc, got, s') \<and> ok s' \<and>
    fifo_run n ops (content s) = (acc, got, content s')"
  using assms
proof (induction ops arbitrary: s)
  case (Cons opn ops)
  note IH = Cons.IH and ok = Cons.prems(1) and b = Cons.prems(2)
  have ops: "\<And>data. Send data \<in> set ops \<Longrightarrow> length data \<le> b" using b by simp
  show ?case
  proof (cases opn)
    case (Send data)
    show ?thesis
    proof (cases "length (content s) < n")
      case True
      with send_room [OF ok, of data] b Send obtain s1 where
        "send s data = Ok (Some (length data), s1)" "ok s1" "content s1 = content s @ [data]" by auto
      with IH [of s1] ops True Send show ?thesis by fastforce
    next
      case False
      with send_full [OF ok, of data] content_bound [OF ok] b Send obtain s1 where
        "send s data = Ok (None, s1)" "ok s1" "content s1 = content s" by auto
      with IH [of s1] ops False Send show ?thesis by fastforce
    qed
  next
    case Recv
    show ?thesis
    proof (cases "content s")
      case Nil
      with recv_empty [OF ok] obtain s1 where "recv s = Ok (None, s1)" "ok s1" "content s1 = []" by auto
      with IH [of s1] ops Nil Recv show ?thesis by fastforce
    next
      case (Cons m ms)
      with recv_next [OF ok] obtain s1 where "recv s = Ok (Some m, s1)" "ok s1" "content s1 = ms" by auto
      with IH [of s1] ops Cons Recv show ?thesis by fastforce
    qed
  qed
qed auto

end

section \<open>Well-formed queues\<close>

text \<open>The descriptors that wait for the device, and the entries that the device has returned and the
  driver has not yet seen.\<close>

definition waiting :: "nat \<Rightarrow> Queue \<Rightarrow> u16 list" where
  "waiting n q = (let vq = virt_queue q in
     ring_list n (avail_slots (avail vq)) (used_idx (used vq)) (avail_idx (avail vq)))"

definition returned :: "nat \<Rightarrow> Queue \<Rightarrow> UsedElem list" where
  "returned n q = (let us = used (virt_queue q) in
     ring_list n (used_slots us) (last_used_idx q) (used_idx us))"

definition queue_ok :: "nat \<Rightarrow> nat \<Rightarrow> Queue \<Rightarrow> bool" where
  "queue_ok n b q \<longleftrightarrow> ring_size n \<and> b < 2 ^ 32 \<and> length (descs (virt_queue q)) = n \<and>
     length (avail_slots (avail (virt_queue q))) = n \<and> length (used_slots (used (virt_queue q))) = n \<and>
     length (buffer q) = b * n \<and>
     (\<forall>i < n. addr (descs (virt_queue q) ! i) = base_offset q + i * b \<and>
        unat (desc_length (descs (virt_queue q) ! i)) \<le> b)"

text \<open>Every descriptor is in exactly one place: waiting, returned or free.\<close>

definition owned :: "nat \<Rightarrow> Queue \<Rightarrow> u16 list \<Rightarrow> bool" where
  "owned n q free \<longleftrightarrow>
     mset (map unat (waiting n q) @ map (unat \<circ> elem_id) (returned n q) @ map unat free) = mset [0..<n]"

definition block :: "nat \<Rightarrow> Queue \<Rightarrow> nat \<Rightarrow> nat \<Rightarrow> bytes" where
  "block b q i len = slice (buffer q) (i * b) len"

lemma ownedD:
  assumes "owned n q free"
  shows "distinct (map unat (waiting n q) @ map (unat \<circ> elem_id) (returned n q) @ map unat free)"
    and "i \<in> set (waiting n q) \<Longrightarrow> unat i < n"
    and "e \<in> set (returned n q) \<Longrightarrow> unat (elem_id e) < n"
    and "i \<in> set free \<Longrightarrow> unat i < n"
    and "length (waiting n q) + length (returned n q) + length free = n"
proof -
  let ?xs = "map unat (waiting n q) @ map (unat \<circ> elem_id) (returned n q) @ map unat free"
  have m: "mset ?xs = mset [0..<n]" using assms by (simp add: owned_def)
  show "distinct ?xs" using mset_eq_imp_distinct_iff [OF m] by simp
  have s: "set ?xs = {0..<n}" using mset_eq_setD [OF m] by simp
  show "i \<in> set (waiting n q) \<Longrightarrow> unat i < n" "e \<in> set (returned n q) \<Longrightarrow> unat (elem_id e) < n"
    "i \<in> set free \<Longrightarrow> unat i < n"
    using s by (auto simp: set_eq_iff)
  show "length (waiting n q) + length (returned n q) + length free = n"
    using mset_eq_length [OF m] by simp
qed

subsection \<open>The buffer\<close>

lemma block_end: "i < n \<Longrightarrow> len \<le> b \<Longrightarrow> i * b + len \<le> b * (n :: nat)"
proof -
  assume "i < n" "len \<le> b"
  then have "i * b + len \<le> Suc i * b" by simp
  also have "\<dots> \<le> n * b" using \<open>i < n\<close> by (intro mult_le_mono1) simp
  finally show ?thesis by (simp add: mult.commute)
qed

lemma block_overwrite_other:
  assumes "length (buffer q) = b * n" "i < n" "j \<noteq> i" "length data \<le> b" "len \<le> b"
    and "buffer q' = overwrite (buffer q) (i * b) data"
  shows "block b q' j len = block b q j len"
proof -
  have "j * b + len \<le> i * b \<or> i * b + length data \<le> j * b"
    using assms(3-5) block_end [of j i len b] block_end [of i j "length data" b]
    by (cases "j < i") (auto simp: mult.commute)
  then show ?thesis
    unfolding block_def assms(6) using block_end [OF assms(2,4)] assms(1)
    by (intro slice_overwrite_other) auto
qed

lemma block_overwrite_same:
  assumes "length (buffer q) = b * n" "i < n" "length data \<le> b"
    and "buffer q' = overwrite (buffer q) (i * b) data"
  shows "block b q' i (length data) = data"
  unfolding block_def assms(4) using block_end [OF assms(2,3)] assms(1)
  by (intro slice_overwrite_same) simp

lemma get_mut_slice_from_index_block:
  assumes "queue_ok n b q" "i < n" "len \<le> b"
  shows "get_mut_slice_from_index q i len = Ok (i * b)"
  using assms block_end [of i n len b]
  by (simp add: get_mut_slice_from_index_def queue_ok_def index_at_def Let_def)

lemma device_range_block:
  assumes "queue_ok n b q" "i < n" "len \<le> b"
  shows "device_range q (addr (descs (virt_queue q) ! i)) len = Ok (i * b)"
  using assms block_end [of i n len b]
  by (simp add: device_range_def queue_ok_def)

subsection \<open>The rings\<close>

text \<open>What an operation on one ring leaves alone.\<close>

definition same_memory :: "Queue \<Rightarrow> Queue \<Rightarrow> bool" where
  "same_memory q q' \<longleftrightarrow> descs (virt_queue q') = descs (virt_queue q) \<and> buffer q' = buffer q \<and>
     base_offset q' = base_offset q"

lemma same_memory_block: "same_memory q q' \<Longrightarrow> block b q' = block b q"
  by (simp add: same_memory_def block_def fun_eq_iff)

lemma get_next_used_element_None:
  "returned n q = [] \<Longrightarrow> get_next_used_element n q = Ok (None, q)"
  by (simp add: get_next_used_element_def returned_def Let_def ring_list_Nil_iff)

lemma get_next_used_element_Some:
  assumes "queue_ok n b q" "returned n q = e # es"
  obtains q' where "get_next_used_element n q = Ok (Some e, q')" "returned n q' = es"
    "waiting n q' = waiting n q" "queue_ok n b q'" "same_memory q q'"
proof -
  let ?q = "q\<lparr>last_used_idx := last_used_idx q + 1\<rparr>"
  note r = ring_list_ConsD [OF assms(2) [unfolded returned_def Let_def]]
  have "unat (last_used_idx q) mod n < length (used_slots (used (virt_queue q)))"
    using assms(1) ring_size_pos [of n] by (simp add: queue_ok_def)
  then have "get_next_used_element n q = Ok (Some e, ?q)"
    using r by (simp add: get_next_used_element_def Let_def index_at_def)
  then show ?thesis
    using that r(3) assms(1) by (simp add: waiting_def returned_def same_memory_def queue_ok_def)
qed

lemma add_available_descriptor_Ok:
  assumes "queue_ok n b q" "length (waiting n q) < n"
  obtains q' where "add_available_descriptor n q i = Ok q'" "waiting n q' = waiting n q @ [i]"
    "returned n q' = returned n q" "queue_ok n b q'" "same_memory q q'"
proof -
  let ?av = "avail (virt_queue q)"
  let ?slots = "(avail_slots ?av)[unat (avail_idx ?av) mod n := i]"
  let ?q = "q\<lparr>virt_queue := (virt_queue q)\<lparr>avail := ?av\<lparr>avail_slots := ?slots,
    avail_idx := avail_idx ?av + 1\<rparr>\<rparr>\<rparr>"
  have n: "ring_size n" and l: "length (avail_slots ?av) = n" using assms(1) by (simp_all add: queue_ok_def)
  have "unat (avail_idx ?av) mod n < length (avail_slots ?av)"
    using l ring_size_pos [OF n] by simp
  then have "add_available_descriptor n q i = Ok ?q"
    by (simp add: add_available_descriptor_def Let_def set_at_def)
  moreover have "waiting n ?q = waiting n q @ [i]"
    using ring_list_push [OF n l] assms(2) by (simp add: waiting_def Let_def)
  ultimately show ?thesis
    using that assms(1) by (simp add: returned_def same_memory_def queue_ok_def)
qed

text \<open>The step in which the device uses the next waiting descriptor.\<close>

definition use_next :: "nat \<Rightarrow> Queue \<Rightarrow> UsedElem \<Rightarrow> Queue" where
  "use_next n q e = (let vq = virt_queue q; us = used vq in
     q\<lparr>virt_queue := vq\<lparr>used := us\<lparr>
       used_slots := (used_slots us)[unat (used_idx us) mod n := e], used_idx := used_idx us + 1\<rparr>\<rparr>\<rparr>)"

lemma use_next_rings:
  assumes "queue_ok n b q" "waiting n q = i # is" "length (returned n q) < n"
  shows "waiting n (use_next n q e) = is" "returned n (use_next n q e) = returned n q @ [e]"
    "queue_ok n b (use_next n q e)" "same_memory q (use_next n q e)"
proof -
  have n: "ring_size n" and l: "length (used_slots (used (virt_queue q))) = n"
    using assms(1) by (simp_all add: queue_ok_def)
  show "waiting n (use_next n q e) = is"
    using ring_list_ConsD(3) [OF assms(2) [unfolded waiting_def Let_def]]
    by (simp add: waiting_def use_next_def Let_def)
  show "returned n (use_next n q e) = returned n q @ [e]"
    using assms(3) ring_list_push [OF n l] by (simp add: returned_def use_next_def Let_def)
  show "queue_ok n b (use_next n q e)" "same_memory q (use_next n q e)"
    using assms(1) by (simp_all add: queue_ok_def same_memory_def use_next_def Let_def)
qed

lemma waiting_Cons:
  assumes "queue_ok n b q" "waiting n q = i # is"
  shows "avail_idx (avail (virt_queue q)) \<noteq> used_idx (used (virt_queue q))"
    "index_at (avail_slots (avail (virt_queue q))) (unat (used_idx (used (virt_queue q))) mod n) = (Ok i :: u16 anyhow)"
    "set_at (used_slots (used (virt_queue q))) (unat (used_idx (used (virt_queue q))) mod n) e =
       (Ok ((used_slots (used (virt_queue q)))[unat (used_idx (used (virt_queue q))) mod n := e])
         :: UsedElem list anyhow)"
proof -
  note w = ring_list_ConsD [OF assms(2) [unfolded waiting_def Let_def]]
  show "avail_idx (avail (virt_queue q)) \<noteq> used_idx (used (virt_queue q))"
    using w(1) by simp
  show "index_at (avail_slots (avail (virt_queue q))) (unat (used_idx (used (virt_queue q))) mod n) = (Ok i :: u16 anyhow)"
    using assms(1) w(2) ring_size_pos [of n] by (simp add: index_at_def queue_ok_def)
  show "set_at (used_slots (used (virt_queue q))) (unat (used_idx (used (virt_queue q))) mod n) e =
       (Ok ((used_slots (used (virt_queue q)))[unat (used_idx (used (virt_queue q))) mod n := e])
         :: UsedElem list anyhow)"
    using assms ring_size_pos [of n] by (simp add: set_at_def queue_ok_def)
qed

lemma waiting_Nil: "waiting n q = [] \<longleftrightarrow> avail_idx (avail (virt_queue q)) = used_idx (used (virt_queue q))"
  by (auto simp: waiting_def Let_def ring_list_Nil_iff)

section \<open>Receiving\<close>

definition rx_ok :: "nat \<Rightarrow> nat \<Rightarrow> Queue \<Rightarrow> bool" where
  "rx_ok n b q \<longleftrightarrow> queue_ok n b q \<and> owned n q [] \<and>
     (\<forall>i < n. desc_flag (desc_flags (descs (virt_queue q) ! i)) VIRTQ_DESC_F_WRITE \<and>
        desc_length (descs (virt_queue q) ! i) = word_of_nat b) \<and>
     (\<forall>e \<in> set (returned n q). unat (elem_len e) \<le> b)"

definition rx_content :: "nat \<Rightarrow> nat \<Rightarrow> Queue \<Rightarrow> bytes list" where
  "rx_content n b q =
     map (\<lambda>e. block b q (unat (elem_id e)) (unat (elem_len e))) (returned n q)"

lemma unat_u32_of_nat: "k < 2 ^ 32 \<Longrightarrow> unat (word_of_nat k :: u32) = k"
  by (simp add: unat_of_nat)

lemma unat_ucast_16_32 [simp]: "unat (ucast (i :: u16) :: u32) = unat i"
proof -
  have "unat i < 2 ^ 16" using unsigned_less [of i, where ?'a = nat] by simp
  then show ?thesis by (simp add: unsigned_ucast_eq take_bit_nat_eq_self)
qed

lemma ucast_elem_id: "unat (i :: u32) < 2 ^ 16 \<Longrightarrow> unat (ucast i :: u16) = unat i"
  by (simp add: unsigned_ucast_eq take_bit_nat_eq_self)

lemma device_write_room:
  assumes ok: "rx_ok n b q" and data: "length data \<le> b" and room: "length (rx_content n b q) < n"
  shows "\<exists>q'. device_write_to_queue n q data = Ok (Some (length data), q') \<and> rx_ok n b q' \<and>
    rx_content n b q' = rx_content n b q @ [data]"
proof -
  have q: "queue_ok n b q" and own: "owned n q []" using ok by (simp_all add: rx_ok_def)
  have rl: "length (returned n q) < n" using room by (simp add: rx_content_def)
  then obtain i rest where w: "waiting n q = i # rest"
    using ownedD(5) [OF own] by (cases "waiting n q") auto
  have i: "unat i < n" using ownedD(2) [OF own] w by simp
  have b: "b < 2 ^ 32" using q by (simp add: queue_ok_def)
  let ?e = "\<lparr>elem_id = ucast i, elem_len = word_of_nat (length data)\<rparr>"
  let ?q = "use_next n q ?e"
  let ?q' = "?q\<lparr>buffer := overwrite (buffer q) (unat i * b) data\<rparr>"
  note u = use_next_rings [OF q w rl, of ?e]
  have len: "unat (word_of_nat (length data) :: u32) = length data"
    using data b by (intro unat_u32_of_nat) simp
  have d: "desc_flag (desc_flags (descs (virt_queue q) ! unat i)) VIRTQ_DESC_F_WRITE"
      "unat (desc_length (descs (virt_queue q) ! unat i)) = b"
    using ok i b by (simp_all add: rx_ok_def unat_u32_of_nat)
  have g: "get_desc n q i = Ok (descs (virt_queue q) ! unat i)"
    using i q by (simp add: get_desc_def index_at_def queue_ok_def)
  have r: "device_range ?q (addr (descs (virt_queue q) ! unat i)) (length data) = Ok (unat i * b)"
    using device_range_block [OF u(3) i data] u(4) by (simp add: same_memory_def)
  have "device_write_to_queue n q data = Ok (Some (length data), ?q')"
    using waiting_Cons [OF q w] g d data r u(4)
    by (simp add: device_write_to_queue_def Let_def use_next_def same_memory_def min_absorb1)
  moreover have "rx_ok n b ?q'"
    using ok u own w data len unfolding rx_ok_def owned_def
    by (auto simp: queue_ok_def same_memory_def waiting_def returned_def block_end [OF i])
  moreover have "rx_content n b ?q' = rx_content n b q @ [data]"
  proof -
    have bl: "length (buffer q) = b * n" using q by (simp add: queue_ok_def)
    have "block b ?q' (unat (elem_id e)) (unat (elem_len e)) = block b q (unat (elem_id e)) (unat (elem_len e))"
      if e: "e \<in> set (returned n q)" for e
    proof -
      have "unat (elem_id e) \<noteq> unat i" using ownedD(1) [OF own] w e by (force simp: image_iff)
      then show ?thesis
        using ok e data i bl by (intro block_overwrite_other [of _ b n "unat i" _ data]) (auto simp: rx_ok_def)
    qed
    moreover have "block b ?q' (unat i) (length data) = data"
      using bl i data by (intro block_overwrite_same [of q b n]) auto
    moreover have "returned n ?q' = returned n q @ [?e]" using u(2) by (simp add: returned_def)
    ultimately show ?thesis using len by (simp add: rx_content_def)
  qed
  ultimately show ?thesis by blast
qed

lemma device_write_full:
  assumes ok: "rx_ok n b q" and full: "length (rx_content n b q) = n"
  shows "device_write_to_queue n q data = Ok (None, q)"
proof -
  have own: "owned n q []" using ok by (simp add: rx_ok_def)
  have "waiting n q = []" using ownedD(5) [OF own] full by (simp add: rx_content_def)
  then show ?thesis by (simp add: device_write_to_queue_def Let_def waiting_Nil)
qed

lemma read_next_used_buffer_empty:
  "rx_content n b q = [] \<Longrightarrow> read_next_used_buffer n q = Ok (None, q)"
  by (simp add: rx_content_def read_next_used_buffer_def get_next_used_element_None)

lemma read_next_used_buffer_next:
  assumes ok: "rx_ok n b q" and m: "rx_content n b q = m # ms"
  shows "\<exists>q'. read_next_used_buffer n q = Ok (Some m, q') \<and> rx_ok n b q' \<and> rx_content n b q' = ms"
proof -
  have q: "queue_ok n b q" and own: "owned n q []" using ok by (simp_all add: rx_ok_def)
  obtain e es where r: "returned n q = e # es" using m by (cases "returned n q") (auto simp: rx_content_def)
  have e: "unat (elem_id e) < n" "unat (elem_len e) \<le> b" "m = block b q (unat (elem_id e)) (unat (elem_len e))"
    using ownedD(3) [OF own] ok m r by (auto simp: rx_ok_def rx_content_def)
  obtain q1 where q1: "get_next_used_element n q = Ok (Some e, q1)" "returned n q1 = es"
      "waiting n q1 = waiting n q" "queue_ok n b q1" "same_memory q q1"
    by (rule get_next_used_element_Some [OF q r])
  have "length (waiting n q1) < n" using ownedD(5) [OF own] r q1(3) by simp
  then obtain q2 where q2: "add_available_descriptor n q1 (ucast (elem_id e)) = Ok q2"
      "waiting n q2 = waiting n q1 @ [ucast (elem_id e)]" "returned n q2 = returned n q1"
      "queue_ok n b q2" "same_memory q1 q2"
    by (rule add_available_descriptor_Ok [OF q1(4)])
  have id: "unat (ucast (elem_id e) :: u16) = unat (elem_id e)"
    using e(1) q ring_size_less [of n] by (intro ucast_elem_id) (auto simp: queue_ok_def)
  have "read_next_used_buffer n q = Ok (Some m, q2)"
    using q1(1) q2(1) get_mut_slice_from_index_block [OF q1(4) e(1,2)] e(3) same_memory_block [OF q1(5)]
    by (simp add: read_next_used_buffer_def block_def Let_def fun_eq_iff)
  moreover have "rx_ok n b q2"
    using ok q1 q2 r id unfolding rx_ok_def owned_def by (auto simp: same_memory_def)
  moreover have "rx_content n b q2 = ms"
    using m r q1(2) q2(3) same_memory_block [OF q1(5)] same_memory_block [OF q2(5)]
    by (simp add: rx_content_def)
  ultimately show ?thesis by blast
qed

lemma rx_content_bound: "rx_ok n b q \<Longrightarrow> length (rx_content n b q) \<le> n"
  using ownedD(5) [of n q "[]"] by (auto simp: rx_ok_def rx_content_def)

interpretation rx: message_pipe n b "rx_ok n b" "rx_content n b" "device_write_to_queue n" "read_next_used_buffer n"
  for n b
  by unfold_locales (use rx_content_bound device_write_full device_write_room
    read_next_used_buffer_empty read_next_used_buffer_next in blast)+

section \<open>Transmitting\<close>

definition tx_ok :: "nat \<Rightarrow> nat \<Rightarrow> DriverWriteOnlyQueue \<Rightarrow> bool" where
  "tx_ok n b d \<longleftrightarrow> queue_ok n b (inner d) \<and> owned n (inner d) (free_ids d) \<and>
     (\<forall>i < n. \<not> desc_flag (desc_flags (descs (virt_queue (inner d)) ! i)) VIRTQ_DESC_F_WRITE)"

definition tx_block :: "nat \<Rightarrow> Queue \<Rightarrow> u16 \<Rightarrow> bytes" where
  "tx_block b q i = block b q (unat i) (unat (desc_length (descs (virt_queue q) ! unat i)))"

definition tx_content :: "nat \<Rightarrow> nat \<Rightarrow> DriverWriteOnlyQueue \<Rightarrow> bytes list" where
  "tx_content n b d = map (tx_block b (inner d)) (waiting n (inner d))"

definition device_take :: "nat \<Rightarrow> DriverWriteOnlyQueue \<Rightarrow> (bytes option \<times> DriverWriteOnlyQueue) anyhow" where
  "device_take n d = and_then (device_read_once_from_queue n (inner d)) (\<lambda>(r, q). Ok (r, d\<lparr>inner := q\<rparr>))"

lemma same_memory_tx_block: "same_memory q q' \<Longrightarrow> tx_block b q' = tx_block b q"
  by (simp add: tx_block_def block_def same_memory_def fun_eq_iff)

lemma same_memory_trans: "same_memory q q' \<Longrightarrow> same_memory q' q'' \<Longrightarrow> same_memory q q''"
  by (simp add: same_memory_def)

lemma reclaim_Ok:
  assumes "tx_ok n b d"
  shows "\<exists>d'. reclaim n d = Ok d' \<and> tx_ok n b d' \<and> returned n (inner d') = [] \<and>
    waiting n (inner d') = waiting n (inner d) \<and> same_memory (inner d) (inner d')"
  using assms
proof (induction "returned n (inner d)" arbitrary: d)
  case Nil
  then show ?case
    using get_next_used_element_None [of n "inner d"]
    by (simp add: reclaim.simps [of n d] same_memory_def)
next
  case (Cons e es)
  note ok = Cons.prems and r = Cons.hyps(2) [symmetric]
  have q: "queue_ok n b (inner d)" and own: "owned n (inner d) (free_ids d)"
    using ok by (simp_all add: tx_ok_def)
  obtain q1 where q1: "get_next_used_element n (inner d) = Ok (Some e, q1)" "returned n q1 = es"
      "waiting n q1 = waiting n (inner d)" "queue_ok n b q1" "same_memory (inner d) q1"
    by (rule get_next_used_element_Some [OF q r])
  let ?d = "d\<lparr>inner := q1, free_ids := free_ids d @ [ucast (elem_id e)]\<rparr>"
  have "unat (elem_id e) < 2 ^ 16"
    using ownedD(3) [OF own] r q ring_size_less [of n] by (fastforce simp: queue_ok_def)
  then have "owned n q1 (free_ids ?d)"
    using own q1(2,3) r ucast_elem_id [of "elem_id e"] by (simp add: owned_def)
  then have "tx_ok n b ?d"
    using ok q1(4,5) by (simp add: tx_ok_def same_memory_def)
  moreover have "es = returned n (inner ?d)" using q1(2) by simp
  ultimately obtain d' where "reclaim n ?d = Ok d'" "tx_ok n b d'" "returned n (inner d') = []"
      "waiting n (inner d') = waiting n (inner ?d)" "same_memory (inner ?d) (inner d')"
    using Cons.hyps(1) by blast
  then show ?case
    using q1 same_memory_trans [OF q1(5)] by (simp add: reclaim.simps [of n d])
qed

lemma write_buffer_full:
  assumes "tx_ok n b d" and full: "length (tx_content n b d) = n"
  shows "\<exists>d'. write_buffer n b d data = Ok (None, d') \<and> tx_ok n b d' \<and> tx_content n b d' = tx_content n b d"
proof -
  obtain d1 where d1: "reclaim n d = Ok d1" "tx_ok n b d1" "returned n (inner d1) = []"
      "waiting n (inner d1) = waiting n (inner d)" "same_memory (inner d) (inner d1)"
    using reclaim_Ok [OF assms(1)] by blast
  have "owned n (inner d1) (free_ids d1)" using d1(2) by (simp add: tx_ok_def)
  then have "free_ids d1 = []"
    using ownedD(5) d1(4) full by (fastforce simp: tx_content_def)
  then show ?thesis
    using d1 same_memory_tx_block [OF d1(5)]
    by (simp add: write_buffer_def tx_content_def Let_def)
qed

text \<open>Filling the block of a free descriptor.\<close>

definition fill_block :: "nat \<Rightarrow> Queue \<Rightarrow> u16 \<Rightarrow> bytes \<Rightarrow> Queue" where
  "fill_block b q i data = (let vq = virt_queue q in
     q\<lparr>buffer := overwrite (buffer q) (unat i * b) data,
       virt_queue := vq\<lparr>descs := (descs vq)[unat i :=
         (descs vq ! unat i)\<lparr>desc_length := word_of_nat (length data)\<rparr>]\<rparr>\<rparr>)"

lemma fill_block_rings:
  assumes q: "queue_ok n b q" and i: "unat i < n" and data: "length data \<le> b"
  shows "queue_ok n b (fill_block b q i data)" "waiting n (fill_block b q i data) = waiting n q"
    "returned n (fill_block b q i data) = returned n q"
proof -
  have "unat (word_of_nat (length data) :: u32) = length data"
    using q data by (intro unat_u32_of_nat) (simp add: queue_ok_def)
  then show "queue_ok n b (fill_block b q i data)"
    using q i data block_end [OF i data] by (auto simp: queue_ok_def fill_block_def Let_def nth_list_update)
qed (simp_all add: waiting_def returned_def fill_block_def Let_def)

lemma fill_block_content:
  assumes q: "queue_ok n b q" and i: "unat i < n" and data: "length data \<le> b"
  shows "tx_block b (fill_block b q i data) i = data"
    and "unat j < n \<Longrightarrow> unat j \<noteq> unat i \<Longrightarrow> tx_block b (fill_block b q i data) j = tx_block b q j"
proof -
  let ?q = "fill_block b q i data"
  have bl: "length (buffer q) = b * n" and dl: "length (descs (virt_queue q)) = n"
    using q by (simp_all add: queue_ok_def)
  have bq: "buffer ?q = overwrite (buffer q) (unat i * b) data" by (simp add: fill_block_def Let_def)
  have "unat (word_of_nat (length data) :: u32) = length data"
    using q data by (intro unat_u32_of_nat) (simp add: queue_ok_def)
  then show "tx_block b ?q i = data"
    using block_overwrite_same [OF bl i data bq] i dl by (simp add: tx_block_def fill_block_def Let_def)
  assume j: "unat j < n" "unat j \<noteq> unat i"
  then have "unat (desc_length (descs (virt_queue q) ! unat j)) \<le> b" using q by (simp add: queue_ok_def)
  then show "tx_block b ?q j = tx_block b q j"
    using block_overwrite_other [OF bl i j(2) data _ bq] j(2)
    by (simp add: tx_block_def fill_block_def Let_def)
qed

lemma owned_add_available:
  assumes "owned n q free" "free \<noteq> []" "waiting n q' = waiting n q @ [last free]"
    "returned n q' = returned n q"
  shows "owned n q' (butlast free)"
proof -
  have "mset (map unat free) = mset (map unat (butlast free @ [last free]))"
    using assms(2) by simp
  then show ?thesis using assms(1,3,4) by (simp add: owned_def)
qed

lemma write_buffer_room:
  assumes "tx_ok n b d" and room: "length (tx_content n b d) < n"
  shows "\<exists>d'. write_buffer n b d data = Ok (Some (min (length data) b), d') \<and> tx_ok n b d' \<and>
    tx_content n b d' = tx_content n b d @ [take b data]"
proof -
  obtain d1 where d1: "reclaim n d = Ok d1" "tx_ok n b d1" "returned n (inner d1) = []"
      "waiting n (inner d1) = waiting n (inner d)" "same_memory (inner d) (inner d1)"
    using reclaim_Ok [OF assms(1)] by blast
  let ?q = "inner d1" and ?i = "last (free_ids d1)" and ?data = "take (min (length data) b) data"
  let ?q1 = "fill_block b ?q ?i ?data"
  have q: "queue_ok n b ?q" and own: "owned n ?q (free_ids d1)" using d1(2) by (simp_all add: tx_ok_def)
  have wl: "length (waiting n ?q) < n" using room d1(4) by (simp add: tx_content_def)
  have ne: "free_ids d1 \<noteq> []" using ownedD(5) [OF own] d1(3) wl by auto
  have i: "unat ?i < n" using ownedD(4) [OF own] ne by simp
  have data: "length ?data \<le> b" by simp
  note rings = fill_block_rings [OF q i data]
  obtain q2 where q2: "add_available_descriptor n ?q1 ?i = Ok q2" "waiting n q2 = waiting n ?q1 @ [?i]"
      "returned n q2 = returned n ?q1" "queue_ok n b q2" "same_memory ?q1 q2"
    using add_available_descriptor_Ok [OF rings(1), of ?i] wl rings by auto
  let ?d2 = "\<lparr>inner = q2, free_ids = butlast (free_ids d1)\<rparr>"
  have "write_buffer n b d data = Ok (Some (min (length data) b), ?d2)"
    using d1(1) ne get_mut_slice_from_index_block [OF q i, of "min (length data) b"] q2(1)
    by (simp add: write_buffer_def fill_block_def Let_def)
  moreover have "tx_ok n b ?d2"
    using d1(2) q2 rings owned_add_available [OF own ne, of q2] i
    by (auto simp: tx_ok_def same_memory_def fill_block_def Let_def nth_list_update queue_ok_def)
  moreover have "tx_content n b ?d2 = tx_content n b d @ [take b data]"
  proof -
    have "tx_block b ?q1 j = tx_block b ?q j" if j: "j \<in> set (waiting n ?q)" for j
    proof -
      have "unat j \<noteq> unat ?i" using ownedD(1) [OF own] j ne by (force simp: image_iff)
      then show ?thesis by (rule fill_block_content(2) [OF q i data ownedD(2) [OF own j]])
    qed
    then show ?thesis
      using d1(4) q2(2) rings(2) fill_block_content(1) [OF q i data]
        same_memory_tx_block [OF d1(5)] same_memory_tx_block [OF q2(5)]
      by (simp add: tx_content_def min_def split: if_splits)
  qed
  ultimately show ?thesis by blast
qed

lemma device_take_empty: "tx_content n b d = [] \<Longrightarrow> device_take n d = Ok (None, d)"
  by (simp add: device_take_def device_read_once_from_queue_def tx_content_def waiting_Nil Let_def)

lemma device_take_next:
  assumes ok: "tx_ok n b d" and m: "tx_content n b d = m # ms"
  shows "\<exists>d'. device_take n d = Ok (Some m, d') \<and> tx_ok n b d' \<and> tx_content n b d' = ms"
proof -
  let ?q = "inner d"
  have q: "queue_ok n b ?q" and own: "owned n ?q (free_ids d)" using ok by (simp_all add: tx_ok_def)
  obtain i rest where w: "waiting n ?q = i # rest" using m by (cases "waiting n ?q") (auto simp: tx_content_def)
  have i: "unat i < n" using ownedD(2) [OF own] w by simp
  have rl: "length (returned n ?q) < n" using ownedD(5) [OF own] w by simp
  let ?q1 = "use_next n ?q \<lparr>elem_id = ucast i, elem_len = 0\<rparr>"
  note u = use_next_rings [OF q w rl, of "\<lparr>elem_id = ucast i, elem_len = 0\<rparr>"]
  have len: "unat (desc_length (descs (virt_queue ?q) ! unat i)) \<le> b" using q i by (simp add: queue_ok_def)
  have g: "get_desc n ?q i = Ok (descs (virt_queue ?q) ! unat i)"
    using i q by (simp add: get_desc_def index_at_def queue_ok_def)
  have r: "device_range ?q1 (addr (descs (virt_queue ?q) ! unat i))
      (unat (desc_length (descs (virt_queue ?q) ! unat i))) = Ok (unat i * b)"
    using device_range_block [OF u(3) i len] u(4) by (simp add: same_memory_def)
  have "m = tx_block b ?q i" using m w by (simp add: tx_content_def)
  then have "device_take n d = Ok (Some m, d\<lparr>inner := ?q1\<rparr>)"
    using waiting_Cons [OF q w] g r ok i
    by (simp add: device_take_def device_read_once_from_queue_def tx_ok_def tx_block_def block_def
        use_next_def Let_def)
  moreover have "owned n ?q1 (free_ids d)" using own u(1,2) w by (simp add: owned_def)
  then have "tx_ok n b (d\<lparr>inner := ?q1\<rparr>)" using ok u(3,4) by (simp add: tx_ok_def same_memory_def)
  moreover have "tx_content n b (d\<lparr>inner := ?q1\<rparr>) = ms"
    using m w u(1) same_memory_tx_block [OF u(4)] by (simp add: tx_content_def)
  ultimately show ?thesis by blast
qed

lemma tx_content_bound: "tx_ok n b d \<Longrightarrow> length (tx_content n b d) \<le> n"
  using ownedD(5) [of n "inner d" "free_ids d"] by (auto simp: tx_ok_def tx_content_def)

lemma write_buffer_send:
  "tx_ok n b d \<Longrightarrow> length data \<le> b \<Longrightarrow> length (tx_content n b d) < n \<Longrightarrow>
     \<exists>d'. write_buffer n b d data = Ok (Some (length data), d') \<and> tx_ok n b d' \<and>
       tx_content n b d' = tx_content n b d @ [data]"
  using write_buffer_room [of n b d data] by simp

interpretation tx: message_pipe n b "tx_ok n b" "tx_content n b" "write_buffer n b" "device_take n"
  for n b
  by unfold_locales (use tx_content_bound write_buffer_full write_buffer_send
    device_take_empty device_take_next in blast)+

section \<open>New queues\<close>

lemma ring_size_power_of_two:
  assumes "ring_size n"
  shows "is_power_of_two n"
proof -
  obtain k where "n = 2 ^ k" using assms by (auto simp: ring_size_def)
  then show ?thesis using and_mask_mod [of "2 ^ k" k] by (simp add: is_power_of_two_def)
qed

lemma try_map_Ok: "(\<And>x. x \<in> set xs \<Longrightarrow> f x = Ok (g x)) \<Longrightarrow> try_map f xs = Ok (map g xs)"
  by (induction xs) auto

definition new_desc :: "nat \<Rightarrow> u16 \<Rightarrow> nat \<Rightarrow> nat \<Rightarrow> Desc" where
  "new_desc b flags base i = \<lparr>addr = base + i * b, desc_length = word_of_nat b, desc_flags = flags, desc_next = 0\<rparr>"

lemma Queue_new_Ok:
  assumes n: "ring_size n" and b: "b < 2 ^ 32" and base: "base + n * b < 2 ^ 52"
    and flags: "\<not> desc_flag flags VIRTQ_DESC_F_INDIRECT" "\<not> desc_flag flags VIRTQ_DESC_F_NEXT"
  obtains q where "Queue_new n b flags (Some base) = Ok q" "queue_ok n b q"
    "descs (virt_queue q) = map (new_desc b flags base) [0..<n]" "waiting n q = []" "returned n q = []"
proof -
  have "addr_add base (i * b) = Ok (base + i * b)" if "i \<in> set [0..<n]" for i
  proof -
    have "i * b \<le> n * b" using that by (intro mult_le_mono1) simp
    then have "base + i * b < 2 ^ 52" using base by linarith
    then show ?thesis by (simp add: addr_add_def)
  qed
  then have "try_map (\<lambda>i. and_then (addr_add base (i * b)) (\<lambda>a. Desc_new flags a (word_of_nat b))) [0..<n]
      = Ok (map (new_desc b flags base) [0..<n])"
    using flags by (intro try_map_Ok) (auto simp: Desc_new_def new_desc_def)
  then show ?thesis
    using that n b ring_size_power_of_two [OF n]
    by (simp add: Queue_new_def queue_ok_def new_desc_def waiting_def returned_def
        AvailRing_default_def UsedRing_default_def Let_def unat_u32_of_nat)
qed

lemma map_unat_all_ids: "ring_size n \<Longrightarrow> map unat (all_ids n) = [0..<n]"
  using ring_size_less [of n] by (auto simp: all_ids_def unat_of_nat intro: nth_equalityI)

lemma all_ids_facts:
  assumes "ring_size n"
  shows "length (all_ids n) = n" "mset (map unat (all_ids n)) = mset [0..<n]"
  using map_unat_all_ids [OF assms] by (metis length_map length_upt minus_nat.diff_0, metis)

lemma DriverWriteOnlyQueue_new_Ok:
  assumes "ring_size n" "b < 2 ^ 32" "base + n * b < 2 ^ 52"
  obtains d where "DriverWriteOnlyQueue_new n b (Some base) = Ok d" "tx_ok n b d" "tx_content n b d = []"
proof -
  obtain q where "Queue_new n b 0 (Some base) = Ok q" "queue_ok n b q"
      "descs (virt_queue q) = map (new_desc b 0 base) [0..<n]" "waiting n q = []" "returned n q = []"
    using Queue_new_Ok [OF assms, of 0] by (auto simp: desc_flag_def)
  then show ?thesis
    using that all_ids_facts [OF assms(1)]
    by (simp add: DriverWriteOnlyQueue_new_def tx_ok_def owned_def tx_content_def new_desc_def desc_flag_def)
qed

lemma add_all_available:
  assumes "queue_ok n b q" "length (waiting n q) + length ids \<le> n"
  obtains q' where "try_fold (add_available_descriptor n) q ids = Ok q'" "queue_ok n b q'"
    "waiting n q' = waiting n q @ ids" "returned n q' = returned n q" "same_memory q q'"
  using assms
proof (induction ids arbitrary: q thesis)
  case Nil
  then show ?case by (simp add: same_memory_def)
next
  case (Cons i ids)
  obtain q1 where q1: "add_available_descriptor n q i = Ok q1" "waiting n q1 = waiting n q @ [i]"
      "returned n q1 = returned n q" "queue_ok n b q1" "same_memory q q1"
    using add_available_descriptor_Ok [OF Cons.prems(2), of i] Cons.prems(3) by auto
  obtain q' where "try_fold (add_available_descriptor n) q1 ids = Ok q'" "queue_ok n b q'"
      "waiting n q' = waiting n q1 @ ids" "returned n q' = returned n q1" "same_memory q1 q'"
    using Cons.IH [OF _ q1(4)] q1(2) Cons.prems(3) by auto
  then show ?case using Cons.prems(1) q1 same_memory_trans [OF q1(5)] by simp
qed

lemma DeviceWriteOnlyQueue_new_Ok:
  assumes "ring_size n" "b < 2 ^ 32" "base + n * b < 2 ^ 52"
  obtains q where "DeviceWriteOnlyQueue_new n b (Some base) = Ok q" "rx_ok n b q" "rx_content n b q = []"
proof -
  obtain q where q: "Queue_new n b VIRTQ_DESC_F_WRITE (Some base) = Ok q" "queue_ok n b q"
      "descs (virt_queue q) = map (new_desc b VIRTQ_DESC_F_WRITE base) [0..<n]"
      "waiting n q = []" "returned n q = []"
    using Queue_new_Ok [OF assms, of VIRTQ_DESC_F_WRITE] by (auto simp: desc_flag_def)
  obtain q' where "try_fold (add_available_descriptor n) q (all_ids n) = Ok q'" "queue_ok n b q'"
      "waiting n q' = all_ids n" "returned n q' = []" "same_memory q q'"
    using add_all_available [OF q(2), of "all_ids n"] q(4,5) all_ids_facts(1) [OF assms(1)] by auto
  then show ?thesis
    using that q(1,3) all_ids_facts [OF assms(1)]
    by (simp add: DeviceWriteOnlyQueue_new_def rx_ok_def owned_def rx_content_def same_memory_def
        new_desc_def desc_flag_def)
qed

section \<open>Properties\<close>

text \<open>C10. From a new transmit queue, any sequence of writes by the driver and reads by the device
  runs without a panic and behaves as on a first-in first-out list of at most \<open>n\<close> messages: the same
  messages are accepted and come out, in the same order, and what is left in flight is the same. So does
  any sequence of writes by the device and reads by the driver on a new receive queue. The indices
  of the rings may wrap around on the way.\<close>

theorem virtqueues_refine_fifo:
  assumes "ring_size n" "b < 2 ^ 32" "base + n * b < 2 ^ 52"
    and "\<forall>data. Send data \<in> set ops \<longrightarrow> length data \<le> b"
  shows "(\<exists>d d' acc got. DriverWriteOnlyQueue_new n b (Some base) = Ok d \<and>
      pipe_run (write_buffer n b) (device_take n) ops d = Ok (acc, got, d') \<and>
      fifo_run n ops [] = (acc, got, tx_content n b d')) \<and>
    (\<exists>q q' acc got. DeviceWriteOnlyQueue_new n b (Some base) = Ok q \<and>
      pipe_run (device_write_to_queue n) (read_next_used_buffer n) ops q = Ok (acc, got, q') \<and>
      fifo_run n ops [] = (acc, got, rx_content n b q'))"
proof (rule conjI)
  obtain d where d: "DriverWriteOnlyQueue_new n b (Some base) = Ok d" "tx_ok n b d" "tx_content n b d = []"
    by (rule DriverWriteOnlyQueue_new_Ok [OF assms(1-3)])
  show "\<exists>d d' acc got. DriverWriteOnlyQueue_new n b (Some base) = Ok d \<and>
      pipe_run (write_buffer n b) (device_take n) ops d = Ok (acc, got, d') \<and>
      fifo_run n ops [] = (acc, got, tx_content n b d')"
    using tx.run_refines [OF d(2), of ops] assms(4) d(1,3) by metis
  obtain q where q: "DeviceWriteOnlyQueue_new n b (Some base) = Ok q" "rx_ok n b q" "rx_content n b q = []"
    by (rule DeviceWriteOnlyQueue_new_Ok [OF assms(1-3)])
  show "\<exists>q q' acc got. DeviceWriteOnlyQueue_new n b (Some base) = Ok q \<and>
      pipe_run (device_write_to_queue n) (read_next_used_buffer n) ops q = Ok (acc, got, q') \<and>
      fifo_run n ops [] = (acc, got, rx_content n b q')"
    using rx.run_refines [OF q(2), of ops] assms(4) q(1,3) by metis
qed

lemma ring_size_examples: "ring_size 2" "ring_size 16" "ring_size 256"
  unfolding ring_size_def by (rule exI [of _ 1], simp, rule exI [of _ 4], simp, rule exI [of _ 8], simp)

text \<open>Three messages into queues of two: the third is refused.\<close>

theorem virtqueues_refine_fifo_witness:
  "(\<exists>d d'. DriverWriteOnlyQueue_new 2 4 (Some 0) = Ok d \<and>
      pipe_run (write_buffer 2 4) (device_take 2) [Send [1], Send [2], Send [3], Recv] d =
        Ok ([[1], [2]], [[1]], d') \<and> tx_content 2 4 d' = [[2]]) \<and>
   (\<exists>q q'. DeviceWriteOnlyQueue_new 2 4 (Some 0) = Ok q \<and>
      pipe_run (device_write_to_queue 2) (read_next_used_buffer 2) [Send [1], Send [2], Send [3], Recv] q =
        Ok ([[1], [2]], [[1]], q') \<and> rx_content 2 4 q' = [[2]])"
proof -
  let ?ops = "[Send [1], Send [2], Send [3], Recv]"
  have b: "\<forall>data. Send data \<in> set ?ops \<longrightarrow> length data \<le> 4" by auto
  have f: "fifo_run 2 ?ops [] = ([[1], [2]], [[1]], [[2]])" by simp
  have s: "(4::nat) < 2 ^ 32" "0 + 2 * 4 < (2::nat) ^ 52" by simp_all
  note t = virtqueues_refine_fifo [of 2 4 0 ?ops, OF ring_size_examples(1) s b, unfolded f prod.inject]
  show ?thesis using t by metis
qed

end
