(* ===== verification/Oak_Console.thy ===== *)
theory Oak_Console
  imports Oak_Virtq Oak_Channel
begin

text \<open>
  The virtio console of the restricted kernel, \<^verbatim>\<open>oak_virtio/src/console/mod.rs\<close>: a byte channel
  to the host over a receive queue and a transmit queue. The device is polled, so reading waits for as
  long as there are not enough bytes and writing for as long as there is no free buffer: between
  two actions of the device such a loop does not end, and is \<open>None\<close>. The notifications to the device
  are recorded in order; starting the device is left out.
\<close>

section \<open>Polling for bytes\<close>

text \<open>
  The end of \<^verbatim>\<open>read_partial\<close>, the same in the console and in the socket: bytes are moved from the
  front of the source until the destination is full or the source empty; a remainder is kept.
\<close>

definition take_partial :: "nat \<Rightarrow> bytes \<Rightarrow> bytes \<times> bytes option" where
  "take_partial len source =
     (take len source, if drop len source = [] then None else Some (drop len source))"

text \<open>The loop of \<^verbatim>\<open>read_exact\<close>, the same in both, over their \<^verbatim>\<open>read_partial\<close>.\<close>

partial_function (option) poll_exact ::
  "('s \<Rightarrow> nat \<Rightarrow> (bytes option \<times> 's) anyhow) \<Rightarrow> 's \<Rightarrow> nat \<Rightarrow> bytes \<Rightarrow> (bytes \<times> 's) anyhow option" where
  "poll_exact rp s len acc =
     (if length acc < len then
        (case rp s (len - length acc) of
           Inl x \<Rightarrow> Some (Inl x)
         | Inr (r, s') \<Rightarrow> poll_exact rp s' len (acc @ (case r of None \<Rightarrow> [] | Some bs \<Rightarrow> bs)))
      else Some (Ok (acc, s)))"

text \<open>What the loop relies on: a try gives a piece of what is left of the stream, and where there is
  something left, tries do not go on in vain.\<close>

locale partial_reader =
  fixes ok :: "'s \<Rightarrow> bool" and stream :: "'s \<Rightarrow> bytes" and queued :: "'s \<Rightarrow> nat"
    and rp :: "'s \<Rightarrow> nat \<Rightarrow> (bytes option \<times> 's) anyhow"
  assumes rp_step: "ok s \<Longrightarrow> 0 < k \<Longrightarrow> \<exists>r s' bs. rp s k = Ok (r, s') \<and> ok s' \<and>
      bs = (case r of None \<Rightarrow> [] | Some bs \<Rightarrow> bs) \<and> length bs \<le> k \<and> stream s = bs @ stream s' \<and>
      (stream s \<noteq> [] \<longrightarrow> bs = [] \<longrightarrow> queued s' < queued s)"
begin

lemma poll_returns:
  assumes "ok s" "length acc \<le> len" "len \<le> length acc + length (stream s)"
  shows "\<exists>s'. poll_exact rp s len acc = Some (Ok (acc @ take (len - length acc) (stream s), s')) \<and>
    ok s' \<and> stream s' = drop (len - length acc) (stream s)"
  using assms
proof (induction "(length (stream s), queued s)" arbitrary: s acc rule: wf_induct_rule [OF wf_lex_prod [OF wf_less_than wf_less_than]])
  case 1
  show ?case
  proof (cases "length acc < len")
    case False
    then show ?thesis using 1(2-4) by (simp add: poll_exact.simps)
  next
    case True
    then obtain r s1 bs where s1: "rp s (len - length acc) = Ok (r, s1)" "ok s1"
        "bs = (case r of None \<Rightarrow> [] | Some bs \<Rightarrow> bs)" "length bs \<le> len - length acc" "stream s = bs @ stream s1"
        "stream s \<noteq> [] \<longrightarrow> bs = [] \<longrightarrow> queued s1 < queued s"
      using rp_step [OF 1(2), of "len - length acc"] by (metis zero_less_diff)
    have "stream s \<noteq> []" using True 1(4) by auto
    then have "((length (stream s1), queued s1), length (stream s), queued s) \<in> less_than <*lex*> less_than"
      using s1(5,6) by (cases bs) auto
    moreover have "length (acc @ bs) \<le> len" using s1(4) True by simp
    ultimately obtain s' where "poll_exact rp s1 len (acc @ bs) =
        Some (Ok ((acc @ bs) @ take (len - length (acc @ bs)) (stream s1), s'))"
        "ok s'" "stream s' = drop (len - length (acc @ bs)) (stream s1)"
      using 1(1) [of s1 "acc @ bs"] s1(2,5) 1(4) by auto
    then show ?thesis using True s1 by (simp add: poll_exact.simps [of rp s])
  qed
qed

lemma poll_waits:
  assumes "poll_exact rp s len acc = Some y" "ok s"
  shows "len \<le> length acc + length (stream s)"
proof -
  have "f = rp \<longrightarrow> ok s \<longrightarrow> len \<le> length acc + length (stream s)" if "poll_exact f s len acc = Some y" for f
    using that
  proof (induction f s len acc y rule: poll_exact.raw_induct [rotated 1, consumes 1])
    case (1 loop f s len acc y)
    show ?case
    proof (cases "length acc < len")
      case True
      have "len \<le> length acc + length (stream s)" if f: "f = rp" and "ok s"
      proof -
        obtain r s1 bs where s1: "rp s (len - length acc) = Ok (r, s1)" "ok s1"
            "bs = (case r of None \<Rightarrow> [] | Some bs \<Rightarrow> bs)" "stream s = bs @ stream s1"
          using rp_step [OF \<open>ok s\<close>, of "len - length acc"] True by (metis zero_less_diff)
        have "loop rp s1 len (acc @ bs) = Some y" using 1(2) True s1(1,3) f by simp
        from 1(1) [OF this] s1(2,4) show ?thesis by simp
      qed
      then show ?thesis by blast
    qed simp
  qed
  then show ?thesis using assms by blast
qed

end

section \<open>The console\<close>

abbreviation (input) CONSOLE_QUEUE_SIZE :: nat where "CONSOLE_QUEUE_SIZE \<equiv> 16"

abbreviation (input) CONSOLE_BUFFER_SIZE :: nat where "CONSOLE_BUFFER_SIZE \<equiv> 4096"

abbreviation (input) RX_QUEUE_ID :: u16 where "RX_QUEUE_ID \<equiv> 0"

abbreviation (input) TX_QUEUE_ID :: u16 where "TX_QUEUE_ID \<equiv> 1"

record Console =
  con_rx_queue :: Queue
  con_tx_queue :: DriverWriteOnlyQueue
  con_pending_data :: "bytes option"
  con_notified :: "u16 list"

definition Console_new :: "nat option \<Rightarrow> nat option \<Rightarrow> Console anyhow" where
  "Console_new tx_translated rx_translated =
     and_then (DriverWriteOnlyQueue_new CONSOLE_QUEUE_SIZE CONSOLE_BUFFER_SIZE tx_translated) (\<lambda>tx.
     and_then (DeviceWriteOnlyQueue_new CONSOLE_QUEUE_SIZE CONSOLE_BUFFER_SIZE rx_translated) (\<lambda>rx.
     Ok \<lparr>con_rx_queue = rx, con_tx_queue = tx, con_pending_data = None, con_notified = []\<rparr>))"

definition con_notify_queue :: "Console \<Rightarrow> u16 \<Rightarrow> Console" where
  "con_notify_queue c i = c\<lparr>con_notified := con_notified c @ [i]\<rparr>"

definition read_bytes :: "Console \<Rightarrow> (bytes option \<times> Console) anyhow" where
  "read_bytes c =
     and_then (read_next_used_buffer CONSOLE_QUEUE_SIZE (con_rx_queue c)) (\<lambda>(result, q).
     let c = c\<lparr>con_rx_queue := q\<rparr> in
     if result = None then Ok (None, c)
     else Ok (result, if must_notify_device q then con_notify_queue c RX_QUEUE_ID else c))"

definition write_bytes :: "Console \<Rightarrow> bytes \<Rightarrow> (nat option \<times> Console) anyhow" where
  "write_bytes c data =
     (if data = [] then Ok (None, c)
      else and_then (write_buffer CONSOLE_QUEUE_SIZE CONSOLE_BUFFER_SIZE (con_tx_queue c) data) (\<lambda>(result, d).
        let c = c\<lparr>con_tx_queue := d\<rparr> in
        Ok (result, if must_notify_device (inner d) then con_notify_queue c TX_QUEUE_ID else c)))"

definition con_read_partial :: "Console \<Rightarrow> nat \<Rightarrow> (bytes option \<times> Console) anyhow" where
  "con_read_partial c len =
     and_then (case con_pending_data c of
         Some data \<Rightarrow> Ok (Some data, c\<lparr>con_pending_data := None\<rparr>)
       | None \<Rightarrow> read_bytes c) (\<lambda>(source, c). case source of
       None \<Rightarrow> Ok (None, c)
     | Some source \<Rightarrow> (case take_partial len source of (got, rest) \<Rightarrow>
         Ok (Some got, if rest = None then c else c\<lparr>con_pending_data := rest\<rparr>)))"

definition con_read_exact :: "Console \<Rightarrow> nat \<Rightarrow> (bytes \<times> Console) anyhow option" where
  "con_read_exact c len = poll_exact con_read_partial c len []"

partial_function (option) con_write_all :: "Console \<Rightarrow> bytes \<Rightarrow> Console anyhow option" where
  "con_write_all c data =
     (if data = [] then Some (Ok c)
      else (case write_bytes c data of
         Inl x \<Rightarrow> Some (Inl x)
       | Inr (written, c) \<Rightarrow> con_write_all c (drop (case written of None \<Rightarrow> 0 | Some k \<Rightarrow> k) data)))"

subsection \<open>Its streams\<close>

definition console_ok :: "Console \<Rightarrow> bool" where
  "console_ok c \<longleftrightarrow> rx_ok CONSOLE_QUEUE_SIZE CONSOLE_BUFFER_SIZE (con_rx_queue c) \<and>
     tx_ok CONSOLE_QUEUE_SIZE CONSOLE_BUFFER_SIZE (con_tx_queue c)"

definition con_received :: "Console \<Rightarrow> bytes list" where
  "con_received c = rx_content CONSOLE_QUEUE_SIZE CONSOLE_BUFFER_SIZE (con_rx_queue c)"

definition con_in_flight :: "Console \<Rightarrow> bytes list" where
  "con_in_flight c = tx_content CONSOLE_QUEUE_SIZE CONSOLE_BUFFER_SIZE (con_tx_queue c)"

definition con_stream :: "Console \<Rightarrow> bytes" where
  "con_stream c = (case con_pending_data c of None \<Rightarrow> [] | Some data \<Rightarrow> data) @ concat (con_received c)"

lemma read_bytes_empty:
  assumes "console_ok c" "con_received c = []"
  shows "read_bytes c = Ok (None, c)"
  using read_next_used_buffer_empty assms(2)
  by (simp add: read_bytes_def con_received_def)

lemma read_bytes_next:
  assumes "console_ok c" "con_received c = m # ms"
  shows "\<exists>c'. read_bytes c = Ok (Some m, c') \<and> console_ok c' \<and> con_received c' = ms \<and>
    con_tx_queue c' = con_tx_queue c \<and> con_pending_data c' = con_pending_data c"
proof -
  obtain q where "read_next_used_buffer 16 (con_rx_queue c) = Ok (Some m, q)" "rx_ok 16 4096 q"
      "rx_content 16 4096 q = ms"
    using read_next_used_buffer_next [of 16 4096 "con_rx_queue c" m ms] assms
    by (auto simp: console_ok_def con_received_def)
  then show ?thesis
    using assms by (simp add: read_bytes_def console_ok_def con_received_def con_notify_queue_def Let_def)
qed

definition con_queued :: "Console \<Rightarrow> nat" where
  "con_queued c = length (con_received c) + (if con_pending_data c = None then 0 else 1)"

lemma con_read_partial_step:
  assumes ok: "console_ok c" and k: "0 < k"
  shows "\<exists>r c' bs. con_read_partial c k = Ok (r, c') \<and> (console_ok c' \<and> con_tx_queue c' = con_tx_queue c) \<and>
    bs = (case r of None \<Rightarrow> [] | Some bs \<Rightarrow> bs) \<and> length bs \<le> k \<and> con_stream c = bs @ con_stream c' \<and>
    (con_stream c \<noteq> [] \<longrightarrow> bs = [] \<longrightarrow> con_queued c' < con_queued c)"
proof (cases "con_pending_data c")
  case (Some data)
  then show ?thesis
    using ok k by (cases "drop k data = []")
      (auto simp: con_read_partial_def take_partial_def con_stream_def con_queued_def con_received_def
        console_ok_def append_eq_conv_conj)
next
  case None
  show ?thesis
  proof (cases "con_received c")
    case Nil
    then show ?thesis
      using ok None read_bytes_empty [OF ok Nil] by (simp add: con_read_partial_def con_stream_def)
  next
    case (Cons m ms)
    then obtain c1 where c1: "read_bytes c = Ok (Some m, c1)" "console_ok c1" "con_received c1 = ms"
        "con_tx_queue c1 = con_tx_queue c" "con_pending_data c1 = None"
      using read_bytes_next [OF ok] None by auto
    then show ?thesis
      using k None Cons by (cases "drop k m = []")
        (auto simp: con_read_partial_def take_partial_def con_stream_def con_queued_def con_received_def
          console_ok_def append_eq_conv_conj)
  qed
qed

interpretation con: partial_reader "\<lambda>c. console_ok c \<and> con_tx_queue c = tx" con_stream con_queued con_read_partial
  for tx
  by unfold_locales (use con_read_partial_step in fastforce)

lemma con_read_exact_returns:
  assumes "console_ok c" "len \<le> length (con_stream c)"
  shows "\<exists>c'. con_read_exact c len = Some (Ok (take len (con_stream c), c')) \<and> console_ok c' \<and>
    con_tx_queue c' = con_tx_queue c \<and> con_stream c' = drop len (con_stream c)"
  using con.poll_returns [of c "con_tx_queue c" "[]" len] assms by (auto simp: con_read_exact_def)

lemma con_read_exact_waits:
  assumes "console_ok c" "length (con_stream c) < len"
  shows "con_read_exact c len = None"
  using con.poll_waits [of c len "[]" _ "con_tx_queue c"] assms
  by (cases "con_read_exact c len") (auto simp: con_read_exact_def)

subsection \<open>Writing\<close>

lemma write_bytes_room:
  assumes "console_ok c" "data \<noteq> []" "length (con_in_flight c) < 16"
  shows "\<exists>c'. write_bytes c data = Ok (Some (min (length data) 4096), c') \<and> console_ok c' \<and>
    con_in_flight c' = con_in_flight c @ [take 4096 data] \<and> con_stream c' = con_stream c"
proof -
  obtain d where "write_buffer 16 4096 (con_tx_queue c) data = Ok (Some (min (length data) 4096), d)"
      "tx_ok 16 4096 d" "tx_content 16 4096 d = con_in_flight c @ [take 4096 data]"
    using write_buffer_room [of 16 4096 "con_tx_queue c" data] assms
    by (auto simp: console_ok_def con_in_flight_def)
  then show ?thesis
    using assms by (simp add: write_bytes_def console_ok_def con_in_flight_def con_stream_def
        con_received_def con_notify_queue_def Let_def)
qed

lemma write_bytes_full:
  assumes "console_ok c" "data \<noteq> []" "length (con_in_flight c) = 16"
  shows "\<exists>c'. write_bytes c data = Ok (None, c') \<and> console_ok c' \<and> con_in_flight c' = con_in_flight c"
proof -
  obtain d where "write_buffer 16 4096 (con_tx_queue c) data = Ok (None, d)"
      "tx_ok 16 4096 d" "tx_content 16 4096 d = con_in_flight c"
    using write_buffer_full [of 16 4096 "con_tx_queue c" data] assms
    by (auto simp: console_ok_def con_in_flight_def)
  then show ?thesis
    using assms by (simp add: write_bytes_def console_ok_def con_in_flight_def con_notify_queue_def Let_def)
qed

lemma con_write_all_returns:
  assumes "console_ok c" "length (con_in_flight c) + length (chunks 4096 data) \<le> 16"
  shows "\<exists>c'. con_write_all c data = Some (Ok c') \<and> console_ok c' \<and>
    con_in_flight c' = con_in_flight c @ chunks 4096 data \<and> con_stream c' = con_stream c"
  using assms
proof (induction data arbitrary: c rule: length_induct)
  case (1 data)
  show ?case
  proof (cases "data = []")
    case True
    then show ?thesis using 1(2) by (simp add: con_write_all.simps)
  next
    case False
    then have ch: "chunks 4096 data = take 4096 data # chunks 4096 (drop 4096 data)" by (simp add: chunks_step)
    obtain c1 where c1: "write_bytes c data = Ok (Some (min (length data) 4096), c1)" "console_ok c1"
        "con_in_flight c1 = con_in_flight c @ [take 4096 data]" "con_stream c1 = con_stream c"
      using write_bytes_room [OF 1(2) False] 1(3) ch by auto
    have "drop (min (length data) 4096) data = drop 4096 data" by (simp add: min_def)
    moreover obtain c' where "con_write_all c1 (drop 4096 data) = Some (Ok c')" "console_ok c'"
        "con_in_flight c' = con_in_flight c1 @ chunks 4096 (drop 4096 data)" "con_stream c' = con_stream c1"
      using 1(1) [rule_format, of "drop 4096 data" c1] False c1(2,3) 1(3) ch by auto
    ultimately show ?thesis using False c1 ch by (simp add: con_write_all.simps [of c])
  qed
qed

lemma con_in_flight_bound: "console_ok c \<Longrightarrow> length (con_in_flight c) \<le> 16"
  using tx_content_bound [of 16 4096 "con_tx_queue c"] by (simp add: console_ok_def con_in_flight_def)

lemma con_write_all_waits:
  assumes "con_write_all c data = Some y" "console_ok c"
  shows "length (con_in_flight c) + length (chunks 4096 data) \<le> 16"
  using assms
proof (induction c data y rule: con_write_all.raw_induct [rotated 1, consumes 1])
  case (1 loop c data y)
  note b = con_in_flight_bound [OF 1(3)]
  show ?case
  proof (cases "data = []")
    case False
    show ?thesis
    proof (cases "length (con_in_flight c) < 16")
      case True
      obtain c1 where c1: "write_bytes c data = Ok (Some (min (length data) 4096), c1)" "console_ok c1"
          "con_in_flight c1 = con_in_flight c @ [take 4096 data]"
        using write_bytes_room [OF 1(3) False True] by auto
      have "drop (min (length data) 4096) data = drop 4096 data" by (simp add: min_def)
      then have "loop c1 (drop 4096 data) = Some y" using 1(2) False c1(1) by simp
      from 1(1) [OF this c1(2)] c1(3) show ?thesis using False by (simp add: chunks_step)
    next
      case full: False
      obtain c1 where c1: "write_bytes c data = Ok (None, c1)" "console_ok c1"
          "con_in_flight c1 = con_in_flight c"
        using write_bytes_full [OF 1(3) False] full b by auto
      then have "loop c1 data = Some y" using 1(2) False by simp
      from 1(1) [OF this c1(2)] c1(3) show ?thesis by simp
    qed
  qed (use b in simp)
qed

subsection \<open>The console as a channel\<close>

definition con_channel :: "Console \<Rightarrow> channel" where
  "con_channel c = \<lparr>chan_in = con_stream c, chan_out = concat (con_in_flight c)\<rparr>"

definition con_space :: "Console \<Rightarrow> nat" where
  "con_space c = CONSOLE_QUEUE_SIZE - length (con_in_flight c)"

lemma con_read_law:
  assumes "console_ok c" "read_exact (con_channel c) len = Ok (bs, ch)"
  shows "\<exists>c'. con_read_exact c len = Some (Ok (bs, c')) \<and> console_ok c' \<and> con_channel c' = ch \<and>
    con_space c' = con_space c"
proof -
  have "len \<le> length (con_stream c)" "bs = take len (con_stream c)"
      "ch = \<lparr>chan_in = drop len (con_stream c), chan_out = concat (con_in_flight c)\<rparr>"
    using assms(2) by (auto simp: read_exact_def con_channel_def split: if_splits)
  then show ?thesis
    using con_read_exact_returns [OF assms(1)] by (force simp: con_channel_def con_space_def con_in_flight_def)
qed

lemma con_write_law:
  assumes "console_ok c" "length (chunks 4096 data) \<le> con_space c"
  shows "\<exists>c'. con_write_all c data = Some (Ok c') \<and> console_ok c' \<and>
    con_channel c' = write_all (con_channel c) data \<and> con_space c' = con_space c - length (chunks 4096 data)"
  using con_write_all_returns [OF assms(1), of data] con_in_flight_bound [OF assms(1)] assms(2)
  by (force simp: con_channel_def con_space_def write_all_def)

interpretation con_chan: byte_channel console_ok con_channel con_space "\<lambda>data. length (chunks CONSOLE_BUFFER_SIZE data)"
  con_read_exact con_write_all
  by unfold_locales (use con_read_law con_write_law in blast)+

lemma Console_new_Ok:
  assumes "tx + 16 * 4096 < 2 ^ 52" "rx + 16 * 4096 < 2 ^ 52"
  shows "\<exists>c. Console_new (Some tx) (Some rx) = Ok c \<and> console_ok c \<and> con_stream c = [] \<and> con_in_flight c = []"
proof -
  obtain d where "DriverWriteOnlyQueue_new 16 4096 (Some tx) = Ok d" "tx_ok 16 4096 d" "tx_content 16 4096 d = []"
    using DriverWriteOnlyQueue_new_Ok [OF ring_size_examples(2) _ assms(1)] by auto
  moreover obtain q where "DeviceWriteOnlyQueue_new 16 4096 (Some rx) = Ok q" "rx_ok 16 4096 q" "rx_content 16 4096 q = []"
    using DeviceWriteOnlyQueue_new_Ok [OF ring_size_examples(2) _ assms(2)] by auto
  ultimately show ?thesis
    by (simp add: Console_new_def console_ok_def con_stream_def con_received_def con_in_flight_def)
qed

section \<open>Properties\<close>

text \<open>C22. The console implements the byte channel that frames and messages are written for: whatever
  sequence of reads and writes succeeds on the two byte streams, with enough free buffers for the writes,
  returns the same on the console and leaves it with the same streams.\<close>

theorem console_implements_channel:
  assumes "console_ok c" "channel_run ops (con_channel c) = Ok (rs, ch)"
    and "sum_list (map (op_cost (\<lambda>data. length (chunks CONSOLE_BUFFER_SIZE data))) ops) \<le> con_space c"
  shows "\<exists>c'. impl_run con_read_exact con_write_all ops c = Some (Ok (rs, c')) \<and> console_ok c' \<and> con_channel c' = ch"
  by (rule con_chan.runs_agree [OF assms])

text \<open>A console that has received three bytes.\<close>

lemma console_with_input:
  "\<exists>c. console_ok c \<and> con_stream c = [1, 2, 3] \<and> con_in_flight c = []"
proof -
  obtain c where c: "console_ok c" "con_stream c = []" "con_in_flight c = []"
    using Console_new_Ok [of 0 0] by auto
  have e: "concat (con_received c) = []" using c(2) by (auto simp: con_stream_def split: option.splits)
  obtain q where "rx_ok 16 4096 q" "rx_content 16 4096 q = [[1, 2, 3]]"
  proof -
    obtain q0 where q0: "rx_ok 16 4096 q0" "rx_content 16 4096 q0 = []"
      using DeviceWriteOnlyQueue_new_Ok [OF ring_size_examples(2), of 4096 0] by auto
    with rx.send_room [of 16 4096 q0 "[1, 2, 3]"] that show ?thesis by auto
  qed
  then have "console_ok (c\<lparr>con_rx_queue := q, con_pending_data := None\<rparr>) \<and>
      con_stream (c\<lparr>con_rx_queue := q, con_pending_data := None\<rparr>) = [1, 2, 3] \<and>
      con_in_flight (c\<lparr>con_rx_queue := q, con_pending_data := None\<rparr>) = []"
    using c by (simp add: console_ok_def con_stream_def con_received_def con_in_flight_def)
  then show ?thesis by blast
qed

theorem console_implements_channel_witness:
  "\<exists>c c'. console_ok c \<and> con_stream c = [1, 2, 3] \<and>
     impl_run con_read_exact con_write_all [ReadOp 2, WriteOp [7, 8]] c = Some (Ok ([[1, 2]], c')) \<and>
     con_channel c' = \<lparr>chan_in = [3], chan_out = [7, 8]\<rparr>"
proof -
  obtain c where c: "console_ok c" "con_stream c = [1, 2, 3]" "con_in_flight c = []"
    using console_with_input by blast
  have "channel_run [ReadOp 2, WriteOp [7, 8]] (con_channel c) = Ok ([[1, 2]], \<lparr>chan_in = [3], chan_out = [7, 8]\<rparr>)"
    using c by (simp add: con_channel_def read_exact_def write_all_def)
  moreover have "sum_list (map (op_cost (\<lambda>data. length (chunks CONSOLE_BUFFER_SIZE data)))
      [ReadOp 2, WriteOp [7, 8]]) \<le> con_space c"
    using c(3) by (simp add: con_space_def chunks_step)
  ultimately show ?thesis using console_implements_channel [OF c(1)] c(1,2) by blast
qed

text \<open>Between two actions of the device, reading returns exactly when the bytes asked for have
  been received, and writing exactly when there are free buffers for all pieces of the data.\<close>

theorem console_returns_iff:
  assumes "console_ok c"
  shows "(\<exists>y. con_read_exact c len = Some y) \<longleftrightarrow> len \<le> length (con_stream c)"
    and "(\<exists>y. con_write_all c data = Some y) \<longleftrightarrow>
      length (con_in_flight c) + length (chunks CONSOLE_BUFFER_SIZE data) \<le> CONSOLE_QUEUE_SIZE"
  using con_read_exact_returns [OF assms, of len] con_read_exact_waits [OF assms, of len]
    con_write_all_returns [OF assms, of data] con_write_all_waits [OF _ assms, of data]
  by (metis leI option.distinct(1), blast)

theorem console_returns_iff_witness:
  "\<exists>c. console_ok c \<and> (\<exists>y. con_read_exact c 3 = Some y) \<and> con_read_exact c 4 = None"
proof -
  obtain c where c: "console_ok c" "con_stream c = [1, 2, 3]" using console_with_input by blast
  from console_returns_iff(1) [OF c(1), of 3] console_returns_iff(1) [OF c(1), of 4] c show ?thesis
    by (cases "con_read_exact c 4") auto
qed

end
