(* ===== verification/Oak_Fd.thy ===== *)
theory Oak_Fd
  imports Oak_Console
begin

text \<open>
  The file descriptors of the restricted kernel and their clients: the descriptors and the table
  (\<^verbatim>\<open>oak_restricted_kernel/src/syscall\<close>: \<^verbatim>\<open>fd.rs\<close>, \<^verbatim>\<open>channel.rs\<close>,
  \<^verbatim>\<open>stdio.rs\<close>, \<^verbatim>\<open>key.rs\<close>, \<^verbatim>\<open>dice_data.rs\<close>, built with the feature
  \<^verbatim>\<open>initrd\<close>), the numbers and the wrappers of the system calls
  (\<^verbatim>\<open>oak_restricted_kernel_interface/src\<close>), the channel of the applications
  (\<^verbatim>\<open>oak_restricted_kernel_sdk/src/channel.rs\<close>) and the hand-over of keys and evidence from
  the orchestrator to the application. User and kernel share an address space, so a pointer and a
  count are the buffer they name. DICE data are the bytes of the C structs. An operation that fails
  returns its fault and the state it leaves. The kernel's channel is any implementation of the trait
  \<^verbatim>\<open>oak_channel::Channel\<close>: its operations and its state are parameters, and it may fail, panic or never
  return, which is \<open>None\<close>.
\<close>

section \<open>Numbers of the interface\<close>

datatype Errno = EIO | EBADF | ENOMEM | EFAULT | EINVAL | ENOSYS

fun errno_repr :: "Errno \<Rightarrow> int" where
  "errno_repr EIO = - 5"
| "errno_repr EBADF = - 9"
| "errno_repr ENOMEM = - 12"
| "errno_repr EFAULT = - 14"
| "errno_repr EINVAL = - 22"
| "errno_repr ENOSYS = - 38"

definition Errno_from_repr :: "int \<Rightarrow> Errno option" where
  "Errno_from_repr i = find (\<lambda>e. errno_repr e = i) [EIO, EBADF, ENOMEM, EFAULT, EINVAL, ENOSYS]"

abbreviation (input) OAK_CHANNEL_FD :: int where "OAK_CHANNEL_FD \<equiv> 0xa"

abbreviation (input) DERIVED_KEY_FD :: int where "DERIVED_KEY_FD \<equiv> 0x21"

abbreviation (input) DICE_DATA_FD :: int where "DICE_DATA_FD \<equiv> 0x42"

text \<open>The number is written with the operator \<^verbatim>\<open>^\<close>, which is exclusive or.\<close>

definition UNSTABLE_SYSCALL_SPACE :: nat where
  "UNSTABLE_SYSCALL_SPACE = 2147483647 - (10 XOR 3)"

datatype Syscall = Read | Write | Mmap | Exit | Fsync | UnstableSwitchProcess

fun syscall_repr :: "Syscall \<Rightarrow> nat" where
  "syscall_repr Read = 0"
| "syscall_repr Write = 1"
| "syscall_repr Mmap = 9"
| "syscall_repr Exit = 60"
| "syscall_repr Fsync = 74"
| "syscall_repr UnstableSwitchProcess = UNSTABLE_SYSCALL_SPACE + 1"

definition Syscall_from_repr :: "nat \<Rightarrow> Syscall option" where
  "Syscall_from_repr n =
     find (\<lambda>s. syscall_repr s = n) [Read, Write, Mmap, Exit, Fsync, UnstableSwitchProcess]"

lemma Errno_from_repr_repr [simp]: "Errno_from_repr (errno_repr e) = Some e"
  by (cases e) (simp_all add: Errno_from_repr_def)

lemma errno_repr_neg [simp]: "errno_repr e < 0"
  by (cases e) simp_all

lemma Syscall_from_repr_repr [simp]: "Syscall_from_repr (syscall_repr s) = Some s"
  by (cases s) (simp_all add: Syscall_from_repr_def UNSTABLE_SYSCALL_SPACE_def)

section \<open>The descriptors\<close>

definition copy_max_slice :: "bytes \<Rightarrow> bytes \<Rightarrow> bytes \<times> nat" where
  "copy_max_slice src_buf dst_buf =
     (let len = min (length src_buf) (length dst_buf) in (take len src_buf @ drop len dst_buf, len))"

lemma copy_max_slice_fits [simp]:
  "length dst \<le> length src \<Longrightarrow> copy_max_slice src dst = (take (length dst) src, length dst)"
  by (simp add: copy_max_slice_def min_def Let_def)

subsection \<open>The channel\<close>

definition ISIZE_LIMIT :: nat where "ISIZE_LIMIT = 2 ^ 63"

text \<open>
  A \<^verbatim>\<open>dyn Channel\<close>: each operation gives its result and the state it leaves, \<^verbatim>\<open>read_exact\<close> also what it
  leaves in the buffer.
\<close>

record 'c channel_ops =
  op_read_exact :: "'c \<Rightarrow> bytes \<Rightarrow> (unit anyhow \<times> bytes \<times> 'c) option"
  op_write_all :: "'c \<Rightarrow> bytes \<Rightarrow> (unit anyhow \<times> 'c) option"
  op_flush :: "'c \<Rightarrow> (unit anyhow \<times> 'c) option"

definition channel_read :: "'c channel_ops \<Rightarrow> 'c \<Rightarrow> bytes \<Rightarrow> ((int, Errno) result \<times> bytes \<times> 'c) option" where
  "channel_read ops ch buf =
     (if \<not> length buf < ISIZE_LIMIT then Some (Error EINVAL, buf, ch)
      else map_option (\<lambda>(r, data, ch). (and_then (map_err (\<lambda>_. EIO) r) (\<lambda>_. Ok (int (length buf))), data, ch))
        (op_read_exact ops ch buf))"

definition channel_write :: "'c channel_ops \<Rightarrow> 'c \<Rightarrow> bytes \<Rightarrow> ((int, Errno) result \<times> 'c) option" where
  "channel_write ops ch buf =
     (if \<not> length buf < ISIZE_LIMIT then Some (Error EINVAL, ch)
      else map_option (\<lambda>(r, ch). (and_then (map_err (\<lambda>_. EIO) r) (\<lambda>_. Ok (int (length buf))), ch))
        (op_write_all ops ch buf))"

definition channel_sync :: "'c channel_ops \<Rightarrow> 'c \<Rightarrow> ((unit, Errno) result \<times> 'c) option" where
  "channel_sync ops ch = map_option (\<lambda>(r, ch). (map_err (\<lambda>_. EIO) r, ch)) (op_flush ops ch)"

subsection \<open>Standard error\<close>

text \<open>The serial port: what was sent, and whether it takes the next byte.\<close>

record serial_port =
  port_sent :: bytes
  port_accepts :: "bytes \<Rightarrow> u8 \<Rightarrow> bool"

fun send_bytes :: "serial_port \<Rightarrow> bytes \<Rightarrow> (unit, Errno) result \<times> serial_port" where
  "send_bytes port [] = (Ok (), port)"
| "send_bytes port (b # bs) =
     (if port_accepts port (port_sent port) b then send_bytes (port\<lparr>port_sent := port_sent port @ [b]\<rparr>) bs
      else (Error EIO, port))"

definition stderr_write :: "serial_port option \<Rightarrow> bytes \<Rightarrow> (int, Errno) result \<times> serial_port option" where
  "stderr_write lock buf =
     (let buf = take (min (length buf) (ISIZE_LIMIT - 1)) buf in
      case lock of
        None \<Rightarrow> (panic ''called `Option::unwrap()` on a `None` value'', None)
      | Some port \<Rightarrow>
          (case send_bytes port buf of
             (Inl e, port) \<Rightarrow> (Inl e, Some port)
           | (Inr _, port) \<Rightarrow> (Ok (int (length buf)), Some port)))"

subsection \<open>The derived key\<close>

abbreviation (input) DERIVED_KEY_SIZE :: nat where "DERIVED_KEY_SIZE \<equiv> 32"

datatype key_descriptor = KeyReadable bytes nat | KeyWriteable bytes nat

definition key_new :: key_descriptor where
  "key_new = KeyWriteable (replicate DERIVED_KEY_SIZE 0) 0"

fun key_read :: "key_descriptor \<Rightarrow> bytes \<Rightarrow> (int \<times> bytes, Errno) result \<times> key_descriptor" where
  "key_read (KeyWriteable d i) buf = (Error EINVAL, KeyWriteable d i)"
| "key_read (KeyReadable d i) buf =
     (case sub_slice d i (length d) of
        Inl e \<Rightarrow> (Inl e, KeyReadable d i)
      | Inr src \<Rightarrow>
          let (buf, len) = copy_max_slice src buf in
          (Ok (int len, buf), KeyReadable d (i + len)))"

fun key_write :: "key_descriptor \<Rightarrow> bytes \<Rightarrow> (int, Errno) result \<times> key_descriptor" where
  "key_write (KeyReadable d i) buf = (Error EINVAL, KeyReadable d i)"
| "key_write (KeyWriteable d i) buf =
     (case sub_slice d i (length d) of
        Inl e \<Rightarrow> (Inl e, KeyWriteable d i)
      | Inr rest \<Rightarrow>
          if length buf > length rest then (Error EINVAL, KeyWriteable d i)
          else
            let (rest, len) = copy_max_slice buf rest;
                d = take i d @ rest; i = i + len in
            (Ok (int len), if i = length d then KeyReadable d 0 else KeyWriteable d i))"

subsection \<open>The DICE data\<close>

abbreviation (input) STAGE0_DICE_DATA_SIZE :: nat where "STAGE0_DICE_DATA_SIZE \<equiv> 4096"

abbreviation (input) RESTRICTED_KERNEL_DICE_DATA_SIZE :: nat where
  "RESTRICTED_KERNEL_DICE_DATA_SIZE \<equiv> 5520"

datatype dice_data = Layer0 bytes | Layer1 bytes

fun as_mut_slice :: "dice_data \<Rightarrow> bytes" where
  "as_mut_slice (Layer0 bs) = bs"
| "as_mut_slice (Layer1 bs) = bs"

fun with_slice :: "dice_data \<Rightarrow> bytes \<Rightarrow> dice_data" where
  "with_slice (Layer0 _) bs = Layer0 bs"
| "with_slice (Layer1 _) bs = Layer1 bs"

datatype dice_descriptor = DiceReadable dice_data nat | DiceWriteable bytes nat

definition dice_new :: "dice_data \<Rightarrow> dice_descriptor" where
  "dice_new data = DiceReadable data 0"

fun dice_read :: "dice_descriptor \<Rightarrow> bytes \<Rightarrow> (int \<times> bytes, Errno) result \<times> dice_descriptor" where
  "dice_read (DiceWriteable d i) buf = (Error EINVAL, DiceWriteable d i)"
| "dice_read (DiceReadable d i) buf =
     (let slice = as_mut_slice d in
      case sub_slice slice i (length slice) of
        Inl e \<Rightarrow> (Inl e, DiceReadable d i)
      | Inr src \<Rightarrow>
          let (buf, len) = copy_max_slice src buf in
          (Ok (int len, buf),
           DiceReadable (with_slice d (overwrite slice i (replicate len 0))) (i + len)))"

text \<open>The writable state, and the first write, which drops the data of the layer below.\<close>

definition dice_write_state :: "bytes \<Rightarrow> nat \<Rightarrow> bytes \<Rightarrow> (int, Errno) result \<times> dice_descriptor" where
  "dice_write_state d i buf =
     (case sub_slice d i (length d) of
        Inl e \<Rightarrow> (Inl e, DiceWriteable d i)
      | Inr rest \<Rightarrow>
          if length buf > length rest then (Error EINVAL, DiceWriteable d i)
          else
            let (rest, len) = copy_max_slice buf rest;
                d = take i d @ rest; i = i + len in
            (Ok (int len), if i = length d then DiceReadable (Layer1 d) 0 else DiceWriteable d i))"

fun dice_write :: "dice_descriptor \<Rightarrow> bytes \<Rightarrow> (int, Errno) result \<times> dice_descriptor" where
  "dice_write (DiceReadable (Layer0 d) i) buf =
     dice_write_state (replicate RESTRICTED_KERNEL_DICE_DATA_SIZE 0) 0 buf"
| "dice_write (DiceReadable (Layer1 d) i) buf = (Error EINVAL, DiceReadable (Layer1 d) i)"
| "dice_write (DiceWriteable d i) buf = dice_write_state d i buf"

section \<open>The table\<close>

datatype 'c descriptor = F_channel 'c | F_stderr "serial_port option" | F_key key_descriptor
  | F_dice dice_descriptor

type_synonym 'c fds = "int \<rightharpoonup> 'c descriptor"

text \<open>The descriptors of the kernel itself leave the buffer alone when they refuse to read.\<close>

definition with_buffer :: "bytes \<Rightarrow> (int \<times> bytes, Errno) result \<Rightarrow> (int, Errno) result \<times> bytes" where
  "with_buffer buf r = (case r of Inl e \<Rightarrow> (Inl e, buf) | Inr (n, buf) \<Rightarrow> (Ok n, buf))"

fun file_read ::
  "'c channel_ops \<Rightarrow> 'c descriptor \<Rightarrow> bytes \<Rightarrow> ((int, Errno) result \<times> bytes \<times> 'c descriptor) option" where
  "file_read ops (F_channel c) buf = map_option (\<lambda>(r, buf, c). (r, buf, F_channel c)) (channel_read ops c buf)"
| "file_read ops (F_stderr p) buf = Some (Error EINVAL, buf, F_stderr p)"
| "file_read ops (F_key k) buf =
     (case key_read k buf of (r, k) \<Rightarrow> case with_buffer buf r of (r, buf) \<Rightarrow> Some (r, buf, F_key k))"
| "file_read ops (F_dice d) buf =
     (case dice_read d buf of (r, d) \<Rightarrow> case with_buffer buf r of (r, buf) \<Rightarrow> Some (r, buf, F_dice d))"

fun file_write :: "'c channel_ops \<Rightarrow> 'c descriptor \<Rightarrow> bytes \<Rightarrow> ((int, Errno) result \<times> 'c descriptor) option" where
  "file_write ops (F_channel c) buf = map_option (\<lambda>(r, c). (r, F_channel c)) (channel_write ops c buf)"
| "file_write ops (F_stderr p) buf = (case stderr_write p buf of (r, p) \<Rightarrow> Some (r, F_stderr p))"
| "file_write ops (F_key k) buf = (case key_write k buf of (r, k) \<Rightarrow> Some (r, F_key k))"
| "file_write ops (F_dice d) buf = (case dice_write d buf of (r, d) \<Rightarrow> Some (r, F_dice d))"

fun file_sync :: "'c channel_ops \<Rightarrow> 'c descriptor \<Rightarrow> ((unit, Errno) result \<times> 'c descriptor) option" where
  "file_sync ops (F_channel c) = map_option (\<lambda>(r, c). (r, F_channel c)) (channel_sync ops c)"
| "file_sync ops f = Some (Ok (), f)"

definition fd_register :: "'c fds \<Rightarrow> int \<Rightarrow> 'c descriptor \<Rightarrow> (unit, 'c descriptor) result \<times> 'c fds" where
  "fd_register descriptors fd descriptor =
     (case descriptors fd of
        None \<Rightarrow> (Ok (), descriptors(fd \<mapsto> descriptor))
      | Some _ \<Rightarrow> (Error descriptor, descriptors))"

definition fd_unregister :: "'c fds \<Rightarrow> int \<Rightarrow> 'c descriptor option \<times> 'c fds" where
  "fd_unregister descriptors fd = (descriptors fd, descriptors(fd := None))"

text \<open>The number that a system call returns; the only fault is a panic of the kernel.\<close>

definition raw_result :: "('a \<Rightarrow> int) \<Rightarrow> ('a, Errno) result \<Rightarrow> (int, 'e) result" where
  "raw_result f r = (case r of Inr v \<Rightarrow> Ok (f v) | Inl (Err e) \<Rightarrow> Ok (errno_repr e) | Inl (Panic p) \<Rightarrow> panic p)"

definition syscall_read :: "'c channel_ops \<Rightarrow> 'c fds \<Rightarrow> int \<Rightarrow> bytes \<Rightarrow> ((int, 'e) result \<times> bytes \<times> 'c fds) option" where
  "syscall_read ops descriptors fd buf =
     (case descriptors fd of
        None \<Rightarrow> Some (Ok (errno_repr EBADF), buf, descriptors)
      | Some f \<Rightarrow>
          map_option (\<lambda>(r, buf, f). (raw_result id r, buf, descriptors(fd \<mapsto> f))) (file_read ops f buf))"

definition syscall_write :: "'c channel_ops \<Rightarrow> 'c fds \<Rightarrow> int \<Rightarrow> bytes \<Rightarrow> ((int, 'e) result \<times> 'c fds) option" where
  "syscall_write ops descriptors fd buf =
     (case descriptors fd of
        None \<Rightarrow> Some (Ok (errno_repr EBADF), descriptors)
      | Some f \<Rightarrow> map_option (\<lambda>(r, f). (raw_result id r, descriptors(fd \<mapsto> f))) (file_write ops f buf))"

definition syscall_fsync :: "'c channel_ops \<Rightarrow> 'c fds \<Rightarrow> int \<Rightarrow> ((int, 'e) result \<times> 'c fds) option" where
  "syscall_fsync ops descriptors fd =
     (case descriptors fd of
        None \<Rightarrow> Some (Ok (errno_repr EBADF), descriptors)
      | Some f \<Rightarrow> map_option (\<lambda>(r, f). (raw_result (\<lambda>_. 0) r, descriptors(fd \<mapsto> f))) (file_sync ops f))"

text \<open>The registrations of \<^verbatim>\<open>enable_syscalls\<close>, each of which expects a free number.\<close>

definition register_expect :: "string \<Rightarrow> int \<Rightarrow> 'c descriptor \<Rightarrow> 'c fds \<Rightarrow> ('c fds, 'e) result" where
  "register_expect msg fd f descriptors =
     (case fd_register descriptors fd f of
        (Inr _, descriptors) \<Rightarrow> Ok descriptors
      | (Inl _, _) \<Rightarrow> panic msg)"

definition enable_syscalls :: "'c \<Rightarrow> serial_port option \<Rightarrow> dice_data \<Rightarrow> 'c fds \<Rightarrow> ('c fds, 'e) result" where
  "enable_syscalls ch serial1 data descriptors =
     and_then (register_expect ''communication channel was already registered'' OAK_CHANNEL_FD
       (F_channel ch) descriptors) (\<lambda>descriptors.
     and_then (register_expect ''stderr already registered'' 2 (F_stderr serial1) descriptors) (\<lambda>descriptors.
     and_then (register_expect ''DerivedKeyDescriptor already registered'' DERIVED_KEY_FD
       (F_key key_new) descriptors) (\<lambda>descriptors.
     register_expect ''DiceDataDescriptor already registered'' DICE_DATA_FD (F_dice (dice_new data)) descriptors)))"

section \<open>The user's side\<close>

text \<open>A number the kernel returns: an error if it is negative.\<close>

definition syscall_result :: "string \<Rightarrow> int \<Rightarrow> (nat, Errno) result" where
  "syscall_result call ret =
     (if ret < 0
      then (case Errno_from_repr ret of
              Some e \<Rightarrow> Error e
            | None \<Rightarrow> panic (''unexpected error from '' @ call @ '' syscall''))
      else Ok (nat ret))"

definition user_read :: "'c channel_ops \<Rightarrow> int \<Rightarrow> 'c fds \<Rightarrow> bytes \<Rightarrow> ((nat, Errno) result \<times> bytes \<times> 'c fds) option" where
  "user_read ops fd descriptors buf =
     map_option (\<lambda>(ret, buf, descriptors). (and_then ret (syscall_result ''read''), buf, descriptors))
       (syscall_read ops descriptors fd buf)"

definition user_write :: "'c channel_ops \<Rightarrow> int \<Rightarrow> 'c fds \<Rightarrow> bytes \<Rightarrow> ((nat, Errno) result \<times> 'c fds) option" where
  "user_write ops fd descriptors buf =
     map_option (\<lambda>(ret, descriptors). (and_then ret (syscall_result ''write''), descriptors))
       (syscall_write ops descriptors fd buf)"

definition user_fsync :: "'c channel_ops \<Rightarrow> int \<Rightarrow> 'c fds \<Rightarrow> ((unit, Errno) result \<times> 'c fds) option" where
  "user_fsync ops fd descriptors =
     map_option (\<lambda>(ret, descriptors). (and_then (and_then ret (syscall_result ''fsync'')) (\<lambda>_. Ok ()), descriptors))
       (syscall_fsync ops descriptors fd)"

text \<open>
  \<^verbatim>\<open>FileDescriptorChannel\<close>: read and write until nothing remains, here over any system call for
  reading and for writing. A call that makes no progress is repeated, so a loop that never ends is \<open>None\<close>,
  as is one in which a call does not return.
\<close>

partial_function (option) fd_read_loop ::
  "('s \<Rightarrow> bytes \<Rightarrow> ((nat, Errno) result \<times> bytes \<times> 's) option) \<Rightarrow> 's \<Rightarrow> bytes \<Rightarrow> nat
     \<Rightarrow> (unit anyhow \<times> bytes \<times> 's) option" where
  "fd_read_loop rd s data remaining =
     (if remaining > 0 then
        Option.bind (rd s (drop (length data - remaining) data)) (\<lambda>(r, chunk, s).
          let data = take (length data - remaining) data @ chunk in
          case r of
            Inl (Err _) \<Rightarrow> Some (Error [''read failure''], data, s)
          | Inl (Panic p) \<Rightarrow> Some (panic p, data, s)
          | Inr n \<Rightarrow>
              if n \<le> remaining then fd_read_loop rd s data (remaining - n)
              else Some (panic ''attempt to subtract with overflow'', data, s))
      else Some (Ok (), data, s))"

definition fd_read_exact :: "'c channel_ops \<Rightarrow> int \<Rightarrow> 'c fds \<Rightarrow> bytes \<Rightarrow> (unit anyhow \<times> bytes \<times> 'c fds) option" where
  "fd_read_exact ops fd descriptors data = fd_read_loop (user_read ops fd) descriptors data (length data)"

partial_function (option) fd_write_loop ::
  "('s \<Rightarrow> bytes \<Rightarrow> ((nat, Errno) result \<times> 's) option) \<Rightarrow> 's \<Rightarrow> bytes \<Rightarrow> nat \<Rightarrow> (unit anyhow \<times> 's) option" where
  "fd_write_loop wr s data remaining =
     (if remaining > 0 then
        Option.bind (wr s (drop (length data - remaining) data)) (\<lambda>(r, s).
          case r of
            Inl (Err _) \<Rightarrow> Some (Error [''write failure''], s)
          | Inl (Panic p) \<Rightarrow> Some (panic p, s)
          | Inr n \<Rightarrow>
              if n \<le> remaining then fd_write_loop wr s data (remaining - n)
              else Some (panic ''attempt to subtract with overflow'', s))
      else Some (Ok (), s))"

definition fd_write_all :: "'c channel_ops \<Rightarrow> int \<Rightarrow> 'c fds \<Rightarrow> bytes \<Rightarrow> (unit anyhow \<times> 'c fds) option" where
  "fd_write_all ops fd descriptors data = fd_write_loop (user_write ops fd) descriptors data (length data)"

definition fd_flush :: "'c channel_ops \<Rightarrow> int \<Rightarrow> 'c fds \<Rightarrow> (unit anyhow \<times> 'c fds) option" where
  "fd_flush ops fd descriptors =
     map_option (\<lambda>(r, descriptors). (map_err (\<lambda>_. [''sync failure'']) r, descriptors)) (user_fsync ops fd descriptors)"

section \<open>The hand-over\<close>

text \<open>The orchestrator takes the DICE data of stage 0, and writes the derived key and the DICE data
  of the application; the application reads them.\<close>

definition read_stage0_dice_data :: "'c channel_ops \<Rightarrow> 'c fds \<Rightarrow> ((bytes, 'e) result \<times> 'c fds) option" where
  "read_stage0_dice_data ops descriptors =
     map_option (\<lambda>(r, buf, descriptors). (case r of
          Inl (Panic p) \<Rightarrow> panic p
        | Inl (Err _) \<Rightarrow> panic ''failed to read dice data''
        | Inr len \<Rightarrow> if len = length buf then Ok buf else panic ''invalid dice data size'', descriptors))
       (user_read ops DICE_DATA_FD descriptors (replicate STAGE0_DICE_DATA_SIZE 0))"

definition write_expect :: "'c channel_ops \<Rightarrow> string \<Rightarrow> 'c fds \<Rightarrow> int \<Rightarrow> bytes \<Rightarrow> ((unit, 'e) result \<times> 'c fds) option" where
  "write_expect ops msg descriptors fd buf =
     map_option (\<lambda>(r, descriptors). (case r of
          Inl (Panic p) \<Rightarrow> panic p
        | Inl (Err _) \<Rightarrow> panic msg
        | Inr _ \<Rightarrow> Ok (), descriptors))
       (user_write ops fd descriptors buf)"

definition hand_over :: "'c channel_ops \<Rightarrow> 'c fds \<Rightarrow> bytes \<Rightarrow> bytes \<Rightarrow> ((unit, 'e) result \<times> 'c fds) option" where
  "hand_over ops descriptors derived_key data =
     Option.bind (write_expect ops ''failed to write derived key'' descriptors DERIVED_KEY_FD derived_key) (\<lambda>(r, descriptors).
       case r of
         Inl e \<Rightarrow> Some (Inl e, descriptors)
       | Inr _ \<Rightarrow> write_expect ops ''failed to write dice data'' descriptors DICE_DATA_FD data)"

definition get_restricted_kernel_dice_data :: "'c channel_ops \<Rightarrow> 'c fds \<Rightarrow> (bytes anyhow \<times> 'c fds) option" where
  "get_restricted_kernel_dice_data ops descriptors =
     map_option (\<lambda>(r, buf, descriptors). (case r of
          Inl (Panic p) \<Rightarrow> panic p
        | Inl (Err _) \<Rightarrow> Error [''read failure'']
        | Inr len \<Rightarrow> if len \<noteq> length buf then Error [''invalid dice data size''] else Ok buf, descriptors))
       (user_read ops DICE_DATA_FD descriptors (replicate RESTRICTED_KERNEL_DICE_DATA_SIZE 0))"

section \<open>The descriptors stay well formed\<close>

lemma unstable_syscall_number: "syscall_repr UnstableSwitchProcess = 2147483639"
  by (simp add: UNSTABLE_SYSCALL_SPACE_def)

text \<open>What was read of the DICE data is gone from the kernel; what is not yet written is zero.\<close>

fun key_ok :: "key_descriptor \<Rightarrow> bool" where
  "key_ok (KeyReadable d i) \<longleftrightarrow> length d = DERIVED_KEY_SIZE \<and> i \<le> length d"
| "key_ok (KeyWriteable d i) \<longleftrightarrow> length d = DERIVED_KEY_SIZE \<and> i < length d"

fun dice_size :: "dice_data \<Rightarrow> nat" where
  "dice_size (Layer0 _) = STAGE0_DICE_DATA_SIZE"
| "dice_size (Layer1 _) = RESTRICTED_KERNEL_DICE_DATA_SIZE"

fun dice_ok :: "dice_descriptor \<Rightarrow> bool" where
  "dice_ok (DiceReadable d i) \<longleftrightarrow> length (as_mut_slice d) = dice_size d \<and> i \<le> dice_size d \<and>
     take i (as_mut_slice d) = replicate i 0"
| "dice_ok (DiceWriteable d i) \<longleftrightarrow> length d = RESTRICTED_KERNEL_DICE_DATA_SIZE \<and> i < length d \<and>
     drop i d = replicate (length d - i) 0"

fun descriptor_ok :: "'c descriptor \<Rightarrow> bool" where
  "descriptor_ok (F_channel _) = True"
| "descriptor_ok (F_stderr p) \<longleftrightarrow> p \<noteq> None"
| "descriptor_ok (F_key k) = key_ok k"
| "descriptor_ok (F_dice d) = dice_ok d"

lemma with_slice_simps [simp]:
  "as_mut_slice (with_slice d bs) = bs" "dice_size (with_slice d bs) = dice_size d"
  "with_slice (with_slice d cs) bs = with_slice d bs" "with_slice d (as_mut_slice d) = d"
  by (cases d; simp)+




lemma dice_read_state:
  assumes "dice_ok (DiceReadable d i)"
  shows "dice_read (DiceReadable d i) buf =
    (let n = min (dice_size d - i) (length buf) in
     (Ok (int n, take n (drop i (as_mut_slice d)) @ drop n buf),
      DiceReadable (with_slice d (replicate (i + n) 0 @ drop (i + n) (as_mut_slice d))) (i + n)))"
proof -
  let ?n = "min (dice_size d - i) (length buf)"
  have "copy_max_slice (drop i (as_mut_slice d)) buf = (take ?n (drop i (as_mut_slice d)) @ drop ?n buf, ?n)"
    using assms by (simp add: copy_max_slice_def Let_def)
  moreover have "overwrite (as_mut_slice d) i (replicate ?n 0) = replicate (i + ?n) 0 @ drop (i + ?n) (as_mut_slice d)"
    using assms by (simp add: overwrite_def replicate_add)
  ultimately show ?thesis using assms by (simp add: sub_slice_def Let_def)
qed






lemma with_buffer_ok:
  "r = Error e \<or> r = Ok (int n, b) \<Longrightarrow> \<exists>r' buf'. with_buffer buf r = (r', buf') \<and> (r' = Error e \<or> r' = Ok (int n))"
  by (auto simp: with_buffer_def)



section \<open>Every sequence of system calls\<close>




lemma syscall_result_errno [simp]: "syscall_result call (errno_repr e) = Error e"
  by (simp add: syscall_result_def)

declare errno_repr.simps [simp del]

lemma syscall_result_of_nat [simp]: "syscall_result call (int n) = Ok n"
  by (simp add: syscall_result_def)

lemma syscall_result_numeral [simp]: "syscall_result call (numeral n) = Ok (numeral n)"
  by (simp add: syscall_result_def)

lemma raw_result_simps [simp]:
  "raw_result f (Inr v) = Ok (f v)" "raw_result f (Inl (Err e)) = Ok (errno_repr e)"
  "raw_result f (Inl (Panic p)) = panic p"
  by (simp_all add: raw_result_def)

text \<open>What the wrappers give on a channel: the outcome of the channel's operation.\<close>

lemma user_read_channel:
  assumes "descriptors fd = Some (F_channel ch)"
  shows "user_read ops fd descriptors buf =
    (if length buf < ISIZE_LIMIT
     then map_option (\<lambda>(r, data, ch). (and_then (map_err (\<lambda>_. EIO) r) (\<lambda>_. Ok (length buf)), data, descriptors(fd \<mapsto> F_channel ch)))
       (op_read_exact ops ch buf)
     else Some (Error EINVAL, buf, descriptors))"
  using assms
  by (auto simp: user_read_def syscall_read_def channel_read_def map_upd_triv and_then_def map_err_def option.map_comp
      intro!: option.map_cong split: sum.split fault.split)

lemma user_write_channel:
  assumes "descriptors fd = Some (F_channel ch)"
  shows "user_write ops fd descriptors buf =
    (if length buf < ISIZE_LIMIT
     then map_option (\<lambda>(r, ch). (and_then (map_err (\<lambda>_. EIO) r) (\<lambda>_. Ok (length buf)), descriptors(fd \<mapsto> F_channel ch)))
       (op_write_all ops ch buf)
     else Some (Error EINVAL, descriptors))"
  using assms
  by (auto simp: user_write_def syscall_write_def channel_write_def map_upd_triv and_then_def map_err_def option.map_comp
      intro!: option.map_cong split: sum.split fault.split)

lemma user_fsync_channel:
  assumes "descriptors fd = Some (F_channel ch)"
  shows "user_fsync ops fd descriptors =
    map_option (\<lambda>(r, ch). (map_err (\<lambda>_. EIO) r, descriptors(fd \<mapsto> F_channel ch))) (op_flush ops ch)"
  using assms syscall_result_of_nat [of "''fsync''" 0]
  by (auto simp: user_fsync_def syscall_fsync_def channel_sync_def and_then_def map_err_def option.map_comp
      intro!: option.map_cong split: sum.split fault.split)









lemma enable_syscalls_table:
  "enable_syscalls ch serial1 data Map.empty = Ok [OAK_CHANNEL_FD \<mapsto> F_channel ch, 2 \<mapsto> F_stderr serial1,
     DERIVED_KEY_FD \<mapsto> F_key key_new, DICE_DATA_FD \<mapsto> F_dice (dice_new data)]"
  by (simp add: enable_syscalls_def register_expect_def fd_register_def)



definition demo_port :: serial_port where
  "demo_port = \<lparr>port_sent = [], port_accepts = (\<lambda>_ _. True)\<rparr>"

definition demo_stage0 :: bytes where
  "demo_stage0 = replicate 4096 1"

lemma demo_stage0_size: "length (as_mut_slice (Layer0 demo_stage0)) = dice_size (Layer0 demo_stage0)"
  by (simp add: demo_stage0_def)

text \<open>Byte streams as a channel that fails at the end of its input.\<close>

definition stream_ops :: "channel channel_ops" where
  "stream_ops = \<lparr>
     op_read_exact = (\<lambda>ch buf. Some (case read_exact ch (length buf) of
         Inl e \<Rightarrow> (Inl e, buf, ch) | Inr (data, ch) \<Rightarrow> (Ok (), data, ch))),
     op_write_all = (\<lambda>ch buf. Some (Ok (), write_all ch buf)),
     op_flush = (\<lambda>ch. Some (Ok (), ch))\<rparr>"


section \<open>Read once\<close>

text \<open>The bytes that a sequence of reads delivers.\<close>

fun dice_reads :: "dice_descriptor \<Rightarrow> bytes list \<Rightarrow> bytes \<times> dice_descriptor" where
  "dice_reads d [] = ([], d)"
| "dice_reads d (buf # bufs) =
     (case dice_read d buf of
        (Inr (n, buf), d) \<Rightarrow> (case dice_reads d bufs of (out, d) \<Rightarrow> (take (nat n) buf @ out, d))
      | (Inl _, d) \<Rightarrow> dice_reads d bufs)"

lemma dice_reads_from:
  assumes "length data = dice_size d" "i \<le> length data"
  shows "dice_reads (DiceReadable (with_slice d (replicate i 0 @ drop i data)) i) bufs =
    (let k = min (length data - i) (sum_list (map length bufs)) in
     (take k (drop i data), DiceReadable (with_slice d (replicate (i + k) 0 @ drop (i + k) data)) (i + k)))"
  using assms
proof (induction bufs arbitrary: i)
  case (Cons buf bufs)
  let ?n = "min (length data - i) (length buf)"
  let ?k = "min (length data - (i + ?n)) (sum_list (map length bufs))"
  have k: "min (length data - i) (sum_list (map length (buf # bufs))) = ?n + ?k"
    by simp
  have "dice_ok (DiceReadable (with_slice d (replicate i 0 @ drop i data)) i)"
    using Cons.prems by simp
  from dice_read_state [OF this, of buf] Cons.prems
  have "dice_read (DiceReadable (with_slice d (replicate i 0 @ drop i data)) i) buf =
      (Ok (int ?n, take ?n (drop i data) @ drop ?n buf),
       DiceReadable (with_slice d (replicate (i + ?n) 0 @ drop (i + ?n) data)) (i + ?n))"
    by (simp add: Let_def add.commute [of _ i] del: dice_read.simps)
  moreover have "dice_reads (DiceReadable (with_slice d (replicate (i + ?n) 0 @ drop (i + ?n) data)) (i + ?n)) bufs =
     (take ?k (drop (i + ?n) data),
      DiceReadable (with_slice d (replicate (i + ?n + ?k) 0 @ drop (i + ?n + ?k) data)) (i + ?n + ?k))"
    using Cons.IH [of "i + ?n"] Cons.prems by (simp add: Let_def)
  moreover have "take ?n (drop i data) @ take ?k (drop (i + ?n) data) = take (?n + ?k) (drop i data)"
    by (simp only: take_add drop_drop add.commute)
  ultimately show ?case unfolding Let_def k by (simp add: add.assoc del: dice_read.simps)
qed simp

text \<open>However a program cuts its reads of the DICE data, it gets each byte once and in order;
  what it has got is overwritten with zeros, and after the last byte it gets nothing more.\<close>
theorem dice_data_read_once:
  assumes "length (as_mut_slice d) = dice_size d"
  shows "dice_reads (dice_new d) bufs =
    (let k = min (length (as_mut_slice d)) (sum_list (map length bufs)) in
     (take k (as_mut_slice d),
      DiceReadable (with_slice d (replicate k 0 @ drop k (as_mut_slice d))) k))"
  using dice_reads_from [OF assms, of 0 bufs] by (simp add: dice_new_def)

theorem dice_data_read_once_witness:
  "length (as_mut_slice (Layer0 demo_stage0)) = dice_size (Layer0 demo_stage0) \<and>
   fst (dice_reads (dice_new (Layer0 demo_stage0)) [replicate 4000 0, replicate 4000 0, [0]]) = demo_stage0"
  unfolding dice_data_read_once [OF demo_stage0_size] using demo_stage0_size
  by (simp add: demo_stage0_def Let_def)

section \<open>The hand-over, end to end\<close>

lemma user_read_dice:
  assumes "descriptors fd = Some (F_dice (DiceReadable d i))" "dice_ok (DiceReadable d i)"
  shows "user_read ops fd descriptors buf =
    (let n = min (dice_size d - i) (length buf) in
     Some (Ok n, take n (drop i (as_mut_slice d)) @ drop n buf,
      descriptors(fd \<mapsto> F_dice (DiceReadable
        (with_slice d (replicate (i + n) 0 @ drop (i + n) (as_mut_slice d))) (i + n)))))"
  using assms(1) dice_read_state [OF assms(2), of buf]
  by (simp add: user_read_def syscall_read_def with_buffer_def Let_def del: dice_read.simps)

lemma write_key_image:
  assumes "descriptors DERIVED_KEY_FD = Some (F_key key_new)" "length k = DERIVED_KEY_SIZE"
  shows "write_expect ops msg descriptors DERIVED_KEY_FD k
    = Some (Ok (), descriptors(DERIVED_KEY_FD \<mapsto> F_key (KeyReadable k 0)))"
  using assms by (simp add: write_expect_def user_write_def syscall_write_def key_new_def
      sub_slice_def copy_max_slice_def Let_def)

lemma write_dice_image:
  assumes "descriptors DICE_DATA_FD = Some (F_dice (DiceReadable (Layer0 d) i))"
    "length data = RESTRICTED_KERNEL_DICE_DATA_SIZE"
  shows "write_expect ops msg descriptors DICE_DATA_FD data
    = Some (Ok (), descriptors(DICE_DATA_FD \<mapsto> F_dice (DiceReadable (Layer1 data) 0)))"
  using assms by (simp add: write_expect_def user_write_def syscall_write_def dice_write_state_def
      sub_slice_def copy_max_slice_def Let_def)

text \<open>The table after the hand-over.\<close>

definition handed_over :: "'c \<Rightarrow> serial_port option \<Rightarrow> bytes \<Rightarrow> bytes \<Rightarrow> 'c fds" where
  "handed_over ch serial1 k data = [OAK_CHANNEL_FD \<mapsto> F_channel ch, 2 \<mapsto> F_stderr serial1,
     DERIVED_KEY_FD \<mapsto> F_key (KeyReadable k 0), DICE_DATA_FD \<mapsto> F_dice (DiceReadable (Layer1 data) 0)]"

lemma orchestrator_hands_over:
  assumes "enable_syscalls ch serial1 (Layer0 stage0) Map.empty = (Ok descriptors :: ('c fds, string) result)"
    and "length stage0 = STAGE0_DICE_DATA_SIZE" "length k = DERIVED_KEY_SIZE"
    and "length data = RESTRICTED_KERNEL_DICE_DATA_SIZE"
  shows "\<exists>taken. read_stage0_dice_data ops descriptors = Some ((Ok stage0 :: (bytes, string) result), taken) \<and>
    hand_over ops taken k data = Some ((Ok () :: (unit, string) result), handed_over ch serial1 k data)"
proof -
  have tab: "descriptors = [OAK_CHANNEL_FD \<mapsto> F_channel ch, 2 \<mapsto> F_stderr serial1,
     DERIVED_KEY_FD \<mapsto> F_key key_new, DICE_DATA_FD \<mapsto> F_dice (DiceReadable (Layer0 stage0) 0)]"
    using assms(1) by (simp add: enable_syscalls_table dice_new_def)
  let ?taken = "descriptors(DICE_DATA_FD \<mapsto> F_dice (DiceReadable (Layer0 (replicate STAGE0_DICE_DATA_SIZE 0))
      STAGE0_DICE_DATA_SIZE))"
  let ?keyed = "?taken(DERIVED_KEY_FD \<mapsto> F_key (KeyReadable k 0))"
  have "dice_ok (DiceReadable (Layer0 stage0) 0)" using assms(2) by simp
  from user_read_dice [OF _ this, of descriptors DICE_DATA_FD] assms(2) have
    "read_stage0_dice_data ops descriptors = Some ((Ok stage0 :: (bytes, string) result), ?taken)"
    by (simp add: read_stage0_dice_data_def tab)
  moreover have "write_expect ops msg ?taken DERIVED_KEY_FD k = Some ((Ok () :: (unit, string) result), ?keyed)" for msg
    using assms(3) by (intro write_key_image) (simp_all add: tab)
  moreover have "write_expect ops msg ?keyed DICE_DATA_FD data
      = Some ((Ok () :: (unit, string) result), ?keyed(DICE_DATA_FD \<mapsto> F_dice (DiceReadable (Layer1 data) 0)))" for msg
    using assms(4) by (intro write_dice_image) simp_all
  moreover have "?keyed(DICE_DATA_FD \<mapsto> F_dice (DiceReadable (Layer1 data) 0)) = handed_over ch serial1 k data"
    by (simp add: handed_over_def tab fun_upd_twist)
  ultimately show ?thesis by (simp add: hand_over_def)
qed

lemma application_reads_once:
  assumes "length data = RESTRICTED_KERNEL_DICE_DATA_SIZE"
  shows "\<exists>used used'. get_restricted_kernel_dice_data ops (handed_over ch serial1 k data) = Some (Ok data, used) \<and>
    get_restricted_kernel_dice_data ops used = Some (Error [''invalid dice data size''], used')"
proof -
  let ?zero = "DiceReadable (Layer1 (replicate RESTRICTED_KERNEL_DICE_DATA_SIZE 0)) RESTRICTED_KERNEL_DICE_DATA_SIZE"
  let ?used = "(handed_over ch serial1 k data)(DICE_DATA_FD \<mapsto> F_dice ?zero)"
  have ok: "dice_ok (DiceReadable (Layer1 data) 0)" "dice_ok ?zero" using assms by simp_all
  have "get_restricted_kernel_dice_data ops (handed_over ch serial1 k data) = Some (Ok data, ?used)"
    using user_read_dice [OF _ ok(1), of "handed_over ch serial1 k data" DICE_DATA_FD] assms
    by (simp add: get_restricted_kernel_dice_data_def handed_over_def)
  moreover have "\<exists>used'. get_restricted_kernel_dice_data ops ?used = Some (Error [''invalid dice data size''], used')"
    using user_read_dice [OF _ ok(2), of ?used DICE_DATA_FD]
    by (simp add: get_restricted_kernel_dice_data_def)
  ultimately show ?thesis by blast
qed

text \<open>C9. The hand-over: the orchestrator gets the DICE data of stage 0, and what it then writes as
  derived key and DICE data is what the application reads, the DICE data only once. The table after
  the hand-over does not depend on the DICE data of stage 0, and neither descriptor can be written
  again.\<close>
theorem hand_over_delivers:
  assumes "enable_syscalls ch serial1 (Layer0 stage0) Map.empty = (Ok descriptors :: ('c fds, string) result)"
    and "length stage0 = STAGE0_DICE_DATA_SIZE" "length k = DERIVED_KEY_SIZE"
    and "length data = RESTRICTED_KERNEL_DICE_DATA_SIZE"
  shows "(\<exists>taken. read_stage0_dice_data ops descriptors = Some ((Ok stage0 :: (bytes, string) result), taken) \<and>
      hand_over ops taken k data = Some ((Ok () :: (unit, string) result), handed_over ch serial1 k data)) \<and>
    (\<exists>used used'. get_restricted_kernel_dice_data ops (handed_over ch serial1 k data) = Some (Ok data, used) \<and>
      get_restricted_kernel_dice_data ops used = Some (Error [''invalid dice data size''], used')) \<and>
    (\<exists>used. user_read ops DERIVED_KEY_FD (handed_over ch serial1 k data) (replicate DERIVED_KEY_SIZE 0)
      = Some (Ok DERIVED_KEY_SIZE, k, used)) \<and>
    map_option fst (user_write ops DICE_DATA_FD (handed_over ch serial1 k data) bs) = Some (Error EINVAL) \<and>
    map_option fst (user_write ops DERIVED_KEY_FD (handed_over ch serial1 k data) bs) = Some (Error EINVAL)"
proof (intro conjI)
  show "\<exists>used. user_read ops DERIVED_KEY_FD (handed_over ch serial1 k data) (replicate DERIVED_KEY_SIZE 0)
      = Some (Ok DERIVED_KEY_SIZE, k, used)"
    using assms(3) by (simp add: user_read_def syscall_read_def handed_over_def sub_slice_def with_buffer_def)
qed (use orchestrator_hands_over [OF assms] application_reads_once [OF assms(4)] in
    \<open>simp_all add: user_write_def syscall_write_def handed_over_def\<close>)

theorem hand_over_delivers_witness:
  "\<exists>descriptors. enable_syscalls \<lparr>chan_in = [], chan_out = []\<rparr> (Some demo_port) (Layer0 demo_stage0) Map.empty
      = (Ok descriptors :: (channel fds, string) result) \<and>
    (\<exists>taken. read_stage0_dice_data stream_ops descriptors = Some ((Ok demo_stage0 :: (bytes, string) result), taken) \<and>
      hand_over stream_ops taken (replicate 32 7) (replicate 5520 9) = Some ((Ok () :: (unit, string) result),
        handed_over \<lparr>chan_in = [], chan_out = []\<rparr> (Some demo_port) (replicate 32 7) (replicate 5520 9)))"
proof -
  have len: "length demo_stage0 = STAGE0_DICE_DATA_SIZE"
    "length (replicate 32 7 :: bytes) = DERIVED_KEY_SIZE"
    "length (replicate 5520 9 :: bytes) = RESTRICTED_KERNEL_DICE_DATA_SIZE"
    by (simp_all add: demo_stage0_def)
  let ?ch = "\<lparr>chan_in = [], chan_out = []\<rparr> :: channel"
  obtain descriptors where en:
    "enable_syscalls ?ch (Some demo_port) (Layer0 demo_stage0) Map.empty = (Ok descriptors :: (channel fds, string) result)"
    by (simp add: enable_syscalls_table)
  from conjunct1 [OF hand_over_delivers [OF en len, where bs = "[]" and ops = stream_ops]] en show ?thesis by blast
qed

section \<open>The channel of the applications\<close>

lemma fd_loops_done [simp]: "fd_read_loop rd s data 0 = Some (Ok (), data, s)" "fd_write_loop wr s data 0 = Some (Ok (), s)"
  by (simp_all add: fd_read_loop.simps fd_write_loop.simps)

lemma fd_read_exact_channel:
  assumes "descriptors fd = Some (F_channel ch)"
  shows "fd_read_exact ops fd descriptors data =
    (if data = [] then Some (Ok (), [], descriptors)
     else if length data < ISIZE_LIMIT
     then map_option (\<lambda>(r, data, ch). (map_err (\<lambda>_. [''read failure'']) r, data, descriptors(fd \<mapsto> F_channel ch)))
       (op_read_exact ops ch data)
     else Some (Error [''read failure''], data, descriptors))"
proof (cases "op_read_exact ops ch data")
  case (Some x)
  then show ?thesis
    by (cases x; cases "fst x") (auto simp: fd_read_exact_def fd_read_loop.simps [of _ descriptors] Let_def
        user_read_channel [of descriptors, OF assms] and_then_def map_err_def split: fault.split)
qed (simp add: fd_read_exact_def fd_read_loop.simps [of _ descriptors] Let_def user_read_channel [of descriptors, OF assms])

lemma fd_write_all_channel:
  assumes "descriptors fd = Some (F_channel ch)"
  shows "fd_write_all ops fd descriptors data =
    (if data = [] then Some (Ok (), descriptors)
     else if length data < ISIZE_LIMIT
     then map_option (\<lambda>(r, ch). (map_err (\<lambda>_. [''write failure'']) r, descriptors(fd \<mapsto> F_channel ch)))
       (op_write_all ops ch data)
     else Some (Error [''write failure''], descriptors))"
proof (cases "op_write_all ops ch data")
  case (Some x)
  then show ?thesis
    by (cases x; cases "fst x") (auto simp: fd_write_all_def fd_write_loop.simps [of _ descriptors]
        user_write_channel [of descriptors, OF assms] and_then_def map_err_def split: fault.split)
qed (simp add: fd_write_all_def fd_write_loop.simps [of _ descriptors] user_write_channel [of descriptors, OF assms])

lemma fd_flush_channel:
  assumes "descriptors fd = Some (F_channel ch)"
  shows "fd_flush ops fd descriptors =
    map_option (\<lambda>(r, ch). (map_err (\<lambda>_. [''sync failure'']) r, descriptors(fd \<mapsto> F_channel ch))) (op_flush ops ch)"
  by (cases "op_flush ops ch")
    (auto simp: fd_flush_def user_fsync_channel [of descriptors, OF assms] map_err_def split: sum.split fault.split)

text \<open>C32. On the descriptor of the kernel's channel, whatever channel that is, the application's channel
  has exactly the outcome of one operation of the kernel's channel on the whole buffer: success with what
  the operation read, an error for an error, its panic, or no return. Nothing is asked of the channel for
  an empty buffer, and a buffer of at least \<^const>\<open>ISIZE_LIMIT\<close> bytes is refused.\<close>
theorem application_channel_refines:
  assumes "descriptors fd = Some (F_channel ch)"
  shows "fd_read_exact ops fd descriptors data =
    (if data = [] then Some (Ok (), [], descriptors)
     else if length data < ISIZE_LIMIT
     then map_option (\<lambda>(r, data, ch). (map_err (\<lambda>_. [''read failure'']) r, data, descriptors(fd \<mapsto> F_channel ch)))
       (op_read_exact ops ch data)
     else Some (Error [''read failure''], data, descriptors)) \<and>
    fd_write_all ops fd descriptors data =
    (if data = [] then Some (Ok (), descriptors)
     else if length data < ISIZE_LIMIT
     then map_option (\<lambda>(r, ch). (map_err (\<lambda>_. [''write failure'']) r, descriptors(fd \<mapsto> F_channel ch)))
       (op_write_all ops ch data)
     else Some (Error [''write failure''], descriptors)) \<and>
    fd_flush ops fd descriptors =
    map_option (\<lambda>(r, ch). (map_err (\<lambda>_. [''sync failure'']) r, descriptors(fd \<mapsto> F_channel ch))) (op_flush ops ch)"
  using fd_read_exact_channel [of descriptors fd ch, OF assms] fd_write_all_channel [of descriptors fd ch, OF assms]
    fd_flush_channel [of descriptors fd ch, OF assms] by blast

theorem application_channel_refines_witness:
  "fd_read_exact stream_ops 10 [10 \<mapsto> F_channel \<lparr>chan_in = [1, 2, 3, 4], chan_out = []\<rparr>] (replicate 3 0)
     = Some (Ok (), [1, 2, 3], [10 \<mapsto> F_channel \<lparr>chan_in = [4], chan_out = []\<rparr>])"
proof -
  let ?tab = "[10 \<mapsto> F_channel \<lparr>chan_in = [1, 2, 3, 4], chan_out = []\<rparr>]"
  have len: "length (replicate 3 0 :: bytes) < ISIZE_LIMIT" by (simp add: ISIZE_LIMIT_def)
  have tab: "?tab (10 :: int) = Some (F_channel \<lparr>chan_in = [1, 2, 3, 4], chan_out = []\<rparr>)" by simp
  from application_channel_refines [of ?tab 10, OF tab, of stream_ops "replicate 3 0"] len show ?thesis
    by (simp add: stream_ops_def read_exact_def)
qed

subsection \<open>Calls that transfer pieces\<close>

text \<open>What the loops rely on: a call transfers a nonempty piece, as long as there is data or room for the rest.\<close>

locale piece_reader =
  fixes ok :: "'s \<Rightarrow> bool" and content :: "'s \<Rightarrow> bytes"
    and rd :: "'s \<Rightarrow> bytes \<Rightarrow> ((nat, Errno) result \<times> bytes \<times> 's) option"
  assumes read_piece: "ok s \<Longrightarrow> buf \<noteq> [] \<Longrightarrow> length buf \<le> length (content s) \<Longrightarrow>
    \<exists>n s'. rd s buf = Some (Ok n, take n (content s) @ drop n buf, s') \<and> 0 < n \<and> n \<le> length buf \<and> ok s' \<and>
      content s' = drop n (content s)"
begin

lemma read_loop_delivers:
  assumes "ok s" "r \<le> length data" "r \<le> length (content s)"
  shows "\<exists>s'. fd_read_loop rd s data r = Some (Ok (), take (length data - r) data @ take r (content s), s') \<and> ok s' \<and>
    content s' = drop r (content s)"
  using assms
proof (induction r arbitrary: s data rule: less_induct)
  case (less r)
  show ?case
  proof (cases "r = 0")
    case False
    let ?buf = "drop (length data - r) data"
    have l: "length ?buf = r" using less.prems(2) by simp
    with read_piece [OF less.prems(1), of ?buf] False less.prems(3) obtain n s1 where n:
      "rd s ?buf = Some (Ok n, take n (content s) @ drop n ?buf, s1)" "0 < n" "n \<le> r" "ok s1"
      "content s1 = drop n (content s)" by force
    let ?data = "take (length data - r) data @ take n (content s) @ drop n ?buf"
    have d: "length ?data = length data" "take (length ?data - (r - n)) ?data = take (length data - r) data @ take n (content s)"
      using n(3) less.prems(2,3) l by (simp_all del: drop_drop)
    have "r - n < r" "r - n \<le> length ?data" "r - n \<le> length (content s1)" using n False less.prems(2,3) d(1) by simp_all
    from less.IH [OF this(1) n(4) this(2,3)] d obtain s' where
      "fd_read_loop rd s1 ?data (r - n) =
        Some (Ok (), (take (length data - r) data @ take n (content s)) @ take (r - n) (content s1), s')"
      "ok s'" "content s' = drop (r - n) (content s1)" by metis
    moreover have "take n (content s) @ take (r - n) (drop n (content s)) = take r (content s)"
        "drop (r - n) (drop n (content s)) = drop r (content s)"
      using n(3) by (metis le_add_diff_inverse take_add) (simp add: n(3))
    ultimately show ?thesis using False n
      by (intro exI [of _ s']) (simp add: fd_read_loop.simps [of rd s] Let_def del: drop_drop)
  qed (use less.prems in simp)
qed

end

locale piece_writer =
  fixes ok :: "'s \<Rightarrow> bool" and sent :: "'s \<Rightarrow> bytes" and room :: "'s \<Rightarrow> nat"
    and wr :: "'s \<Rightarrow> bytes \<Rightarrow> ((nat, Errno) result \<times> 's) option"
  assumes write_piece: "ok s \<Longrightarrow> buf \<noteq> [] \<Longrightarrow> length buf \<le> room s \<Longrightarrow>
    \<exists>n s'. wr s buf = Some (Ok n, s') \<and> 0 < n \<and> n \<le> length buf \<and> ok s' \<and> sent s' = sent s @ take n buf \<and>
      room s' = room s - n"
begin

lemma write_loop_delivers:
  assumes "ok s" "r \<le> length data" "r \<le> room s"
  shows "\<exists>s'. fd_write_loop wr s data r = Some (Ok (), s') \<and> ok s' \<and>
    sent s' = sent s @ drop (length data - r) data \<and> room s' = room s - r"
  using assms
proof (induction r arbitrary: s rule: less_induct)
  case (less r)
  show ?case
  proof (cases "r = 0")
    case False
    let ?buf = "drop (length data - r) data"
    have l: "length ?buf = r" using less.prems(2) by simp
    with write_piece [OF less.prems(1), of ?buf] False less.prems(3) obtain n s1 where n:
      "wr s ?buf = Some (Ok n, s1)" "0 < n" "n \<le> r" "ok s1" "sent s1 = sent s @ take n ?buf" "room s1 = room s - n"
      by force
    have "r - n < r" "r - n \<le> length data" "r - n \<le> room s1" using n False less.prems(2,3) by simp_all
    from less.IH [OF this(1) n(4) this(2,3)] obtain s' where
      "fd_write_loop wr s1 data (r - n) = Some (Ok (), s')" "ok s'"
      "sent s' = sent s1 @ drop (length data - (r - n)) data" "room s' = room s1 - (r - n)" by metis
    moreover have "drop (length data - (r - n)) data = drop n ?buf" using n(3) less.prems(2) by (simp add: add.commute)
    ultimately show ?thesis using False n
      by (intro exI [of _ s']) (simp add: fd_write_loop.simps [of wr s] del: drop_drop)
  qed (use less.prems in simp)
qed

end

text \<open>C31. The loops of the application's channel are right for every system call that transfers a nonempty piece
  of what is asked: reading fills the whole buffer with the next bytes of the stream, in order, and leaves
  the rest of the stream; writing sends exactly the bytes of the buffer, in order. Both return.\<close>
theorem application_channel_transfers:
  assumes "piece_reader ok content rd" "ok s" "length data \<le> length (content s)"
    and "piece_writer ok' sent room wr" "ok' t" "length bs \<le> room t"
  shows "(\<exists>s'. fd_read_loop rd s data (length data) = Some (Ok (), take (length data) (content s), s') \<and> ok s' \<and>
      content s' = drop (length data) (content s)) \<and>
    (\<exists>t'. fd_write_loop wr t bs (length bs) = Some (Ok (), t') \<and> ok' t' \<and> sent t' = sent t @ bs \<and>
      room t' = room t - length bs)"
  using piece_reader.read_loop_delivers [OF assms(1,2) order_refl assms(3)]
    piece_writer.write_loop_delivers [OF assms(4,5) order_refl assms(6)] by simp

text \<open>A peer that reads and writes at most two bytes in a call.\<close>

definition demo_read :: "bytes \<Rightarrow> bytes \<Rightarrow> ((nat, Errno) result \<times> bytes \<times> bytes) option" where
  "demo_read s buf = (let n = min 2 (length buf) in Some (Ok n, take n s @ drop n buf, drop n s))"

definition demo_write :: "bytes \<Rightarrow> bytes \<Rightarrow> ((nat, Errno) result \<times> bytes) option" where
  "demo_write s buf = (let n = min 2 (length buf) in Some (Ok n, s @ take n buf))"

theorem application_channel_transfers_witness:
  "(\<exists>s'. fd_read_loop demo_read [1, 2, 3, 4, 5, 6] [0, 0, 0, 0, 0] 5 = Some (Ok (), [1, 2, 3, 4, 5], s')) \<and>
   (\<exists>t'. fd_write_loop demo_write [9] [1, 2, 3] 3 = Some (Ok (), t') \<and> t' = [9, 1, 2, 3])"
proof -
  have "piece_reader (\<lambda>_. True) (\<lambda>s. s) demo_read"
  proof
    fix s buf :: bytes assume "buf \<noteq> []" "length buf \<le> length s"
    then show "\<exists>n s'. demo_read s buf = Some (Ok n, take n s @ drop n buf, s') \<and> 0 < n \<and> n \<le> length buf \<and> True \<and> s' = drop n s"
      by (intro exI [of _ "min 2 (length buf)"]) (simp add: demo_read_def Let_def)
  qed
  moreover have "piece_writer (\<lambda>s. length s \<le> 10) (\<lambda>s. s) (\<lambda>s. 10 - length s) demo_write"
  proof
    fix s buf :: bytes assume "length s \<le> 10" "buf \<noteq> []" "length buf \<le> 10 - length s"
    then show "\<exists>n s'. demo_write s buf = Some (Ok n, s') \<and> 0 < n \<and> n \<le> length buf \<and> length s' \<le> 10 \<and>
        s' = s @ take n buf \<and> 10 - length s' = 10 - length s - n"
      by (intro exI [of _ "min 2 (length buf)"] exI [of _ "s @ take (min 2 (length buf)) buf"])
        (auto simp: demo_write_def Let_def)
  qed
  ultimately show ?thesis
    using application_channel_transfers [of "\<lambda>_. True" "\<lambda>s. s" demo_read "[1, 2, 3, 4, 5, 6]" "[0, 0, 0, 0, 0]"
        "\<lambda>s. length s \<le> 10" "\<lambda>s. s" "\<lambda>s. 10 - length s" demo_write "[9]" "[1, 2, 3]"]
    by (simp add: eval_nat_numeral)
qed

text \<open>The kernel's descriptors for the derived key and the DICE data are such files.\<close>

fun file_content :: "'c descriptor \<Rightarrow> bytes option" where
  "file_content (F_key (KeyReadable d i)) = Some (drop i d)"
| "file_content (F_dice (DiceReadable d i)) = Some (drop i (as_mut_slice d))"
| "file_content _ = None"

definition fd_content :: "int \<Rightarrow> 'c fds \<Rightarrow> bytes" where
  "fd_content fd tab = (case Option.bind (tab fd) file_content of Some bs \<Rightarrow> bs | None \<Rightarrow> [])"

definition fd_readable :: "int \<Rightarrow> 'c fds \<Rightarrow> bool" where
  "fd_readable fd tab \<longleftrightarrow> (\<exists>f. tab fd = Some f \<and> descriptor_ok f \<and> file_content f \<noteq> None)"

lemma user_read_key:
  assumes "descriptors fd = Some (F_key (KeyReadable d i))" "i \<le> length d"
  shows "user_read ops fd descriptors buf =
    (let n = min (length d - i) (length buf) in
     Some (Ok n, take n (drop i d) @ drop n buf, descriptors(fd \<mapsto> F_key (KeyReadable d (i + n)))))"
  using assms by (simp add: user_read_def syscall_read_def sub_slice_def copy_max_slice_def with_buffer_def Let_def)

lemma fd_read_piece:
  assumes "fd_readable fd tab" "buf \<noteq> []" "length buf \<le> length (fd_content fd tab)"
  shows "\<exists>n tab'. user_read ops fd tab buf = Some (Ok n, take n (fd_content fd tab) @ drop n buf, tab') \<and> 0 < n \<and>
    n \<le> length buf \<and> fd_readable fd tab' \<and> fd_content fd tab' = drop n (fd_content fd tab)"
proof -
  let ?n = "length buf"
  obtain f where f: "tab fd = Some f" "descriptor_ok f" "file_content f \<noteq> None" using assms(1) by (auto simp: fd_readable_def)
  consider d i where "f = F_key (KeyReadable d i)" | d i where "f = F_dice (DiceReadable d i)"
    using f(3) by (cases f rule: file_content.cases) auto
  then show ?thesis
  proof cases
    case (1 d i)
    have m: "min (length d - i) ?n = ?n" using assms(3) f(1) 1 by (simp add: fd_content_def)
    from user_read_key [of tab fd d i ops buf] f(1,2) 1 m
    have "user_read ops fd tab buf = Some (Ok ?n, take ?n (drop i d), tab(fd \<mapsto> F_key (KeyReadable d (i + ?n))))"
      by (simp add: Let_def)
    then show ?thesis using f assms(2,3) 1
      by (intro exI [of _ ?n] exI [of _ "tab(fd \<mapsto> F_key (KeyReadable d (i + ?n)))"])
        (auto simp: fd_content_def fd_readable_def add.commute)
  next
    case (2 d i)
    let ?f = "F_dice (DiceReadable (with_slice d (replicate (i + ?n) 0 @ drop (i + ?n) (as_mut_slice d))) (i + ?n))"
    have ok: "dice_ok (DiceReadable d i)" using f(2) 2 by simp
    have m: "min (dice_size d - i) ?n = ?n" using assms(3) f(1) 2 ok by (simp add: fd_content_def)
    from user_read_dice [of tab fd d i ops buf] f(1) ok 2 m
    have "user_read ops fd tab buf = Some (Ok ?n, take ?n (drop i (as_mut_slice d)), tab(fd \<mapsto> ?f))"
      by (simp add: Let_def)
    then show ?thesis using f assms(2,3) 2 ok
      by (intro exI [of _ ?n] exI [of _ "tab(fd \<mapsto> ?f)"]) (auto simp: fd_content_def fd_readable_def add.commute)
  qed
qed

interpretation fd_file: piece_reader "fd_readable fd" "fd_content fd" "user_read ops fd" for fd and ops :: "'c channel_ops"
  by unfold_locales (rule fd_read_piece)

text \<open>The derived key while it is written.\<close>

fun key_written :: "key_descriptor \<Rightarrow> bytes" where
  "key_written (KeyWriteable d i) = take i d"
| "key_written (KeyReadable d i) = d"

fun key_room :: "key_descriptor \<Rightarrow> nat" where
  "key_room (KeyWriteable d i) = length d - i"
| "key_room (KeyReadable d i) = 0"

definition fd_key :: "int \<Rightarrow> 'c fds \<Rightarrow> key_descriptor" where
  "fd_key fd tab = (case tab fd of Some (F_key k) \<Rightarrow> k | _ \<Rightarrow> key_new)"

definition fd_key_ok :: "int \<Rightarrow> 'c fds \<Rightarrow> bool" where
  "fd_key_ok fd tab \<longleftrightarrow> (\<exists>k. tab fd = Some (F_key k) \<and> key_ok k)"

lemma key_write_piece:
  assumes "key_ok k" "buf \<noteq> []" "length buf \<le> key_room k"
  shows "\<exists>k'. key_write k buf = (Ok (int (length buf)), k') \<and> key_ok k' \<and> key_written k' = key_written k @ buf \<and>
    key_room k' = key_room k - length buf"
proof (cases k)
  case (KeyWriteable d i)
  then have "copy_max_slice buf (drop i d) = (buf @ drop (i + length buf) d, length buf)"
    using assms(3) by (simp add: copy_max_slice_def Let_def add.commute)
  then show ?thesis using KeyWriteable assms by (auto simp: sub_slice_def Let_def)
qed (use assms in simp)

lemma fd_key_piece:
  assumes "fd_key_ok fd tab" "buf \<noteq> []" "length buf \<le> key_room (fd_key fd tab)"
  shows "\<exists>n tab'. user_write ops fd tab buf = Some (Ok n, tab') \<and> 0 < n \<and> n \<le> length buf \<and> fd_key_ok fd tab' \<and>
    key_written (fd_key fd tab') = key_written (fd_key fd tab) @ take n buf \<and>
    key_room (fd_key fd tab') = key_room (fd_key fd tab) - n"
proof -
  obtain k where k: "tab fd = Some (F_key k)" "key_ok k" using assms(1) by (auto simp: fd_key_ok_def)
  with key_write_piece [of k buf] assms(2,3) obtain k' where k': "key_write k buf = (Ok (int (length buf)), k')" "key_ok k'"
      "key_written k' = key_written k @ buf" "key_room k' = key_room k - length buf"
    by (auto simp: fd_key_def)
  then show ?thesis using k assms(2)
    by (intro exI [of _ "length buf"] exI [of _ "tab(fd \<mapsto> F_key k')"])
      (simp add: user_write_def syscall_write_def fd_key_def fd_key_ok_def)
qed

interpretation fd_key: piece_writer "fd_key_ok fd" "\<lambda>tab. key_written (fd_key fd tab)" "\<lambda>tab. key_room (fd_key fd tab)"
  "user_write ops fd" for fd and ops :: "'c channel_ops"
  by unfold_locales (rule fd_key_piece)

subsection \<open>A byte channel of the kernel as one of the application\<close>

text \<open>
  The operations of a kernel channel that implements the byte streams, as a \<^verbatim>\<open>dyn Channel\<close>. Where one of them
  fails, the contract says nothing of the state and the buffer, and they are taken as they were.
\<close>

definition trait_of :: "('c \<Rightarrow> nat \<Rightarrow> (bytes \<times> 'c) anyhow option) \<Rightarrow> ('c \<Rightarrow> bytes \<Rightarrow> 'c anyhow option) \<Rightarrow> 'c channel_ops" where
  "trait_of rd wr = \<lparr>
     op_read_exact = (\<lambda>c buf. map_option (\<lambda>r. case r of Inl e \<Rightarrow> (Inl e, buf, c) | Inr (bs, c) \<Rightarrow> (Ok (), bs, c)) (rd c (length buf))),
     op_write_all = (\<lambda>c buf. map_option (\<lambda>r. case r of Inl e \<Rightarrow> (Inl e, c) | Inr c \<Rightarrow> (Ok (), c)) (wr c buf)),
     op_flush = (\<lambda>c. Some (Ok (), c))\<rparr>"

text \<open>The application reads into a fresh buffer.\<close>

definition fd_rd :: "'c channel_ops \<Rightarrow> int \<Rightarrow> 'c fds \<Rightarrow> nat \<Rightarrow> (bytes \<times> 'c fds) anyhow option" where
  "fd_rd ops fd tab n = map_option (\<lambda>(r, bs, tab). and_then r (\<lambda>_. Ok (bs, tab))) (fd_read_exact ops fd tab (replicate n 0))"

definition fd_wr :: "'c channel_ops \<Rightarrow> int \<Rightarrow> 'c fds \<Rightarrow> bytes \<Rightarrow> 'c fds anyhow option" where
  "fd_wr ops fd tab data = map_option (\<lambda>(r, tab). and_then r (\<lambda>_. Ok tab)) (fd_write_all ops fd tab data)"

definition at_fd :: "int \<Rightarrow> ('c \<Rightarrow> 'a) \<Rightarrow> 'a \<Rightarrow> 'c fds \<Rightarrow> 'a" where
  "at_fd fd f x tab = (case tab fd of Some (F_channel c) \<Rightarrow> f c | _ \<Rightarrow> x)"

text \<open>An input that the machine can hold is shorter than \<^const>\<open>ISIZE_LIMIT\<close>, and so is what fits into the output.\<close>

locale kernel_channel = byte_channel ok view space cost rd wr
  for ok :: "'c \<Rightarrow> bool" and view :: "'c \<Rightarrow> channel" and space :: "'c \<Rightarrow> nat" and cost :: "bytes \<Rightarrow> nat"
    and rd :: "'c \<Rightarrow> nat \<Rightarrow> (bytes \<times> 'c) anyhow option" and wr :: "'c \<Rightarrow> bytes \<Rightarrow> 'c anyhow option" +
  fixes fd :: int
  assumes cost_bound: "ok c \<Longrightarrow> cost data \<le> space c \<Longrightarrow> length data < ISIZE_LIMIT"
    and cost_empty: "cost [] = 0"
begin

lemma app_ok:
  "at_fd fd (\<lambda>c. ok c \<and> length (chan_in (view c)) < ISIZE_LIMIT) False tab \<longleftrightarrow>
     (\<exists>c. tab fd = Some (F_channel c) \<and> ok c \<and> length (chan_in (view c)) < ISIZE_LIMIT)"
  by (auto simp: at_fd_def split: option.splits descriptor.splits)

lemma app_read_law:
  assumes "tab fd = Some (F_channel c)" "ok c" "length (chan_in (view c)) < ISIZE_LIMIT"
    and "read_exact (view c) n = Ok (bs, ch)"
  shows "\<exists>c'. fd_rd (trait_of rd wr) fd tab n = Some (Ok (bs, tab(fd \<mapsto> F_channel c'))) \<and> ok c' \<and> view c' = ch \<and>
    length (chan_in ch) < ISIZE_LIMIT \<and> space c' = space c"
proof -
  have n: "n < ISIZE_LIMIT" "length (chan_in ch) < ISIZE_LIMIT"
    using assms(3,4) by (auto simp: read_exact_def split: if_splits)
  show ?thesis
  proof (cases "n = 0")
    case True
    then show ?thesis using assms n fd_read_exact_channel [of tab fd c "trait_of rd wr" "[]"]
      by (intro exI [of _ c]) (auto simp: fd_rd_def read_exact_def map_upd_triv)
  next
    case False
    obtain c' where "rd c n = Some (Ok (bs, c'))" "ok c'" "view c' = ch" "space c' = space c"
      using read_law [OF assms(2,4)] by blast
    then show ?thesis using assms(1) n False fd_read_exact_channel [of tab fd c "trait_of rd wr" "replicate n 0"]
      by (intro exI [of _ c']) (simp add: fd_rd_def trait_of_def)
  qed
qed

lemma app_write_law:
  assumes "tab fd = Some (F_channel c)" "ok c" "cost data \<le> space c"
  shows "\<exists>c'. fd_wr (trait_of rd wr) fd tab data = Some (Ok (tab(fd \<mapsto> F_channel c'))) \<and> ok c' \<and>
    view c' = write_all (view c) data \<and> space c' = space c - cost data"
proof (cases "data = []")
  case True
  then show ?thesis using assms fd_write_all_channel [of tab fd c "trait_of rd wr" "[]"] cost_empty
    by (intro exI [of _ c]) (simp add: fd_wr_def write_all_def map_upd_triv)
next
  case False
  obtain c' where "wr c data = Some (Ok c')" "ok c'" "view c' = write_all (view c) data" "space c' = space c - cost data"
    using write_law [OF assms(2,3)] by blast
  then show ?thesis
    using assms(1) False cost_bound [OF assms(2,3)] fd_write_all_channel [of tab fd c "trait_of rd wr" data]
    by (intro exI [of _ c']) (simp add: fd_wr_def trait_of_def)
qed

end

sublocale kernel_channel \<subseteq> app: byte_channel "at_fd fd (\<lambda>c. ok c \<and> length (chan_in (view c)) < ISIZE_LIMIT) False"
  "at_fd fd view \<lparr>chan_in = [], chan_out = []\<rparr>" "at_fd fd space 0" cost
  "fd_rd (trait_of rd wr) fd" "fd_wr (trait_of rd wr) fd"
proof
  fix tab n bs ch
  assume a: "at_fd fd (\<lambda>c. ok c \<and> length (chan_in (view c)) < ISIZE_LIMIT) False tab"
    "read_exact (at_fd fd view \<lparr>chan_in = [], chan_out = []\<rparr> tab) n = Ok (bs, ch)"
  then obtain c where c: "tab fd = Some (F_channel c)" "ok c" "length (chan_in (view c)) < ISIZE_LIMIT" by (auto simp: app_ok)
  with app_read_law [of tab, OF c] a(2) show "\<exists>tab'. fd_rd (trait_of rd wr) fd tab n = Some (Ok (bs, tab')) \<and>
      at_fd fd (\<lambda>c. ok c \<and> length (chan_in (view c)) < ISIZE_LIMIT) False tab' \<and>
      at_fd fd view \<lparr>chan_in = [], chan_out = []\<rparr> tab' = ch \<and> at_fd fd space 0 tab' = at_fd fd space 0 tab"
    by (force simp: at_fd_def)
next
  fix tab data
  assume a: "at_fd fd (\<lambda>c. ok c \<and> length (chan_in (view c)) < ISIZE_LIMIT) False tab" "cost data \<le> at_fd fd space 0 tab"
  then obtain c where c: "tab fd = Some (F_channel c)" "ok c" "length (chan_in (view c)) < ISIZE_LIMIT" by (auto simp: app_ok)
  with app_write_law [of tab, OF c(1,2)] a(2) show "\<exists>tab'. fd_wr (trait_of rd wr) fd tab data = Some (Ok tab') \<and>
      at_fd fd (\<lambda>c. ok c \<and> length (chan_in (view c)) < ISIZE_LIMIT) False tab' \<and>
      at_fd fd view \<lparr>chan_in = [], chan_out = []\<rparr> tab' = write_all (at_fd fd view \<lparr>chan_in = [], chan_out = []\<rparr> tab) data \<and>
      at_fd fd space 0 tab' = at_fd fd space 0 tab - cost data"
    by (force simp: at_fd_def write_all_def)
qed

text \<open>The virtio console as the kernel's channel: what fits into its 16 buffers is short.\<close>

lemma length_by_chunks: "0 < n \<Longrightarrow> length data \<le> n * length (chunks n data)"
proof (induction data rule: length_induct)
  case (1 data)
  then show ?case by (cases "data = []") (auto simp: chunks_step dest!: spec [of _ "drop n data"])
qed

interpretation con_app: kernel_channel console_ok con_channel con_space
  "\<lambda>data. length (chunks CONSOLE_BUFFER_SIZE data)" con_read_exact con_write_all OAK_CHANNEL_FD
proof unfold_locales
  fix c data assume "console_ok c" "length (chunks CONSOLE_BUFFER_SIZE data) \<le> con_space c"
  then show "length data < ISIZE_LIMIT"
    using length_by_chunks [of CONSOLE_BUFFER_SIZE data] by (simp add: con_space_def ISIZE_LIMIT_def)
qed simp

text \<open>
  An application on the kernel's console: whatever sequence of reads and writes succeeds on the two byte
  streams, with enough free buffers for the writes, has the same results through the descriptor and leaves
  the console with the same streams.
\<close>

theorem application_on_console:
  assumes "tab OAK_CHANNEL_FD = Some (F_channel c)" "console_ok c" "length (con_stream c) < ISIZE_LIMIT"
    and "channel_run ops (con_channel c) = Ok (rs, ch)"
    and "sum_list (map (op_cost (\<lambda>data. length (chunks CONSOLE_BUFFER_SIZE data))) ops) \<le> con_space c"
  shows "\<exists>tab' c'. impl_run (fd_rd (trait_of con_read_exact con_write_all) OAK_CHANNEL_FD)
      (fd_wr (trait_of con_read_exact con_write_all) OAK_CHANNEL_FD) ops tab = Some (Ok (rs, tab')) \<and>
    tab' OAK_CHANNEL_FD = Some (F_channel c') \<and> console_ok c' \<and> con_channel c' = ch"
  using con_app.app.runs_agree [of tab ops rs ch] assms
  by (auto simp: con_app.app_ok) (auto simp: at_fd_def con_channel_def)

section \<open>Reading past the end\<close>

lemma fd_read_loop_key_diverges:
  "fd_read_loop rd tab data r = Some y \<Longrightarrow> rd = user_read ops fd \<Longrightarrow> tab fd = Some (F_key (KeyReadable d i)) \<Longrightarrow>
     i \<le> length d \<Longrightarrow> length d - i < r \<Longrightarrow> r \<le> length data \<Longrightarrow> False"
proof (induction rd tab data r y arbitrary: i rule: fd_read_loop.raw_induct [rotated 1, consumes 1])
  case (1 loop rd tab data r y)
  let ?n = "min (length d - i) r"
  let ?buf = "drop (length data - r) data"
  have "length ?buf = r" using 1 by simp
  with user_read_key [of tab fd d i ops ?buf, OF 1(4,5)] have read: "user_read ops fd tab ?buf =
     Some (Ok ?n, take ?n (drop i d) @ drop ?n ?buf, tab(fd \<mapsto> F_key (KeyReadable d (i + ?n))))"
    by (simp add: Let_def)
  let ?data = "take (length data - r) data @ take ?n (drop i d) @ drop ?n ?buf"
  have "length ?data = length data" using 1(5-7) by simp
  moreover have "loop rd (tab(fd \<mapsto> F_key (KeyReadable d (i + ?n)))) ?data (r - ?n) = Some y"
    using 1(2,3,6) read by (simp add: Let_def)
  moreover have "i + ?n \<le> length d" "length d - (i + ?n) < r - ?n" "r - ?n \<le> length data"
    using 1(5-7) by linarith+
  ultimately show ?case
    using 1(1) [of rd "tab(fd \<mapsto> F_key (KeyReadable d (i + ?n)))" ?data "r - ?n" y "i + ?n", OF _ 1(3)]
    by (metis fun_upd_same)
qed

text \<open>Reading the derived key through the application's channel ends exactly when the buffer is
  no longer than what is left of the key: the loop takes a read of no bytes for progress.\<close>
theorem key_read_returns_iff:
  assumes "descriptors fd = Some (F_key (KeyReadable d i))" "i \<le> length d"
  shows "(\<exists>y. fd_read_exact ops fd descriptors data = Some y) \<longleftrightarrow> length data \<le> length d - i"
proof
  assume "\<exists>y. fd_read_exact ops fd descriptors data = Some y"
  then show "length data \<le> length d - i"
    using fd_read_loop_key_diverges [of "user_read ops fd" descriptors data "length data" _ ops fd d i, OF _ refl assms]
    by (auto simp: fd_read_exact_def not_le [symmetric])
next
  assume "length data \<le> length d - i"
  with user_read_key [of descriptors fd d i ops data, OF assms] show "\<exists>y. fd_read_exact ops fd descriptors data = Some y"
    by (simp add: fd_read_exact_def fd_read_loop.simps [of _ descriptors] Let_def)
qed

theorem key_read_returns_iff_witness:
  "(0 :: nat) \<le> length (replicate 32 (1 :: u8)) \<and>
   fd_read_exact stream_ops 33 [33 \<mapsto> F_key (KeyReadable (replicate 32 1) 0)] (replicate 33 0) = None"
  using key_read_returns_iff [of "[33 \<mapsto> F_key (KeyReadable (replicate 32 1) 0)]" 33 "replicate 32 1" 0 stream_ops "replicate 33 0"]
  by (cases "fd_read_exact stream_ops 33 [33 \<mapsto> F_key (KeyReadable (replicate 32 1) 0)] (replicate 33 0)") auto

end
