(* ===== verification/Oak_Vsock.thy ===== *)
theory Oak_Vsock
  imports Oak_Console
begin

text \<open>
  The virtio socket, \<^verbatim>\<open>oak_virtio/src/vsock\<close>: packets with their header fields
  (\<^verbatim>\<open>packet.rs\<close>) and the driver that filters, answers and sends them over its queues
  (\<^verbatim>\<open>mod.rs\<close>). A packet is its buffer, which is never shorter than a header: both ways to make one see
  to that, so the fields are read and written in range. The event queue, which the driver never reads,
  and starting the device are left out.
\<close>

section \<open>Packets\<close>

abbreviation (input) HEADER_SIZE :: nat where "HEADER_SIZE \<equiv> 44"

abbreviation (input) DATA_BUFFER_SIZE :: nat where "DATA_BUFFER_SIZE \<equiv> 4096"

type_synonym Packet = bytes

datatype VSockOp = Op_Request | Op_Response | Op_Rst | Op_Shutdown | Op_Rw | Op_CreditUpdate | Op_CreditRequest

fun VSockOp_repr :: "VSockOp \<Rightarrow> u16" where
  "VSockOp_repr Op_Request = 1"
| "VSockOp_repr Op_Response = 2"
| "VSockOp_repr Op_Rst = 3"
| "VSockOp_repr Op_Shutdown = 4"
| "VSockOp_repr Op_Rw = 5"
| "VSockOp_repr Op_CreditUpdate = 6"
| "VSockOp_repr Op_CreditRequest = 7"

definition VSockOp_from_repr :: "u16 \<Rightarrow> VSockOp option" where
  "VSockOp_from_repr r = find (\<lambda>opn. VSockOp_repr opn = r)
     [Op_Request, Op_Response, Op_Rst, Op_Shutdown, Op_Rw, Op_CreditUpdate, Op_CreditRequest]"

text \<open>The flags of a shutdown request, both of them together.\<close>

abbreviation (input) VSockFlags_all :: u32 where "VSockFlags_all \<equiv> 3"

definition read_u16 :: "Packet \<Rightarrow> nat \<Rightarrow> u16" where
  "read_u16 p offset = word_of_nat (le_value (slice p offset 2))"

definition read_u32 :: "Packet \<Rightarrow> nat \<Rightarrow> u32" where
  "read_u32 p offset = word_of_nat (le_value (slice p offset 4))"

definition read_u64 :: "Packet \<Rightarrow> nat \<Rightarrow> u64" where
  "read_u64 p offset = word_of_nat (le_value (slice p offset 8))"

definition write_u16 :: "Packet \<Rightarrow> nat \<Rightarrow> u16 \<Rightarrow> Packet" where
  "write_u16 p offset v = overwrite p offset (le_bytes 2 (unat v))"

definition write_u32 :: "Packet \<Rightarrow> nat \<Rightarrow> u32 \<Rightarrow> Packet" where
  "write_u32 p offset v = overwrite p offset (le_bytes 4 (unat v))"

definition write_u64 :: "Packet \<Rightarrow> nat \<Rightarrow> u64 \<Rightarrow> Packet" where
  "write_u64 p offset v = overwrite p offset (le_bytes 8 (unat v))"

definition get_src_cid :: "Packet \<Rightarrow> u64" where "get_src_cid p = read_u64 p 0"

definition set_src_cid :: "Packet \<Rightarrow> u64 \<Rightarrow> Packet" where "set_src_cid p v = write_u64 p 0 v"

definition get_dst_cid :: "Packet \<Rightarrow> u64" where "get_dst_cid p = read_u64 p 8"

definition set_dst_cid :: "Packet \<Rightarrow> u64 \<Rightarrow> Packet" where "set_dst_cid p v = write_u64 p 8 v"

definition get_src_port :: "Packet \<Rightarrow> u32" where "get_src_port p = read_u32 p 16"

definition set_src_port :: "Packet \<Rightarrow> u32 \<Rightarrow> Packet" where "set_src_port p v = write_u32 p 16 v"

definition get_dst_port :: "Packet \<Rightarrow> u32" where "get_dst_port p = read_u32 p 20"

definition set_dst_port :: "Packet \<Rightarrow> u32 \<Rightarrow> Packet" where "set_dst_port p v = write_u32 p 20 v"

definition get_len :: "Packet \<Rightarrow> u32" where "get_len p = read_u32 p 24"

definition set_len :: "Packet \<Rightarrow> u32 \<Rightarrow> Packet" where "set_len p v = write_u32 p 24 v"

text \<open>The one socket type, \<^verbatim>\<open>Stream\<close>, has the number 1.\<close>

definition get_type :: "Packet \<Rightarrow> unit anyhow" where
  "get_type p = (if read_u16 p 28 = 1 then Ok () else Error [''invalid socket type''])"

definition set_type :: "Packet \<Rightarrow> Packet" where "set_type p = write_u16 p 28 1"

definition get_op :: "Packet \<Rightarrow> VSockOp anyhow" where
  "get_op p = ok_or (VSockOp_from_repr (read_u16 p 30)) [''invalid op'']"

definition set_op :: "Packet \<Rightarrow> VSockOp \<Rightarrow> Packet anyhow" where
  "set_op p opn =
     (if 0 < get_len p \<and> opn \<noteq> Op_Rw then Error [''non-empty payloads are only allowed with data packets'']
      else if get_len p = 0 \<and> opn = Op_Rw then Error [''empty payloads are not allowed with the RW op'']
      else Ok (write_u16 p 30 (VSockOp_repr opn)))"

definition vs_get_flags :: "Packet \<Rightarrow> u32" where "vs_get_flags p = read_u32 p 32 AND VSockFlags_all"

definition vs_set_flags :: "Packet \<Rightarrow> u32 \<Rightarrow> Packet" where "vs_set_flags p v = write_u32 p 32 v"

definition get_buf_alloc :: "Packet \<Rightarrow> u32" where "get_buf_alloc p = read_u32 p 36"

definition set_buf_alloc :: "Packet \<Rightarrow> u32 \<Rightarrow> Packet" where "set_buf_alloc p v = write_u32 p 36 v"

definition get_fwd_cnt :: "Packet \<Rightarrow> u32" where "get_fwd_cnt p = read_u32 p 40"

definition set_fwd_cnt :: "Packet \<Rightarrow> u32 \<Rightarrow> Packet" where "set_fwd_cnt p v = write_u32 p 40 v"

definition get_payload_len :: "Packet \<Rightarrow> nat" where "get_payload_len p = length p - HEADER_SIZE"

definition get_payload :: "Packet \<Rightarrow> bytes anyhow" where
  "get_payload p =
     (let len = unat (get_len p) in
      if len \<noteq> get_payload_len p then
        panic ''actual payload length does not match the packet's configured payload length''
      else sub_slice p HEADER_SIZE (HEADER_SIZE + len))"

definition set_payload :: "Packet \<Rightarrow> bytes \<Rightarrow> Packet anyhow" where
  "set_payload p data =
     and_then (get_op p) (\<lambda>opn.
     if opn \<noteq> Op_Rw then Error [''non-empty payloads are only allowed with data packets'']
     else if unat (get_len p) \<noteq> length data then
       Error [''data length does not match the packet's configured payload length'']
     else copy_at p HEADER_SIZE data)"

definition Packet_new :: "bytes \<Rightarrow> Packet anyhow" where
  "Packet_new buf = (if length buf < HEADER_SIZE then Error [''vsock packet too short''] else Ok buf)"

definition new_with_buffer_size :: "nat \<Rightarrow> u32 \<Rightarrow> u32 \<Rightarrow> Packet anyhow" where
  "new_with_buffer_size buffer_len src_port dst_port =
     (if buffer_len > DATA_BUFFER_SIZE then Error [''total buffer length must be less than'']
      else Ok (set_dst_port (set_src_port (set_type (replicate buffer_len 0)) src_port) dst_port))"

definition Packet_new_control :: "u32 \<Rightarrow> u32 \<Rightarrow> VSockOp \<Rightarrow> Packet anyhow" where
  "Packet_new_control src_port dst_port opn =
     and_then (new_with_buffer_size HEADER_SIZE src_port dst_port) (\<lambda>result. set_op result opn)"

definition Packet_new_data :: "bytes \<Rightarrow> u32 \<Rightarrow> u32 \<Rightarrow> Packet anyhow" where
  "Packet_new_data payload src_port dst_port =
     and_then (new_with_buffer_size (HEADER_SIZE + length payload) src_port dst_port) (\<lambda>result.
     and_then (set_op (set_len result (word_of_nat (length payload))) Op_Rw) (\<lambda>result.
     set_payload result payload))"

section \<open>The driver\<close>

abbreviation (input) VSOCK_QUEUE_SIZE :: nat where "VSOCK_QUEUE_SIZE \<equiv> 256"

abbreviation (input) HOST_CID :: u64 where "HOST_CID \<equiv> 2"

record VSock =
  vs_rx_queue :: Queue
  vs_tx_queue :: DriverWriteOnlyQueue
  guest_cid :: u64
  vs_notified :: "u16 list"

definition VSock_new :: "nat option \<Rightarrow> nat option \<Rightarrow> VSock anyhow" where
  "VSock_new tx_translated rx_translated =
     and_then (DriverWriteOnlyQueue_new VSOCK_QUEUE_SIZE DATA_BUFFER_SIZE tx_translated) (\<lambda>tx.
     and_then (DeviceWriteOnlyQueue_new VSOCK_QUEUE_SIZE DATA_BUFFER_SIZE rx_translated) (\<lambda>rx.
     Ok \<lparr>vs_rx_queue = rx, vs_tx_queue = tx, guest_cid = 0, vs_notified = []\<rparr>))"

definition vs_notify_queue :: "VSock \<Rightarrow> u16 \<Rightarrow> VSock" where
  "vs_notify_queue v i = v\<lparr>vs_notified := vs_notified v @ [i]\<rparr>"

text \<open>What \<^verbatim>\<open>write_buffer\<close> returns is not looked at.\<close>

definition write_packet :: "VSock \<Rightarrow> Packet \<Rightarrow> VSock anyhow" where
  "write_packet v p =
     (let p = set_src_cid (set_dst_cid p HOST_CID) (guest_cid v) in
      and_then (write_buffer VSOCK_QUEUE_SIZE DATA_BUFFER_SIZE (vs_tx_queue v) p) (\<lambda>(_, d).
      let v = v\<lparr>vs_tx_queue := d\<rparr> in
      Ok (if must_notify_device (inner d) then vs_notify_queue v TX_QUEUE_ID else v)))"

definition send_rst_packet :: "VSock \<Rightarrow> u32 \<Rightarrow> u32 \<Rightarrow> VSock anyhow" where
  "send_rst_packet v host_port local_port =
     (case Packet_new_control local_port host_port Op_Rst of
        Inl _ \<Rightarrow> panic ''called unwrap on an Err value''
      | Inr p \<Rightarrow> write_packet v p)"

lemma write_packet_rx:
  "write_packet v p = Ok v' \<Longrightarrow> vs_rx_queue v' = vs_rx_queue v \<and> guest_cid v' = guest_cid v"
  by (auto simp: write_packet_def vs_notify_queue_def Let_def result_simps split: prod.splits if_splits)

lemma send_rst_packet_rx:
  "send_rst_packet v h l = Ok v' \<Longrightarrow> vs_rx_queue v' = vs_rx_queue v \<and> guest_cid v' = guest_cid v"
  by (auto simp: send_rst_packet_def dest: write_packet_rx split: sum.splits)

text \<open>The loops over the receive queue end because the driver catches up with the device.\<close>

lemma read_next_used_buffer_dist:
  assumes "read_next_used_buffer n q = Ok (Some m, q')"
  shows "used_dist q' < used_dist q"
proof -
  obtain e q1 where q1: "get_next_used_element n q = Ok (Some e, q1)"
      "add_available_descriptor n q1 (ucast (elem_id e)) = Ok q'"
    using assms by (auto simp: read_next_used_buffer_def Let_def result_simps split: prod.splits option.splits)
  have "used_dist q' = used_dist q1"
    using q1(2) by (auto simp: add_available_descriptor_def used_dist_def Let_def result_simps)
  then show ?thesis using get_next_used_element_dist [OF q1(1)] by simp
qed

function read_packet :: "VSock \<Rightarrow> (Packet option \<times> VSock) anyhow" where
  "read_packet v = (case read_next_used_buffer VSOCK_QUEUE_SIZE (vs_rx_queue v) of
       Inl x \<Rightarrow> Inl x
     | Inr (None, q) \<Rightarrow> Ok (None, v\<lparr>vs_rx_queue := q\<rparr>)
     | Inr (Some buf, q) \<Rightarrow>
         let v = v\<lparr>vs_rx_queue := q\<rparr>;
             v = (if must_notify_device q then vs_notify_queue v RX_QUEUE_ID else v) in
         (case Packet_new buf of
            Inl _ \<Rightarrow> read_packet v
          | Inr p \<Rightarrow>
              if get_src_cid p = HOST_CID \<and> get_dst_cid p = guest_cid v then Ok (Some p, v)
              else read_packet v))"
  by pat_completeness auto
termination
  by (relation "measure (\<lambda>v. used_dist (vs_rx_queue v))")
    (auto simp: vs_notify_queue_def intro: read_next_used_buffer_dist split: if_splits)

declare read_packet.simps [simp del]

lemma read_packet_dist:
  "read_packet v = Ok (Some p, v') \<Longrightarrow> used_dist (vs_rx_queue v') < used_dist (vs_rx_queue v)"
proof (induction "used_dist (vs_rx_queue v)" arbitrary: v rule: less_induct)
  case (less v)
  obtain buf q where q: "read_next_used_buffer VSOCK_QUEUE_SIZE (vs_rx_queue v) = Ok (Some buf, q)"
    using less(2) by (auto simp: read_packet.simps [of v] split: sum.splits prod.splits option.splits)
  let ?v = "if must_notify_device q then vs_notify_queue (v\<lparr>vs_rx_queue := q\<rparr>) RX_QUEUE_ID else v\<lparr>vs_rx_queue := q\<rparr>"
  have d: "used_dist (vs_rx_queue ?v) < used_dist (vs_rx_queue v)"
    using read_next_used_buffer_dist [OF q] by (simp add: vs_notify_queue_def)
  have "v' = ?v \<or> read_packet ?v = Ok (Some p, v')"
    using less(2) q by (auto simp: read_packet.simps [of v] Let_def split: sum.splits if_splits)
  then show ?case using d less(1) [OF d] by auto
qed

function read_filtered_packet :: "(Packet \<Rightarrow> bool) \<Rightarrow> bool \<Rightarrow> VSock \<Rightarrow> (Packet option \<times> VSock) anyhow" where
  "read_filtered_packet matches reset_unmatched v = (case read_packet v of
       Inl x \<Rightarrow> Inl x
     | Inr (None, v) \<Rightarrow> Ok (None, v)
     | Inr (Some p, v) \<Rightarrow>
         if matches p then Ok (Some p, v)
         else (case (if reset_unmatched then send_rst_packet v (get_src_port p) (get_dst_port p) else Ok v) of
            Inl x \<Rightarrow> Inl x
          | Inr v \<Rightarrow> read_filtered_packet matches reset_unmatched v))"
  by pat_completeness auto
termination
  by (relation "measure (\<lambda>(_, _, v). used_dist (vs_rx_queue v))")
    (auto simp: send_rst_packet_rx read_packet_dist split: if_splits)

declare read_filtered_packet.simps [simp del]

section \<open>Fields\<close>

lemma read_write_same:
  "offset + 2 \<le> length p \<Longrightarrow> read_u16 (write_u16 p offset a) offset = a"
  "offset + 4 \<le> length p \<Longrightarrow> read_u32 (write_u32 p offset b) offset = b"
  "offset + 8 \<le> length p \<Longrightarrow> read_u64 (write_u64 p offset c) offset = c"
  using slice_overwrite_same [of offset "le_bytes 2 (unat a)" p] slice_overwrite_same [of offset "le_bytes 4 (unat b)" p]
    slice_overwrite_same [of offset "le_bytes 8 (unat c)" p] unsigned_less [of a, where ?'a = nat]
    unsigned_less [of b, where ?'a = nat] unsigned_less [of c, where ?'a = nat]
  by (simp_all add: read_u16_def write_u16_def read_u32_def write_u32_def read_u64_def write_u64_def)

lemma read_write_other:
  "j + 2 \<le> length p \<Longrightarrow> i + 2 \<le> j \<or> j + 2 \<le> i \<Longrightarrow> read_u16 (write_u16 p j a) i = read_u16 p i"
  "j + 4 \<le> length p \<Longrightarrow> i + 2 \<le> j \<or> j + 4 \<le> i \<Longrightarrow> read_u16 (write_u32 p j b) i = read_u16 p i"
  "j + 8 \<le> length p \<Longrightarrow> i + 2 \<le> j \<or> j + 8 \<le> i \<Longrightarrow> read_u16 (write_u64 p j c) i = read_u16 p i"
  "j + 2 \<le> length p \<Longrightarrow> i + 4 \<le> j \<or> j + 2 \<le> i \<Longrightarrow> read_u32 (write_u16 p j a) i = read_u32 p i"
  "j + 4 \<le> length p \<Longrightarrow> i + 4 \<le> j \<or> j + 4 \<le> i \<Longrightarrow> read_u32 (write_u32 p j b) i = read_u32 p i"
  "j + 8 \<le> length p \<Longrightarrow> i + 4 \<le> j \<or> j + 8 \<le> i \<Longrightarrow> read_u32 (write_u64 p j c) i = read_u32 p i"
  "j + 2 \<le> length p \<Longrightarrow> i + 8 \<le> j \<or> j + 2 \<le> i \<Longrightarrow> read_u64 (write_u16 p j a) i = read_u64 p i"
  "j + 4 \<le> length p \<Longrightarrow> i + 8 \<le> j \<or> j + 4 \<le> i \<Longrightarrow> read_u64 (write_u32 p j b) i = read_u64 p i"
  "j + 8 \<le> length p \<Longrightarrow> i + 8 \<le> j \<or> j + 8 \<le> i \<Longrightarrow> read_u64 (write_u64 p j c) i = read_u64 p i"
  by (simp_all add: read_u16_def write_u16_def read_u32_def write_u32_def read_u64_def write_u64_def
      slice_overwrite_other)

lemma length_write [simp]:
  "j + 2 \<le> length p \<Longrightarrow> length (write_u16 p j a) = length p"
  "j + 4 \<le> length p \<Longrightarrow> length (write_u32 p j b) = length p"
  "j + 8 \<le> length p \<Longrightarrow> length (write_u64 p j c) = length p"
  by (simp_all add: write_u16_def write_u32_def write_u64_def)

lemma drop_overwrite_after:
  assumes "j + length ys \<le> i" "i \<le> length p"
  shows "drop i (overwrite p j ys) = drop i p"
proof -
  have "length p \<le> j \<Longrightarrow> length ys = 0" using assms by linarith
  then show ?thesis
    using assms by (auto simp: overwrite_def le_add_diff_inverse [of "j + length ys" i, simplified] min_def)
qed

lemma drop_write:
  "j + 2 \<le> i \<Longrightarrow> i \<le> length p \<Longrightarrow> drop i (write_u16 p j a) = drop i p"
  "j + 4 \<le> i \<Longrightarrow> i \<le> length p \<Longrightarrow> drop i (write_u32 p j b) = drop i p"
  "j + 8 \<le> i \<Longrightarrow> i \<le> length p \<Longrightarrow> drop i (write_u64 p j c) = drop i p"
  by (simp_all add: write_u16_def write_u32_def write_u64_def drop_overwrite_after)

text \<open>The accessors of a packet that has a header.\<close>

lemmas setter_defs = set_src_cid_def set_dst_cid_def set_src_port_def set_dst_port_def set_len_def
  set_type_def vs_set_flags_def set_buf_alloc_def set_fwd_cnt_def

lemmas getter_defs = get_src_cid_def get_dst_cid_def get_src_port_def get_dst_port_def get_len_def
  get_op_def get_type_def vs_get_flags_def get_buf_alloc_def get_fwd_cnt_def

lemma VSockOp_from_to_repr [simp]: "VSockOp_from_repr (VSockOp_repr opn) = Some opn"
  by (cases opn) (simp_all add: VSockOp_from_repr_def)

text \<open>A packet as it goes over the wire: stamped with its identifiers and with credit information.\<close>

definition stamp :: "u64 \<Rightarrow> Packet \<Rightarrow> Packet" where
  "stamp cid p = set_src_cid (set_dst_cid p HOST_CID) cid"

lemma Packet_new_control_Ok:
  assumes "opn \<noteq> Op_Rw"
  obtains p where "Packet_new_control src dst opn = Ok p" "length p = HEADER_SIZE" "get_src_port p = src"
    "get_dst_port p = dst" "get_op p = Ok opn" "get_type p = Ok ()" "get_len p = 0"
    "vs_get_flags p = 0" "get_buf_alloc p = 0" "get_fwd_cnt p = 0"
proof -
  let ?z = "replicate 44 0 :: bytes"
  have z: "length ?z = 44" by simp
  have r: "read_u32 ?z i = 0" "read_u16 ?z i = 0" for i
    by (simp_all add: read_u32_def read_u16_def slice_def drop_replicate take_replicate)
  show ?thesis
    using that assms z r
    by (simp add: Packet_new_control_def new_with_buffer_size_def set_op_def setter_defs getter_defs read_write_same read_write_other)
qed

lemma Packet_new_data_Ok:
  assumes "payload \<noteq> []" "length payload \<le> 4052"
  obtains p where "Packet_new_data payload src dst = Ok p" "length p = HEADER_SIZE + length payload"
    "get_src_port p = src" "get_dst_port p = dst" "get_op p = Ok Op_Rw" "get_type p = Ok ()"
    "get_len p = word_of_nat (length payload)" "drop HEADER_SIZE p = payload"
proof -
  let ?n = "length payload"
  let ?z = "replicate (44 + ?n) 0 :: bytes"
  let ?p = "write_u16 (set_len (set_dst_port (set_src_port (set_type ?z) src) dst) (word_of_nat ?n)) 30 5"
  have z: "length ?z = 44 + ?n" by simp
  have r: "read_u32 ?z i = 0" "read_u16 ?z i = 0" for i
    by (simp_all add: read_u32_def read_u16_def slice_def drop_replicate take_replicate)
  have n: "unat (word_of_nat ?n :: u32) = ?n" using assms(2) by (intro unat_u32_of_nat) simp
  then have n0: "(word_of_nat ?n :: u32) \<noteq> 0" using assms(1) by (metis length_0_conv unat_0)
  have p: "length ?p = 44 + ?n" "get_src_port ?p = src" "get_dst_port ?p = dst" "get_op ?p = Ok Op_Rw"
      "get_type ?p = Ok ()" "get_len ?p = word_of_nat ?n"
    using z r VSockOp_from_to_repr [of Op_Rw]
    by (simp_all add: setter_defs getter_defs read_write_same read_write_other)
  have s: "slice (overwrite ?p 44 payload) i k = slice ?p i k" if "i + k \<le> 44" for i k
    using that p(1) by (intro slice_overwrite_other) auto
  have "new_with_buffer_size (44 + ?n) src dst = Ok (set_dst_port (set_src_port (set_type ?z) src) dst)"
    using assms(2) by (simp add: new_with_buffer_size_def)
  moreover have "get_len (set_len (set_dst_port (set_src_port (set_type ?z) src) dst) (word_of_nat ?n)) = word_of_nat ?n"
    using z by (simp add: setter_defs getter_defs read_write_same)
  moreover have "set_payload ?p payload = Ok (overwrite ?p 44 payload)"
    using p n by (simp add: set_payload_def copy_at_def)
  ultimately have "Packet_new_data payload src dst = Ok (overwrite ?p 44 payload)"
    using n0 by (simp add: Packet_new_data_def set_op_def)
  then show ?thesis
    using that p by (simp add: getter_defs read_u16_def read_u32_def s drop_overwrite_at)
qed

lemma stamp_fields:
  assumes "HEADER_SIZE \<le> length p"
  shows "get_src_cid (stamp cid p) = cid" "get_dst_cid (stamp cid p) = HOST_CID"
    "get_src_port (stamp cid p) = get_src_port p" "get_dst_port (stamp cid p) = get_dst_port p"
    "get_len (stamp cid p) = get_len p" "get_op (stamp cid p) = get_op p" "get_type (stamp cid p) = get_type p"
    "vs_get_flags (stamp cid p) = vs_get_flags p" "get_buf_alloc (stamp cid p) = get_buf_alloc p"
    "get_fwd_cnt (stamp cid p) = get_fwd_cnt p" "length (stamp cid p) = length p"
    "drop HEADER_SIZE (stamp cid p) = drop HEADER_SIZE p"
  using assms by (simp_all add: stamp_def setter_defs getter_defs read_write_same read_write_other drop_write)

lemma credit_fields:
  assumes "HEADER_SIZE \<le> length p"
  shows "get_src_port (set_fwd_cnt (set_buf_alloc p a) f) = get_src_port p"
    "get_dst_port (set_fwd_cnt (set_buf_alloc p a) f) = get_dst_port p"
    "get_len (set_fwd_cnt (set_buf_alloc p a) f) = get_len p"
    "get_op (set_fwd_cnt (set_buf_alloc p a) f) = get_op p"
    "get_type (set_fwd_cnt (set_buf_alloc p a) f) = get_type p"
    "get_buf_alloc (set_fwd_cnt (set_buf_alloc p a) f) = a" "get_fwd_cnt (set_fwd_cnt (set_buf_alloc p a) f) = f"
    "length (set_fwd_cnt (set_buf_alloc p a) f) = length p"
    "drop HEADER_SIZE (set_fwd_cnt (set_buf_alloc p a) f) = drop HEADER_SIZE p"
  using assms by (simp_all add: setter_defs getter_defs read_write_same read_write_other drop_write)

lemma get_payload_drop:
  assumes "HEADER_SIZE \<le> length p" "unat (get_len p) = length p - HEADER_SIZE"
  shows "get_payload p = Ok (drop HEADER_SIZE p)"
  using assms by (simp add: get_payload_def get_payload_len_def sub_slice_def)

section \<open>The driver on its queues\<close>

definition vs_ok :: "VSock \<Rightarrow> bool" where
  "vs_ok v \<longleftrightarrow> rx_ok VSOCK_QUEUE_SIZE DATA_BUFFER_SIZE (vs_rx_queue v) \<and>
     tx_ok VSOCK_QUEUE_SIZE DATA_BUFFER_SIZE (vs_tx_queue v)"

definition vs_received :: "VSock \<Rightarrow> bytes list" where
  "vs_received v = rx_content VSOCK_QUEUE_SIZE DATA_BUFFER_SIZE (vs_rx_queue v)"

definition vs_in_flight :: "VSock \<Rightarrow> bytes list" where
  "vs_in_flight v = tx_content VSOCK_QUEUE_SIZE DATA_BUFFER_SIZE (vs_tx_queue v)"

text \<open>A packet that finds no free buffer is lost.\<close>

definition lossy_send :: "bytes list \<Rightarrow> bytes \<Rightarrow> bytes list" where
  "lossy_send sent p = (if length sent < VSOCK_QUEUE_SIZE then sent @ [p] else sent)"

lemma write_packet_Ok:
  assumes ok: "vs_ok v" and p: "HEADER_SIZE \<le> length p" "length p \<le> DATA_BUFFER_SIZE"
  obtains v' where "write_packet v p = Ok v'" "vs_ok v'" "guest_cid v' = guest_cid v"
    "vs_rx_queue v' = vs_rx_queue v" "vs_in_flight v' = lossy_send (vs_in_flight v) (stamp (guest_cid v) p)"
proof -
  have tx: "tx_ok 256 4096 (vs_tx_queue v)" using ok by (simp add: vs_ok_def)
  let ?p = "stamp (guest_cid v) p"
  have l: "length ?p \<le> 4096" using stamp_fields(11) [OF p(1)] p(2) by simp
  obtain r d where d: "write_buffer 256 4096 (vs_tx_queue v) ?p = Ok (r, d)" "tx_ok 256 4096 d"
      "tx_content 256 4096 d = lossy_send (vs_in_flight v) ?p"
  proof (cases "length (vs_in_flight v) < 256")
    case True
    then show ?thesis
      using write_buffer_send [OF tx l] that by (auto simp: vs_in_flight_def lossy_send_def)
  next
    case False
    then have "length (tx_content 256 4096 (vs_tx_queue v)) = 256"
      using tx_content_bound [OF tx] by (simp add: vs_in_flight_def)
    then show ?thesis
      using write_buffer_full [OF tx, of ?p] that by (auto simp: vs_in_flight_def lossy_send_def)
  qed
  then show ?thesis
    using that [of "if must_notify_device (inner d) then vs_notify_queue (v\<lparr>vs_tx_queue := d\<rparr>) TX_QUEUE_ID
        else v\<lparr>vs_tx_queue := d\<rparr>"] ok
    by (simp add: write_packet_def stamp_def vs_ok_def vs_in_flight_def vs_notify_queue_def Let_def)
qed

text \<open>The answer to a packet that belongs to no connection.\<close>

definition rst_for :: "u64 \<Rightarrow> Packet \<Rightarrow> Packet" where
  "rst_for cid p = (case Packet_new_control (get_dst_port p) (get_src_port p) Op_Rst of Inr r \<Rightarrow> stamp cid r | Inl _ \<Rightarrow> [])"

lemma rst_for_fields:
  "get_op (rst_for cid p) = Ok Op_Rst" "get_src_port (rst_for cid p) = get_dst_port p"
  "get_dst_port (rst_for cid p) = get_src_port p" "get_src_cid (rst_for cid p) = cid"
  "get_dst_cid (rst_for cid p) = HOST_CID"
proof -
  obtain r where r: "Packet_new_control (get_dst_port p) (get_src_port p) Op_Rst = Ok r" "length r = HEADER_SIZE"
      "get_src_port r = get_dst_port p" "get_dst_port r = get_src_port p" "get_op r = Ok Op_Rst"
    by (rule Packet_new_control_Ok [of Op_Rst "get_dst_port p" "get_src_port p"]) auto
  then show "get_op (rst_for cid p) = Ok Op_Rst" "get_src_port (rst_for cid p) = get_dst_port p"
    "get_dst_port (rst_for cid p) = get_src_port p" "get_src_cid (rst_for cid p) = cid"
    "get_dst_cid (rst_for cid p) = HOST_CID"
    by (simp_all add: rst_for_def stamp_fields)
qed

lemma send_rst_packet_Ok:
  assumes ok: "vs_ok v"
  obtains v' where "send_rst_packet v (get_src_port p) (get_dst_port p) = Ok v'" "vs_ok v'"
    "guest_cid v' = guest_cid v" "vs_rx_queue v' = vs_rx_queue v"
    "vs_in_flight v' = lossy_send (vs_in_flight v) (rst_for (guest_cid v) p)"
proof -
  obtain r where r: "Packet_new_control (get_dst_port p) (get_src_port p) Op_Rst = Ok r" "length r = HEADER_SIZE"
    by (rule Packet_new_control_Ok [of Op_Rst "get_dst_port p" "get_src_port p"]) auto
  obtain v' where "write_packet v r = Ok v'" "vs_ok v'" "guest_cid v' = guest_cid v"
      "vs_rx_queue v' = vs_rx_queue v" "vs_in_flight v' = lossy_send (vs_in_flight v) (stamp (guest_cid v) r)"
    by (rule write_packet_Ok [OF ok, of r]) (simp_all add: r(2))
  then show ?thesis using that r(1) by (simp add: send_rst_packet_def rst_for_def)
qed

text \<open>The packets that the driver looks at: long enough, and from the host to this guest.\<close>

definition for_guest :: "u64 \<Rightarrow> bytes \<Rightarrow> bool" where
  "for_guest cid p \<longleftrightarrow> HEADER_SIZE \<le> length p \<and> get_src_cid p = HOST_CID \<and> get_dst_cid p = cid"

lemma read_packet_refines:
  assumes "vs_ok v"
  shows "\<exists>v'. read_packet v = Ok (find (for_guest (guest_cid v)) (vs_received v), v') \<and> vs_ok v' \<and>
    vs_received v' = tl (dropWhile (\<lambda>p. \<not> for_guest (guest_cid v) p) (vs_received v)) \<and>
    vs_tx_queue v' = vs_tx_queue v \<and> guest_cid v' = guest_cid v"
  using assms
proof (induction "vs_received v" arbitrary: v)
  case Nil
  have "read_next_used_buffer 256 (vs_rx_queue v) = Ok (None, vs_rx_queue v)"
    using read_next_used_buffer_empty [of 256 4096] Nil(1) by (simp add: vs_received_def)
  then show ?case using Nil by (simp add: read_packet.simps [of v])
next
  case (Cons p ps)
  obtain q where q: "read_next_used_buffer 256 (vs_rx_queue v) = Ok (Some p, q)" "rx_ok 256 4096 q"
      "rx_content 256 4096 q = ps"
    using read_next_used_buffer_next [of 256 4096 "vs_rx_queue v" p ps] Cons.hyps(2) Cons.prems
    by (auto simp: vs_ok_def vs_received_def)
  let ?v = "if must_notify_device q then vs_notify_queue (v\<lparr>vs_rx_queue := q\<rparr>) RX_QUEUE_ID else v\<lparr>vs_rx_queue := q\<rparr>"
  have v: "vs_ok ?v" "vs_received ?v = ps" "vs_tx_queue ?v = vs_tx_queue v" "guest_cid ?v = guest_cid v"
    using q Cons.prems by (simp_all add: vs_ok_def vs_received_def vs_notify_queue_def)
  have "read_packet v = (if for_guest (guest_cid v) p then Ok (Some p, ?v) else read_packet ?v)"
    using q(1) by (auto simp: read_packet.simps [of v] Let_def Packet_new_def for_guest_def vs_notify_queue_def)
  then show ?case
    using Cons.hyps(1) [of ?v] Cons.hyps(2) v by (auto simp flip: Cons.hyps(2))
qed

text \<open>Looking for a packet: the packet found, those for the guest that did not match, and the rest.\<close>

fun scan :: "(Packet \<Rightarrow> bool) \<Rightarrow> u64 \<Rightarrow> bytes list \<Rightarrow> Packet option \<times> Packet list \<times> bytes list" where
  "scan matches cid [] = (None, [], [])"
| "scan matches cid (p # ps) =
     (if \<not> for_guest cid p then scan matches cid ps
      else if matches p then (Some p, [], ps)
      else let (r, unmatched, rest) = scan matches cid ps in (r, p # unmatched, rest))"

lemma scan_skip:
  "scan matches cid ps = (case dropWhile (\<lambda>p. \<not> for_guest cid p) ps of [] \<Rightarrow> (None, [], [])
     | p # ps \<Rightarrow> scan matches cid (p # ps))"
  by (induction ps) auto

lemma find_dropWhile:
  "find P xs = (case dropWhile (\<lambda>x. \<not> P x) xs of [] \<Rightarrow> None | x # _ \<Rightarrow> Some x)"
  by (induction xs) auto

lemma read_filtered_packet_refines:
  assumes "vs_ok v" "scan matches (guest_cid v) (vs_received v) = (r, unmatched, rest)"
  shows "\<exists>v'. read_filtered_packet matches True v = Ok (r, v') \<and> vs_ok v' \<and> vs_received v' = rest \<and>
    vs_in_flight v' = foldl lossy_send (vs_in_flight v) (map (rst_for (guest_cid v)) unmatched) \<and>
    guest_cid v' = guest_cid v"
  using assms
proof (induction "length (vs_received v)" arbitrary: v unmatched rule: less_induct)
  case less
  let ?cid = "guest_cid v" and ?ps = "dropWhile (\<lambda>p. \<not> for_guest (guest_cid v) p) (vs_received v)"
  obtain v1 where v1: "read_packet v = Ok (find (for_guest ?cid) (vs_received v), v1)" "vs_ok v1"
      "vs_received v1 = tl ?ps" "vs_tx_queue v1 = vs_tx_queue v" "guest_cid v1 = ?cid"
    using read_packet_refines [OF less.prems(1)] by blast
  have f: "vs_in_flight v1 = vs_in_flight v" using v1(4) by (simp add: vs_in_flight_def)
  show ?case
  proof (cases ?ps)
    case Nil
    then have "find (for_guest ?cid) (vs_received v) = None" "(r, unmatched, rest) = (None, [], [])"
      unfolding find_dropWhile less.prems(2) [symmetric] scan_skip [of matches ?cid "vs_received v"] Nil by simp_all
    then show ?thesis using v1 f Nil by (simp add: read_filtered_packet.simps [of matches True v])
  next
    case (Cons p ps)
    have fp: "find (for_guest ?cid) (vs_received v) = Some p" using Cons by (simp add: find_dropWhile)
    have "for_guest ?cid p" using hd_dropWhile [of "\<lambda>p. \<not> for_guest ?cid p" "vs_received v"] Cons by force
    with less.prems(2) have sc: "(if matches p then (Some p, [], ps)
        else let (r, unmatched, rest) = scan matches ?cid ps in (r, p # unmatched, rest)) = (r, unmatched, rest)"
      using scan_skip [of matches ?cid "vs_received v"] Cons by simp
    show ?thesis
    proof (cases "matches p")
      case True
      then have "r = Some p" "unmatched = []" "rest = ps" using sc by simp_all
      then show ?thesis using v1 f fp Cons True by (simp add: read_filtered_packet.simps [of matches True v])
    next
      case False
      obtain u where u: "scan matches ?cid ps = (r, u, rest)" "unmatched = p # u"
        using sc False by (auto split: prod.splits)
      obtain v2 where v2: "send_rst_packet v1 (get_src_port p) (get_dst_port p) = Ok v2" "vs_ok v2"
          "guest_cid v2 = ?cid" "vs_rx_queue v2 = vs_rx_queue v1"
          "vs_in_flight v2 = lossy_send (vs_in_flight v) (rst_for ?cid p)"
        by (rule send_rst_packet_Ok [OF v1(2), of p]) (use v1(5) f in simp)
      have r2: "vs_received v2 = ps" using v1(3) v2(4) Cons by (simp add: vs_received_def)
      moreover have "length ps < length (vs_received v)"
        using length_dropWhile_le [of "\<lambda>p. \<not> for_guest ?cid p" "vs_received v"] Cons by simp
      ultimately show ?thesis
        using less.hyps [of v2 u] v2 v1(1) fp u False
        by (auto simp: read_filtered_packet.simps [of matches True v])
    qed
  qed
qed

section \<open>Properties\<close>

text \<open>A data packet for one to 4052 bytes of payload, with credit information set and stamped with its
  identifiers for the wire, is read back by the receiver with the payload, the ports, the operation
  and every other header field as they were set; any other payload is refused with an error.\<close>

theorem data_packet_round_trip:
  "if payload = [] \<or> DATA_BUFFER_SIZE - HEADER_SIZE < length payload
   then \<exists>e. Packet_new_data payload src dst = Error e
   else \<exists>p. Packet_new_data payload src dst = Ok p \<and>
     (let q = stamp cid (set_fwd_cnt (set_buf_alloc p alloc) fwd) in
      Packet_new q = Ok q \<and> length q \<le> DATA_BUFFER_SIZE \<and> get_payload q = Ok payload \<and> get_op q = Ok Op_Rw \<and>
      get_type q = Ok () \<and> get_src_port q = src \<and> get_dst_port q = dst \<and> get_src_cid q = cid \<and>
      get_dst_cid q = HOST_CID \<and> get_buf_alloc q = alloc \<and> get_fwd_cnt q = fwd)"
proof (cases "payload = [] \<or> 4052 < length payload")
  case True
  have "get_len (set_len (set_dst_port (set_src_port (set_type (replicate 44 0)) src) dst) 0) = 0"
    by (simp add: setter_defs getter_defs read_write_same)
  then show ?thesis using True by (auto simp: Packet_new_data_def new_with_buffer_size_def set_op_def)
next
  case False
  then obtain p where p: "Packet_new_data payload src dst = Ok p" "length p = 44 + length payload"
      "get_src_port p = src" "get_dst_port p = dst" "get_op p = Ok Op_Rw" "get_type p = Ok ()"
      "get_len p = word_of_nat (length payload)" "drop 44 p = payload"
    using Packet_new_data_Ok [of payload src dst] by auto
  let ?c = "set_fwd_cnt (set_buf_alloc p alloc) fwd"
  have l: "44 \<le> length p" "44 \<le> length ?c" using p(2) credit_fields(8) [of p alloc fwd] by simp_all
  have "unat (word_of_nat (length payload) :: u32) = length payload"
    using False by (intro unat_u32_of_nat) simp
  then have "get_payload (stamp cid ?c) = Ok payload"
    using p credit_fields [OF l(1)] stamp_fields [OF l(2)] by (subst get_payload_drop) auto
  then show ?thesis
    using False p credit_fields [OF l(1)] stamp_fields [OF l(2)] by (simp add: Let_def Packet_new_def)
qed

text \<open>C34. Looking for a packet of a connection never fails: the driver takes the first packet from the
  host to this guest that matches, or none if there is none, drops what is malformed or not from the host
  to this guest, and answers every other packet before it with a reset for its ports, in order and as
  far as there are free buffers; what comes after it stays in the queue.\<close>

theorem stray_packets_are_reset:
  assumes "vs_ok v" "scan matches (guest_cid v) (vs_received v) = (r, unmatched, rest)"
  shows "\<exists>v'. read_filtered_packet matches True v = Ok (r, v') \<and> vs_ok v' \<and> vs_received v' = rest \<and>
    vs_in_flight v' = foldl lossy_send (vs_in_flight v) (map (rst_for (guest_cid v)) unmatched)"
  using read_filtered_packet_refines [OF assms] by blast

lemma VSock_new_Ok:
  assumes "tx + 256 * 4096 < 2 ^ 52" "rx + 256 * 4096 < 2 ^ 52"
  shows "\<exists>v. VSock_new (Some tx) (Some rx) = Ok v \<and> vs_ok v \<and> vs_received v = [] \<and> vs_in_flight v = [] \<and>
    guest_cid v = 0"
proof -
  obtain d where "DriverWriteOnlyQueue_new 256 4096 (Some tx) = Ok d" "tx_ok 256 4096 d" "tx_content 256 4096 d = []"
    using DriverWriteOnlyQueue_new_Ok [OF ring_size_examples(3) _ assms(1)] by auto
  moreover obtain q where "DeviceWriteOnlyQueue_new 256 4096 (Some rx) = Ok q" "rx_ok 256 4096 q" "rx_content 256 4096 q = []"
    using DeviceWriteOnlyQueue_new_Ok [OF ring_size_examples(3) _ assms(2)] by auto
  ultimately show ?thesis by (simp add: VSock_new_def vs_ok_def vs_received_def vs_in_flight_def)
qed

text \<open>A driver that has received given buffers.\<close>

lemma vsock_with_input:
  assumes "length ps \<le> 256" "\<forall>p \<in> set ps. length p \<le> 4096"
  shows "\<exists>v. vs_ok v \<and> vs_received v = ps \<and> vs_in_flight v = [] \<and> guest_cid v = cid"
  using assms
proof (induction ps rule: rev_induct)
  case Nil
  obtain v where "vs_ok v" "vs_received v = []" "vs_in_flight v = []" using VSock_new_Ok [of 0 0] by auto
  then have "vs_ok (v\<lparr>guest_cid := cid\<rparr>) \<and> vs_received (v\<lparr>guest_cid := cid\<rparr>) = [] \<and>
      vs_in_flight (v\<lparr>guest_cid := cid\<rparr>) = [] \<and> guest_cid (v\<lparr>guest_cid := cid\<rparr>) = cid"
    by (simp add: vs_ok_def vs_received_def vs_in_flight_def)
  then show ?case by blast
next
  case (snoc p ps)
  then obtain v where v: "vs_ok v" "vs_received v = ps" "vs_in_flight v = []" "guest_cid v = cid" by auto
  obtain q where "rx_ok 256 4096 q" "rx_content 256 4096 q = ps @ [p]"
    using device_write_room [of 256 4096 "vs_rx_queue v" p] v snoc.prems by (auto simp: vs_ok_def vs_received_def)
  then have "vs_ok (v\<lparr>vs_rx_queue := q\<rparr>) \<and> vs_received (v\<lparr>vs_rx_queue := q\<rparr>) = ps @ [p] \<and>
      vs_in_flight (v\<lparr>vs_rx_queue := q\<rparr>) = [] \<and> guest_cid (v\<lparr>vs_rx_queue := q\<rparr>) = cid"
    using v by (simp add: vs_ok_def vs_received_def vs_in_flight_def)
  then show ?case by blast
qed

text \<open>A short buffer, a packet for port 0 and, as the one that is looked for, nothing.\<close>

theorem stray_packets_are_reset_witness:
  "\<exists>v v' p. vs_received v = [[1], p] \<and> read_filtered_packet (\<lambda>_. False) True v = Ok (None, v') \<and>
     vs_received v' = [] \<and> map get_op (vs_in_flight v') = [Ok Op_Rst]"
proof -
  let ?p = "set_src_cid (replicate 44 0) 2"
  have f: "for_guest 0 ?p" "\<not> for_guest 0 [1]"
    by (simp_all add: for_guest_def setter_defs getter_defs read_write_same read_write_other)
      (simp add: read_u64_def slice_def drop_replicate take_replicate)
  obtain v where v: "vs_ok v" "vs_received v = [[1], ?p]" "vs_in_flight v = []" "guest_cid v = 0"
    using vsock_with_input [of "[[1], ?p]" 0] by (auto simp: setter_defs)
  have "scan (\<lambda>_. False) (guest_cid v) (vs_received v) = (None, [?p], [])"
    using f v by simp
  from stray_packets_are_reset [OF v(1) this] v show ?thesis
    by (fastforce simp: lossy_send_def rst_for_fields)
qed

end
