(* ===== verification/Oak_Socket.thy ===== *)
theory Oak_Socket
  imports Oak_Vsock
begin

text \<open>
  Connections over the virtio socket, \<^verbatim>\<open>oak_virtio/src/vsock/socket/mod.rs\<close>: connecting and
  accepting, and the byte channel of a connected socket with its flow control. The counters of bytes
  are 32-bit and wrap around. Where the code waits for the host it polls, so that between two actions
  of the host it does not end and is \<open>None\<close>. After an error the socket is not used again, so only a
  success returns its new state.
\<close>

section \<open>The socket\<close>

abbreviation (input) STREAM_BUFFER_LENGTH :: u32 where "STREAM_BUFFER_LENGTH \<equiv> 65536"

abbreviation (input) CREDIT_UPDATE_LIMIT :: u32 where "CREDIT_UPDATE_LIMIT \<equiv> 32768"

abbreviation (input) MAX_PAYLOAD_SIZE :: nat where "MAX_PAYLOAD_SIZE \<equiv> 4052"

datatype ConnectionState = Connected | Disconnected

record SocketConfiguration =
  cfg_vsock :: VSock
  local_port :: u32
  host_port :: u32

record Socket =
  config :: SocketConfiguration
  connection_state :: ConnectionState
  processed_bytes :: u32
  previous_processed_bytes :: u32
  sent_bytes :: u32
  peer_processed_bytes :: u32
  peer_buffer_size :: u32
  pending_data :: "bytes option"

definition Socket_new :: "SocketConfiguration \<Rightarrow> u32 \<Rightarrow> Socket" where
  "Socket_new cfg buffer_size = \<lparr>config = cfg, connection_state = Connected, processed_bytes = 0,
     previous_processed_bytes = 0, sent_bytes = 0, peer_processed_bytes = 0,
     peer_buffer_size = buffer_size, pending_data = None\<rparr>"

definition of_connection :: "SocketConfiguration \<Rightarrow> Packet \<Rightarrow> bool" where
  "of_connection cfg p \<longleftrightarrow> get_dst_port p = local_port cfg \<and> get_src_port p = host_port cfg"

text \<open>Connecting: the request, with credit information, and the wait for the response.\<close>

definition SocketConnector_new :: "VSock \<Rightarrow> u32 \<Rightarrow> u32 \<Rightarrow> SocketConfiguration" where
  "SocketConnector_new v hp lp = \<lparr>cfg_vsock = v, local_port = lp, host_port = hp\<rparr>"

partial_function (option) connect_loop :: "SocketConfiguration \<Rightarrow> Socket anyhow option" where
  "connect_loop cfg = (case read_filtered_packet (of_connection cfg) True (cfg_vsock cfg) of
       Inl x \<Rightarrow> Some (Inl x)
     | Inr (None, v) \<Rightarrow> connect_loop (cfg\<lparr>cfg_vsock := v\<rparr>)
     | Inr (Some p, v) \<Rightarrow> Some (and_then (get_op p) (\<lambda>opn.
         if opn = Op_Response then Ok (Socket_new (cfg\<lparr>cfg_vsock := v\<rparr>) (get_buf_alloc p))
         else Error [''invalid response to connection request''])))"

definition connect :: "SocketConfiguration \<Rightarrow> Socket anyhow option" where
  "connect cfg =
     (case and_then (Packet_new_control (local_port cfg) (host_port cfg) Op_Request) (\<lambda>p.
         write_packet (cfg_vsock cfg) (set_fwd_cnt (set_buf_alloc p STREAM_BUFFER_LENGTH) 0)) of
        Inl x \<Rightarrow> Some (Inl x)
      | Inr v \<Rightarrow> connect_loop (cfg\<lparr>cfg_vsock := v\<rparr>))"

text \<open>Accepting: the wait for a request to the port, from whatever port, and the response.\<close>

definition SocketListener_new :: "VSock \<Rightarrow> u32 \<Rightarrow> SocketConfiguration" where
  "SocketListener_new v port = \<lparr>cfg_vsock = v, local_port = port, host_port = 0\<rparr>"

definition send_response :: "SocketConfiguration \<Rightarrow> u32 \<Rightarrow> Socket anyhow" where
  "send_response cfg buffer_size =
     and_then (Packet_new_control (local_port cfg) (host_port cfg) Op_Response) (\<lambda>p.
     and_then (write_packet (cfg_vsock cfg) (set_fwd_cnt (set_buf_alloc p STREAM_BUFFER_LENGTH) 0)) (\<lambda>v.
     Ok (Socket_new (cfg\<lparr>cfg_vsock := v\<rparr>) buffer_size)))"

partial_function (option) accept :: "SocketConfiguration \<Rightarrow> Socket anyhow option" where
  "accept cfg = (case read_filtered_packet (\<lambda>p. get_dst_port p = local_port cfg) True (cfg_vsock cfg) of
       Inl x \<Rightarrow> Some (Inl x)
     | Inr (None, v) \<Rightarrow> accept (cfg\<lparr>cfg_vsock := v\<rparr>)
     | Inr (Some p, v) \<Rightarrow> Some (and_then (get_op p) (\<lambda>opn.
         if opn = Op_Request
         then send_response (cfg\<lparr>cfg_vsock := v, host_port := get_src_port p\<rparr>) (get_buf_alloc p)
         else Error [''invalid connection request''])))"

section \<open>Flow control and packets\<close>

definition shutdown :: "Socket \<Rightarrow> VSock anyhow" where
  "shutdown s =
     (if connection_state s = Connected then
        (case Packet_new_control (local_port (config s)) (host_port (config s)) Op_Shutdown of
           Inl _ \<Rightarrow> panic ''couldn't create control packet''
         | Inr p \<Rightarrow> write_packet (cfg_vsock (config s)) (vs_set_flags p VSockFlags_all))
      else Ok (cfg_vsock (config s)))"

definition must_send_credit_update :: "Socket \<Rightarrow> bool" where
  "must_send_credit_update s \<longleftrightarrow>
     STREAM_BUFFER_LENGTH - (processed_bytes s - previous_processed_bytes s) < CREDIT_UPDATE_LIMIT"

definition set_credit_info :: "Socket \<Rightarrow> Packet \<Rightarrow> Socket \<times> Packet" where
  "set_credit_info s p = (s\<lparr>previous_processed_bytes := processed_bytes s\<rparr>,
     set_fwd_cnt (set_buf_alloc p STREAM_BUFFER_LENGTH) (processed_bytes s))"

definition with_vsock :: "Socket \<Rightarrow> VSock \<Rightarrow> Socket" where
  "with_vsock s v = s\<lparr>config := (config s)\<lparr>cfg_vsock := v\<rparr>\<rparr>"

definition send_control_packet :: "Socket \<Rightarrow> VSockOp \<Rightarrow> Socket anyhow" where
  "send_control_packet s opn =
     (if connection_state s \<noteq> Connected then panic ''assertion failed''
      else and_then (Packet_new_control (local_port (config s)) (host_port (config s)) opn) (\<lambda>p.
        case set_credit_info s p of (s, p) \<Rightarrow>
          and_then (write_packet (cfg_vsock (config s)) p) (\<lambda>v. Ok (with_vsock s v))))"

definition send_data_packet :: "Socket \<Rightarrow> bytes \<Rightarrow> Socket anyhow" where
  "send_data_packet s data =
     (if connection_state s \<noteq> Connected then panic ''stream disconnected''
      else if length data > MAX_PAYLOAD_SIZE then panic ''the data is too large for a single packet''
      else let data_len = word_of_nat (length data) in
        if data_len > peer_buffer_size s - (sent_bytes s - peer_processed_bytes s)
        then Error [''peer's stream buffer is full'']
        else let s = s\<lparr>sent_bytes := sent_bytes s + data_len\<rparr> in
          and_then (Packet_new_data data (local_port (config s)) (host_port (config s))) (\<lambda>p.
          case set_credit_info s p of (s, p) \<Rightarrow>
            and_then (write_packet (cfg_vsock (config s)) p) (\<lambda>v. Ok (with_vsock s v))))"

lemma send_control_packet_rx:
  "send_control_packet s opn = Ok s' \<Longrightarrow> vs_rx_queue (cfg_vsock (config s')) = vs_rx_queue (cfg_vsock (config s))"
  by (auto simp: send_control_packet_def set_credit_info_def with_vsock_def result_simps
      dest: write_packet_rx split: if_splits)

lemma read_filtered_packet_dist:
  "read_filtered_packet matches b v = Ok (Some p, v') \<Longrightarrow>
     used_dist (vs_rx_queue v') < used_dist (vs_rx_queue v)"
proof (induction "used_dist (vs_rx_queue v)" arbitrary: v rule: less_induct)
  case less
  obtain p1 v1 where v1: "read_packet v = Ok (Some p1, v1)"
    using less(2) by (auto simp: read_filtered_packet.simps [of matches b v] split: sum.splits prod.splits option.splits)
  note d = read_packet_dist [OF v1]
  consider "v' = v1" | v2 where "vs_rx_queue v2 = vs_rx_queue v1" "read_filtered_packet matches b v2 = Ok (Some p, v')"
    using less(2) v1
    by (auto simp: read_filtered_packet.simps [of matches b v] dest: send_rst_packet_rx split: sum.splits if_splits)
  then show ?case
  proof cases
    case (2 v2)
    with d less(1) [of v2] show ?thesis by simp
  qed (use d in simp)
qed

section \<open>Reading and writing\<close>

text \<open>A packet that does not end the connection is taken into account, and the loop goes on.\<close>

function read_data_loop :: "Socket \<Rightarrow> (bytes option \<times> Socket) anyhow" where
  "read_data_loop s = (case read_filtered_packet (of_connection (config s)) True (cfg_vsock (config s)) of
       Inl x \<Rightarrow> Inl x
     | Inr (None, v) \<Rightarrow> Ok (None, with_vsock s v)
     | Inr (Some p, v) \<Rightarrow>
         let s = (with_vsock s v)\<lparr>peer_buffer_size := get_buf_alloc p, peer_processed_bytes := get_fwd_cnt p\<rparr> in
         (case get_op p of
            Inl _ \<Rightarrow> panic ''invalid packet received on stream''
          | Inr Op_CreditRequest \<Rightarrow> (case send_control_packet s Op_CreditUpdate of
                Inl _ \<Rightarrow> panic ''couldn't create control packet''
              | Inr s \<Rightarrow> read_data_loop s)
          | Inr Op_CreditUpdate \<Rightarrow> read_data_loop s
          | Inr Op_Request \<Rightarrow> panic ''invalid packet received on stream''
          | Inr Op_Response \<Rightarrow> panic ''invalid packet received on stream''
          | Inr Op_Rst \<Rightarrow> Ok (None, s\<lparr>connection_state := Disconnected\<rparr>)
          | Inr Op_Shutdown \<Rightarrow> (case send_control_packet s Op_Rst of
                Inl _ \<Rightarrow> panic ''couldn't create control packet''
              | Inr s \<Rightarrow> Ok (None, s\<lparr>connection_state := Disconnected\<rparr>))
          | Inr Op_Rw \<Rightarrow> and_then (get_payload p) (\<lambda>data. Ok (Some data, s))))"
  by pat_completeness auto
termination
  by (relation "measure (\<lambda>s. used_dist (vs_rx_queue (cfg_vsock (config s))))")
    (auto simp: with_vsock_def send_control_packet_rx dest: read_filtered_packet_dist)

declare read_data_loop.simps [simp del]

definition read_data :: "Socket \<Rightarrow> (bytes option \<times> Socket) anyhow" where
  "read_data s = (if connection_state s \<noteq> Connected then panic ''stream disconnected'' else read_data_loop s)"

definition sock_read_partial :: "Socket \<Rightarrow> nat \<Rightarrow> (bytes option \<times> Socket) anyhow" where
  "sock_read_partial s len =
     and_then (case pending_data s of
         Some data \<Rightarrow> Ok (Some data, s\<lparr>pending_data := None\<rparr>)
       | None \<Rightarrow> read_data s) (\<lambda>(source, s). case source of
       None \<Rightarrow> Ok (None, s)
     | Some source \<Rightarrow> (case take_partial len source of (got, rest) \<Rightarrow>
         Ok (Some got, if rest = None then s else s\<lparr>pending_data := rest\<rparr>)))"

definition sock_read_exact :: "Socket \<Rightarrow> nat \<Rightarrow> (bytes \<times> Socket) anyhow option" where
  "sock_read_exact s len = map_option (\<lambda>r. and_then r (\<lambda>(data, s).
     let s = s\<lparr>processed_bytes := processed_bytes s + word_of_nat (length data)\<rparr> in
     if must_send_credit_update s
     then and_then (map_err (\<lambda>_. [''couldn't create control packet'']) (send_control_packet s Op_CreditUpdate))
       (\<lambda>s. Ok (data, s))
     else Ok (data, s))) (poll_exact sock_read_partial s len [])"

definition sock_write_all :: "Socket \<Rightarrow> bytes \<Rightarrow> Socket anyhow" where
  "sock_write_all s data = try_fold send_data_packet s (chunks MAX_PAYLOAD_SIZE data)"

section \<open>The stream of a connection\<close>

text \<open>The packets of a connection, known by the guest's identifier and the two ports, and what they
  carry. A peer that keeps to the protocol sends, on an established connection, data with the length
  it announces and credit information.\<close>

definition conn_packet :: "u64 \<Rightarrow> u32 \<Rightarrow> u32 \<Rightarrow> Packet \<Rightarrow> bool" where
  "conn_packet cid lp hp p \<longleftrightarrow> for_guest cid p \<and> get_dst_port p = lp \<and> get_src_port p = hp"

definition well_behaved :: "u64 \<Rightarrow> u32 \<Rightarrow> u32 \<Rightarrow> Packet \<Rightarrow> bool" where
  "well_behaved cid lp hp p \<longleftrightarrow> conn_packet cid lp hp p \<longrightarrow>
     get_op p = Ok Op_CreditUpdate \<or> get_op p = Ok Op_CreditRequest \<or>
     get_op p = Ok Op_Rw \<and> unat (get_len p) = length p - HEADER_SIZE"

definition carried :: "u64 \<Rightarrow> u32 \<Rightarrow> u32 \<Rightarrow> Packet \<Rightarrow> bytes" where
  "carried cid lp hp p = (if conn_packet cid lp hp p \<and> get_op p = Ok Op_Rw then drop HEADER_SIZE p else [])"

text \<open>The same for a socket, and what is left of its stream.\<close>

definition sock_received :: "Socket \<Rightarrow> bytes list" where
  "sock_received s = vs_received (cfg_vsock (config s))"

definition sock_in_flight :: "Socket \<Rightarrow> bytes list" where
  "sock_in_flight s = vs_in_flight (cfg_vsock (config s))"

definition sock_ok :: "Socket \<Rightarrow> bool" where
  "sock_ok s \<longleftrightarrow> vs_ok (cfg_vsock (config s)) \<and> connection_state s = Connected \<and>
     (\<forall>p \<in> set (sock_received s).
        well_behaved (guest_cid (cfg_vsock (config s))) (local_port (config s)) (host_port (config s)) p)"

definition arrived :: "Socket \<Rightarrow> bytes" where
  "arrived s = concat (map (carried (guest_cid (cfg_vsock (config s))) (local_port (config s)) (host_port (config s)))
     (sock_received s))"

definition sock_stream :: "Socket \<Rightarrow> bytes" where
  "sock_stream s = (case pending_data s of None \<Rightarrow> [] | Some data \<Rightarrow> data) @ arrived s"

text \<open>What reading keeps of a socket.\<close>

definition same_connection :: "Socket \<Rightarrow> Socket \<Rightarrow> bool" where
  "same_connection s s' \<longleftrightarrow> guest_cid (cfg_vsock (config s')) = guest_cid (cfg_vsock (config s)) \<and>
     local_port (config s') = local_port (config s) \<and> host_port (config s') = host_port (config s) \<and>
     processed_bytes s' = processed_bytes s \<and> sent_bytes s' = sent_bytes s"

lemma same_connection_trans: "same_connection s s' \<Longrightarrow> same_connection s' s'' \<Longrightarrow> same_connection s s''"
  by (simp add: same_connection_def)

lemma same_connection_arrived:
  "same_connection s s' \<Longrightarrow> sock_received s' = sock_received s \<Longrightarrow> arrived s' = arrived s"
  by (simp add: same_connection_def arrived_def)

lemma send_control_packet_Ok:
  assumes "vs_ok (cfg_vsock (config s))" "connection_state s = Connected" "opn \<noteq> Op_Rw"
  obtains s' p where "send_control_packet s opn = Ok s'" "vs_ok (cfg_vsock (config s'))"
    "connection_state s' = Connected" "same_connection s s'" "sock_received s' = sock_received s"
    "pending_data s' = pending_data s" "previous_processed_bytes s' = processed_bytes s"
    "sock_in_flight s' = lossy_send (sock_in_flight s) p" "get_op p = Ok opn" "get_fwd_cnt p = processed_bytes s"
    "get_buf_alloc p = STREAM_BUFFER_LENGTH"
proof -
  let ?v = "cfg_vsock (config s)"
  obtain p where p: "Packet_new_control (local_port (config s)) (host_port (config s)) opn = Ok p"
      "length p = HEADER_SIZE" "get_op p = Ok opn"
    by (rule Packet_new_control_Ok [OF assms(3), of "local_port (config s)" "host_port (config s)"])
  let ?p = "set_fwd_cnt (set_buf_alloc p STREAM_BUFFER_LENGTH) (processed_bytes s)"
  have l: "HEADER_SIZE \<le> length p" using p(2) by simp
  note c = credit_fields [OF l]
  have l2: "HEADER_SIZE \<le> length ?p" using l c(8) by simp
  obtain v' where v': "write_packet ?v ?p = Ok v'" "vs_ok v'" "guest_cid v' = guest_cid ?v"
      "vs_rx_queue v' = vs_rx_queue ?v" "vs_in_flight v' = lossy_send (vs_in_flight ?v) (stamp (guest_cid ?v) ?p)"
    by (rule write_packet_Ok [OF assms(1) l2]) (use c(8) p(2) in simp)
  have "send_control_packet s opn = Ok (with_vsock (s\<lparr>previous_processed_bytes := processed_bytes s\<rparr>) v')"
    using assms(2) p(1) v'(1) by (simp add: send_control_packet_def set_credit_info_def)
  then show ?thesis
    using assms(2) v' p(3) c stamp_fields [OF l2]
    by (intro that [of "with_vsock (s\<lparr>previous_processed_bytes := processed_bytes s\<rparr>) v'" "stamp (guest_cid ?v) ?p"])
      (simp_all add: with_vsock_def same_connection_def sock_received_def sock_in_flight_def vs_received_def)
qed

lemma scan_None:
  "scan matches cid ps = (None, u, rest) \<Longrightarrow> rest = [] \<and> (\<forall>p \<in> set ps. for_guest cid p \<longrightarrow> \<not> matches p)"
  by (induction ps arbitrary: u) (auto split: if_splits prod.splits)

lemma scan_Some:
  "scan matches cid ps = (Some p, u, rest) \<Longrightarrow>
     \<exists>pre. ps = pre @ p # rest \<and> for_guest cid p \<and> matches p \<and> (\<forall>x \<in> set pre. for_guest cid x \<longrightarrow> \<not> matches x)"
proof (induction ps arbitrary: u)
  case (Cons a ps)
  show ?case
  proof (cases "for_guest cid a \<and> matches a")
    case True
    with Cons.prems show ?thesis by (intro exI [of _ "[]"]) auto
  next
    case False
    then obtain u' where "scan matches cid ps = (Some p, u', rest)"
      using Cons.prems by (auto split: if_splits prod.splits)
    then obtain pre where "ps = pre @ p # rest" "for_guest cid p" "matches p"
        "\<forall>x \<in> set pre. for_guest cid x \<longrightarrow> \<not> matches x"
      using Cons.IH by blast
    with False show ?thesis by (intro exI [of _ "a # pre"]) auto
  qed
qed simp

lemma next_packet:
  assumes ok: "sock_ok s"
  obtains
    (none) v where "read_filtered_packet (of_connection (config s)) True (cfg_vsock (config s)) = Ok (None, v)"
      "sock_ok (with_vsock s v)" "same_connection s (with_vsock s v)" "arrived s = []" "arrived (with_vsock s v) = []"
  | (some) p v where "read_filtered_packet (of_connection (config s)) True (cfg_vsock (config s)) = Ok (Some p, v)"
      "sock_ok (with_vsock s v)" "same_connection s (with_vsock s v)"
      "length (sock_received (with_vsock s v)) < length (sock_received s)"
      "get_op p = Ok Op_CreditUpdate \<and> arrived s = arrived (with_vsock s v) \<or>
       get_op p = Ok Op_CreditRequest \<and> arrived s = arrived (with_vsock s v) \<or>
       get_op p = Ok Op_Rw \<and> get_payload p = Ok (drop HEADER_SIZE p) \<and>
         arrived s = drop HEADER_SIZE p @ arrived (with_vsock s v)"
proof -
  let ?v = "cfg_vsock (config s)" and ?lp = "local_port (config s)" and ?hp = "host_port (config s)"
  let ?cid = "guest_cid ?v"
  have vs: "vs_ok ?v" and wb: "\<forall>p \<in> set (vs_received ?v). well_behaved ?cid ?lp ?hp p"
    using ok by (simp_all add: sock_ok_def sock_received_def)
  obtain r u rest where sc: "scan (of_connection (config s)) ?cid (vs_received ?v) = (r, u, rest)"
    by (metis prod_cases3)
  obtain v where v: "read_filtered_packet (of_connection (config s)) True ?v = Ok (r, v)" "vs_ok v"
      "vs_received v = rest" "guest_cid v = ?cid"
    using read_filtered_packet_refines [OF vs sc] by blast
  have sm: "same_connection s (with_vsock s v)" using v(4) by (simp add: same_connection_def with_vsock_def)
  have cp: "conn_packet ?cid ?lp ?hp p \<longleftrightarrow> for_guest ?cid p \<and> of_connection (config s) p" for p
    by (simp add: conn_packet_def of_connection_def)
  have ar: "arrived (with_vsock s v) = concat (map (carried ?cid ?lp ?hp) rest)"
    using v(3,4) by (simp add: arrived_def sock_received_def with_vsock_def)
  show ?thesis
  proof (cases r)
    case None
    then have "rest = []" "\<forall>p \<in> set (vs_received ?v). carried ?cid ?lp ?hp p = []"
      using scan_None [of "of_connection (config s)" ?cid "vs_received ?v"] sc by (auto simp: carried_def cp)
    then show ?thesis
      using none [of v] v sm ok ar None
      by (simp add: sock_ok_def sock_received_def with_vsock_def arrived_def)
  next
    case (Some p)
    then obtain pre where pre: "vs_received ?v = pre @ p # rest" "for_guest ?cid p" "of_connection (config s) p"
        "\<forall>x \<in> set pre. for_guest ?cid x \<longrightarrow> \<not> of_connection (config s) x"
      using scan_Some [of "of_connection (config s)" ?cid "vs_received ?v" p u rest] sc by blast
    have "concat (map (carried ?cid ?lp ?hp) pre) = []"
      using pre(4) by (auto simp: carried_def cp)
    then have ap: "arrived s = carried ?cid ?lp ?hp p @ arrived (with_vsock s v)"
      using pre(1) ar by (simp add: arrived_def sock_received_def)
    have p: "conn_packet ?cid ?lp ?hp p" "well_behaved ?cid ?lp ?hp p" "HEADER_SIZE \<le> length p"
      using pre wb by (auto simp: cp for_guest_def)
    have "get_op p = Ok Op_CreditUpdate \<and> arrived s = arrived (with_vsock s v) \<or>
       get_op p = Ok Op_CreditRequest \<and> arrived s = arrived (with_vsock s v) \<or>
       get_op p = Ok Op_Rw \<and> get_payload p = Ok (drop HEADER_SIZE p) \<and>
         arrived s = drop HEADER_SIZE p @ arrived (with_vsock s v)"
      using p ap get_payload_drop [OF p(3)] by (auto simp: well_behaved_def carried_def)
    moreover have "sock_ok (with_vsock s v)"
      using ok v pre(1) wb by (auto simp: sock_ok_def sock_received_def with_vsock_def)
    ultimately show ?thesis
      using some [of p v] v sm pre(1) Some by (simp add: sock_received_def with_vsock_def)
  qed
qed

lemma sock_ok_credit [simp]:
  "sock_ok (s\<lparr>peer_buffer_size := a, peer_processed_bytes := f\<rparr>) = sock_ok s"
  "arrived (s\<lparr>peer_buffer_size := a, peer_processed_bytes := f\<rparr>) = arrived s"
  "sock_received (s\<lparr>peer_buffer_size := a, peer_processed_bytes := f\<rparr>) = sock_received s"
  "same_connection s0 (s\<lparr>peer_buffer_size := a, peer_processed_bytes := f\<rparr>) = same_connection s0 s"
  by (simp_all add: sock_ok_def arrived_def sock_received_def same_connection_def)

lemma pending_with_vsock [simp]: "pending_data (with_vsock s v) = pending_data s"
  by (simp add: with_vsock_def)

lemma credit_update_keeps_ok:
  assumes "sock_ok s"
  obtains s' where "send_control_packet s Op_CreditUpdate = Ok s'" "sock_ok s'" "same_connection s s'"
    "arrived s' = arrived s" "sock_received s' = sock_received s" "pending_data s' = pending_data s"
proof -
  have "vs_ok (cfg_vsock (config s))" "connection_state s = Connected" using assms by (simp_all add: sock_ok_def)
  then obtain s' p where s': "send_control_packet s Op_CreditUpdate = Ok s'" "vs_ok (cfg_vsock (config s'))"
      "connection_state s' = Connected" "same_connection s s'" "sock_received s' = sock_received s"
      "pending_data s' = pending_data s"
    by (rule send_control_packet_Ok [where opn = Op_CreditUpdate]) auto
  then have "sock_ok s'" using assms by (simp add: sock_ok_def same_connection_def)
  then show ?thesis using that s' same_connection_arrived by blast
qed

lemma read_data_loop_refines:
  assumes "sock_ok s"
  shows "\<exists>r s'. read_data_loop s = Ok (r, s') \<and> sock_ok s' \<and> same_connection s s' \<and>
    pending_data s' = pending_data s \<and>
    (case r of None \<Rightarrow> arrived s = [] \<and> arrived s' = []
      | Some d \<Rightarrow> arrived s = d @ arrived s' \<and> length (sock_received s') < length (sock_received s))"
  using assms
proof (induction "length (sock_received s)" arbitrary: s rule: less_induct)
  case less
  from less.prems show ?case
  proof (cases rule: next_packet)
    case (none v)
    then show ?thesis by (simp add: read_data_loop.simps [of s])
  next
    case (some p v)
    let ?s = "(with_vsock s v)\<lparr>peer_buffer_size := get_buf_alloc p, peer_processed_bytes := get_fwd_cnt p\<rparr>"
    have again: ?thesis if "read_data_loop s = read_data_loop s1" "sock_ok s1" "same_connection ?s s1"
        "arrived s1 = arrived s" "sock_received s1 = sock_received ?s" "pending_data s1 = pending_data s" for s1
    proof -
      have sm: "same_connection s s1" using same_connection_trans [of s ?s s1] that(3) some(3) by simp
      have l: "length (sock_received s1) < length (sock_received s)" using that(5) some(4) by simp
      from less.hyps [OF l that(2)] show ?thesis
        using that l same_connection_trans [OF sm] by (fastforce split: option.splits)
    qed
    have ok: "sock_ok ?s" using some(2) by simp
    consider "get_op p = Ok Op_CreditUpdate" "arrived s = arrived ?s"
      | "get_op p = Ok Op_CreditRequest" "arrived s = arrived ?s"
      | "get_op p = Ok Op_Rw" "get_payload p = Ok (drop HEADER_SIZE p)" "arrived s = drop HEADER_SIZE p @ arrived ?s"
      using some(5) by auto
    then show ?thesis
    proof cases
      case 1
      show ?thesis
        by (rule again [of ?s]) (use 1 some ok in \<open>simp_all add: read_data_loop.simps [of s] same_connection_def\<close>)
    next
      case 2
      obtain s1 where s1: "send_control_packet ?s Op_CreditUpdate = Ok s1" "sock_ok s1" "same_connection ?s s1"
          "arrived s1 = arrived ?s" "sock_received s1 = sock_received ?s" "pending_data s1 = pending_data ?s"
        by (rule credit_update_keeps_ok [OF ok])
      show ?thesis
        by (rule again [of s1]) (use 2 some s1 in \<open>simp_all add: read_data_loop.simps [of s] Let_def\<close>)
    next
      case 3
      then show ?thesis using some ok by (simp add: read_data_loop.simps [of s] Let_def)
    qed
  qed
qed

definition sock_queued :: "Socket \<Rightarrow> nat" where
  "sock_queued s = length (sock_received s) + (if pending_data s = None then 0 else 1)"

lemma sock_ok_pending [simp]:
  "sock_ok (s\<lparr>pending_data := d\<rparr>) = sock_ok s" "arrived (s\<lparr>pending_data := d\<rparr>) = arrived s"
  "sock_received (s\<lparr>pending_data := d\<rparr>) = sock_received s"
  "same_connection s0 (s\<lparr>pending_data := d\<rparr>) = same_connection s0 s"
  by (simp_all add: sock_ok_def arrived_def sock_received_def same_connection_def)

lemma sock_read_partial_step:
  assumes ok: "sock_ok s \<and> same_connection s0 s" and k: "0 < k"
  shows "\<exists>r s' bs. sock_read_partial s k = Ok (r, s') \<and> (sock_ok s' \<and> same_connection s0 s') \<and>
    bs = (case r of None \<Rightarrow> [] | Some bs \<Rightarrow> bs) \<and> length bs \<le> k \<and> sock_stream s = bs @ sock_stream s' \<and>
    (sock_stream s \<noteq> [] \<longrightarrow> bs = [] \<longrightarrow> sock_queued s' < sock_queued s)"
proof (cases "pending_data s")
  case (Some data)
  then show ?thesis
    using ok k by (cases "drop k data = []")
      (auto simp: sock_read_partial_def take_partial_def sock_stream_def sock_queued_def append_eq_conv_conj)
next
  case None
  obtain r s' where r: "read_data_loop s = Ok (r, s')" "sock_ok s'" "same_connection s s'"
      "pending_data s' = None"
      "case r of None \<Rightarrow> arrived s = [] \<and> arrived s' = []
        | Some d \<Rightarrow> arrived s = d @ arrived s' \<and> length (sock_received s') < length (sock_received s)"
    using read_data_loop_refines [of s] ok None by auto
  have rd: "read_data s = Ok (r, s')" using r(1) ok by (simp add: read_data_def sock_ok_def)
  have sm: "same_connection s0 s'" using same_connection_trans ok r(3) by blast
  show ?thesis
  proof (cases r)
    case None
    then show ?thesis
      using \<open>pending_data s = None\<close> rd r sm by (simp add: sock_read_partial_def sock_stream_def)
  next
    case (Some d)
    then show ?thesis
      using \<open>pending_data s = None\<close> rd r sm k by (cases "drop k d = []")
        (auto simp: sock_read_partial_def take_partial_def sock_stream_def sock_queued_def append_eq_conv_conj)
  qed
qed

interpretation sock: partial_reader "\<lambda>s. sock_ok s \<and> same_connection s0 s" sock_stream sock_queued sock_read_partial
  for s0
  by unfold_locales (use sock_read_partial_step in blast)

lemma sock_read_exact_returns:
  assumes ok: "sock_ok s" and len: "len \<le> length (sock_stream s)"
  shows "\<exists>s'. sock_read_exact s len = Some (Ok (take len (sock_stream s), s')) \<and> sock_ok s' \<and>
    sock_stream s' = drop len (sock_stream s) \<and>
    processed_bytes s' = processed_bytes s + word_of_nat len \<and> sent_bytes s' = sent_bytes s"
proof -
  obtain s1 where s1: "poll_exact sock_read_partial s len [] = Some (Ok (take len (sock_stream s), s1))"
      "sock_ok s1" "same_connection s s1" "sock_stream s1 = drop len (sock_stream s)"
    using sock.poll_returns [of s s "[]" len] ok len by (auto simp: same_connection_def)
  let ?s = "s1\<lparr>processed_bytes := processed_bytes s + word_of_nat len\<rparr>"
  have p: "processed_bytes s1 = processed_bytes s" "sent_bytes s1 = sent_bytes s"
    using s1(3) by (simp_all add: same_connection_def)
  have ok': "sock_ok ?s" and st: "sock_stream ?s = drop len (sock_stream s)"
    using s1(2,4) by (simp_all add: sock_ok_def sock_stream_def arrived_def sock_received_def)
  obtain s2 where s2: "send_control_packet ?s Op_CreditUpdate = Ok s2" "sock_ok s2" "same_connection ?s s2"
      "arrived s2 = arrived ?s" "pending_data s2 = pending_data ?s"
    by (rule credit_update_keeps_ok [OF ok'])
  have st2: "sock_stream s2 = drop len (sock_stream s)" using s2(4,5) st by (simp add: sock_stream_def)
  have lt: "length (take len (sock_stream s)) = len" using len by simp
  show ?thesis
  proof (cases "must_send_credit_update ?s")
    case True
    then have "sock_read_exact s len = Some (Ok (take len (sock_stream s), s2))"
      using s1(1) s2(1) p lt by (simp add: sock_read_exact_def Let_def)
    then show ?thesis using s2 st2 p by (simp add: same_connection_def)
  next
    case False
    then have "sock_read_exact s len = Some (Ok (take len (sock_stream s), ?s))"
      using s1(1) p lt by (simp add: sock_read_exact_def Let_def)
    then show ?thesis using ok' st p by simp
  qed
qed

lemma sock_read_exact_waits:
  assumes "sock_ok s" "length (sock_stream s) < len"
  shows "sock_read_exact s len = None"
  using sock.poll_waits [of s len "[]" _ s] assms
  by (cases "poll_exact sock_read_partial s len []") (auto simp: sock_read_exact_def same_connection_def)

subsection \<open>Writing\<close>

text \<open>The bytes that are on their way according to the counters.\<close>

definition outstanding :: "Socket \<Rightarrow> nat" where
  "outstanding s = unat (sent_bytes s - peer_processed_bytes s)"

definition carries :: "Socket \<Rightarrow> bytes \<Rightarrow> Packet \<Rightarrow> bool" where
  "carries s data p \<longleftrightarrow> Packet_new p = Ok p \<and> get_op p = Ok Op_Rw \<and> get_payload p = Ok data \<and>
     get_src_cid p = guest_cid (cfg_vsock (config s)) \<and> get_dst_cid p = HOST_CID \<and>
     get_src_port p = local_port (config s) \<and> get_dst_port p = host_port (config s) \<and>
     get_buf_alloc p = STREAM_BUFFER_LENGTH \<and> get_fwd_cnt p = processed_bytes s"

definition can_write :: "Socket \<Rightarrow> bool" where
  "can_write s \<longleftrightarrow> vs_ok (cfg_vsock (config s)) \<and> connection_state s = Connected"

lemma data_packet_sent:
  assumes "data \<noteq> []" "length data \<le> 4052"
  obtains p where "Packet_new_data data lp hp = Ok p" "HEADER_SIZE \<le> length p" "length p \<le> DATA_BUFFER_SIZE"
    "\<And>s. local_port (config s) = lp \<Longrightarrow> host_port (config s) = hp \<Longrightarrow>
       carries s data (stamp (guest_cid (cfg_vsock (config s)))
         (set_fwd_cnt (set_buf_alloc p STREAM_BUFFER_LENGTH) (processed_bytes s)))"
proof -
  obtain p where p: "Packet_new_data data lp hp = Ok p" "length p = 44 + length data"
      "get_src_port p = lp" "get_dst_port p = hp" "get_op p = Ok Op_Rw" "get_type p = Ok ()"
      "get_len p = word_of_nat (length data)" "drop 44 p = data"
    by (rule Packet_new_data_Ok [OF assms, of lp hp])
  have l: "44 \<le> length p" using p(2) by simp
  have u: "unat (word_of_nat (length data) :: u32) = length data"
    using assms(2) by (intro unat_u32_of_nat) simp
  have "carries s data (stamp (guest_cid (cfg_vsock (config s)))
         (set_fwd_cnt (set_buf_alloc p STREAM_BUFFER_LENGTH) (processed_bytes s)))"
    if "local_port (config s) = lp" "host_port (config s) = hp" for s
  proof -
    let ?c = "set_fwd_cnt (set_buf_alloc p STREAM_BUFFER_LENGTH) (processed_bytes s)"
    have lc: "44 \<le> length ?c" using l credit_fields(8) [OF l] by simp
    have "get_payload (stamp (guest_cid (cfg_vsock (config s))) ?c) = Ok data"
      using p u credit_fields [OF l] stamp_fields [OF lc] by (subst get_payload_drop) auto
    then show ?thesis
      using that p l credit_fields [OF l] stamp_fields [OF lc] by (simp add: carries_def Packet_new_def)
  qed
  then show ?thesis using that p assms(2) by simp
qed

lemma credit_check:
  assumes "outstanding s \<le> unat (peer_buffer_size s)" "len < 2 ^ 32"
  shows "word_of_nat len > peer_buffer_size s - (sent_bytes s - peer_processed_bytes s) \<longleftrightarrow>
    unat (peer_buffer_size s) < outstanding s + len"
proof -
  have "sent_bytes s - peer_processed_bytes s \<le> peer_buffer_size s"
    using assms(1) by (simp add: outstanding_def word_le_nat_alt)
  then have "unat (peer_buffer_size s - (sent_bytes s - peer_processed_bytes s)) =
      unat (peer_buffer_size s) - outstanding s"
    by (simp add: outstanding_def unat_sub)
  then show ?thesis using assms by (auto simp: word_less_nat_alt unat_u32_of_nat)
qed

lemma unat_add_nat: "unat x + k < 2 ^ 32 \<Longrightarrow> unat (x + word_of_nat k :: u32) = unat x + k"
  by (simp add: unat_word_ariths unat_u32_of_nat)

lemma outstanding_sent:
  assumes "outstanding s + len < 2 ^ 32"
  shows "unat (sent_bytes s + word_of_nat len - peer_processed_bytes s) = outstanding s + len"
proof -
  have "sent_bytes s + word_of_nat len - peer_processed_bytes s =
      (sent_bytes s - peer_processed_bytes s) + word_of_nat len" by (simp add: algebra_simps)
  then show ?thesis
    using unat_add_nat [of "sent_bytes s - peer_processed_bytes s" len] assms unfolding outstanding_def by metis
qed

lemma send_data_packet_accepted:
  assumes ok: "can_write s" and d: "data \<noteq> []" "length data \<le> 4052"
    and credit: "\<not> word_of_nat (length data) > peer_buffer_size s - (sent_bytes s - peer_processed_bytes s)"
  obtains s' p where "send_data_packet s data = Ok s'" "can_write s'"
    "sent_bytes s' = sent_bytes s + word_of_nat (length data)"
    "peer_processed_bytes s' = peer_processed_bytes s" "peer_buffer_size s' = peer_buffer_size s"
    "processed_bytes s' = processed_bytes s" "config s' = (config s)\<lparr>cfg_vsock := cfg_vsock (config s')\<rparr>"
    "guest_cid (cfg_vsock (config s')) = guest_cid (cfg_vsock (config s))"
    "sock_received s' = sock_received s" "sock_in_flight s' = lossy_send (sock_in_flight s) p" "carries s data p"
proof -
  let ?v = "cfg_vsock (config s)"
  obtain p where p: "Packet_new_data data (local_port (config s)) (host_port (config s)) = Ok p" "44 \<le> length p"
      "length p \<le> 4096"
      "carries s data (stamp (guest_cid ?v) (set_fwd_cnt (set_buf_alloc p STREAM_BUFFER_LENGTH) (processed_bytes s)))"
    by (rule data_packet_sent [OF d, of "local_port (config s)" "host_port (config s)"]) auto
  let ?p = "set_fwd_cnt (set_buf_alloc p STREAM_BUFFER_LENGTH) (processed_bytes s)"
  obtain v' where v': "write_packet ?v ?p = Ok v'" "vs_ok v'" "guest_cid v' = guest_cid ?v"
      "vs_rx_queue v' = vs_rx_queue ?v" "vs_in_flight v' = lossy_send (vs_in_flight ?v) (stamp (guest_cid ?v) ?p)"
    using write_packet_Ok [of ?v ?p] ok p(2,3) credit_fields(8) [OF p(2), of STREAM_BUFFER_LENGTH "processed_bytes s"]
    by (auto simp: can_write_def)
  let ?s = "with_vsock (s\<lparr>sent_bytes := sent_bytes s + word_of_nat (length data),
    previous_processed_bytes := processed_bytes s\<rparr>) v'"
  have "send_data_packet s data = Ok ?s"
    using credit ok d(2) p(1) v'(1) by (simp add: send_data_packet_def set_credit_info_def can_write_def Let_def)
  then show ?thesis
    using that ok v' p(4)
    by (simp add: with_vsock_def can_write_def sock_received_def sock_in_flight_def vs_received_def)
qed

lemma send_data_packet_Ok:
  assumes ok: "can_write s" and d: "data \<noteq> []" "length data \<le> 4052"
    and credit: "outstanding s + length data \<le> unat (peer_buffer_size s)"
  obtains s' p where "send_data_packet s data = Ok s'" "can_write s'"
    "outstanding s' = outstanding s + length data" "peer_buffer_size s' = peer_buffer_size s"
    "sent_bytes s' = sent_bytes s + word_of_nat (length data)"
    "processed_bytes s' = processed_bytes s" "config s' = (config s)\<lparr>cfg_vsock := cfg_vsock (config s')\<rparr>"
    "guest_cid (cfg_vsock (config s')) = guest_cid (cfg_vsock (config s))"
    "sock_in_flight s' = lossy_send (sock_in_flight s) p" "carries s data p"
proof -
  have "\<not> word_of_nat (length data) > peer_buffer_size s - (sent_bytes s - peer_processed_bytes s)"
    using credit_check [of s "length data"] credit d(2) by simp
  then obtain s' p where s': "send_data_packet s data = Ok s'" "can_write s'"
      "sent_bytes s' = sent_bytes s + word_of_nat (length data)"
      "peer_processed_bytes s' = peer_processed_bytes s" "peer_buffer_size s' = peer_buffer_size s"
      "processed_bytes s' = processed_bytes s" "config s' = (config s)\<lparr>cfg_vsock := cfg_vsock (config s')\<rparr>"
      "guest_cid (cfg_vsock (config s')) = guest_cid (cfg_vsock (config s))"
      "sock_received s' = sock_received s" "sock_in_flight s' = lossy_send (sock_in_flight s) p" "carries s data p"
    by (rule send_data_packet_accepted [OF ok d])
  have "outstanding s + length data < 2 ^ 32"
    using credit unsigned_less [of "peer_buffer_size s", where ?'a = nat] by simp
  then have "outstanding s' = outstanding s + length data"
    using outstanding_sent [of s "length data"] s'(3,4) by (simp add: outstanding_def)
  then show ?thesis by (rule that [OF s'(1,2) _ s'(5,3,6,7,8,10,11)])
qed

lemma send_data_packet_full:
  assumes "can_write s" "length data \<le> 4052" "outstanding s \<le> unat (peer_buffer_size s)"
    "unat (peer_buffer_size s) < outstanding s + length data"
  shows "send_data_packet s data = Error [''peer's stream buffer is full'']"
  using assms credit_check [of s "length data"] by (simp add: send_data_packet_def can_write_def Let_def)

lemma carries_same:
  "guest_cid (cfg_vsock (config s')) = guest_cid (cfg_vsock (config s)) \<Longrightarrow>
   config s' = (config s)\<lparr>cfg_vsock := v\<rparr> \<Longrightarrow> processed_bytes s' = processed_bytes s \<Longrightarrow> carries s' = carries s"
  by (simp add: carries_def fun_eq_iff)

lemma send_all_packets:
  assumes "can_write s" "\<forall>c \<in> set cs. c \<noteq> [] \<and> length c \<le> 4052"
    and "outstanding s + length (concat cs) \<le> unat (peer_buffer_size s)"
  shows "\<exists>s' ps. try_fold send_data_packet s cs = Ok s' \<and> can_write s' \<and>
    outstanding s' = outstanding s + length (concat cs) \<and> peer_buffer_size s' = peer_buffer_size s \<and>
    sent_bytes s' = sent_bytes s + word_of_nat (length (concat cs)) \<and>
    list_all2 (carries s) cs ps \<and> sock_in_flight s' = foldl lossy_send (sock_in_flight s) ps"
  using assms
proof (induction cs arbitrary: s)
  case (Cons c cs)
  obtain s1 p where s1: "send_data_packet s c = Ok s1" "can_write s1"
      "outstanding s1 = outstanding s + length c" "peer_buffer_size s1 = peer_buffer_size s"
      "sent_bytes s1 = sent_bytes s + word_of_nat (length c)"
      "processed_bytes s1 = processed_bytes s" "config s1 = (config s)\<lparr>cfg_vsock := cfg_vsock (config s1)\<rparr>"
      "guest_cid (cfg_vsock (config s1)) = guest_cid (cfg_vsock (config s))"
      "sock_in_flight s1 = lossy_send (sock_in_flight s) p" "carries s c p"
    by (rule send_data_packet_Ok [OF Cons.prems(1), of c]) (use Cons.prems(2,3) in auto)
  obtain s' ps where "try_fold send_data_packet s1 cs = Ok s'" "can_write s'"
      "outstanding s' = outstanding s1 + length (concat cs)" "peer_buffer_size s' = peer_buffer_size s1"
      "sent_bytes s' = sent_bytes s1 + word_of_nat (length (concat cs))"
      "list_all2 (carries s1) cs ps" "sock_in_flight s' = foldl lossy_send (sock_in_flight s1) ps"
    using Cons.IH [OF s1(2)] Cons.prems(2,3) s1(3,4) by auto
  then show ?case
    using s1 carries_same [OF s1(8,7,6)]
    by (intro exI [of _ s'] exI [of _ "p # ps"]) (simp add: algebra_simps)
qed (auto simp: can_write_def)

lemma send_all_packets_full:
  assumes "can_write s" "\<forall>c \<in> set cs. c \<noteq> [] \<and> length c \<le> 4052" "outstanding s \<le> unat (peer_buffer_size s)"
    and "unat (peer_buffer_size s) < outstanding s + length (concat cs)"
  shows "try_fold send_data_packet s cs = Error [''peer's stream buffer is full'']"
  using assms
proof (induction cs arbitrary: s)
  case (Cons c cs)
  show ?case
  proof (cases "outstanding s + length c \<le> unat (peer_buffer_size s)")
    case True
    obtain s1 where "send_data_packet s c = Ok s1" "can_write s1"
        "outstanding s1 = outstanding s + length c" "peer_buffer_size s1 = peer_buffer_size s"
      by (rule send_data_packet_Ok [OF Cons.prems(1), of c]) (use Cons.prems(2) True in auto)
    then show ?thesis using Cons.IH [of s1] Cons.prems(2,4) True by simp
  next
    case False
    then show ?thesis using send_data_packet_full [of s c] Cons.prems by simp
  qed
qed simp

lemma foldl_lossy_room:
  "length sent + length ps \<le> 256 \<Longrightarrow> foldl lossy_send sent ps = sent @ ps"
  by (induction ps arbitrary: sent) (simp_all add: lossy_send_def)

lemma foldl_lossy_full: "256 \<le> length sent \<Longrightarrow> foldl lossy_send sent ps = sent"
  by (induction ps) (simp_all add: lossy_send_def)

lemma chunk_sizes: "\<forall>c \<in> set (chunks 4052 data). c \<noteq> [] \<and> length c \<le> 4052"
  using chunks_lengths [of 4052 _ data] by auto

section \<open>Making connections\<close>

lemma connect_loop_found:
  assumes "vs_ok (cfg_vsock cfg)"
    and "scan (of_connection cfg) (guest_cid (cfg_vsock cfg)) (vs_received (cfg_vsock cfg)) = (Some p, u, rest)"
  shows "\<exists>v. vs_ok v \<and> vs_received v = rest \<and> guest_cid v = guest_cid (cfg_vsock cfg) \<and>
    connect_loop cfg = Some (and_then (get_op p) (\<lambda>opn.
      if opn = Op_Response then Ok (Socket_new (cfg\<lparr>cfg_vsock := v\<rparr>) (get_buf_alloc p))
      else Error [''invalid response to connection request'']))"
  using read_filtered_packet_refines [OF assms] by (auto simp: connect_loop.simps [of cfg])

lemma accept_found:
  assumes "vs_ok (cfg_vsock cfg)"
    and "scan (\<lambda>p. get_dst_port p = local_port cfg) (guest_cid (cfg_vsock cfg)) (vs_received (cfg_vsock cfg)) =
      (Some p, u, rest)"
  shows "\<exists>v. vs_ok v \<and> vs_received v = rest \<and> guest_cid v = guest_cid (cfg_vsock cfg) \<and>
    vs_in_flight v = foldl lossy_send (vs_in_flight (cfg_vsock cfg)) (map (rst_for (guest_cid (cfg_vsock cfg))) u) \<and>
    accept cfg = Some (and_then (get_op p) (\<lambda>opn. if opn = Op_Request
      then send_response (cfg\<lparr>cfg_vsock := v, host_port := get_src_port p\<rparr>) (get_buf_alloc p)
      else Error [''invalid connection request'']))"
  using read_filtered_packet_refines [OF assms] by (auto simp: accept.simps [of cfg])

lemma send_response_Ok:
  assumes "vs_ok (cfg_vsock cfg)"
  obtains v r where "send_response cfg sz = Ok (Socket_new (cfg\<lparr>cfg_vsock := v\<rparr>) sz)" "vs_ok v"
    "vs_received v = vs_received (cfg_vsock cfg)" "guest_cid v = guest_cid (cfg_vsock cfg)"
    "vs_in_flight v = lossy_send (vs_in_flight (cfg_vsock cfg)) r" "get_op r = Ok Op_Response"
    "get_dst_port r = host_port cfg" "get_src_port r = local_port cfg" "get_buf_alloc r = STREAM_BUFFER_LENGTH"
proof -
  obtain p where p: "Packet_new_control (local_port cfg) (host_port cfg) Op_Response = Ok p" "length p = HEADER_SIZE"
      "get_src_port p = local_port cfg" "get_dst_port p = host_port cfg" "get_op p = Ok Op_Response"
    by (rule Packet_new_control_Ok [of Op_Response "local_port cfg" "host_port cfg"]) auto
  let ?p = "set_fwd_cnt (set_buf_alloc p STREAM_BUFFER_LENGTH) 0"
  have l: "HEADER_SIZE \<le> length p" "HEADER_SIZE \<le> length ?p" "length ?p \<le> DATA_BUFFER_SIZE"
    using p(2) credit_fields(8) [of p STREAM_BUFFER_LENGTH 0] by simp_all
  obtain v where v: "write_packet (cfg_vsock cfg) ?p = Ok v" "vs_ok v" "guest_cid v = guest_cid (cfg_vsock cfg)"
      "vs_rx_queue v = vs_rx_queue (cfg_vsock cfg)"
      "vs_in_flight v = lossy_send (vs_in_flight (cfg_vsock cfg)) (stamp (guest_cid (cfg_vsock cfg)) ?p)"
    by (rule write_packet_Ok [OF assms l(2,3)])
  show ?thesis
    by (rule that [of v "stamp (guest_cid (cfg_vsock cfg)) ?p"])
      (use p v credit_fields [OF l(1)] stamp_fields [OF l(2)] in
        \<open>simp_all add: send_response_def vs_received_def\<close>)
qed

lemma connect_establishes:
  assumes "vs_ok v" "cfg = SocketConnector_new v hp lp"
    and "scan (of_connection cfg) (guest_cid v) (vs_received v) = (Some p, u, rest)" "get_op p = Ok Op_Response"
  shows "\<exists>s. connect cfg = Some (Ok s) \<and> can_write s \<and> outstanding s = 0 \<and> peer_buffer_size s = get_buf_alloc p \<and>
    local_port (config s) = lp \<and> host_port (config s) = hp \<and> sock_received s = rest"
proof -
  obtain q where q: "Packet_new_control lp hp Op_Request = Ok q" "length q = HEADER_SIZE"
    by (rule Packet_new_control_Ok [of Op_Request lp hp]) auto
  let ?q = "set_fwd_cnt (set_buf_alloc q STREAM_BUFFER_LENGTH) 0"
  have l: "HEADER_SIZE \<le> length ?q" "length ?q \<le> DATA_BUFFER_SIZE"
    using q(2) credit_fields(8) [of q STREAM_BUFFER_LENGTH 0] by simp_all
  obtain v1 where v1: "write_packet v ?q = Ok v1" "vs_ok v1" "guest_cid v1 = guest_cid v"
      "vs_rx_queue v1 = vs_rx_queue v"
    by (rule write_packet_Ok [OF assms(1) l])
  let ?cfg = "cfg\<lparr>cfg_vsock := v1\<rparr>"
  have "of_connection ?cfg = of_connection cfg" by (simp add: of_connection_def fun_eq_iff)
  then obtain v2 where "vs_ok v2" "vs_received v2 = rest"
      "connect_loop ?cfg = Some (Ok (Socket_new (?cfg\<lparr>cfg_vsock := v2\<rparr>) (get_buf_alloc p)))"
    using connect_loop_found [of ?cfg p u rest] v1 assms(3,4) by (auto simp: vs_received_def)
  then show ?thesis
    using assms(2) q(1) v1(1)
    by (simp add: connect_def SocketConnector_new_def Socket_new_def can_write_def outstanding_def sock_received_def)
qed

lemma accept_waits:
  assumes "accept cfg = Some y" "vs_ok (cfg_vsock cfg)"
  shows "\<exists>p \<in> set (vs_received (cfg_vsock cfg)). for_guest (guest_cid (cfg_vsock cfg)) p \<and> get_dst_port p = local_port cfg"
  using assms
proof (induction cfg y rule: accept.raw_induct [rotated 1, consumes 1])
  case (1 loop cfg y)
  let ?v = "cfg_vsock cfg" and ?m = "\<lambda>p. get_dst_port p = local_port cfg"
  obtain r u rest where sc: "scan ?m (guest_cid ?v) (vs_received ?v) = (r, u, rest)" by (metis prod_cases3)
  show ?case
  proof (cases r)
    case (Some p)
    then show ?thesis using scan_Some [of ?m _ _ p u rest] sc by fastforce
  next
    case None
    obtain v where v: "read_filtered_packet ?m True ?v = Ok (None, v)" "vs_ok v" "vs_received v = rest"
      using read_filtered_packet_refines [OF 1(3) sc] None by blast
    have "rest = []" using scan_None sc None by blast
    moreover have "loop (cfg\<lparr>cfg_vsock := v\<rparr>) = Some y" using 1(2) v(1) by simp
    ultimately show ?thesis using 1(1) [of "cfg\<lparr>cfg_vsock := v\<rparr>" y] v by simp
  qed
qed

section \<open>Examples\<close>

text \<open>Connected sockets over drivers with given queues: the guest's identifier is 2, the ports are 7 and 9.\<close>

definition demo_socket :: "VSock \<Rightarrow> u32 \<Rightarrow> Socket" where
  "demo_socket v peer_size = Socket_new \<lparr>cfg_vsock = v, local_port = 7, host_port = 9\<rparr> peer_size"

lemma demo_socket_simps [simp]:
  "config (demo_socket v n) = \<lparr>cfg_vsock = v, local_port = 7, host_port = 9\<rparr>"
  "peer_buffer_size (demo_socket v n) = n" "outstanding (demo_socket v n) = 0"
  "pending_data (demo_socket v n) = None" "connection_state (demo_socket v n) = Connected"
  by (simp_all add: demo_socket_def Socket_new_def outstanding_def)

lemma demo_can_write: "vs_ok v \<Longrightarrow> can_write (demo_socket v n)"
  by (simp add: can_write_def)

lemma vsock_idle: "\<exists>v. vs_ok v \<and> vs_received v = [] \<and> vs_in_flight v = [] \<and> guest_cid v = 2"
  using vsock_with_input [of "[]" 2] by simp

lemma vsock_with_output:
  assumes "k \<le> 256"
  shows "\<exists>v. vs_ok v \<and> length (vs_in_flight v) = k"
  using assms
proof (induction k)
  case 0
  then show ?case using vsock_idle by force
next
  case (Suc k)
  then obtain v where v: "vs_ok v" "length (vs_in_flight v) = k" by auto
  then obtain d where "tx_ok 256 4096 d" "tx_content 256 4096 d = vs_in_flight v @ [[]]"
    using write_buffer_send [of 256 4096 "vs_tx_queue v" "[]"] Suc.prems by (auto simp: vs_ok_def vs_in_flight_def)
  then have "vs_ok (v\<lparr>vs_tx_queue := d\<rparr>) \<and> length (vs_in_flight (v\<lparr>vs_tx_queue := d\<rparr>)) = Suc k"
    using v by (simp add: vs_ok_def vs_in_flight_def)
  then show ?case by blast
qed

text \<open>A packet of the peer with three bytes.\<close>

lemma peer_packet:
  "\<exists>p. length p \<le> 4096 \<and> well_behaved 2 7 9 p \<and> carried 2 7 9 p = [1, 2, 3]"
proof -
  obtain p where p: "Packet_new_data [1, 2, 3] 9 7 = Ok p" "length p = 44 + length [1, 2, 3 :: u8]"
      "get_src_port p = 9" "get_dst_port p = 7" "get_op p = Ok Op_Rw" "get_type p = Ok ()"
      "get_len p = word_of_nat (length [1, 2, 3 :: u8])" "drop 44 p = [1, 2, 3]"
    by (rule Packet_new_data_Ok [of "[1, 2, 3]" 9 7]) auto
  have l: "44 \<le> length p" using p(2) by simp
  have "conn_packet 2 7 9 (stamp 2 p)"
    using p stamp_fields [OF l] by (simp add: conn_packet_def for_guest_def)
  then show ?thesis
    using p stamp_fields [OF l] by (intro exI [of _ "stamp 2 p"]) (simp add: well_behaved_def carried_def)
qed

lemma demo_received:
  "\<exists>s. sock_ok s \<and> sock_stream s = [1, 2, 3] \<and> processed_bytes s = 0"
proof -
  obtain p where p: "length p \<le> 4096" "well_behaved 2 7 9 p" "carried 2 7 9 p = [1, 2, 3]" using peer_packet by blast
  obtain v where "vs_ok v" "vs_received v = [p]" "guest_cid v = 2" using vsock_with_input [of "[p]" 2] p(1) by auto
  then have "sock_ok (demo_socket v 100) \<and> sock_stream (demo_socket v 100) = [1, 2, 3] \<and>
      processed_bytes (demo_socket v 100) = 0"
    using p by (simp add: sock_ok_def sock_stream_def arrived_def sock_received_def)
      (simp add: demo_socket_def Socket_new_def)
  then show ?thesis by blast
qed

lemma demo_request:
  "\<exists>v p. vs_ok v \<and> vs_received v = [p] \<and> vs_in_flight v = [] \<and> guest_cid v = 2 \<and> for_guest 2 p \<and>
     get_dst_port p = 7 \<and> get_src_port p = 9 \<and> get_op p = Ok Op_Request"
proof -
  obtain p where p: "length p = 44" "get_src_port p = 9" "get_dst_port p = 7" "get_op p = Ok Op_Request"
      "get_type p = Ok ()" "get_len p = 0"
    using Packet_new_control_Ok [of Op_Request 9 7] by auto
  let ?p = "stamp 2 p"
  have q: "length ?p = 44" "get_src_port ?p = 9" "get_dst_port ?p = 7" "get_op ?p = Ok Op_Request" "for_guest 2 ?p"
    using p stamp_fields [of p 2] by (simp_all add: for_guest_def)
  obtain v where "vs_ok v" "vs_received v = [?p]" "vs_in_flight v = []" "guest_cid v = 2"
    using vsock_with_input [of "[?p]" 2] q(1) by auto
  then show ?thesis using q by (intro exI [of _ v] exI [of _ ?p]) simp
qed

section \<open>Properties\<close>

text \<open>C21. Writing respects the peer's buffer: with no more bytes under way than the peer's buffer
  holds, data that still fits is written, in packets that carry it piece by piece in order, with the
  connection's identifiers and ports and current credit information; the bytes under way grow by the
  data and stay within the buffer, and with enough free queue buffers all packets are in the queue. Data
  that does not fit gives an error. The counters may wrap around.\<close>

theorem socket_write_respects_credit:
  assumes "can_write s" "outstanding s \<le> unat (peer_buffer_size s)"
  shows "if outstanding s + length data \<le> unat (peer_buffer_size s)
    then \<exists>s' ps. sock_write_all s data = Ok s' \<and> can_write s' \<and> outstanding s' = outstanding s + length data \<and>
      outstanding s' \<le> unat (peer_buffer_size s') \<and> list_all2 (carries s) (chunks MAX_PAYLOAD_SIZE data) ps \<and>
      sock_in_flight s' = foldl lossy_send (sock_in_flight s) ps \<and>
      (length (sock_in_flight s) + length ps \<le> VSOCK_QUEUE_SIZE \<longrightarrow> sock_in_flight s' = sock_in_flight s @ ps)
    else sock_write_all s data = Error [''peer's stream buffer is full'']"
proof (cases "outstanding s + length data \<le> unat (peer_buffer_size s)")
  case True
  then obtain s' ps where "try_fold send_data_packet s (chunks 4052 data) = Ok s'" "can_write s'"
      "outstanding s' = outstanding s + length data" "peer_buffer_size s' = peer_buffer_size s"
      "list_all2 (carries s) (chunks 4052 data) ps" "sock_in_flight s' = foldl lossy_send (sock_in_flight s) ps"
    using send_all_packets [OF assms(1) chunk_sizes, of data] by auto
  then show ?thesis using True foldl_lossy_room by (auto simp: sock_write_all_def)
next
  case False
  then show ?thesis
    using send_all_packets_full [OF assms(1) chunk_sizes assms(2), of data] by (simp add: sock_write_all_def)
qed

theorem socket_write_respects_credit_witness:
  "\<exists>s s' p. sock_in_flight s = [] \<and> sock_write_all s [1, 2, 3] = Ok s' \<and> outstanding s' = 3 \<and>
     sock_in_flight s' = [p] \<and> get_payload p = Ok [1, 2, 3]"
proof -
  obtain v where v: "vs_ok v" "vs_in_flight v = []" using vsock_idle by blast
  let ?s = "demo_socket v 100"
  have c: "chunks 4052 [1, 2, 3 :: u8] = [[1, 2, 3]]" by (simp add: chunks_step)
  have "\<exists>s' ps. sock_write_all ?s [1, 2, 3] = Ok s' \<and> outstanding s' = 3 \<and>
      list_all2 (carries ?s) [[1, 2, 3]] ps \<and> sock_in_flight s' = foldl lossy_send [] ps"
    using socket_write_respects_credit [OF demo_can_write [OF v(1), of 100], of "[1, 2, 3]"] c v(2)
    by (auto simp: sock_in_flight_def)
  then obtain s' p where "sock_write_all ?s [1, 2, 3] = Ok s'" "outstanding s' = 3" "carries ?s [1, 2, 3] p"
      "sock_in_flight s' = [p]"
    by (auto simp: list_all2_Cons1 lossy_send_def)
  then show ?thesis
    using v(2) by (intro exI [of _ ?s] exI [of _ s'] exI [of _ p]) (simp add: carries_def sock_in_flight_def)
qed

text \<open>C36. When no queue buffer is free, data within the peer's credit is accepted, counted as sent
  and lost: writing succeeds and nothing is added to the queue.\<close>

theorem full_queue_loses_data:
  assumes "can_write s" "outstanding s + length data \<le> unat (peer_buffer_size s)"
    and "length (sock_in_flight s) = VSOCK_QUEUE_SIZE"
  shows "\<exists>s'. sock_write_all s data = Ok s' \<and> sock_in_flight s' = sock_in_flight s \<and>
    sent_bytes s' = sent_bytes s + word_of_nat (length data)"
proof -
  obtain s' ps where "try_fold send_data_packet s (chunks 4052 data) = Ok s'"
      "sent_bytes s' = sent_bytes s + word_of_nat (length data)"
      "sock_in_flight s' = foldl lossy_send (sock_in_flight s) ps"
    using send_all_packets [OF assms(1) chunk_sizes, of data] assms(2) by auto
  then show ?thesis using foldl_lossy_full assms(3) by (simp add: sock_write_all_def)
qed

theorem full_queue_loses_data_witness:
  "\<exists>s s'. length (sock_in_flight s) = VSOCK_QUEUE_SIZE \<and> sock_write_all s [1, 2, 3] = Ok s' \<and>
     sock_in_flight s' = sock_in_flight s"
proof -
  obtain v where v: "vs_ok v" "length (vs_in_flight v) = 256" using vsock_with_output [of 256] by auto
  have "\<exists>s'. sock_write_all (demo_socket v 100) [1, 2, 3] = Ok s' \<and>
      sock_in_flight s' = sock_in_flight (demo_socket v 100)"
    using full_queue_loses_data [OF demo_can_write [OF v(1), of 100], of "[1, 2, 3]"] v(2)
    by (auto simp: sock_in_flight_def)
  then obtain s' where "sock_write_all (demo_socket v 100) [1, 2, 3] = Ok s'"
      "sock_in_flight s' = sock_in_flight (demo_socket v 100)" by blast
  then show ?thesis
    using v(2) by (intro exI [of _ "demo_socket v 100"] exI [of _ s']) (simp add: sock_in_flight_def)
qed

text \<open>C11. From a peer that keeps to the protocol, and whatever else arrives in between, reading
  gives the bytes of the connection's data packets, in order and without loss, and returns exactly when
  they have arrived; the counter of processed bytes grows by what was read.\<close>

theorem socket_read_delivers:
  assumes "sock_ok s"
  shows "if len \<le> length (sock_stream s)
    then \<exists>s'. sock_read_exact s len = Some (Ok (take len (sock_stream s), s')) \<and> sock_ok s' \<and>
      sock_stream s' = drop len (sock_stream s) \<and> processed_bytes s' = processed_bytes s + word_of_nat len
    else sock_read_exact s len = None"
  using sock_read_exact_returns [OF assms, of len] sock_read_exact_waits [OF assms, of len] by auto

theorem socket_read_delivers_witness:
  "\<exists>s s'. sock_ok s \<and> sock_stream s = [1, 2, 3] \<and> sock_read_exact s 2 = Some (Ok ([1, 2], s')) \<and>
     sock_stream s' = [3] \<and> sock_read_exact s 4 = None"
proof -
  obtain s where s: "sock_ok s" "sock_stream s = [1, 2, 3]" using demo_received by blast
  from socket_read_delivers [OF s(1), of 2] socket_read_delivers [OF s(1), of 4] s show ?thesis by auto
qed

text \<open>C35. A listener waits until a packet for its port has come from the host. It answers a request
  with a response and is connected to the port the request came from, with the peer's buffer size; any
  other packet for the port ends it with an error. Packets for other ports are reset on the way.\<close>

theorem accept_establishes:
  assumes "vs_ok v"
    and "scan (\<lambda>p. get_dst_port p = port) (guest_cid v) (vs_received v) = (found, u, rest)"
  shows "case found of
      None \<Rightarrow> accept (SocketListener_new v port) = None
    | Some p \<Rightarrow>
        if get_op p = Ok Op_Request
        then \<exists>s r. accept (SocketListener_new v port) = Some (Ok s) \<and> can_write s \<and> outstanding s = 0 \<and>
          local_port (config s) = port \<and> host_port (config s) = get_src_port p \<and>
          peer_buffer_size s = get_buf_alloc p \<and> sock_received s = rest \<and>
          sock_in_flight s = foldl lossy_send (vs_in_flight v) (map (rst_for (guest_cid v)) u @ [r]) \<and>
          get_op r = Ok Op_Response \<and> get_dst_port r = get_src_port p \<and> get_src_port r = port
        else \<exists>e. accept (SocketListener_new v port) = Some (Error e)"
proof (cases found)
  case None
  then have "\<not> (\<exists>p \<in> set (vs_received v). for_guest (guest_cid v) p \<and> get_dst_port p = port)"
    using scan_None assms(2) by blast
  then show ?thesis
    using accept_waits [of "SocketListener_new v port"] assms(1) None
    by (cases "accept (SocketListener_new v port)") (auto simp: SocketListener_new_def)
next
  case (Some p)
  let ?cfg = "SocketListener_new v port"
  obtain v1 where v1: "vs_ok v1" "vs_received v1 = rest" "guest_cid v1 = guest_cid v"
      "vs_in_flight v1 = foldl lossy_send (vs_in_flight v) (map (rst_for (guest_cid v)) u)"
      "accept ?cfg = Some (and_then (get_op p) (\<lambda>opn. if opn = Op_Request
        then send_response (?cfg\<lparr>cfg_vsock := v1, host_port := get_src_port p\<rparr>) (get_buf_alloc p)
        else Error [''invalid connection request'']))"
    using accept_found [of ?cfg p u rest] assms Some by (auto simp: SocketListener_new_def)
  show ?thesis
  proof (cases "get_op p = Ok Op_Request")
    case True
    let ?cfg1 = "?cfg\<lparr>cfg_vsock := v1, host_port := get_src_port p\<rparr>"
    obtain v2 r where v2: "send_response ?cfg1 (get_buf_alloc p) = Ok (Socket_new (?cfg1\<lparr>cfg_vsock := v2\<rparr>) (get_buf_alloc p))"
        "vs_ok v2" "vs_received v2 = rest" "vs_in_flight v2 = lossy_send (vs_in_flight v1) r"
        "get_op r = Ok Op_Response" "get_dst_port r = get_src_port p" "get_src_port r = port"
      by (rule send_response_Ok [of ?cfg1 "get_buf_alloc p"]) (use v1 in \<open>simp_all add: SocketListener_new_def\<close>)
    let ?s = "Socket_new (?cfg1\<lparr>cfg_vsock := v2\<rparr>) (get_buf_alloc p)"
    have "accept ?cfg = Some (Ok ?s)" using v1(5) v2(1) True by simp
    then show ?thesis
      using Some True v1(4) v2
      by (auto simp: Socket_new_def SocketListener_new_def can_write_def outstanding_def sock_received_def
          sock_in_flight_def intro!: exI [of _ r])
  next
    case False
    then have "\<exists>e. accept ?cfg = Some (Error e)"
      using v1(5) by (cases "get_op p") (auto simp: get_op_def ok_or_def split: option.splits if_splits)
    then show ?thesis using Some False by simp
  qed
qed

theorem accept_establishes_witness:
  "\<exists>v s r. vs_in_flight v = [] \<and> accept (SocketListener_new v 7) = Some (Ok s) \<and> host_port (config s) = 9 \<and>
     sock_in_flight s = [r] \<and> get_op r = Ok Op_Response \<and> get_dst_port r = 9"
proof -
  obtain v p where v: "vs_ok v" "vs_received v = [p]" "vs_in_flight v = []" "guest_cid v = 2" and
    p: "for_guest 2 p" "get_dst_port p = 7" "get_src_port p = 9" "get_op p = Ok Op_Request"
    using demo_request by blast
  have "scan (\<lambda>p. get_dst_port p = 7) (guest_cid v) (vs_received v) = (Some p, [], [])" using v p by simp
  from accept_establishes [OF v(1) this] obtain s r where
    "accept (SocketListener_new v 7) = Some (Ok s)" "host_port (config s) = 9" "get_op r = Ok Op_Response"
    "get_dst_port r = 9" "sock_in_flight s = lossy_send [] r"
    using v p by auto
  then show ?thesis using v(3) by (intro exI [of _ v] exI [of _ s] exI [of _ r]) (simp add: lossy_send_def)
qed

text \<open>C37. A peer that announces a buffer smaller than what is already under way makes the difference
  wrap around: data is then accepted and sent although the peer has no room for it.\<close>

theorem shrunken_buffer_overrun:
  assumes "can_write s" "data \<noteq> []" "length data \<le> MAX_PAYLOAD_SIZE"
    and "unat (peer_buffer_size s) < outstanding s"
    and "outstanding s - unat (peer_buffer_size s) + length data \<le> 2 ^ 32"
  shows "\<exists>s' p. send_data_packet s data = Ok s' \<and> sock_in_flight s' = lossy_send (sock_in_flight s) p \<and> carries s data p"
proof -
  let ?d = "peer_buffer_size s - (sent_bytes s - peer_processed_bytes s)"
  have "unat ?d = 2 ^ 32 + unat (peer_buffer_size s) - outstanding s"
    using assms(4) by (simp add: unat_sub_if_size outstanding_def word_size)
  then have "length data \<le> unat ?d" using assms(4,5) by linarith
  then have "\<not> word_of_nat (length data) > ?d"
    using assms(3) by (simp add: word_less_nat_alt unat_u32_of_nat)
  then show ?thesis by (rule send_data_packet_accepted [OF assms(1-3)]) blast
qed

theorem shrunken_buffer_overrun_witness:
  "\<exists>s s'. outstanding s = 50 \<and> peer_buffer_size s = 20 \<and> send_data_packet s [1, 2, 3] = Ok s'"
proof -
  obtain v where v: "vs_ok v" using vsock_idle by blast
  let ?s = "(demo_socket v 20)\<lparr>sent_bytes := 50\<rparr>"
  have o: "outstanding ?s = 50" by (simp add: outstanding_def demo_socket_def Socket_new_def)
  have "can_write ?s" using v by (simp add: can_write_def)
  from shrunken_buffer_overrun [OF this, of "[1, 2, 3]"] o
  obtain s' where "send_data_packet ?s [1, 2, 3] = Ok s'" by auto
  then show ?thesis using o by (intro exI [of _ ?s] exI [of _ s']) simp
qed

end
