(* ===== verification/Oak_Noise.thy ===== *)
theory Oak_Noise
  imports Oak_Slices
begin

text \<open>
  The Noise handshake of \<^verbatim>\<open>oak_crypto/src/noise_handshake\<close>: the symmetric state
  (\<^verbatim>\<open>noise.rs\<close>), the responder and the traffic encryption (\<^verbatim>\<open>mod.rs\<close>), the
  initiator (\<^verbatim>\<open>client.rs\<close>) and the calls into the cryptographic crates
  (\<^verbatim>\<open>crypto_wrapper.rs\<close>). Hashing, HKDF, AES-GCM and the P-256 arithmetic are parameters; a
  scalar, a point and an encoded point are values of one type.
\<close>

record 'h noise_crates =
  nc_sha256 :: "bytes \<Rightarrow> bytes"
  nc_hkdf :: "bytes \<Rightarrow> bytes \<Rightarrow> bytes \<Rightarrow> nat \<Rightarrow> bytes option"
  nc_encrypt :: "bytes \<Rightarrow> bytes \<Rightarrow> bytes \<Rightarrow> bytes \<Rightarrow> bytes option"
  nc_decrypt :: "bytes \<Rightarrow> bytes \<Rightarrow> bytes \<Rightarrow> bytes \<Rightarrow> bytes option"
  scalar_from_repr :: "bytes \<Rightarrow> 'h option"
  scalar_is_zero :: "'h \<Rightarrow> bool"
  mul_by_generator :: "'h \<Rightarrow> 'h"
  to_encoded_point :: "'h \<Rightarrow> bytes"
  encoded_from_bytes :: "bytes \<Rightarrow> 'h option"
  from_encoded_point :: "'h \<Rightarrow> 'h option"
  point_mul :: "'h \<Rightarrow> 'h \<Rightarrow> 'h"
  point_x :: "'h \<Rightarrow> bytes option"

text \<open>Documented behaviour of the crates. A SHA-256 digest has 32 bytes. HKDF-SHA256 fills any output
  of up to 255 blocks. AES-256-GCM with a key of 32 bytes and a nonce of 12 encrypts anything under its
  limit of nearly 64 GiB with associated data of up to 64 GiB, and decryption with the same key, nonce
  and associated data inverts it.\<close>

locale noise_symmetric =
  fixes sha :: "bytes \<Rightarrow> bytes"
    and hkdf :: "bytes \<Rightarrow> bytes \<Rightarrow> bytes \<Rightarrow> nat \<Rightarrow> bytes option"
    and encrypt :: "bytes \<Rightarrow> bytes \<Rightarrow> bytes \<Rightarrow> bytes \<Rightarrow> bytes option"
    and decrypt :: "bytes \<Rightarrow> bytes \<Rightarrow> bytes \<Rightarrow> bytes \<Rightarrow> bytes option"
  assumes hash_length: "length (sha bs) = 32"
    and hkdf_fills: "n \<le> 255 * 32 \<Longrightarrow> \<exists>out. hkdf salt ikm info n = Some out \<and> length out = n"
    and encrypts: "length k = 32 \<Longrightarrow> length iv = 12 \<Longrightarrow> length a \<le> 2 ^ 36 \<Longrightarrow> length p < 2 ^ 36 - 31 \<Longrightarrow>
      \<exists>c. encrypt k iv a p = Some c"
    and decrypts: "encrypt k iv a p = Some c \<Longrightarrow> decrypt k iv a c = Some p"

text \<open>A scalar that is not zero has a public key with an encoding of 65 bytes, which decodes to it;
  both sides of a Diffie-Hellman exchange compute the same point, which is not at infinity. The
  repr of the code's fixed scalar is below the group order.\<close>

locale p256_exchange =
  fixes from_repr :: "bytes \<Rightarrow> 'h option" and is_zero :: "'h \<Rightarrow> bool" and public :: "'h \<Rightarrow> 'h"
    and encode :: "'h \<Rightarrow> bytes" and from_bytes :: "bytes \<Rightarrow> 'h option" and affine :: "'h \<Rightarrow> 'h option"
    and mul :: "'h \<Rightarrow> 'h \<Rightarrow> 'h" and x_of :: "'h \<Rightarrow> bytes option"
  assumes public_length: "from_repr bs = Some s \<Longrightarrow> \<not> is_zero s \<Longrightarrow> length (encode (public s)) = 65"
    and public_decodes: "from_repr bs = Some s \<Longrightarrow> \<not> is_zero s \<Longrightarrow>
      \<exists>e. from_bytes (encode (public s)) = Some e \<and> affine e = Some (public s)"
    and agreement: "from_repr bs = Some s \<Longrightarrow> \<not> is_zero s \<Longrightarrow> from_repr cs = Some t \<Longrightarrow> \<not> is_zero t \<Longrightarrow>
      \<exists>x. x_of (mul (public s) t) = Some x \<and> x_of (mul (public t) s) = Some x \<and> length x = 32"
    and small_repr: "\<exists>s. from_repr (1 # replicate 31 0) = Some s \<and> \<not> is_zero s"

abbreviation symmetric_ok :: "('h, 'z) noise_crates_scheme \<Rightarrow> bool" where
  "symmetric_ok cr \<equiv> noise_symmetric (nc_sha256 cr) (nc_hkdf cr) (nc_encrypt cr) (nc_decrypt cr)"

abbreviation exchange_ok :: "('h, 'z) noise_crates_scheme \<Rightarrow> bool" where
  "exchange_ok cr \<equiv> p256_exchange (scalar_from_repr cr) (scalar_is_zero cr) (mul_by_generator cr)
     (to_encoded_point cr) (encoded_from_bytes cr) (from_encoded_point cr) (point_mul cr) (point_x cr)"

section \<open>The cryptographic crates\<close>

datatype noise_error = DataTooLarge nat | DecryptFailed | DecryptionPadding | EcdhFailed | EmptyPlaintext
  | InvalidHandshake | InvalidPrivateKey | UnknownError string

abbreviation (input) NONCE_LEN :: nat where "NONCE_LEN \<equiv> 12"

abbreviation (input) SYMMETRIC_KEY_LEN :: nat where "SYMMETRIC_KEY_LEN \<equiv> 32"

abbreviation (input) SHA256_OUTPUT_LEN :: nat where "SHA256_OUTPUT_LEN \<equiv> 32"

abbreviation (input) P256_X962_LEN :: nat where "P256_X962_LEN \<equiv> 65"

abbreviation (input) P256_SCALAR_LEN :: nat where "P256_SCALAR_LEN \<equiv> 32"

definition hkdf_sha256_out ::
  "('h, 'z) noise_crates_scheme \<Rightarrow> bytes \<Rightarrow> bytes \<Rightarrow> bytes \<Rightarrow> nat \<Rightarrow> (bytes, unit) result" where
  "hkdf_sha256_out cr ikm salt info n = ok_or (nc_hkdf cr salt ikm info n) ()"

definition aes_256_gcm_seal_in_place ::
  "('h, 'z) noise_crates_scheme \<Rightarrow> bytes \<Rightarrow> bytes \<Rightarrow> bytes \<Rightarrow> bytes \<Rightarrow> (bytes, noise_error) result" where
  "aes_256_gcm_seal_in_place cr key nonce aad plaintext = expect (nc_encrypt cr key nonce aad plaintext) ''unwrap''"

definition aes_256_gcm_open_in_place ::
  "('h, 'z) noise_crates_scheme \<Rightarrow> bytes \<Rightarrow> bytes \<Rightarrow> bytes \<Rightarrow> bytes \<Rightarrow> (bytes, unit) result" where
  "aes_256_gcm_open_in_place cr key nonce aad ciphertext = ok_or (nc_decrypt cr key nonce aad ciphertext) ()"

definition sha256_two_part :: "('h, 'z) noise_crates_scheme \<Rightarrow> bytes \<Rightarrow> bytes \<Rightarrow> bytes" where
  "sha256_two_part cr input1 input2 = nc_sha256 cr (input1 @ input2)"

definition P256Scalar_generate :: "('h, 'z) noise_crates_scheme \<Rightarrow> ('h, noise_error) result" where
  "P256Scalar_generate cr = expect (scalar_from_repr cr (1 # replicate (P256_SCALAR_LEN - 1) 0)) ''unwrap''"

definition compute_public_key :: "('h, 'z) noise_crates_scheme \<Rightarrow> 'h \<Rightarrow> (bytes, noise_error) result" where
  "compute_public_key cr s =
     (let bs = to_encoded_point cr (mul_by_generator cr s) in
      if length bs = P256_X962_LEN then Ok bs else panic ''unwrap'')"

definition P256Scalar_try_from :: "('h, 'z) noise_crates_scheme \<Rightarrow> bytes \<Rightarrow> ('h, unit) result" where
  "P256Scalar_try_from cr bs =
     and_then (ensure (length bs = P256_SCALAR_LEN) ()) (\<lambda>_.
     and_then (ok_or (scalar_from_repr cr bs) ()) (\<lambda>scalar.
     if scalar_is_zero cr scalar then Error () else Ok scalar))"

definition p256_scalar_mult :: "('h, 'z) noise_crates_scheme \<Rightarrow> 'h \<Rightarrow> bytes \<Rightarrow> (bytes, unit) result" where
  "p256_scalar_mult cr scalar point =
     and_then (ok_or (encoded_from_bytes cr point) ()) (\<lambda>point.
     and_then (ok_or (from_encoded_point cr point) ()) (\<lambda>affine_point.
     and_then (ok_or (point_x cr (point_mul cr affine_point scalar)) ()) (\<lambda>x.
     if length x = P256_SCALAR_LEN then Ok x else panic ''unwrap'')))"

text \<open>\<^verbatim>\<open>Result::unwrap\<close>.\<close>

definition unwrap_ok :: "('a, 'e) result \<Rightarrow> ('a, noise_error) result" where
  "unwrap_ok r = (case r of Inr v \<Rightarrow> Ok v | Inl (Err _) \<Rightarrow> panic ''unwrap'' | Inl (Panic p) \<Rightarrow> panic p)"

section \<open>The symmetric state\<close>

datatype HandshakeType = Nk | Nn

record Noise =
  chaining_key :: bytes
  noise_h :: bytes
  symmetric_key :: bytes
  symmetric_nonce :: u32

definition hkdf2 :: "('h, 'z) noise_crates_scheme \<Rightarrow> bytes \<Rightarrow> bytes \<Rightarrow> (bytes \<times> bytes, noise_error) result" where
  "hkdf2 cr ck ikm =
     and_then (unwrap_ok (hkdf_sha256_out cr ikm ck [] (SHA256_OUTPUT_LEN * 2))) (\<lambda>output.
     Ok (take SYMMETRIC_KEY_LEN output, drop SYMMETRIC_KEY_LEN output))"

definition Noise_new :: "HandshakeType \<Rightarrow> Noise" where
  "Noise_new handshake_type =
     (let protocol_name = as_bytes (case handshake_type of Nk \<Rightarrow> ''Noise_NK_P256_AESGCM_SHA256''
            | Nn \<Rightarrow> ''Noise_NN_P256_AESGCM_SHA256'');
          chaining_key_in = overwrite (replicate SYMMETRIC_KEY_LEN 0) 0 protocol_name in
      \<lparr>chaining_key = chaining_key_in, noise_h = chaining_key_in,
       symmetric_key = replicate SYMMETRIC_KEY_LEN 0, symmetric_nonce = 0\<rparr>)"

definition mix_hash :: "('h, 'z) noise_crates_scheme \<Rightarrow> Noise \<Rightarrow> bytes \<Rightarrow> Noise" where
  "mix_hash cr n in_data = n\<lparr>noise_h := sha256_two_part cr (noise_h n) in_data\<rparr>"

definition initialize_key :: "Noise \<Rightarrow> bytes \<Rightarrow> Noise" where
  "initialize_key n key = n\<lparr>symmetric_key := key, symmetric_nonce := 0\<rparr>"

definition mix_key :: "('h, 'z) noise_crates_scheme \<Rightarrow> Noise \<Rightarrow> bytes \<Rightarrow> (Noise, noise_error) result" where
  "mix_key cr n ikm =
     and_then (hkdf2 cr (chaining_key n) ikm) (\<lambda>(ck, key).
     Ok (initialize_key (n\<lparr>chaining_key := ck\<rparr>) key))"

text \<open>\<^verbatim>\<open>u32::to_be_bytes\<close>.\<close>

definition to_be_bytes :: "u32 \<Rightarrow> bytes" where
  "to_be_bytes n = [ucast (drop_bit 24 n), ucast (drop_bit 16 n), ucast (drop_bit 8 n), ucast n]"

definition next_nonce :: "Noise \<Rightarrow> (bytes \<times> Noise, noise_error) result" where
  "next_nonce n =
     (let i = symmetric_nonce n;
          nonce_bytes = [ucast (drop_bit 24 i), ucast (drop_bit 16 i), ucast (drop_bit 8 i), ucast i]
            @ replicate (NONCE_LEN - 4) 0 in
      if i = - 1 then panic ''attempt to add with overflow''
      else Ok (nonce_bytes, n\<lparr>symmetric_nonce := i + 1\<rparr>))"

definition encrypt_and_hash :: "('h, 'z) noise_crates_scheme \<Rightarrow> Noise \<Rightarrow> bytes \<Rightarrow> (bytes \<times> Noise, noise_error) result" where
  "encrypt_and_hash cr n plaintext =
     and_then (next_nonce n) (\<lambda>(nonce, n).
     and_then (aes_256_gcm_seal_in_place cr (symmetric_key n) nonce (noise_h n) plaintext) (\<lambda>encrypted_data.
     Ok (encrypted_data, mix_hash cr n encrypted_data)))"

definition decrypt_and_hash ::
  "('h, 'z) noise_crates_scheme \<Rightarrow> Noise \<Rightarrow> bytes \<Rightarrow> (bytes \<times> Noise, noise_error) result" where
  "decrypt_and_hash cr n ciphertext =
     (let h = noise_h n; n = mix_hash cr n ciphertext in
      and_then (next_nonce n) (\<lambda>(nonce, n).
      and_then (map_err (\<lambda>_. DecryptFailed) (aes_256_gcm_open_in_place cr (symmetric_key n) nonce h ciphertext))
        (\<lambda>plaintext. Ok (plaintext, n))))"

definition traffic_keys :: "('h, 'z) noise_crates_scheme \<Rightarrow> Noise \<Rightarrow> (bytes \<times> bytes, noise_error) result" where
  "traffic_keys cr n = hkdf2 cr (chaining_key n) []"

section \<open>Traffic\<close>

definition MAX_SEQUENCE :: u32 where "MAX_SEQUENCE = push_bit 24 1"

definition Nonce_next :: "u32 \<Rightarrow> (bytes \<times> u32, noise_error) result" where
  "Nonce_next nonce =
     (if nonce > MAX_SEQUENCE then Error DecryptFailed
      else Ok (replicate (NONCE_LEN - 4) 0 @ to_be_bytes nonce, nonce + 1))"

record Crypter =
  read_key :: bytes
  write_key :: bytes
  read_nonce :: u32
  write_nonce :: u32

definition Crypter_new :: "bytes \<Rightarrow> bytes \<Rightarrow> Crypter" where
  "Crypter_new rk wk = \<lparr>read_key = rk, write_key = wk, read_nonce = 0, write_nonce = 0\<rparr>"

abbreviation (input) PADDING_GRANULARITY :: nat where "PADDING_GRANULARITY \<equiv> 32"

definition padded_size :: "nat \<Rightarrow> nat" where
  "padded_size n = nat ((int (n + 1) + int PADDING_GRANULARITY - 1) AND NOT (int PADDING_GRANULARITY - 1))"

definition crypter_encrypt ::
  "('h, 'z) noise_crates_scheme \<Rightarrow> Crypter \<Rightarrow> bytes \<Rightarrow> (bytes \<times> Crypter, noise_error) result" where
  "crypter_encrypt cr c plaintext =
     (if length plaintext > 2 ^ 28 then Error (DataTooLarge (length plaintext))
      else
        let padded = padded_size (length plaintext);
            num_zeros = padded - length plaintext - 1;
            data = (plaintext @ replicate (padded - length plaintext) 0)[padded - 1 := word_of_nat num_zeros] in
        and_then (Nonce_next (write_nonce c)) (\<lambda>(nonce, i).
        and_then (aes_256_gcm_seal_in_place cr (write_key c) nonce [] data) (\<lambda>ciphertext.
        Ok (ciphertext, c\<lparr>write_nonce := i\<rparr>))))"

text \<open>The counter advances also when decryption fails.\<close>

definition crypter_decrypt ::
  "('h, 'z) noise_crates_scheme \<Rightarrow> Crypter \<Rightarrow> bytes \<Rightarrow> (bytes, noise_error) result \<times> Crypter" where
  "crypter_decrypt cr c ciphertext =
     (case Nonce_next (read_nonce c) of
        Inl e \<Rightarrow> (Inl e, c)
      | Inr (nonce, i) \<Rightarrow>
          (and_then (map_err (\<lambda>_. DecryptFailed) (aes_256_gcm_open_in_place cr (read_key c) nonce [] ciphertext))
             (\<lambda>plaintext.
               if plaintext = [] \<or> unat (last plaintext) \<ge> length plaintext then Error DecryptionPadding
               else Ok (take (length plaintext - unat (last plaintext) - 1) plaintext)),
           c\<lparr>read_nonce := i\<rparr>))"

section \<open>The responder\<close>

record noise_response =
  resp_crypter :: Crypter
  resp_handshake_hash :: bytes
  resp_response :: bytes

definition finish_response ::
  "('h, 'z) noise_crates_scheme \<Rightarrow> Noise \<Rightarrow> bytes \<Rightarrow> bytes \<Rightarrow> (noise_response, noise_error) result" where
  "finish_response cr noise in_data peer_pub =
     and_then (sub_slice in_data P256_X962_LEN (length in_data)) (\<lambda>ciphertext.
     and_then (decrypt_and_hash cr noise ciphertext) (\<lambda>(plaintext, noise).
     if plaintext \<noteq> [] then Error InvalidHandshake
     else
     and_then (P256Scalar_generate cr) (\<lambda>ephemeral_priv.
     and_then (compute_public_key cr ephemeral_priv) (\<lambda>ephemeral_pub_key_bytes.
     and_then (mix_key cr (mix_hash cr noise ephemeral_pub_key_bytes) ephemeral_pub_key_bytes) (\<lambda>noise.
     and_then (map_err (\<lambda>_. InvalidHandshake) (p256_scalar_mult cr ephemeral_priv peer_pub)) (\<lambda>ee_ecdh_bytes.
     and_then (mix_key cr noise ee_ecdh_bytes) (\<lambda>noise.
     and_then (encrypt_and_hash cr noise []) (\<lambda>(response_ciphertext, noise).
     and_then (traffic_keys cr noise) (\<lambda>(k0, k1).
     Ok \<lparr>resp_crypter = Crypter_new k0 k1, resp_handshake_hash = noise_h noise,
       resp_response = ephemeral_pub_key_bytes @ response_ciphertext\<rparr>)))))))))"

definition respond_nk ::
  "('h, 'z) noise_crates_scheme \<Rightarrow> bytes \<Rightarrow> bytes \<Rightarrow> (noise_response, noise_error) result" where
  "respond_nk cr identity_private_key_bytes in_data =
     (if length in_data < P256_X962_LEN then Error InvalidHandshake
      else
        let noise = mix_hash cr (Noise_new Nk) [0] in
        and_then (map_err (\<lambda>_. InvalidPrivateKey) (P256Scalar_try_from cr identity_private_key_bytes)) (\<lambda>identity_scalar.
        and_then (compute_public_key cr identity_scalar) (\<lambda>identity_pub.
        let noise = mix_hash cr noise identity_pub; peer_pub = take P256_X962_LEN in_data in
        and_then (mix_key cr (mix_hash cr noise peer_pub) peer_pub) (\<lambda>noise.
        and_then (map_err (\<lambda>_. InvalidHandshake) (p256_scalar_mult cr identity_scalar peer_pub)) (\<lambda>es_ecdh_bytes.
        and_then (mix_key cr noise es_ecdh_bytes) (\<lambda>noise.
        finish_response cr noise in_data peer_pub))))))"

definition respond_nn ::
  "('h, 'z) noise_crates_scheme \<Rightarrow> bytes \<Rightarrow> (noise_response, noise_error) result" where
  "respond_nn cr in_data =
     (if length in_data < P256_X962_LEN then Error InvalidHandshake
      else
        let noise = mix_hash cr (Noise_new Nn) [0]; peer_pub = take P256_X962_LEN in_data in
        and_then (mix_key cr (mix_hash cr noise peer_pub) peer_pub) (\<lambda>noise.
        finish_response cr noise in_data peer_pub))"

section \<open>The initiator\<close>

record 'h HandshakeInitiator =
  init_noise :: Noise
  identity_pub_key :: "bytes option"
  ephemeral_priv_key :: 'h

definition new_nk :: "('h, 'z) noise_crates_scheme \<Rightarrow> bytes \<Rightarrow> ('h HandshakeInitiator, noise_error) result" where
  "new_nk cr peer_public_key =
     and_then (P256Scalar_generate cr) (\<lambda>key.
     Ok \<lparr>init_noise = Noise_new Nk, identity_pub_key = Some peer_public_key, ephemeral_priv_key = key\<rparr>)"

definition new_nn :: "('h, 'z) noise_crates_scheme \<Rightarrow> ('h HandshakeInitiator, noise_error) result" where
  "new_nn cr =
     and_then (P256Scalar_generate cr) (\<lambda>key.
     Ok \<lparr>init_noise = Noise_new Nn, identity_pub_key = None, ephemeral_priv_key = key\<rparr>)"

definition build_initial_message ::
  "('h, 'z) noise_crates_scheme \<Rightarrow> 'h HandshakeInitiator \<Rightarrow> (bytes \<times> 'h HandshakeInitiator, noise_error) result" where
  "build_initial_message cr self =
     (let noise = mix_hash cr (init_noise self) [0];
          noise = (case identity_pub_key self of None \<Rightarrow> noise | Some k \<Rightarrow> mix_hash cr noise k) in
      and_then (compute_public_key cr (ephemeral_priv_key self)) (\<lambda>ephemeral_pub_key_bytes.
      and_then (mix_key cr (mix_hash cr noise ephemeral_pub_key_bytes) ephemeral_pub_key_bytes) (\<lambda>noise.
      and_then (case identity_pub_key self of None \<Rightarrow> Ok noise
        | Some k \<Rightarrow> and_then (unwrap_ok (p256_scalar_mult cr (ephemeral_priv_key self) k)) (\<lambda>es_ecdh_bytes.
            mix_key cr noise es_ecdh_bytes)) (\<lambda>noise.
      and_then (encrypt_and_hash cr noise []) (\<lambda>(ciphertext, noise).
      Ok (ephemeral_pub_key_bytes @ ciphertext, self\<lparr>init_noise := noise\<rparr>))))))"

definition process_response ::
  "('h, 'z) noise_crates_scheme \<Rightarrow> 'h HandshakeInitiator \<Rightarrow> bytes \<Rightarrow> (bytes \<times> Crypter, noise_error) result" where
  "process_response cr self handshake_response =
     and_then (sub_slice handshake_response 0 P256_X962_LEN) (\<lambda>peer_public_key_bytes.
     and_then (sub_slice handshake_response P256_X962_LEN (length handshake_response)) (\<lambda>ciphertext.
     and_then (unwrap_ok (p256_scalar_mult cr (ephemeral_priv_key self) peer_public_key_bytes)) (\<lambda>ee_ecdh_bytes.
     and_then (mix_key cr (mix_hash cr (init_noise self) peer_public_key_bytes) peer_public_key_bytes) (\<lambda>noise.
     and_then (mix_key cr noise ee_ecdh_bytes) (\<lambda>noise.
     and_then (unwrap_ok (decrypt_and_hash cr noise ciphertext)) (\<lambda>(plaintext, noise).
     and_then (if length plaintext = 0 then Ok () else panic ''assertion failed'') (\<lambda>_.
     and_then (traffic_keys cr noise) (\<lambda>(wk, rk).
     Ok (noise_h noise, Crypter_new rk wk)))))))))"

section \<open>The two sides agree\<close>

lemma unwrap_ok_simps [simp]: "unwrap_ok (Ok v) = Ok v"
  by (simp add: unwrap_ok_def)

lemma hkdf2_total:
  assumes "symmetric_ok cr"
  shows "\<exists>k0 k1. hkdf2 cr ck ikm = Ok (k0, k1) \<and> length k0 = 32 \<and> length k1 = 32"
  using noise_symmetric.hkdf_fills [OF assms, of 64 ck ikm "[]"]
  by (auto simp: hkdf2_def hkdf_sha256_out_def)

lemma mix_key_total:
  assumes "symmetric_ok cr"
  shows "\<exists>n'. mix_key cr n ikm = Ok n' \<and> symmetric_nonce n' = 0 \<and> length (symmetric_key n') = 32 \<and>
    noise_h n' = noise_h n"
  using hkdf2_total [OF assms, of "chaining_key n" ikm]
  by (auto simp: mix_key_def initialize_key_def)

lemma length_mix_hash: "symmetric_ok cr \<Longrightarrow> length (noise_h (mix_hash cr n bs)) = 32"
  by (simp add: mix_hash_def sha256_two_part_def noise_symmetric.hash_length)

lemma encrypt_then_decrypt:
  assumes "symmetric_ok cr" "symmetric_nonce n = 0" "length (symmetric_key n) = 32" "length (noise_h n) = 32"
    and "length p < 2 ^ 36 - 31"
  shows "\<exists>c n'. encrypt_and_hash cr n p = Ok (c, n') \<and> decrypt_and_hash cr n c = Ok (p, n')"
proof -
  let ?iv = "[0, 0, 0, 0] @ replicate 8 0 :: bytes"
  obtain c where c: "nc_encrypt cr (symmetric_key n) ?iv (noise_h n) p = Some c"
    using noise_symmetric.encrypts [OF assms(1,3) _ _ assms(5), of ?iv "noise_h n"] assms(4) by auto
  with noise_symmetric.decrypts [OF assms(1) c] assms(2) show ?thesis
    by (simp add: encrypt_and_hash_def decrypt_and_hash_def next_nonce_def aes_256_gcm_seal_in_place_def
        aes_256_gcm_open_in_place_def mix_hash_def Let_def)
qed

text \<open>The scalars that the code works with: parsed and not zero.\<close>

definition valid_scalar :: "('h, 'z) noise_crates_scheme \<Rightarrow> 'h \<Rightarrow> bool" where
  "valid_scalar cr s \<longleftrightarrow> (\<exists>bs. scalar_from_repr cr bs = Some s) \<and> \<not> scalar_is_zero cr s"

lemma generated_scalar:
  assumes "exchange_ok cr"
  shows "\<exists>s. P256Scalar_generate cr = Ok s \<and> valid_scalar cr s"
  using p256_exchange.small_repr [OF assms]
  by (auto simp: P256Scalar_generate_def valid_scalar_def)

lemma scalar_public:
  assumes "exchange_ok cr" "valid_scalar cr s"
  shows "\<exists>bs. compute_public_key cr s = Ok bs \<and> length bs = 65"
  using assms p256_exchange.public_length [OF assms(1)]
  by (auto simp: compute_public_key_def valid_scalar_def Let_def)

lemma scalars_agree:
  assumes "exchange_ok cr" "valid_scalar cr s" "valid_scalar cr t"
    and "compute_public_key cr s = Ok ps" "compute_public_key cr t = Ok pt"
  shows "\<exists>x. p256_scalar_mult cr t ps = Ok x \<and> p256_scalar_mult cr s pt = Ok x"
proof -
  from assms(2,3) obtain bs cs where
    s: "scalar_from_repr cr bs = Some s" "\<not> scalar_is_zero cr s"
    and t: "scalar_from_repr cr cs = Some t" "\<not> scalar_is_zero cr t"
    by (auto simp: valid_scalar_def)
  from assms(4,5) have ps: "ps = to_encoded_point cr (mul_by_generator cr s)"
    "pt = to_encoded_point cr (mul_by_generator cr t)"
    by (auto simp: compute_public_key_def Let_def split: if_splits)
  from p256_exchange.agreement [OF assms(1) s t] p256_exchange.public_decodes [OF assms(1) s]
    p256_exchange.public_decodes [OF assms(1) t]
  show ?thesis unfolding ps by (auto simp: p256_scalar_mult_def)
qed

text \<open>What one side writes with, the other reads with; the keys are arrays of 32 bytes.\<close>

definition mirrored :: "Crypter \<Rightarrow> Crypter \<Rightarrow> bool" where
  "mirrored a b \<longleftrightarrow> read_key a = write_key b \<and> write_key a = read_key b \<and>
     read_nonce a = write_nonce b \<and> write_nonce a = read_nonce b \<and>
     length (read_key a) = SYMMETRIC_KEY_LEN \<and> length (write_key a) = SYMMETRIC_KEY_LEN"

lemma finish_agrees:
  assumes "symmetric_ok cr" "exchange_ok cr" "valid_scalar cr e" "compute_public_key cr e = Ok pe"
    and "decrypt_and_hash cr n c = Ok ([], n')" "init_noise self = n'" "ephemeral_priv_key self = e"
  shows "\<exists>r cl. finish_response cr n (pe @ c) pe = Ok r \<and>
    process_response cr self (resp_response r) = Ok (resp_handshake_hash r, cl) \<and> mirrored cl (resp_crypter r)"
proof -
  have len: "length pe = 65" using assms(4)
    by (auto simp: compute_public_key_def Let_def split: if_splits)
  obtain f where f: "P256Scalar_generate cr = Ok f" "valid_scalar cr f"
    using generated_scalar [OF assms(2)] by blast
  obtain pf where pf: "compute_public_key cr f = Ok pf" "length pf = 65"
    using scalar_public [OF assms(2) f(2)] by blast
  obtain x where x: "p256_scalar_mult cr f pe = Ok x" "p256_scalar_mult cr e pf = Ok x"
    using scalars_agree [OF assms(2,3) f(2) assms(4) pf(1)] by blast
  obtain m1 where m1: "mix_key cr (mix_hash cr n' pf) pf = Ok m1" "noise_h m1 = noise_h (mix_hash cr n' pf)"
    using mix_key_total [OF assms(1)] by blast
  obtain m2 where m2: "mix_key cr m1 x = Ok m2" "symmetric_nonce m2 = 0" "length (symmetric_key m2) = 32"
      "noise_h m2 = noise_h m1"
    using mix_key_total [OF assms(1)] by blast
  obtain rc m3 where m3: "encrypt_and_hash cr m2 [] = Ok (rc, m3)" "decrypt_and_hash cr m2 rc = Ok ([], m3)"
    using encrypt_then_decrypt [OF assms(1) m2(2,3), of "[]"] m1(2) m2(4) length_mix_hash [OF assms(1)] by auto
  obtain k0 k1 where k: "traffic_keys cr m3 = Ok (k0, k1)" "length k0 = 32" "length k1 = 32"
    using hkdf2_total [OF assms(1)] unfolding traffic_keys_def by blast
  have "finish_response cr n (pe @ c) pe = Ok \<lparr>resp_crypter = Crypter_new k0 k1,
      resp_handshake_hash = noise_h m3, resp_response = pf @ rc\<rparr>"
    using len by (simp add: finish_response_def sub_slice_def assms(5) f pf x m1 m2 m3 k)
  moreover have "process_response cr self (pf @ rc) = Ok (noise_h m3, Crypter_new k1 k0)"
    using pf(2) by (simp add: process_response_def sub_slice_def assms(6,7) x m1 m2 m3 k)
  ultimately show ?thesis using k(2,3) by (simp add: mirrored_def Crypter_new_def)
qed

lemma nn_agrees:
  assumes "symmetric_ok cr" "exchange_ok cr"
  shows "\<exists>self msg self' r cl. new_nn cr = Ok self \<and> build_initial_message cr self = Ok (msg, self') \<and>
    respond_nn cr msg = Ok r \<and>
    process_response cr self' (resp_response r) = Ok (resp_handshake_hash r, cl) \<and> mirrored cl (resp_crypter r)"
proof -
  obtain e where e: "P256Scalar_generate cr = Ok e" "valid_scalar cr e"
    using generated_scalar [OF assms(2)] by blast
  obtain pe where pe: "compute_public_key cr e = Ok pe" "length pe = 65"
    using scalar_public [OF assms(2) e(2)] by blast
  let ?n0 = "mix_hash cr (mix_hash cr (Noise_new Nn) [0]) pe"
  obtain n where n: "mix_key cr ?n0 pe = Ok n" "symmetric_nonce n = 0" "length (symmetric_key n) = 32"
      "noise_h n = noise_h ?n0"
    using mix_key_total [OF assms(1)] by blast
  obtain c n' where c: "encrypt_and_hash cr n [] = Ok (c, n')" "decrypt_and_hash cr n c = Ok ([], n')"
    using encrypt_then_decrypt [OF assms(1) n(2,3), of "[]"] n(4) length_mix_hash [OF assms(1)] by auto
  let ?self = "\<lparr>init_noise = Noise_new Nn, identity_pub_key = None, ephemeral_priv_key = e\<rparr>"
  have "build_initial_message cr ?self = Ok (pe @ c, ?self\<lparr>init_noise := n'\<rparr>)"
    by (simp add: build_initial_message_def pe n c Let_def)
  moreover have "respond_nn cr (pe @ c) = finish_response cr n (pe @ c) pe"
    using pe by (simp add: respond_nn_def n Let_def)
  ultimately show ?thesis
    using e finish_agrees [OF assms e(2) pe(1) c(2), of "?self\<lparr>init_noise := n'\<rparr>"]
    by (auto simp: new_nn_def)
qed

lemma nk_agrees:
  assumes "symmetric_ok cr" "exchange_ok cr" "P256Scalar_try_from cr identity = Ok s" "compute_public_key cr s = Ok ps"
  shows "\<exists>self msg self' r cl. new_nk cr ps = Ok self \<and> build_initial_message cr self = Ok (msg, self') \<and>
    respond_nk cr identity msg = Ok r \<and>
    process_response cr self' (resp_response r) = Ok (resp_handshake_hash r, cl) \<and> mirrored cl (resp_crypter r)"
proof -
  have s: "valid_scalar cr s" using assms(3)
    by (auto simp: P256Scalar_try_from_def valid_scalar_def result_simps split: if_splits)
  obtain e where e: "P256Scalar_generate cr = Ok e" "valid_scalar cr e"
    using generated_scalar [OF assms(2)] by blast
  obtain pe where pe: "compute_public_key cr e = Ok pe" "length pe = 65"
    using scalar_public [OF assms(2) e(2)] by blast
  obtain x where x: "p256_scalar_mult cr e ps = Ok x" "p256_scalar_mult cr s pe = Ok x"
    using scalars_agree [OF assms(2) s e(2) assms(4) pe(1)] by blast
  let ?n0 = "mix_hash cr (mix_hash cr (mix_hash cr (Noise_new Nk) [0]) ps) pe"
  obtain n1 where n1: "mix_key cr ?n0 pe = Ok n1" "noise_h n1 = noise_h ?n0"
    using mix_key_total [OF assms(1)] by blast
  obtain n where n: "mix_key cr n1 x = Ok n" "symmetric_nonce n = 0" "length (symmetric_key n) = 32"
      "noise_h n = noise_h n1"
    using mix_key_total [OF assms(1)] by blast
  obtain c n' where c: "encrypt_and_hash cr n [] = Ok (c, n')" "decrypt_and_hash cr n c = Ok ([], n')"
    using encrypt_then_decrypt [OF assms(1) n(2,3), of "[]"] n(4) n1(2) length_mix_hash [OF assms(1)] by auto
  let ?self = "\<lparr>init_noise = Noise_new Nk, identity_pub_key = Some ps, ephemeral_priv_key = e\<rparr>"
  have "build_initial_message cr ?self = Ok (pe @ c, ?self\<lparr>init_noise := n'\<rparr>)"
    by (simp add: build_initial_message_def pe n1 x n c Let_def)
  moreover have "respond_nk cr identity (pe @ c) = finish_response cr n (pe @ c) pe"
    using pe by (simp add: respond_nk_def assms(3,4) n1 x n Let_def)
  ultimately show ?thesis
    using e finish_agrees [OF assms(1,2) e(2) pe(1) c(2), of "?self\<lparr>init_noise := n'\<rparr>"]
    by (auto simp: new_nk_def)
qed

section \<open>Traffic between the two sides\<close>

lemma round_down_32: "((x :: int) AND NOT 31) = x div 32 * 32"
proof -
  have "x AND NOT (mask 5) = push_bit 5 (drop_bit 5 x)"
    by (rule bit_eqI) (auto simp: bit_simps)
  then show ?thesis by (simp add: mask_eq_exp_minus_1 push_bit_eq_mult drop_bit_eq_div)
qed

lemma padded_size_eq: "padded_size n = (n + 32) div 32 * 32"
proof -
  have "padded_size n = nat (int (n + 32) div 32 * 32)"
    unfolding padded_size_def
    using round_down_32 [of "int (n + 32)"] by (simp add: algebra_simps)
  also have "\<dots> = (n + 32) div 32 * 32"
    by (metis nat_int of_nat_mult of_nat_numeral zdiv_int)
  finally show ?thesis .
qed

lemma padded_size_bounds: "n < padded_size n" "padded_size n \<le> n + 32"
  unfolding padded_size_eq by linarith+

lemma Nonce_next_Ok:
  "unat i \<le> 2 ^ 24 \<Longrightarrow> Nonce_next i = Ok (replicate 8 0 @ to_be_bytes i, i + 1)"
  by (auto simp: Nonce_next_def MAX_SEQUENCE_def word_less_nat_alt push_bit_eq_mult)

definition padded_message :: "bytes \<Rightarrow> bytes" where
  "padded_message p = p @ replicate (padded_size (length p) - length p - 1) 0
     @ [word_of_nat (padded_size (length p) - length p - 1)]"

lemma padded_message_eq:
  "(p @ replicate (padded_size (length p) - length p) 0)[padded_size (length p) - 1 :=
     word_of_nat (padded_size (length p) - length p - 1)] = padded_message p"
proof -
  obtain k where k: "padded_size (length p) = length p + Suc k"
    using padded_size_bounds(1) [of "length p"] less_imp_Suc_add by fastforce
  show ?thesis unfolding padded_message_def k by (simp add: list_update_append replicate_append_same [symmetric])
qed

lemma unpadded_message:
  "length (padded_message p) = padded_size (length p)"
  "\<not> (padded_message p = [] \<or> unat (last (padded_message p)) \<ge> length (padded_message p))"
  "take (length (padded_message p) - unat (last (padded_message p)) - 1) (padded_message p) = p"
proof -
  have b: "length p < padded_size (length p)" "padded_size (length p) \<le> length p + 32"
    by (fact padded_size_bounds)+
  then have "padded_size (length p) - length p - 1 < 256" by simp
  then have u: "unat (last (padded_message p)) = padded_size (length p) - length p - 1"
    by (simp add: padded_message_def unat_of_nat del: diff_diff_left of_nat_diff)
  show l: "length (padded_message p) = padded_size (length p)" using b by (simp add: padded_message_def)
  show "\<not> (padded_message p = [] \<or> unat (last (padded_message p)) \<ge> length (padded_message p))"
    unfolding l u using b by (auto simp: padded_message_def)
  show "take (length (padded_message p) - unat (last (padded_message p)) - 1) (padded_message p) = p"
    unfolding l u using b by (simp add: padded_message_def)
qed

lemma transmission:
  assumes "symmetric_ok cr" "mirrored a b" "length p \<le> 2 ^ 28" "unat (write_nonce a) \<le> 2 ^ 24"
  shows "\<exists>c. crypter_encrypt cr a p = Ok (c, a\<lparr>write_nonce := write_nonce a + 1\<rparr>) \<and>
    crypter_decrypt cr b c = (Ok p, b\<lparr>read_nonce := read_nonce b + 1\<rparr>)"
proof -
  let ?iv = "replicate 8 0 @ to_be_bytes (write_nonce a)"
  have "length (padded_message p) < 2 ^ 36 - 31"
    using assms(3) padded_size_bounds(2) [of "length p"] by (simp add: unpadded_message(1))
  then obtain c where c: "nc_encrypt cr (write_key a) ?iv [] (padded_message p) = Some c"
    using noise_symmetric.encrypts [OF assms(1), of "write_key a" ?iv "[]" "padded_message p"] assms(2)
    by (auto simp: mirrored_def to_be_bytes_def)
  have nonce: "Nonce_next (write_nonce a) = Ok (?iv, write_nonce a + 1)" using Nonce_next_Ok [OF assms(4)] .
  have "crypter_encrypt cr a p = Ok (c, a\<lparr>write_nonce := write_nonce a + 1\<rparr>)"
    unfolding crypter_encrypt_def Let_def padded_message_eq
    using assms(3) by (simp add: nonce aes_256_gcm_seal_in_place_def c)
  moreover have "crypter_decrypt cr b c = (Ok p, b\<lparr>read_nonce := read_nonce b + 1\<rparr>)"
    using assms(2) nonce noise_symmetric.decrypts [OF assms(1) c] unpadded_message [of p]
    by (simp add: crypter_decrypt_def mirrored_def aes_256_gcm_open_in_place_def)
  ultimately show ?thesis by blast
qed

text \<open>A conversation: each message goes from the first side to the second or back.\<close>

fun converse_with ::
  "('h, 'z) noise_crates_scheme \<Rightarrow> Crypter \<Rightarrow> Crypter \<Rightarrow> (bool \<times> bytes) list
     \<Rightarrow> (bytes list \<times> Crypter \<times> Crypter, noise_error) result" where
  "converse_with cr a b [] = Ok ([], a, b)"
| "converse_with cr a b ((forth, p) # es) =
     (if forth then
        and_then (crypter_encrypt cr a p) (\<lambda>(c, a).
        and_then (fst (crypter_decrypt cr b c)) (\<lambda>q.
        and_then (converse_with cr a (snd (crypter_decrypt cr b c)) es) (\<lambda>(qs, a, b). Ok (q # qs, a, b))))
      else
        and_then (crypter_encrypt cr b p) (\<lambda>(c, b).
        and_then (fst (crypter_decrypt cr a c)) (\<lambda>q.
        and_then (converse_with cr (snd (crypter_decrypt cr a c)) b es) (\<lambda>(qs, a, b). Ok (q # qs, a, b)))))"

lemma mirrored_sym: "mirrored a b \<longleftrightarrow> mirrored b a"
  by (auto simp: mirrored_def)

lemma mirrored_step:
  "mirrored a b \<Longrightarrow> mirrored (a\<lparr>write_nonce := write_nonce a + 1\<rparr>) (b\<lparr>read_nonce := read_nonce b + 1\<rparr>)"
  "mirrored a b \<Longrightarrow> mirrored (a\<lparr>read_nonce := read_nonce a + 1\<rparr>) (b\<lparr>write_nonce := write_nonce b + 1\<rparr>)"
  by (auto simp: mirrored_def)

lemma unat_next: "unat (i :: u32) \<le> 2 ^ 24 \<Longrightarrow> unat (i + 1) = unat i + 1"
  by (simp add: unat_word_ariths)

lemma conversation:
  assumes "symmetric_ok cr" "mirrored a b" "\<forall>e \<in> set es. length (snd e) \<le> 2 ^ 28"
    and "unat (write_nonce a) + length es \<le> 2 ^ 24 + 1" "unat (write_nonce b) + length es \<le> 2 ^ 24 + 1"
  shows "\<exists>a' b'. converse_with cr a b es = Ok (map snd es, a', b') \<and> mirrored a' b'"
  using assms(2-5)
proof (induction es arbitrary: a b)
  case (Cons e es)
  obtain forth p where e: "e = (forth, p)" by (cases e)
  show ?case
  proof (cases forth)
    case True
    obtain c where "crypter_encrypt cr a p = Ok (c, a\<lparr>write_nonce := write_nonce a + 1\<rparr>)"
      "crypter_decrypt cr b c = (Ok p, b\<lparr>read_nonce := read_nonce b + 1\<rparr>)"
      using transmission [OF assms(1) Cons.prems(1), of p] Cons.prems e by auto
    moreover obtain a' b' where "converse_with cr (a\<lparr>write_nonce := write_nonce a + 1\<rparr>)
        (b\<lparr>read_nonce := read_nonce b + 1\<rparr>) es = Ok (map snd es, a', b')" "mirrored a' b'"
      using Cons.IH [OF mirrored_step(1) [OF Cons.prems(1)]] Cons.prems unat_next [of "write_nonce a"] by auto
    ultimately show ?thesis using e True by simp
  next
    case False
    have m: "mirrored b a" using Cons.prems(1) by (simp add: mirrored_sym)
    obtain c where "crypter_encrypt cr b p = Ok (c, b\<lparr>write_nonce := write_nonce b + 1\<rparr>)"
      "crypter_decrypt cr a c = (Ok p, a\<lparr>read_nonce := read_nonce a + 1\<rparr>)"
      using transmission [OF assms(1) m, of p] Cons.prems e by auto
    moreover obtain a' b' where "converse_with cr (a\<lparr>read_nonce := read_nonce a + 1\<rparr>)
        (b\<lparr>write_nonce := write_nonce b + 1\<rparr>) es = Ok (map snd es, a', b')" "mirrored a' b'"
      using Cons.IH [OF mirrored_step(2) [OF Cons.prems(1)]] Cons.prems unat_next [of "write_nonce b"] by auto
    ultimately show ?thesis using e False by simp
  qed
qed simp

section \<open>Nonces\<close>

fun send_all ::
  "('h, 'z) noise_crates_scheme \<Rightarrow> Crypter \<Rightarrow> bytes list \<Rightarrow> (bytes list \<times> Crypter, noise_error) result" where
  "send_all cr a [] = Ok ([], a)"
| "send_all cr a (p # ps) =
     and_then (crypter_encrypt cr a p) (\<lambda>(c, a). and_then (send_all cr a ps) (\<lambda>(cs, a). Ok (c # cs, a)))"

lemma to_be_bytes_inj: "to_be_bytes m = to_be_bytes n \<Longrightarrow> m = n"
proof (rule bit_eqI)
  fix i assume eq: "to_be_bytes m = to_be_bytes n" and "possible_bit TYPE(u32) i"
  then have "i < 32" by simp
  have b: "bit (ucast (drop_bit k m) :: u8) j = bit (ucast (drop_bit k n) :: u8) j" if "k \<in> {0, 8, 16, 24}" for k j
    using eq that by (auto simp: to_be_bytes_def)
  have bits: "bit m (k + j) = bit n (k + j)" if "k \<in> {0, 8, 16, 24}" "j < 8" for k j
    using b [OF that(1), of j] that(2) by (simp add: bit_simps)
  have "i div 8 = 0 \<or> i div 8 = 1 \<or> i div 8 = 2 \<or> i div 8 = 3" using \<open>i < 32\<close> by presburger
  with bits [of "8 * (i div 8)" "i mod 8"] show "bit m i = bit n i" by auto
qed

lemma crypter_encrypt_nonce:
  assumes "crypter_encrypt cr a p = Ok (c, a')"
  shows "unat (write_nonce a) \<le> 2 ^ 24" "a' = a\<lparr>write_nonce := write_nonce a + 1\<rparr>"
    "nc_encrypt cr (write_key a) (replicate 8 0 @ to_be_bytes (write_nonce a)) [] (padded_message p) = Some c"
proof -
  have le: "\<not> MAX_SEQUENCE < write_nonce a" and c: "length p \<le> 2 ^ 28"
    using assms by (auto simp: crypter_encrypt_def Nonce_next_def Let_def split: if_splits)
  show n: "unat (write_nonce a) \<le> 2 ^ 24"
    using le by (simp add: MAX_SEQUENCE_def word_less_nat_alt push_bit_eq_mult)
  have "crypter_encrypt cr a p = and_then (expect (nc_encrypt cr (write_key a)
      (replicate 8 0 @ to_be_bytes (write_nonce a)) [] (padded_message p)) ''unwrap'')
      (\<lambda>ciphertext. Ok (ciphertext, a\<lparr>write_nonce := write_nonce a + 1\<rparr>))"
    unfolding crypter_encrypt_def Let_def padded_message_eq using c
    by (simp add: Nonce_next_Ok [OF n] aes_256_gcm_seal_in_place_def)
  with assms show "a' = a\<lparr>write_nonce := write_nonce a + 1\<rparr>"
    "nc_encrypt cr (write_key a) (replicate 8 0 @ to_be_bytes (write_nonce a)) [] (padded_message p) = Some c"
    by (auto simp: result_simps)
qed

lemma send_all_nonces:
  assumes "send_all cr a ps = Ok (cs, a')"
  shows "length cs = length ps \<and> (ps \<noteq> [] \<longrightarrow> unat (write_nonce a) + length ps \<le> 2 ^ 24 + 1) \<and>
    (\<forall>k < length ps. nc_encrypt cr (write_key a) (replicate 8 0 @ to_be_bytes (write_nonce a + word_of_nat k)) []
       (padded_message (ps ! k)) = Some (cs ! k))"
  using assms
proof (induction ps arbitrary: a cs)
  case (Cons p ps)
  from Cons.prems obtain c b cs' where c: "crypter_encrypt cr a p = Ok (c, b)" "send_all cr b ps = Ok (cs', a')"
    and cs: "cs = c # cs'"
    by (auto simp: result_simps)
  note enc = crypter_encrypt_nonce [OF c(1)]
  note IH = Cons.IH [OF c(2)]
  have "unat (write_nonce b) = unat (write_nonce a) + 1" using enc unat_next by simp
  then have "unat (write_nonce a) + length (p # ps) \<le> 2 ^ 24 + 1" using IH enc(1) by (cases "ps = []") auto
  moreover have "nc_encrypt cr (write_key a) (replicate 8 0 @ to_be_bytes (write_nonce a + word_of_nat k)) []
       (padded_message ((p # ps) ! k)) = Some (cs ! k)" if "k < length (p # ps)" for k
    using that enc IH cs by (cases k) (simp_all add: add.assoc)
  ultimately show ?case using IH cs by simp
qed simp

section \<open>An instance\<close>

text \<open>A toy group with addition as exchange, and a cipher that appends a tag.\<close>

definition demo_noise_crates :: "bytes noise_crates" where
  "demo_noise_crates = \<lparr>nc_sha256 = (\<lambda>bs. take 32 (bs @ replicate 32 0)),
     nc_hkdf = (\<lambda>salt ikm info n. Some (take n (ikm @ replicate n 5))),
     nc_encrypt = (\<lambda>k iv a p. Some (p @ [7])), nc_decrypt = (\<lambda>k iv a c. if c = [] then None else Some (butlast c)),
     scalar_from_repr = (\<lambda>bs. if length bs = 32 then Some bs else None), scalar_is_zero = list_all (\<lambda>b. b = 0),
     mul_by_generator = id, to_encoded_point = (\<lambda>p. 4 # p @ replicate 32 0),
     encoded_from_bytes = Some, from_encoded_point = (\<lambda>e. Some (take 32 (drop 1 e))),
     point_mul = map2 (+), point_x = Some\<rparr>"

interpretation demo_symmetric: noise_symmetric "nc_sha256 demo_noise_crates" "nc_hkdf demo_noise_crates" "nc_encrypt demo_noise_crates"
  "nc_decrypt demo_noise_crates"
  by unfold_locales (auto simp: demo_noise_crates_def)

interpretation demo_exchange: p256_exchange "scalar_from_repr demo_noise_crates" "scalar_is_zero demo_noise_crates"
  "mul_by_generator demo_noise_crates" "to_encoded_point demo_noise_crates" "encoded_from_bytes demo_noise_crates"
  "from_encoded_point demo_noise_crates" "point_mul demo_noise_crates" "point_x demo_noise_crates"
proof unfold_locales
  fix s t :: bytes
  have "map2 (+) s t = map2 (+) t s" if "length s = length t"
    using that by (induction s t rule: list_induct2) (simp_all add: add.commute)
  then show "\<exists>x. point_x demo_noise_crates (point_mul demo_noise_crates (mul_by_generator demo_noise_crates s) t) = Some x \<and>
      point_x demo_noise_crates (point_mul demo_noise_crates (mul_by_generator demo_noise_crates t) s) = Some x \<and> length x = 32"
    if "scalar_from_repr demo_noise_crates bs = Some s" "scalar_from_repr demo_noise_crates cs = Some t" for bs cs
    using that by (auto simp: demo_noise_crates_def split: if_splits)
qed (auto simp: demo_noise_crates_def split: if_splits)

section \<open>Properties\<close>

text \<open>C15. The handshake, in either pattern, runs to its end on both sides without a panic: initiator
  and responder compute the same handshake hash, and what one side writes with is what the other
  reads with.\<close>
theorem noise_handshake_agrees:
  assumes "symmetric_ok cr" "exchange_ok cr"
    and "P256Scalar_try_from cr identity = Ok s" "compute_public_key cr s = Ok ps"
  shows "(\<exists>self msg self' r cl. new_nk cr ps = Ok self \<and> build_initial_message cr self = Ok (msg, self') \<and>
      respond_nk cr identity msg = Ok r \<and>
      process_response cr self' (resp_response r) = Ok (resp_handshake_hash r, cl) \<and> mirrored cl (resp_crypter r)) \<and>
    (\<exists>self msg self' r cl. new_nn cr = Ok self \<and> build_initial_message cr self = Ok (msg, self') \<and>
      respond_nn cr msg = Ok r \<and>
      process_response cr self' (resp_response r) = Ok (resp_handshake_hash r, cl) \<and> mirrored cl (resp_crypter r))"
  using nk_agrees [OF assms] nn_agrees [OF assms(1,2)] by blast

theorem noise_handshake_agrees_witness:
  "\<exists>msg r. respond_nk demo_noise_crates (replicate 32 3) msg = Ok r \<and> length msg = 66"
proof -
  have "P256Scalar_try_from demo_noise_crates (replicate 32 3) = Ok (replicate 32 3)"
    "compute_public_key demo_noise_crates (replicate 32 3) = Ok (4 # replicate 32 3 @ replicate 32 0)"
    by (simp_all add: P256Scalar_try_from_def compute_public_key_def demo_noise_crates_def Let_def
        list_all_iff)
  from noise_handshake_agrees [OF demo_symmetric.noise_symmetric_axioms demo_exchange.p256_exchange_axioms this]
  obtain self msg self' r where m: "build_initial_message demo_noise_crates self = Ok (msg, self')"
    "respond_nk demo_noise_crates (replicate 32 3) msg = Ok r" by blast
  have "length msg = 66"
    using m(1) by (auto simp: build_initial_message_def compute_public_key_def encrypt_and_hash_def
        aes_256_gcm_seal_in_place_def next_nonce_def demo_noise_crates_def Let_def result_simps
        split: if_splits)
  with m(2) show ?thesis by blast
qed

text \<open>C16. Traffic: whatever two sides with mirrored keys and counters send to each other, in any
  order, is delivered as it was sent, up to the limit on messages of each direction, and the two
  sides stay mirrored.\<close>
theorem noise_session_delivers:
  assumes "symmetric_ok cr" "mirrored a b" "\<forall>e \<in> set es. length (snd e) \<le> 2 ^ 28"
    and "unat (write_nonce a) + length es \<le> 2 ^ 24 + 1" "unat (write_nonce b) + length es \<le> 2 ^ 24 + 1"
  shows "\<exists>a' b'. converse_with cr a b es = Ok (map snd es, a', b') \<and> mirrored a' b'"
  by (rule conversation [OF assms])

theorem noise_session_delivers_witness:
  "\<exists>a' b'. converse_with demo_noise_crates (Crypter_new (replicate 32 1) (replicate 32 2))
     (Crypter_new (replicate 32 2) (replicate 32 1)) [(True, [10, 11]), (False, []), (True, [12])] = Ok ([[10, 11], [], [12]], a', b') \<and> mirrored a' b'"
  using noise_session_delivers [OF demo_symmetric.noise_symmetric_axioms,
      of "Crypter_new (replicate 32 1) (replicate 32 2)" "Crypter_new (replicate 32 2) (replicate 32 1)" "[(True, [10, 11]), (False, []), (True, [12])]"]
  by (simp add: mirrored_def Crypter_new_def)

text \<open>C33. A fresh crypter never encrypts two messages under the same nonce, and stops before its
  counter could repeat.\<close>
theorem noise_nonces_unique:
  assumes "send_all cr (Crypter_new rk wk) ps = Ok (cs, a)"
  shows "length ps \<le> 2 ^ 24 + 1 \<and> length cs = length ps \<and>
    (\<exists>ns. distinct ns \<and> length ns = length ps \<and>
      (\<forall>k < length ps. nc_encrypt cr wk (ns ! k) [] (padded_message (ps ! k)) = Some (cs ! k)))"
proof -
  let ?ns = "map (\<lambda>k. replicate 8 0 @ to_be_bytes (word_of_nat k)) [0..<length ps]"
  have s: "length cs = length ps" "length ps \<le> 2 ^ 24 + 1"
    "\<forall>k < length ps. nc_encrypt cr wk (replicate 8 0 @ to_be_bytes (word_of_nat k)) [] (padded_message (ps ! k)) = Some (cs ! k)"
    using send_all_nonces [OF assms] by (auto simp: Crypter_new_def)
  have "inj_on (\<lambda>k. replicate 8 0 @ to_be_bytes (word_of_nat k)) {0..<length ps}"
  proof (rule inj_onI)
    fix j k assume "j \<in> {0..<length ps}" "k \<in> {0..<length ps}"
      "replicate 8 0 @ to_be_bytes (word_of_nat j) = replicate 8 0 @ to_be_bytes (word_of_nat k)"
    then have "(word_of_nat j :: u32) = word_of_nat k" "j < 2 ^ 32" "k < 2 ^ 32"
      using to_be_bytes_inj s(2) by auto
    then have "unat (word_of_nat j :: u32) = unat (word_of_nat k :: u32)" "j < 2 ^ 32" "k < 2 ^ 32" by simp_all
    then show "j = k" by (simp add: unat_of_nat)
  qed
  then have "distinct ?ns" by (simp add: distinct_map)
  with s show ?thesis by (intro conjI exI [of _ ?ns]) simp_all
qed

theorem noise_nonces_unique_witness:
  "\<exists>cs a ns. send_all demo_noise_crates (Crypter_new (replicate 32 1) (replicate 32 2)) [[1], [1]] = Ok (cs, a) \<and> distinct ns \<and> length ns = 2 \<and>
     nc_encrypt demo_noise_crates (replicate 32 2) (ns ! 0) [] (padded_message [1]) = Some (cs ! 0) \<and>
     nc_encrypt demo_noise_crates (replicate 32 2) (ns ! 1) [] (padded_message [1]) = Some (cs ! 1)"
proof -
  let ?a = "Crypter_new (replicate 32 1) (replicate 32 2)" and ?b = "Crypter_new (replicate 32 2) (replicate 32 1)"
  have m: "mirrored ?a ?b" by (simp add: mirrored_def Crypter_new_def)
  note t = transmission [OF demo_symmetric.noise_symmetric_axioms]
  obtain c where c: "crypter_encrypt demo_noise_crates ?a [1] = Ok (c, ?a\<lparr>write_nonce := write_nonce ?a + 1\<rparr>)"
    using t [OF m, of "[1]"] by (auto simp: Crypter_new_def)
  obtain d a where d: "crypter_encrypt demo_noise_crates (?a\<lparr>write_nonce := write_nonce ?a + 1\<rparr>) [1] = Ok (d, a)"
    using t [OF mirrored_step(1) [OF m], of "[1]"] by (auto simp: Crypter_new_def)
  have sent: "send_all demo_noise_crates ?a [[1], [1]] = Ok ([c, d], a)" using c d by simp
  from noise_nonces_unique [OF sent] obtain ns where ns: "distinct ns" "length ns = 2"
    "\<forall>k < 2. nc_encrypt demo_noise_crates (replicate 32 2) (ns ! k) [] (padded_message ([[1], [1]] ! k)) = Some ([c, d] ! k)"
    by auto
  from ns(3) have "nc_encrypt demo_noise_crates (replicate 32 2) (ns ! 0) [] (padded_message [1]) = Some c"
    "nc_encrypt demo_noise_crates (replicate 32 2) (ns ! 1) [] (padded_message [1]) = Some d"
    by (auto dest: spec [of _ 0] spec [of _ 1])
  with sent ns show ?thesis by (intro exI [of _ "[c, d]"] exI [of _ a] exI [of _ ns]) simp
qed

end
