(* ===== verification/Oak_Frames.thy ===== *)
theory Oak_Frames
  imports Oak_Prelude
begin

text \<open>
  The physical memory allocators of the restricted kernel: the bitmap allocator
  (\<^verbatim>\<open>oak_restricted_kernel/src/mm/bitmap_frame_allocator.rs\<close>) and the allocator of 2 MiB and
  4 KiB frames on top of it (\<^verbatim>\<open>frame_allocator.rs\<close>). The bit arrays of the
  \<^verbatim>\<open>bitvec\<close> crate are a parameter. A frame is its start address, the page size an argument; as in
  the \<^verbatim>\<open>x86_64\<close> crate, an address of more than 52 bits is a panic.
\<close>

record 'b bit_crates =
  bits_zero :: "nat \<Rightarrow> 'b"
  bits_len :: "'b \<Rightarrow> nat"
  bits_get :: "'b \<Rightarrow> nat \<Rightarrow> bool"
  bits_set :: "'b \<Rightarrow> nat \<Rightarrow> bool \<Rightarrow> 'b"
  bits_fill :: "'b \<Rightarrow> nat \<Rightarrow> nat \<Rightarrow> bool \<Rightarrow> 'b"
  bits_and :: "'b \<Rightarrow> 'b \<Rightarrow> 'b"
  bits_not :: "'b \<Rightarrow> 'b"
  first_one :: "'b \<Rightarrow> nat option"
  mem_elts :: "nat \<Rightarrow> nat"

locale bit_array =
  fixes zero :: "nat \<Rightarrow> 'b" and len :: "'b \<Rightarrow> nat" and get :: "'b \<Rightarrow> nat \<Rightarrow> bool"
    and set_bit :: "'b \<Rightarrow> nat \<Rightarrow> bool \<Rightarrow> 'b" and fill :: "'b \<Rightarrow> nat \<Rightarrow> nat \<Rightarrow> bool \<Rightarrow> 'b"
    and both :: "'b \<Rightarrow> 'b \<Rightarrow> 'b" and flipped :: "'b \<Rightarrow> 'b" and first :: "'b \<Rightarrow> nat option"
    and elts :: "nat \<Rightarrow> nat"
  assumes zero_bits: "len (zero n) = 64 * n" "\<not> get (zero n) i"
    and set_bits: "i < len b \<Longrightarrow> len (set_bit b i v) = len b"
      "i < len b \<Longrightarrow> get (set_bit b i v) j \<longleftrightarrow> (if j = i then v else get b j)"
    and fill_bits: "s \<le> e \<Longrightarrow> e \<le> len b \<Longrightarrow> len (fill b s e v) = len b"
      "s \<le> e \<Longrightarrow> e \<le> len b \<Longrightarrow> get (fill b s e v) j \<longleftrightarrow> (if s \<le> j \<and> j < e then v else get b j)"
    and both_bits: "len a = len b \<Longrightarrow> len (both a b) = len a"
      "len a = len b \<Longrightarrow> j < len a \<Longrightarrow> get (both a b) j \<longleftrightarrow> get a j \<and> get b j"
    and flipped_bits: "len (flipped b) = len b" "j < len b \<Longrightarrow> get (flipped b) j \<longleftrightarrow> \<not> get b j"
    and first_some: "first b = Some i \<Longrightarrow> i < len b \<and> get b i"
    and first_none: "first b = None \<Longrightarrow> i < len b \<Longrightarrow> \<not> get b i"
    and enough_elts: "n \<le> 64 * elts n"

abbreviation bits_ok :: "('b, 'z) bit_crates_scheme \<Rightarrow> bool" where
  "bits_ok cr \<equiv> bit_array (bits_zero cr) (bits_len cr) (bits_get cr) (bits_set cr) (bits_fill cr) (bits_and cr)
     (bits_not cr) (first_one cr) (mem_elts cr)"

section \<open>The bitmap allocator\<close>

type_synonym 'a outcome = "('a, string) result"

text \<open>\<^verbatim>\<open>PhysFrame + u64\<close>.\<close>

definition frame_plus :: "nat \<Rightarrow> nat \<Rightarrow> nat \<Rightarrow> nat outcome" where
  "frame_plus sz f n = (if f + n * sz < 2 ^ 52 then Ok (f + n * sz) else panic ''physical address out of range'')"

record 'b bitmap_allocator =
  ba_allocated :: 'b
  ba_valid :: 'b
  range_start :: nat
  range_end :: nat

definition bitmap_new :: "('b, 'z) bit_crates_scheme \<Rightarrow> nat \<Rightarrow> nat \<Rightarrow> nat \<times> nat \<Rightarrow> 'b bitmap_allocator outcome" where
  "bitmap_new cr sz n frames =
     (if snd frames < fst frames then panic ''attempt to subtract with overflow''
      else if mem_elts cr ((snd frames - fst frames) div sz) \<noteq> n
      then panic ''BitmapAllocator bitmap size does not match FrameRange size''
      else Ok \<lparr>ba_allocated = bits_zero cr n, ba_valid = bits_zero cr n,
        range_start = fst frames, range_end = snd frames\<rparr>)"

definition frame_of_idx :: "nat \<Rightarrow> 'b bitmap_allocator \<Rightarrow> nat \<Rightarrow> nat option outcome" where
  "frame_of_idx sz a idx =
     and_then (frame_plus sz (range_start a) idx) (\<lambda>f. Ok (if range_end a < f then None else Some f))"

definition frame_idx :: "nat \<Rightarrow> 'b bitmap_allocator \<Rightarrow> nat \<Rightarrow> nat option" where
  "frame_idx sz a f =
     (if f < range_start a \<or> f > range_end a then None else Some ((f - range_start a) div sz))"

definition mark_valid ::
  "('b, 'z) bit_crates_scheme \<Rightarrow> nat \<Rightarrow> 'b bitmap_allocator \<Rightarrow> nat \<times> nat \<Rightarrow> bool \<Rightarrow> 'b bitmap_allocator outcome" where
  "mark_valid cr sz a frames v =
     (case (frame_idx sz a (fst frames), frame_idx sz a (snd frames)) of
        (Some i, Some j) \<Rightarrow>
          if i \<le> j \<and> j \<le> bits_len cr (ba_valid a) then Ok (a\<lparr>ba_valid := bits_fill cr (ba_valid a) i j v\<rparr>)
          else panic ''unwrap''
      | _ \<Rightarrow> panic ''Can't mark validity for frame range that's outside our range'')"

definition available :: "('b, 'z) bit_crates_scheme \<Rightarrow> 'b bitmap_allocator \<Rightarrow> 'b" where
  "available cr a = bits_and cr (ba_valid a) (bits_not cr (ba_allocated a))"

definition allocate ::
  "('b, 'z) bit_crates_scheme \<Rightarrow> nat \<Rightarrow> 'b bitmap_allocator \<Rightarrow> nat \<times> nat
     \<Rightarrow> ((nat \<times> nat) option \<times> 'b bitmap_allocator) outcome" where
  "allocate cr sz a frames =
     (case (frame_idx sz a (fst frames), frame_idx sz a (snd frames)) of
        (Some i, Some j) \<Rightarrow>
          if \<not> (i \<le> j \<and> j \<le> bits_len cr (available cr a)) then panic ''range out of bounds''
          else if \<not> list_all (bits_get cr (available cr a)) [i..<j] then Ok (None, a)
          else Ok (Some frames, a\<lparr>ba_allocated := bits_fill cr (ba_allocated a) i j True\<rparr>)
      | _ \<Rightarrow> panic ''Can't allocate frame range that's outside our range'')"

definition allocate_contiguous ::
  "('b, 'z) bit_crates_scheme \<Rightarrow> nat \<Rightarrow> 'b bitmap_allocator \<Rightarrow> nat
     \<Rightarrow> ((nat \<times> nat) option \<times> 'b bitmap_allocator) outcome" where
  "allocate_contiguous cr sz a num =
     (if num = 0 then panic ''view width cannot be 0''
      else
        case find (\<lambda>i. list_all (bits_get cr (available cr a)) [i..<i + num])
          [0..<bits_len cr (available cr a) + 1 - num] of
          None \<Rightarrow> Ok (None, a)
        | Some i \<Rightarrow>
            and_then (and_then (frame_of_idx sz a i) (\<lambda>f. expect f ''unwrap'')) (\<lambda>s.
            and_then (and_then (frame_of_idx sz a (i + num)) (\<lambda>f. expect f ''unwrap'')) (\<lambda>e.
            allocate cr sz a (s, e))))"

definition allocate_frame ::
  "('b, 'z) bit_crates_scheme \<Rightarrow> nat \<Rightarrow> 'b bitmap_allocator \<Rightarrow> (nat option \<times> 'b bitmap_allocator) outcome" where
  "allocate_frame cr sz a =
     (case first_one cr (bits_and cr (ba_valid a) (bits_not cr (ba_allocated a))) of
        None \<Rightarrow> Ok (None, a)
      | Some i \<Rightarrow>
          let a = a\<lparr>ba_allocated := bits_set cr (ba_allocated a) i True\<rparr> in
          and_then (frame_of_idx sz a i) (\<lambda>f. Ok (f, a)))"

definition deallocate_frame ::
  "('b, 'z) bit_crates_scheme \<Rightarrow> nat \<Rightarrow> 'b bitmap_allocator \<Rightarrow> nat \<Rightarrow> 'b bitmap_allocator outcome" where
  "deallocate_frame cr sz a f =
     (case frame_idx sz a f of
        None \<Rightarrow> panic ''can't deallocate frame that's outside our range''
      | Some i \<Rightarrow>
          if i \<ge> bits_len cr (ba_valid a) then panic ''index out of bounds''
          else if \<not> bits_get cr (ba_valid a) i then panic ''frame is not valid in this allocator''
          else if i \<ge> bits_len cr (ba_allocated a) then panic ''index out of bounds''
          else if \<not> bits_get cr (ba_allocated a) i then panic ''frame was not allocated in this allocator''
          else Ok (a\<lparr>ba_allocated := bits_set cr (ba_allocated a) i False\<rparr>))"

section \<open>Two sizes of frames\<close>

abbreviation Size2MiB :: nat where "Size2MiB \<equiv> 2097152"

abbreviation Size4KiB :: nat where "Size4KiB \<equiv> 4096"

record 'b physical_memory_allocator =
  large_frames :: "'b bitmap_allocator"
  small_frames :: "'b bitmap_allocator option"

definition new_range :: "('b, 'z) bit_crates_scheme \<Rightarrow> nat \<Rightarrow> nat \<times> nat \<Rightarrow> 'b physical_memory_allocator outcome" where
  "new_range cr n frames =
     and_then (bitmap_new cr Size2MiB n frames) (\<lambda>large. Ok \<lparr>large_frames = large, small_frames = None\<rparr>)"

definition small_allocator ::
  "('b, 'z) bit_crates_scheme \<Rightarrow> 'b physical_memory_allocator
     \<Rightarrow> ('b bitmap_allocator \<times> 'b physical_memory_allocator) outcome" where
  "small_allocator cr m =
     (case small_frames m of
        Some a \<Rightarrow> Ok (a, m)
      | None \<Rightarrow>
          and_then (allocate_frame cr Size2MiB (large_frames m)) (\<lambda>(f, large).
          and_then (expect f ''unwrap'') (\<lambda>f.
          and_then (if f + Size2MiB < 2 ^ 52 then Ok (f, f + Size2MiB) else panic ''physical address out of range'') (\<lambda>frames.
          and_then (bitmap_new cr Size4KiB 8 frames) (\<lambda>alloc.
          and_then (mark_valid cr Size4KiB alloc frames True) (\<lambda>alloc.
          Ok (alloc, m\<lparr>large_frames := large\<rparr>)))))))"

definition allocate_small_frame ::
  "('b, 'z) bit_crates_scheme \<Rightarrow> 'b physical_memory_allocator
     \<Rightarrow> (nat option \<times> 'b physical_memory_allocator) outcome" where
  "allocate_small_frame cr m =
     and_then (small_allocator cr m) (\<lambda>(alloc, m).
     and_then (allocate_frame cr Size4KiB alloc) (\<lambda>(f, alloc). Ok (f, m\<lparr>small_frames := Some alloc\<rparr>)))"

definition deallocate_small_frame ::
  "('b, 'z) bit_crates_scheme \<Rightarrow> 'b physical_memory_allocator \<Rightarrow> nat \<Rightarrow> 'b physical_memory_allocator outcome" where
  "deallocate_small_frame cr m f =
     and_then (expect (small_frames m) ''unwrap'') (\<lambda>alloc.
     and_then (deallocate_frame cr Size4KiB alloc f) (\<lambda>alloc. Ok (m\<lparr>small_frames := Some alloc\<rparr>)))"

section \<open>The bitmap allocator as two sets of frames\<close>

definition usable :: "('b, 'z) bit_crates_scheme \<Rightarrow> nat \<Rightarrow> 'b bitmap_allocator \<Rightarrow> nat set" where
  "usable cr sz a = {range_start a + i * sz | i. i < bits_len cr (ba_valid a) \<and> bits_get cr (ba_valid a) i}"

definition in_use :: "('b, 'z) bit_crates_scheme \<Rightarrow> nat \<Rightarrow> 'b bitmap_allocator \<Rightarrow> nat set" where
  "in_use cr sz a = {range_start a + i * sz | i. i < bits_len cr (ba_allocated a) \<and> bits_get cr (ba_allocated a) i}"

definition bitmap_ok :: "('b, 'z) bit_crates_scheme \<Rightarrow> nat \<Rightarrow> 'b bitmap_allocator \<Rightarrow> bool" where
  "bitmap_ok cr sz a \<longleftrightarrow> 0 < sz \<and> range_start a \<le> range_end a \<and> range_end a < 2 ^ 52 \<and>
     sz dvd range_end a - range_start a \<and> bits_len cr (ba_allocated a) = bits_len cr (ba_valid a) \<and>
     (range_end a - range_start a) div sz \<le> bits_len cr (ba_valid a) \<and>
     (\<forall>i < bits_len cr (ba_valid a). bits_get cr (ba_valid a) i \<longrightarrow> i < (range_end a - range_start a) div sz)"

lemma frame_in_range:
  assumes "bitmap_ok cr sz a" "i \<le> (range_end a - range_start a) div sz"
  shows "frame_of_idx sz a i = Ok (Some (range_start a + i * sz))" "range_start a + i * sz \<le> range_end a"
    "frame_idx sz a (range_start a + i * sz) = Some i"
proof -
  have "i * sz \<le> (range_end a - range_start a) div sz * sz" using assms(2) by simp
  also have "\<dots> = range_end a - range_start a" using assms(1) by (simp add: bitmap_ok_def)
  finally have le: "range_start a + i * sz \<le> range_end a" using assms(1) unfolding bitmap_ok_def by linarith
  then show "range_start a + i * sz \<le> range_end a" .
  from le assms(1) show "frame_of_idx sz a i = Ok (Some (range_start a + i * sz))"
    "frame_idx sz a (range_start a + i * sz) = Some i"
    by (simp_all add: frame_of_idx_def frame_plus_def frame_idx_def bitmap_ok_def)
qed

lemma available_bits:
  assumes "bits_ok cr" "bitmap_ok cr sz a"
  shows "bits_len cr (available cr a) = bits_len cr (ba_valid a)"
    and "i < bits_len cr (ba_valid a) \<Longrightarrow>
      bits_get cr (available cr a) i \<longleftrightarrow> bits_get cr (ba_valid a) i \<and> \<not> bits_get cr (ba_allocated a) i"
  using assms(2) bit_array.both_bits [OF assms(1)] bit_array.flipped_bits [OF assms(1)]
  by (simp_all add: available_def bitmap_ok_def)

lemma frame_at_inj: "0 < sz \<Longrightarrow> s + i * sz = s + j * sz \<longleftrightarrow> i = (j :: nat)"
  by simp

lemma free_frame:
  assumes "bits_ok cr" "bitmap_ok cr sz a" "i < bits_len cr (ba_valid a)"
  shows "range_start a + i * sz \<in> usable cr sz a - in_use cr sz a \<longleftrightarrow> bits_get cr (available cr a) i"
  using assms(2,3) available_bits [OF assms(1,2)]
  by (auto simp: usable_def in_use_def bitmap_ok_def)

lemma allocate_frame_sets:
  assumes "bits_ok cr" "bitmap_ok cr sz a"
  shows "case allocate_frame cr sz a of
      Inr (Some f, a') \<Rightarrow> f \<in> usable cr sz a - in_use cr sz a \<and> bitmap_ok cr sz a' \<and>
        usable cr sz a' = usable cr sz a \<and> in_use cr sz a' = insert f (in_use cr sz a) \<and>
        range_start a' = range_start a \<and> range_end a' = range_end a
    | Inr (None, a') \<Rightarrow> a' = a \<and> usable cr sz a \<subseteq> in_use cr sz a
    | Inl _ \<Rightarrow> False"
proof (cases "first_one cr (available cr a)")
  case None
  then have "\<not> bits_get cr (available cr a) i" if "i < bits_len cr (ba_valid a)" for i
    using bit_array.first_none [OF assms(1) None] available_bits(1) [OF assms] that by simp
  then have "usable cr sz a \<subseteq> in_use cr sz a"
    using free_frame [OF assms] by (auto simp: usable_def)
  with None show ?thesis by (simp add: allocate_frame_def available_def)
next
  case (Some i)
  then have i: "i < bits_len cr (ba_valid a)" "bits_get cr (available cr a) i"
    using bit_array.first_some [OF assms(1) Some] available_bits(1) [OF assms] by simp_all
  let ?a = "a\<lparr>ba_allocated := bits_set cr (ba_allocated a) i True\<rparr>"
  have len: "i < bits_len cr (ba_allocated a)" using i assms(2) by (simp add: bitmap_ok_def)
  note set_it = bit_array.set_bits [OF assms(1) len]
  have ok: "bitmap_ok cr sz ?a" using assms(2) set_it by (simp add: bitmap_ok_def)
  have "i < (range_end a - range_start a) div sz"
    using i available_bits(2) [OF assms i(1)] assms(2) by (auto simp: bitmap_ok_def)
  then have f: "frame_of_idx sz ?a i = Ok (Some (range_start a + i * sz))" using frame_in_range(1) [OF ok, of i] by simp
  have use_it: "in_use cr sz ?a = insert (range_start a + i * sz) (in_use cr sz a)"
    using len set_it by (auto simp: in_use_def)
  from Some f have "allocate_frame cr sz a = Ok (Some (range_start a + i * sz), ?a)"
    by (simp add: allocate_frame_def available_def Let_def)
  with ok use_it i free_frame [OF assms i(1)] show ?thesis by (simp add: usable_def)
qed

lemma deallocate_frame_sets:
  assumes "bits_ok cr" "bitmap_ok cr sz a" "f \<in> usable cr sz a" "f \<in> in_use cr sz a"
  shows "\<exists>a'. deallocate_frame cr sz a f = Ok a' \<and> bitmap_ok cr sz a' \<and> usable cr sz a' = usable cr sz a \<and>
    in_use cr sz a' = in_use cr sz a - {f} \<and> range_start a' = range_start a \<and> range_end a' = range_end a"
proof -
  from assms(3) obtain i where i: "f = range_start a + i * sz" "i < bits_len cr (ba_valid a)" "bits_get cr (ba_valid a) i"
    by (auto simp: usable_def)
  then have len: "i < bits_len cr (ba_allocated a)" and idx: "i < (range_end a - range_start a) div sz"
    using assms(2) by (auto simp: bitmap_ok_def)
  have alloc: "bits_get cr (ba_allocated a) i" using assms(2,4) i(1) by (auto simp: in_use_def bitmap_ok_def)
  note set_it = bit_array.set_bits [OF assms(1) len]
  let ?a = "a\<lparr>ba_allocated := bits_set cr (ba_allocated a) i False\<rparr>"
  have "deallocate_frame cr sz a f = Ok ?a"
    using i len alloc frame_in_range(3) [OF assms(2), of i] idx by (simp add: deallocate_frame_def)
  moreover have "bitmap_ok cr sz ?a" using assms(2) set_it by (simp add: bitmap_ok_def)
  moreover have "in_use cr sz ?a = in_use cr sz a - {f}"
    using len set_it assms(2) i(1) by (auto simp: in_use_def bitmap_ok_def)
  ultimately show ?thesis by (simp add: usable_def)
qed

lemma deallocate_frame_panics:
  assumes "bits_ok cr" "bitmap_ok cr sz a" "f \<notin> usable cr sz a \<or> f \<notin> in_use cr sz a" "sz dvd f" "sz dvd range_start a"
  shows "\<exists>m. deallocate_frame cr sz a f = panic m"
proof (cases "frame_idx sz a f")
  case (Some i)
  then have "range_start a \<le> f" and i: "i = (f - range_start a) div sz"
    by (auto simp: frame_idx_def split: if_splits)
  then have f: "f = range_start a + i * sz" using assms(4,5) by (simp add: dvd_diff_nat)
  show ?thesis using assms(2,3) Some f by (auto simp: deallocate_frame_def usable_def in_use_def bitmap_ok_def)
qed (simp add: deallocate_frame_def)

text \<open>The frames of a range.\<close>

definition frames_of :: "nat \<Rightarrow> nat \<Rightarrow> nat \<Rightarrow> nat set" where
  "frames_of sz s n = {s + k * sz | k. k < n}"

lemma run_available:
  assumes "bits_ok cr" "bitmap_ok cr sz a" "i + n \<le> bits_len cr (ba_valid a)"
  shows "list_all (bits_get cr (available cr a)) [i..<i + n] \<longleftrightarrow>
    frames_of sz (range_start a + i * sz) n \<subseteq> usable cr sz a - in_use cr sz a"
proof -
  have "list_all (bits_get cr (available cr a)) [i..<i + n] \<longleftrightarrow>
      (\<forall>k < n. range_start a + (i + k) * sz \<in> usable cr sz a - in_use cr sz a)"
    using assms(3) free_frame [OF assms(1,2)]
    by (auto simp: list_all_iff dest: le_Suc_ex) (metis add_less_cancel_left le_add_diff_inverse less_le_trans)
  also have "\<dots> \<longleftrightarrow> frames_of sz (range_start a + i * sz) n \<subseteq> usable cr sz a - in_use cr sz a"
    by (auto simp: frames_of_def algebra_simps)
  finally show ?thesis .
qed

lemma run_bounded:
  assumes "bits_ok cr" "bitmap_ok cr sz a" "0 < n" "i + n \<le> bits_len cr (ba_valid a)"
    and "list_all (bits_get cr (available cr a)) [i..<i + n]"
  shows "i + n \<le> (range_end a - range_start a) div sz"
proof -
  have "bits_get cr (available cr a) (i + n - 1)" using assms(3,5) by (simp add: list_all_iff)
  then have "bits_get cr (ba_valid a) (i + n - 1)" using available_bits(2) [OF assms(1,2)] assms(3,4) by simp
  then have "i + n - 1 < (range_end a - range_start a) div sz" using assms(2-4) by (simp add: bitmap_ok_def)
  then show ?thesis using assms(3) by simp
qed

lemma allocate_run:
  assumes "bits_ok cr" "bitmap_ok cr sz a" "0 < n" "i + n \<le> bits_len cr (ba_valid a)"
    and "list_all (bits_get cr (available cr a)) [i..<i + n]"
  shows "\<exists>a'. allocate cr sz a (range_start a + i * sz, range_start a + (i + n) * sz) =
      Ok (Some (range_start a + i * sz, range_start a + (i + n) * sz), a') \<and>
    bitmap_ok cr sz a' \<and> usable cr sz a' = usable cr sz a \<and>
    in_use cr sz a' = in_use cr sz a \<union> frames_of sz (range_start a + i * sz) n \<and>
    range_start a' = range_start a \<and> range_end a' = range_end a"
proof -
  let ?a = "a\<lparr>ba_allocated := bits_fill cr (ba_allocated a) i (i + n) True\<rparr>"
  have le: "i + n \<le> bits_len cr (ba_allocated a)" using assms(2,4) by (simp add: bitmap_ok_def)
  note fill = bit_array.fill_bits [OF assms(1) le_add1 le]
  note b = run_bounded [OF assms]
  have "allocate cr sz a (range_start a + i * sz, range_start a + (i + n) * sz) =
      Ok (Some (range_start a + i * sz, range_start a + (i + n) * sz), ?a)"
    using b frame_in_range(3) [OF assms(2), of i] frame_in_range(3) [OF assms(2), of "i + n"] assms(4,5)
    by (simp add: allocate_def available_bits(1) [OF assms(1,2)])
  moreover have "bitmap_ok cr sz ?a" using assms(2) fill by (simp add: bitmap_ok_def)
  moreover have "in_use cr sz ?a = in_use cr sz a \<union> frames_of sz (range_start a + i * sz) n"
  proof -
    have "x \<in> in_use cr sz ?a \<longleftrightarrow> x \<in> in_use cr sz a \<union> {range_start a + j * sz | j. i \<le> j \<and> j < i + n}" for x
      using le fill unfolding in_use_def by (auto simp: less_le_trans)
    moreover have "{range_start a + j * sz | j. i \<le> j \<and> j < i + n} = frames_of sz (range_start a + i * sz) n"
      unfolding frames_of_def
      by (auto simp: algebra_simps intro: exI [of _ "_ + i"] dest!: le_Suc_ex)
    ultimately show ?thesis by blast
  qed
  ultimately show ?thesis by (simp add: usable_def)
qed

lemma allocate_contiguous_sets:
  assumes "bits_ok cr" "bitmap_ok cr sz a" "0 < n"
  shows "case allocate_contiguous cr sz a n of
      Inr (Some (s, e), a') \<Rightarrow> e = s + n * sz \<and> frames_of sz s n \<subseteq> usable cr sz a - in_use cr sz a \<and>
        bitmap_ok cr sz a' \<and> usable cr sz a' = usable cr sz a \<and> in_use cr sz a' = in_use cr sz a \<union> frames_of sz s n \<and>
        range_start a' = range_start a \<and> range_end a' = range_end a
    | Inr (None, a') \<Rightarrow> a' = a \<and> (\<forall>s. \<not> frames_of sz s n \<subseteq> usable cr sz a - in_use cr sz a)
    | Inl _ \<Rightarrow> False"
proof (cases "find (\<lambda>i. list_all (bits_get cr (available cr a)) [i..<i + n])
    [0..<bits_len cr (available cr a) + 1 - n]")
  case None
  then have none: "\<not> list_all (bits_get cr (available cr a)) [i..<i + n]" if "i + n \<le> bits_len cr (ba_valid a)" for i
    using that available_bits(1) [OF assms(1,2)] assms(3) by (auto simp: find_None_iff)
  have "\<not> frames_of sz s n \<subseteq> usable cr sz a - in_use cr sz a" for s
  proof
    assume sub: "frames_of sz s n \<subseteq> usable cr sz a - in_use cr sz a"
    have "s + 0 * sz \<in> frames_of sz s n" "s + (n - 1) * sz \<in> frames_of sz s n"
      using assms(3) unfolding frames_of_def by (blast, force)
    with sub have "s \<in> usable cr sz a" "s + (n - 1) * sz \<in> usable cr sz a" by auto
    then obtain i j where i: "s = range_start a + i * sz" and j: "s + (n - 1) * sz = range_start a + j * sz"
      "j < bits_len cr (ba_valid a)" unfolding usable_def by blast
    then have "(i + (n - 1)) * sz = j * sz" by (simp add: algebra_simps)
    then have "i + n \<le> bits_len cr (ba_valid a)" using j(2) assms(2,3) by (simp add: bitmap_ok_def)
    with none sub i run_available [OF assms(1,2) this] show False by blast
  qed
  with None assms(3) show ?thesis by (simp add: allocate_contiguous_def)
next
  case (Some i)
  then have i: "i + n \<le> bits_len cr (ba_valid a)" "list_all (bits_get cr (available cr a)) [i..<i + n]"
    using available_bits(1) [OF assms(1,2)] assms(3) by (auto simp: find_Some_iff)
  note b = run_bounded [OF assms i]
  have "allocate_contiguous cr sz a n = allocate cr sz a (range_start a + i * sz, range_start a + (i + n) * sz)"
    using Some assms(3) frame_in_range(1) [OF assms(2), of i] frame_in_range(1) [OF assms(2), of "i + n"] b
    by (simp add: allocate_contiguous_def)
  with allocate_run [OF assms i] run_available [OF assms(1,2) i(1)] i(2) show ?thesis
    by (auto simp: algebra_simps)
qed

section \<open>Setting up\<close>

lemma bitmap_new_ok:
  assumes "bits_ok cr" "0 < sz" "sz dvd e - s" "e < 2 ^ 52" "bitmap_new cr sz n (s, e) = Ok a"
  shows "bitmap_ok cr sz a \<and> range_start a = s \<and> range_end a = e \<and> in_use cr sz a = {} \<and> usable cr sz a = {}"
  using assms bit_array.zero_bits [OF assms(1)] bit_array.enough_elts [OF assms(1), of "(e - s) div sz"]
  by (auto simp: bitmap_new_def bitmap_ok_def in_use_def usable_def split: if_splits)

lemma mark_valid_ok:
  assumes "bits_ok cr" "bitmap_ok cr sz a" "mark_valid cr sz a r v = Ok a'"
  shows "bitmap_ok cr sz a' \<and> range_start a' = range_start a \<and> range_end a' = range_end a \<and> in_use cr sz a' = in_use cr sz a"
proof -
  from assms(3) obtain i j where ij: "frame_idx sz a (snd r) = Some j" "i \<le> j" "j \<le> bits_len cr (ba_valid a)"
    and a': "a' = a\<lparr>ba_valid := bits_fill cr (ba_valid a) i j v\<rparr>"
    by (auto simp: mark_valid_def split: option.splits if_splits)
  have "j \<le> (range_end a - range_start a) div sz"
    using ij(1) by (auto simp: frame_idx_def div_le_mono split: if_splits)
  with assms(2) bit_array.fill_bits [OF assms(1) ij(2,3)] show ?thesis
    by (auto simp: a' bitmap_ok_def in_use_def)
qed

definition mark_all ::
  "('b, 'z) bit_crates_scheme \<Rightarrow> nat \<Rightarrow> 'b bitmap_allocator \<Rightarrow> ((nat \<times> nat) \<times> bool) list \<Rightarrow> 'b bitmap_allocator outcome" where
  "mark_all cr sz a rs = try_fold (\<lambda>a (r, v). mark_valid cr sz a r v) a rs"

lemma mark_all_ok:
  assumes "bits_ok cr" "bitmap_ok cr sz a" "mark_all cr sz a rs = Ok a'"
  shows "bitmap_ok cr sz a' \<and> in_use cr sz a' = in_use cr sz a"
  using assms(2,3) unfolding mark_all_def
proof (induction rs arbitrary: a)
  case (Cons r rs)
  then obtain b where b: "mark_valid cr sz a (fst r) (snd r) = Ok b"
      "try_fold (\<lambda>a (r, v). mark_valid cr sz a r v) b rs = Ok a'"
    by (auto simp: result_simps split: prod.splits)
  from mark_valid_ok [OF assms(1) Cons.prems(1) b(1)] Cons.IH [OF _ b(2)] show ?case by simp
qed simp

lemma small_allocator_fresh:
  assumes "bits_ok cr" "bitmap_new cr Size4KiB 8 (f, f + Size2MiB) = Ok alloc" "f + Size2MiB < 2 ^ 52"
    and "mark_valid cr Size4KiB alloc (f, f + Size2MiB) True = Ok a"
  shows "bitmap_ok cr Size4KiB a \<and> range_start a = f \<and> range_end a = f + Size2MiB \<and> in_use cr Size4KiB a = {}"
proof -
  have "bitmap_ok cr Size4KiB alloc \<and> range_start alloc = f \<and> range_end alloc = f + Size2MiB \<and>
      in_use cr Size4KiB alloc = {} \<and> usable cr Size4KiB alloc = {}"
    using bitmap_new_ok [OF assms(1) _ _ assms(3,2)] by simp
  with mark_valid_ok [OF assms(1) _ assms(4)] show ?thesis by simp
qed

section \<open>Memory that is handed out\<close>

text \<open>A run of the allocator, with the blocks that are handed out and not yet given back. What is
  given back must have been handed out, the contract of the unsafe function.\<close>

inductive memory_step ::
  "('b, 'z) bit_crates_scheme \<Rightarrow> 'b physical_memory_allocator \<times> (nat \<times> nat) list
     \<Rightarrow> 'b physical_memory_allocator \<times> (nat \<times> nat) list \<Rightarrow> bool" for cr where
  take_large: "allocate_frame cr Size2MiB (large_frames m) = Ok (Some f, a) \<Longrightarrow>
    memory_step cr (m, live) (m\<lparr>large_frames := a\<rparr>, (f, Size2MiB) # live)"
| take_run: "allocate_contiguous cr Size2MiB (large_frames m) n = Ok (Some (s, e), a) \<Longrightarrow>
    memory_step cr (m, live) (m\<lparr>large_frames := a\<rparr>, map (\<lambda>k. (s + k * Size2MiB, Size2MiB)) [0..<n] @ live)"
| give_large: "(f, Size2MiB) \<in> set live \<Longrightarrow> deallocate_frame cr Size2MiB (large_frames m) f = Ok a \<Longrightarrow>
    memory_step cr (m, live) (m\<lparr>large_frames := a\<rparr>, remove1 (f, Size2MiB) live)"
| take_small: "allocate_small_frame cr m = Ok (Some f, m') \<Longrightarrow>
    memory_step cr (m, live) (m', (f, Size4KiB) # live)"
| no_small: "allocate_small_frame cr m = Ok (None, m') \<Longrightarrow> memory_step cr (m, live) (m', live)"
| give_small: "(f, Size4KiB) \<in> set live \<Longrightarrow> deallocate_small_frame cr m f = Ok m' \<Longrightarrow>
    memory_step cr (m, live) (m', remove1 (f, Size4KiB) live)"

text \<open>An allocator whose frames in \<open>L\<close> are handed out.\<close>

definition owns :: "('b, 'z) bit_crates_scheme \<Rightarrow> nat \<Rightarrow> 'b bitmap_allocator \<Rightarrow> nat set \<Rightarrow> bool" where
  "owns cr sz a L \<longleftrightarrow> bitmap_ok cr sz a \<and> L \<subseteq> usable cr sz a \<inter> in_use cr sz a"

lemma owns_take:
  assumes "bits_ok cr" "owns cr sz a L" "allocate_frame cr sz a = Ok (Some f, a')"
  shows "f \<notin> L \<and> owns cr sz a' (insert f L) \<and> usable cr sz a' = usable cr sz a \<and> f \<in> usable cr sz a \<and>
    range_start a' = range_start a \<and> range_end a' = range_end a"
  using assms(2,3) allocate_frame_sets [OF assms(1), of sz a] by (auto simp: owns_def)

lemma owns_none:
  assumes "bits_ok cr" "owns cr sz a L" "allocate_frame cr sz a = Ok (None, a')"
  shows "a' = a"
  using assms(2,3) allocate_frame_sets [OF assms(1), of sz a] by (auto simp: owns_def)

lemma owns_run:
  assumes "bits_ok cr" "owns cr sz a L" "allocate_contiguous cr sz a n = Ok (Some (s, e), a')"
  shows "frames_of sz s n \<inter> L = {} \<and> owns cr sz a' (L \<union> frames_of sz s n) \<and> usable cr sz a' = usable cr sz a"
proof -
  have "0 < n" using assms(3) by (auto simp: allocate_contiguous_def split: if_splits)
  with assms(2,3) allocate_contiguous_sets [OF assms(1), of sz a n] show ?thesis by (auto simp: owns_def)
qed

lemma owns_give:
  assumes "bits_ok cr" "owns cr sz a L" "f \<in> L" "deallocate_frame cr sz a f = Ok a'"
  shows "owns cr sz a' (L - {f}) \<and> usable cr sz a' = usable cr sz a \<and>
    range_start a' = range_start a \<and> range_end a' = range_end a"
  using assms(2-4) deallocate_frame_sets [OF assms(1), of sz a f] by (auto simp: owns_def)

definition blocks :: "nat \<Rightarrow> (nat \<times> nat) list \<Rightarrow> nat set" where
  "blocks sz live = {f. (f, sz) \<in> set live}"

lemma blocks_simps:
  "blocks sz [] = {}" "blocks sz ((f, sz') # live) = (if sz = sz' then insert f (blocks sz live) else blocks sz live)"
  "blocks sz (map (\<lambda>k. (s + k * sz', sz')) [0..<n] @ live) =
     (if sz = sz' then blocks sz live \<union> frames_of sz s n else blocks sz live)"
  "distinct live \<Longrightarrow> blocks sz (remove1 (f, sz') live) = (if sz = sz' then blocks sz live - {f} else blocks sz live)"
  by (auto simp: blocks_def frames_of_def)

lemma blocks_mem: "(f, sz) \<in> set live \<longleftrightarrow> f \<in> blocks sz live"
  by (simp add: blocks_def)

definition memory_ok ::
  "('b, 'z) bit_crates_scheme \<Rightarrow> nat set \<Rightarrow> 'b physical_memory_allocator \<Rightarrow> (nat \<times> nat) list \<Rightarrow> bool" where
  "memory_ok cr U m live \<longleftrightarrow> distinct live \<and> snd ` set live \<subseteq> {Size2MiB, Size4KiB} \<and>
     usable cr Size2MiB (large_frames m) = U \<and>
     (case small_frames m of
        None \<Rightarrow> blocks Size4KiB live = {} \<and> owns cr Size2MiB (large_frames m) (blocks Size2MiB live)
      | Some a \<Rightarrow> range_start a \<notin> blocks Size2MiB live \<and>
          owns cr Size2MiB (large_frames m) (insert (range_start a) (blocks Size2MiB live)) \<and>
          owns cr Size4KiB a (blocks Size4KiB live) \<and> range_end a = range_start a + Size2MiB)"

text \<open>The frames that the large allocator must keep apart: those handed out and the one behind the
  small frames. A new large allocator that owns what must be kept leaves memory well-formed.\<close>

lemma memory_large:
  assumes "memory_ok cr U m live"
  obtains K where "owns cr Size2MiB (large_frames m) (K \<union> blocks Size2MiB live)" "K \<inter> blocks Size2MiB live = {}"
    "\<And>a live'. distinct live' \<Longrightarrow> snd ` set live' \<subseteq> {Size2MiB, Size4KiB} \<Longrightarrow>
       blocks Size4KiB live' = blocks Size4KiB live \<Longrightarrow> usable cr Size2MiB a = U \<Longrightarrow>
       K \<inter> blocks Size2MiB live' = {} \<Longrightarrow> owns cr Size2MiB a (K \<union> blocks Size2MiB live') \<Longrightarrow>
       memory_ok cr U (m\<lparr>large_frames := a\<rparr>) live'"
proof (cases "small_frames m")
  case None
  with assms show ?thesis by (intro that [of "{}"]) (auto simp: memory_ok_def)
next
  case (Some b)
  with assms show ?thesis by (intro that [of "{range_start b}"]) (auto simp: memory_ok_def)
qed

lemma memory_usable: "memory_ok cr U m live \<Longrightarrow> usable cr Size2MiB (large_frames m) = U"
  "memory_ok cr U m live \<Longrightarrow> distinct live" "memory_ok cr U m live \<Longrightarrow> snd ` set live \<subseteq> {Size2MiB, Size4KiB}"
  by (simp_all add: memory_ok_def)

lemma memory_take_large:
  assumes "bits_ok cr" "memory_ok cr U m live" "allocate_frame cr Size2MiB (large_frames m) = Ok (Some f, a)"
  shows "memory_ok cr U (m\<lparr>large_frames := a\<rparr>) ((f, Size2MiB) # live)"
proof -
  obtain K where K: "owns cr Size2MiB (large_frames m) (K \<union> blocks Size2MiB live)" "K \<inter> blocks Size2MiB live = {}"
    "\<And>a live'. distinct live' \<Longrightarrow> snd ` set live' \<subseteq> {Size2MiB, Size4KiB} \<Longrightarrow>
       blocks Size4KiB live' = blocks Size4KiB live \<Longrightarrow> usable cr Size2MiB a = U \<Longrightarrow>
       K \<inter> blocks Size2MiB live' = {} \<Longrightarrow> owns cr Size2MiB a (K \<union> blocks Size2MiB live') \<Longrightarrow>
       memory_ok cr U (m\<lparr>large_frames := a\<rparr>) live'"
    using memory_large [OF assms(2)] by blast
  from owns_take [OF assms(1) K(1) assms(3)] K(2) memory_usable [OF assms(2)] show ?thesis
    by (intro K(3)) (auto simp: blocks_simps blocks_mem)
qed

lemma memory_take_run:
  assumes "bits_ok cr" "memory_ok cr U m live"
    and "allocate_contiguous cr Size2MiB (large_frames m) n = Ok (Some (s, e), a)"
  shows "memory_ok cr U (m\<lparr>large_frames := a\<rparr>) (map (\<lambda>k. (s + k * Size2MiB, Size2MiB)) [0..<n] @ live)"
proof -
  obtain K where K: "owns cr Size2MiB (large_frames m) (K \<union> blocks Size2MiB live)" "K \<inter> blocks Size2MiB live = {}"
    "\<And>a live'. distinct live' \<Longrightarrow> snd ` set live' \<subseteq> {Size2MiB, Size4KiB} \<Longrightarrow>
       blocks Size4KiB live' = blocks Size4KiB live \<Longrightarrow> usable cr Size2MiB a = U \<Longrightarrow>
       K \<inter> blocks Size2MiB live' = {} \<Longrightarrow> owns cr Size2MiB a (K \<union> blocks Size2MiB live') \<Longrightarrow>
       memory_ok cr U (m\<lparr>large_frames := a\<rparr>) live'"
    using memory_large [OF assms(2)] by blast
  note r = owns_run [OF assms(1) K(1) assms(3)]
  then have "s + k * Size2MiB \<notin> blocks Size2MiB live" if "k < n" for k
    using that unfolding frames_of_def by blast
  then have "distinct (map (\<lambda>k. (s + k * Size2MiB, Size2MiB)) [0..<n] @ live)"
    using memory_usable(2) [OF assms(2)] by (auto simp: distinct_map inj_on_def blocks_mem)
  with r K(2) memory_usable [OF assms(2)] show ?thesis
    by (intro K(3)) (auto simp: blocks_simps Un_assoc)
qed

lemma memory_give_large:
  assumes "bits_ok cr" "memory_ok cr U m live" "(f, Size2MiB) \<in> set live"
    and "deallocate_frame cr Size2MiB (large_frames m) f = Ok a"
  shows "memory_ok cr U (m\<lparr>large_frames := a\<rparr>) (remove1 (f, Size2MiB) live)"
proof -
  obtain K where K: "owns cr Size2MiB (large_frames m) (K \<union> blocks Size2MiB live)" "K \<inter> blocks Size2MiB live = {}"
    "\<And>a live'. distinct live' \<Longrightarrow> snd ` set live' \<subseteq> {Size2MiB, Size4KiB} \<Longrightarrow>
       blocks Size4KiB live' = blocks Size4KiB live \<Longrightarrow> usable cr Size2MiB a = U \<Longrightarrow>
       K \<inter> blocks Size2MiB live' = {} \<Longrightarrow> owns cr Size2MiB a (K \<union> blocks Size2MiB live') \<Longrightarrow>
       memory_ok cr U (m\<lparr>large_frames := a\<rparr>) live'"
    using memory_large [OF assms(2)] by blast
  have f: "f \<in> blocks Size2MiB live" using assms(3) by (simp add: blocks_mem)
  have "K \<union> blocks Size2MiB live - {f} = K \<union> (blocks Size2MiB live - {f})" using K(2) f by blast
  with owns_give [OF assms(1) K(1) _ assms(4)] f K(2) memory_usable [OF assms(2)] show ?thesis
    by (intro K(3)) (auto simp: blocks_simps dest: in_set_remove1)
qed

lemma memory_give_small:
  assumes "bits_ok cr" "memory_ok cr U m live" "(f, Size4KiB) \<in> set live" "deallocate_small_frame cr m f = Ok m'"
  shows "memory_ok cr U m' (remove1 (f, Size4KiB) live)"
proof -
  from assms(4) obtain a a' where a: "small_frames m = Some a" "deallocate_frame cr Size4KiB a f = Ok a'"
    and m': "m' = m\<lparr>small_frames := Some a'\<rparr>"
    by (auto simp: deallocate_small_frame_def result_simps)
  from a(1) assms(2) have "owns cr Size4KiB a (blocks Size4KiB live)" by (simp add: memory_ok_def)
  from owns_give [OF assms(1) this _ a(2)] assms(2,3) a(1) show ?thesis
    by (auto simp: memory_ok_def m' blocks_simps blocks_mem dest: in_set_remove1)
qed

lemma memory_small_allocator:
  assumes "bits_ok cr" "memory_ok cr U m live" "small_allocator cr m = Ok (a, m')"
  shows "memory_ok cr U (m'\<lparr>small_frames := Some a\<rparr>) live"
proof (cases "small_frames m")
  case None
  with assms(3) obtain f large alloc where
    f: "allocate_frame cr Size2MiB (large_frames m) = Ok (Some f, large)" and m': "m' = m\<lparr>large_frames := large\<rparr>"
    and new: "bitmap_new cr Size4KiB 8 (f, f + Size2MiB) = Ok alloc" "f + Size2MiB < 2 ^ 52"
      "mark_valid cr Size4KiB alloc (f, f + Size2MiB) True = Ok a"
    by (auto simp: small_allocator_def result_simps split: if_splits)
  have o: "owns cr Size2MiB (large_frames m) (blocks Size2MiB live)" "blocks Size4KiB live = {}"
    using assms(2) None by (simp_all add: memory_ok_def)
  from owns_take [OF assms(1) o(1) f] small_allocator_fresh [OF assms(1) new] o(2) assms(2) show ?thesis
    by (simp add: memory_ok_def m') (simp add: owns_def)
next
  case (Some b)
  with assms(2,3) show ?thesis by (simp add: small_allocator_def memory_ok_def)
qed

lemma memory_take_small:
  assumes "bits_ok cr" "memory_ok cr U m live" "allocate_small_frame cr m = Ok (r, m')"
  shows "memory_ok cr U m' (case r of None \<Rightarrow> live | Some f \<Rightarrow> (f, Size4KiB) # live)"
proof -
  from assms(3) obtain a m1 a' where a: "small_allocator cr m = Ok (a, m1)" "allocate_frame cr Size4KiB a = Ok (r, a')"
    and m': "m' = m1\<lparr>small_frames := Some a'\<rparr>"
    by (auto simp: allocate_small_frame_def result_simps)
  have ok: "memory_ok cr U (m1\<lparr>small_frames := Some a\<rparr>) live" using memory_small_allocator [OF assms(1,2) a(1)] .
  then have o: "owns cr Size4KiB a (blocks Size4KiB live)" by (simp add: memory_ok_def)
  show ?thesis
  proof (cases r)
    case None
    with owns_none [OF assms(1) o] a(2) ok m' show ?thesis by simp
  next
    case (Some f)
    with owns_take [OF assms(1) o, of f a'] a(2) ok show ?thesis
      by (auto simp: memory_ok_def m' blocks_simps blocks_mem)
  qed
qed

lemma memory_steps:
  assumes "bits_ok cr" "(memory_step cr)\<^sup>*\<^sup>* (m, live) (m', live')" "memory_ok cr U m live"
  shows "memory_ok cr U m' live'"
  using assms(2)
proof (induction rule: rtranclp_induct2)
  case refl
  show ?case by (fact assms(3))
next
  case (step m1 live1 m2 live2)
  note ok = step.IH
  from step.hyps(2) show ?case
  proof cases
    case take_large
    then show ?thesis using memory_take_large [OF assms(1) ok] by simp
  next
    case take_run
    then show ?thesis using memory_take_run [OF assms(1) ok] by simp
  next
    case give_large
    then show ?thesis using memory_give_large [OF assms(1) ok] by simp
  next
    case take_small
    then show ?thesis using memory_take_small [OF assms(1) ok] by fastforce
  next
    case no_small
    then show ?thesis using memory_take_small [OF assms(1) ok] by fastforce
  next
    case give_small
    then show ?thesis using memory_give_small [OF assms(1) ok] by simp
  qed
qed

section \<open>Disjointness\<close>

definition apart :: "nat \<times> nat \<Rightarrow> nat \<times> nat \<Rightarrow> bool" where
  "apart b c \<longleftrightarrow> fst b + snd b \<le> fst c \<or> fst c + snd c \<le> fst b"

lemma sorted_wrt_distinct:
  "distinct xs \<Longrightarrow> (\<And>x y. x \<in> set xs \<Longrightarrow> y \<in> set xs \<Longrightarrow> x \<noteq> y \<Longrightarrow> P x y) \<Longrightarrow> sorted_wrt P xs"
  by (induction xs) auto

lemma usable_apart:
  assumes "f \<in> usable cr sz a" "g \<in> usable cr sz a" "f \<noteq> g"
  shows "apart (f, sz) (g, sz)"
proof -
  from assms(1,2) obtain i j where f: "f = range_start a + i * sz" and g: "g = range_start a + j * sz"
    by (auto simp: usable_def)
  with assms(3) consider "i + 1 \<le> j" | "j + 1 \<le> i" by (metis Suc_eq_plus1 not_less_eq_eq le_antisym)
  then show ?thesis
  proof cases
    case 1
    then have "(i + 1) * sz \<le> j * sz" by (rule mult_le_mono1)
    then show ?thesis by (simp add: apart_def f g)
  next
    case 2
    then have "(j + 1) * sz \<le> i * sz" by (rule mult_le_mono1)
    then show ?thesis by (simp add: apart_def f g)
  qed
qed

lemma usable_inside:
  assumes "bitmap_ok cr sz a" "f \<in> usable cr sz a"
  shows "range_start a \<le> f \<and> f + sz \<le> range_end a"
proof -
  from assms obtain i where f: "f = range_start a + i * sz" and i: "i + 1 \<le> (range_end a - range_start a) div sz"
    by (auto simp: usable_def bitmap_ok_def Suc_le_eq)
  from frame_in_range(2) [OF assms(1) i] f show ?thesis by simp
qed

lemma large_block:
  assumes "memory_ok cr U m live" "(f, Size2MiB) \<in> set live"
  shows "f \<in> usable cr Size2MiB (large_frames m)" "usable cr Size2MiB (large_frames m) = U"
  using assms by (auto simp: memory_ok_def owns_def blocks_mem split: option.splits)

lemma small_block:
  assumes "memory_ok cr U m live" "(g, Size4KiB) \<in> set live"
  shows "\<exists>a. small_frames m = Some a \<and> g \<in> usable cr Size4KiB a \<and> range_start a \<in> U \<and>
    range_start a \<le> g \<and> g + Size4KiB \<le> range_start a + Size2MiB \<and> range_start a \<notin> blocks Size2MiB live"
proof -
  from assms obtain a where a: "small_frames m = Some a" "owns cr Size4KiB a (blocks Size4KiB live)"
    "range_end a = range_start a + Size2MiB" "range_start a \<notin> blocks Size2MiB live" "range_start a \<in> U"
    by (auto simp: memory_ok_def owns_def blocks_mem split: option.splits)
  then have "bitmap_ok cr Size4KiB a" "g \<in> usable cr Size4KiB a"
    using assms(2) by (auto simp: owns_def blocks_mem)
  with usable_inside [OF this] a show ?thesis by simp
qed

lemma mixed_blocks:
  assumes "memory_ok cr U m live" "(f, Size2MiB) \<in> set live" "(g, Size4KiB) \<in> set live"
  shows "apart (f, Size2MiB) (g, Size4KiB)"
proof -
  from small_block [OF assms(1,3)] obtain u where u: "u \<in> U" "u \<le> g" "g + Size4KiB \<le> u + Size2MiB" "u \<noteq> f"
    using assms(2) by (auto simp: blocks_mem)
  with usable_apart [of f cr Size2MiB "large_frames m" u] large_block [OF assms(1,2)]
  have "apart (f, Size2MiB) (u, Size2MiB)" by simp
  with u show ?thesis by (auto simp: apart_def)
qed

lemma memory_apart:
  assumes "memory_ok cr U m live"
  shows "sorted_wrt apart live \<and> (\<forall>(f, n) \<in> set live. \<exists>u \<in> U. u \<le> f \<and> f + n \<le> u + Size2MiB)"
proof -
  note large = large_block [OF assms] and small = small_block [OF assms] and mixed = mixed_blocks [OF assms]
  have sizes: "n = Size2MiB \<or> n = Size4KiB" if "(f, n) \<in> set live" for f n
    using memory_usable(3) [OF assms] that by force
  have "apart b c" if bc_in: "b \<in> set live" "c \<in> set live" "b \<noteq> c" for b c
  proof -
    obtain f n g k where bc: "b = (f, n)" "c = (g, k)" by (cases b, cases c) auto
    consider "n = Size2MiB" "k = Size2MiB" | "n = Size2MiB" "k = Size4KiB" | "n = Size4KiB" "k = Size2MiB"
      | "n = Size4KiB" "k = Size4KiB" using sizes bc_in bc by blast
    then show ?thesis
    proof cases
      case 1 then show ?thesis using usable_apart large bc_in bc by blast
    next
      case 2 then show ?thesis using mixed bc_in bc by blast
    next
      case 3 then show ?thesis using mixed [of g f] bc_in bc by (auto simp: apart_def)
    next
      case 4 then show ?thesis using usable_apart small bc_in bc by (metis option.inject)
    qed
  qed
  then have "sorted_wrt apart live" by (intro sorted_wrt_distinct memory_usable(2) [OF assms])
  moreover have "\<exists>u \<in> U. u \<le> f \<and> f + n \<le> u + Size2MiB" if "(f, n) \<in> set live" for f n
    using sizes [OF that] large [of f] small [of f] that by auto
  ultimately show ?thesis by blast
qed

section \<open>An instance\<close>

definition demo_bits :: "bool list bit_crates" where
  "demo_bits = \<lparr>bits_zero = (\<lambda>n. replicate (64 * n) False), bits_len = length,
     bits_get = (\<lambda>b i. i < length b \<and> b ! i), bits_set = (\<lambda>b i v. b[i := v]),
     bits_fill = (\<lambda>b s e v. take s b @ replicate (e - s) v @ drop e b),
     bits_and = map2 (\<and>), bits_not = map Not,
     first_one = (\<lambda>b. find (\<lambda>i. b ! i) [0..<length b]), mem_elts = (\<lambda>n. (n + 63) div 64)\<rparr>"

interpretation demo_bits: bit_array "bits_zero demo_bits" "bits_len demo_bits" "bits_get demo_bits"
  "bits_set demo_bits" "bits_fill demo_bits" "bits_and demo_bits" "bits_not demo_bits" "first_one demo_bits"
  "mem_elts demo_bits"
  by unfold_locales
    (auto simp: demo_bits_def nth_append nth_list_update find_Some_iff find_None_iff split: if_splits)

definition demo_bitmap :: "bool list bitmap_allocator" where
  "demo_bitmap = \<lparr>ba_allocated = replicate 64 False, ba_valid = replicate 4 True @ replicate 60 False,
     range_start = 0, range_end = 4 * Size2MiB\<rparr>"

lemma demo_bitmap_ok: "bitmap_ok demo_bits Size2MiB demo_bitmap" "in_use demo_bits Size2MiB demo_bitmap = {}"
  "0 \<in> usable demo_bits Size2MiB demo_bitmap" "Size2MiB \<in> usable demo_bits Size2MiB demo_bitmap"
  by (auto simp: bitmap_ok_def demo_bitmap_def demo_bits_def usable_def in_use_def nth_append nth_Cons'
      intro: exI [of _ 0] exI [of _ 1] split: if_splits)

lemma demo_set_up:
  "new_range demo_bits 1 (0, 4 * Size2MiB) = Ok \<lparr>large_frames = demo_bitmap\<lparr>ba_valid := replicate 64 False\<rparr>,
     small_frames = None\<rparr>"
  "mark_all demo_bits Size2MiB (demo_bitmap\<lparr>ba_valid := replicate 64 False\<rparr>) [((0, 4 * Size2MiB), True)] = Ok demo_bitmap"
  by (simp_all add: new_range_def bitmap_new_def mark_all_def mark_valid_def frame_idx_def demo_bits_def demo_bitmap_def)

lemma allocate_frame_succeeds:
  assumes "bits_ok cr" "bitmap_ok cr sz a" "g \<in> usable cr sz a" "g \<notin> in_use cr sz a"
  shows "\<exists>f a'. allocate_frame cr sz a = Ok (Some f, a')"
  using allocate_frame_sets [OF assms(1,2)] assms(3,4) by (auto split: sum.splits option.splits)

lemma demo_two_steps:
  "\<exists>m f g. (memory_step demo_bits)\<^sup>*\<^sup>* (\<lparr>large_frames = demo_bitmap, small_frames = None\<rparr>, [])
     (m, [(g, Size2MiB), (f, Size2MiB)])"
proof -
  note b = demo_bits.bit_array_axioms
  obtain f a where f: "allocate_frame demo_bits Size2MiB demo_bitmap = Ok (Some f, a)"
    using allocate_frame_succeeds [OF b demo_bitmap_ok(1,3)] demo_bitmap_ok(2) by auto
  then have a: "bitmap_ok demo_bits Size2MiB a" "usable demo_bits Size2MiB a = usable demo_bits Size2MiB demo_bitmap"
    "in_use demo_bits Size2MiB a = {f}"
    using allocate_frame_sets [OF b demo_bitmap_ok(1)] demo_bitmap_ok(2) by auto
  obtain h where "h \<in> usable demo_bits Size2MiB a" "h \<noteq> f"
    using a(2) demo_bitmap_ok(3,4) by (metis zero_neq_numeral)
  then obtain g a' where g: "allocate_frame demo_bits Size2MiB a = Ok (Some g, a')"
    using allocate_frame_succeeds [OF b a(1), of h] a(3) by auto
  let ?m = "\<lparr>large_frames = demo_bitmap, small_frames = None\<rparr>"
  have "memory_step demo_bits (?m, []) (?m\<lparr>large_frames := a\<rparr>, [(f, Size2MiB)])"
    using take_large [of demo_bits ?m f a "[]"] f by simp
  moreover have "memory_step demo_bits (?m\<lparr>large_frames := a\<rparr>, [(f, Size2MiB)])
      (?m\<lparr>large_frames := a'\<rparr>, [(g, Size2MiB), (f, Size2MiB)])"
    using take_large [of demo_bits "?m\<lparr>large_frames := a\<rparr>" g a' "[(f, Size2MiB)]"] g by simp
  ultimately show ?thesis by (meson converse_rtranclp_into_rtranclp rtranclp.rtrancl_refl)
qed

section \<open>Properties\<close>

text \<open>C5. Physical memory is never handed out twice: after the memory map has been marked, through
  any sequence of allocations of large frames, runs of large frames and small frames, and of giving
  back what was handed out, the blocks handed out do not overlap and lie in memory that was marked
  valid.\<close>
theorem memory_never_shared:
  assumes "bits_ok cr" "new_range cr n (s, e) = Ok m" "Size2MiB dvd e - s" "e < 2 ^ 52"
    and "mark_all cr Size2MiB (large_frames m) marks = Ok large"
    and "(memory_step cr)\<^sup>*\<^sup>* (m\<lparr>large_frames := large\<rparr>, []) (m', live)"
  shows "sorted_wrt apart live \<and>
    (\<forall>(f, n) \<in> set live. \<exists>u \<in> usable cr Size2MiB large. u \<le> f \<and> f + n \<le> u + Size2MiB)"
proof -
  from assms(2) have m: "bitmap_new cr Size2MiB n (s, e) = Ok (large_frames m)" "small_frames m = None"
    by (auto simp: new_range_def result_simps)
  have "bitmap_ok cr Size2MiB large"
    using bitmap_new_ok [OF assms(1) _ assms(3,4) m(1)] mark_all_ok [OF assms(1) _ assms(5)] by simp
  then have "memory_ok cr (usable cr Size2MiB large) (m\<lparr>large_frames := large\<rparr>) []"
    by (simp add: memory_ok_def m(2) owns_def blocks_simps)
  from memory_apart [OF memory_steps [OF assms(1,6) this]] show ?thesis .
qed

theorem memory_never_shared_witness:
  "\<exists>m f g. (memory_step demo_bits)\<^sup>*\<^sup>* (\<lparr>large_frames = demo_bitmap, small_frames = None\<rparr>, [])
     (m, [(g, Size2MiB), (f, Size2MiB)]) \<and> apart (g, Size2MiB) (f, Size2MiB)"
proof -
  let ?m = "\<lparr>large_frames = demo_bitmap\<lparr>ba_valid := replicate 64 False\<rparr>, small_frames = None\<rparr>"
  obtain m f g where run: "(memory_step demo_bits)\<^sup>*\<^sup>* (?m\<lparr>large_frames := demo_bitmap\<rparr>, [])
     (m, [(g, Size2MiB), (f, Size2MiB)])" using demo_two_steps by auto
  have "sorted_wrt apart [(g, Size2MiB), (f, Size2MiB)]"
    using memory_never_shared [OF demo_bits.bit_array_axioms demo_set_up(1) _ _ _ run] demo_set_up(2) by simp
  with run show ?thesis by auto
qed

text \<open>C26. The bitmap allocator implements two sets of frames, the usable ones and those in use. A
  frame or run that it gives out was usable and not in use, and it gives out nothing only if there
  is nothing to give; giving back removes the frame, or panics if it was not in use.\<close>
theorem bitmap_allocator_refines_sets:
  assumes "bits_ok cr" "bitmap_ok cr sz a" "sz dvd range_start a" "sz dvd g" "0 < n"
  shows "(case allocate_frame cr sz a of
      Inr (Some f, a') \<Rightarrow> f \<in> usable cr sz a - in_use cr sz a \<and> bitmap_ok cr sz a' \<and>
        usable cr sz a' = usable cr sz a \<and> in_use cr sz a' = insert f (in_use cr sz a)
    | Inr (None, a') \<Rightarrow> a' = a \<and> usable cr sz a \<subseteq> in_use cr sz a
    | Inl _ \<Rightarrow> False) \<and>
   (case allocate_contiguous cr sz a n of
      Inr (Some (s, e), a') \<Rightarrow> e = s + n * sz \<and> frames_of sz s n \<subseteq> usable cr sz a - in_use cr sz a \<and>
        bitmap_ok cr sz a' \<and> usable cr sz a' = usable cr sz a \<and> in_use cr sz a' = in_use cr sz a \<union> frames_of sz s n
    | Inr (None, a') \<Rightarrow> a' = a \<and> (\<forall>s. \<not> frames_of sz s n \<subseteq> usable cr sz a - in_use cr sz a)
    | Inl _ \<Rightarrow> False) \<and>
   (if g \<in> usable cr sz a \<inter> in_use cr sz a
    then \<exists>a'. deallocate_frame cr sz a g = Ok a' \<and> bitmap_ok cr sz a' \<and>
      usable cr sz a' = usable cr sz a \<and> in_use cr sz a' = in_use cr sz a - {g}
    else \<exists>m. deallocate_frame cr sz a g = panic m)"
  using allocate_frame_sets [OF assms(1,2)] allocate_contiguous_sets [OF assms(1,2,5)]
    deallocate_frame_sets [OF assms(1,2), of g] deallocate_frame_panics [OF assms(1,2) _ assms(4,3)]
  by (auto split: sum.splits option.splits)

theorem bitmap_allocator_refines_sets_witness:
  "\<exists>f a'. allocate_frame demo_bits Size2MiB demo_bitmap = Ok (Some f, a') \<and> in_use demo_bits Size2MiB a' = {f}"
  using bitmap_allocator_refines_sets [OF demo_bits.bit_array_axioms demo_bitmap_ok(1), of 0 1]
    demo_bitmap_ok(2,3) by (auto simp: demo_bitmap_def split: sum.splits option.splits)

end
