(* ===== verification/Spec2Isabelle.thy ===== *)
theory Spec2Isabelle
  imports Oak_Functions Oak_Fd Oak_Socket Oak_Noise Oak_Frames
begin

text \<open>
  Verification of Project Oak: remote attestation, the enclave's communication and storage, and
  the memory and system calls of the restricted kernel.

  \<^bold>\<open>The program.\<close> A guest is started by the firmware stage 0. It measures the kernel, obtains an
  attestation report from the processor and starts a chain of DICE certificates; each later stage
  adds a layer, and the restricted kernel adds the certificates of the application's keys. A client
  gives this evidence, with endorsements and its own reference values, to the verifier; if it
  accepts, the client encrypts its requests for the key that the evidence binds to the enclave. The
  requests reach the application through a launcher, a framed channel over a virtio device, the kernel's
  file descriptors and an RPC layer; Oak Functions decrypts them, runs a Wasm module on each, which looks
  values up in data held in a hash table, and encrypts the module's response.

  \<^bold>\<open>Theories and sources\<close> (paths under \<^verbatim>\<open>src/\<close>).
  \<^item> \<open>Oak_Prelude\<close>, \<open>Oak_Slices\<close>: results with errors and panics, the \<^verbatim>\<open>?\<close> operator, bytes,
    UTF-8, indexing that panics. No source of their own.
  \<^item> \<open>Oak_Digest\<close>: \<^verbatim>\<open>proto/digest.proto\<close> and the digests of
    \<^verbatim>\<open>oak_attestation_verification/src/util.rs\<close>. Verdict of a comparison, conversions.
  \<^item> \<open>Oak_Claims\<close>: \<^verbatim>\<open>claims.rs\<close> there. Which endorsement statements are accepted and when.
  \<^item> \<open>Oak_Endorsement\<close>: \<^verbatim>\<open>rekor.rs\<close>, \<^verbatim>\<open>endorsement.rs\<close>, the keys of \<^verbatim>\<open>util.rs\<close>. An accepted endorsement
    is signed; acceptance equals a declarative specification.
  \<^item> \<open>Oak_Report\<close>: \<^verbatim>\<open>oak_sev_snp_attestation_report/src/lib.rs\<close> and \<^verbatim>\<open>amd.rs\<close>. The report byte by byte,
    its validation, the signature of the processor.
  \<^item> \<open>Oak_Dice\<close>: \<^verbatim>\<open>oak_dice/src/cert.rs\<close>. Certificates and keys and their round trips.
  \<^item> \<open>Oak_Messages\<close>, \<open>Oak_Extract\<close>, \<open>Oak_Expected\<close>, \<open>Oak_Verifier\<close>: \<^verbatim>\<open>proto/attestation\<close> and
    \<^verbatim>\<open>verifier.rs\<close>, in the order of the code: evidence, expected values, verdict.
  \<^item> \<open>Oak_Acceptance\<close>: what acceptance by \<open>verify\<close> means: a characterisation, the root in the
    hardware, the chain of certification, the agreement of the kinds, and where the code is too
    lenient.
  \<^item> \<open>Oak_Generation\<close>: \<^verbatim>\<open>stage0_dice\<close>, \<^verbatim>\<open>oak_restricted_kernel_dice\<close>, \<^verbatim>\<open>oak_attestation/src/dice.rs\<close>,
    \<^verbatim>\<open>oak_dice/src/evidence.rs\<close> and \<^verbatim>\<open>utils.rs\<close>. Generated evidence verifies to what was measured;
    the builder's chain is an invariant of layers and transfers.
  \<^item> \<open>Oak_Htbl\<close>, \<open>Oak_Htbl_Map\<close>, \<open>Oak_Lookup\<close>: \<^verbatim>\<open>oak_functions_service/src/lookup_htbl.rs\<close> and
    \<^verbatim>\<open>lookup.rs\<close>. The table implements a finite map, its probing ends, the manager switches maps
    atomically.
  \<^item> \<open>Oak_Channel\<close>: \<^verbatim>\<open>oak_channel/src\<close>. The byte streams that a channel implements (\<open>byte_channel\<close>), messages
    through frames, and the raw transfer.
  \<^item> \<open>Oak_Virtq\<close>: \<^verbatim>\<open>oak_virtio/src/queue\<close>, with the other side of the rings as the device implements it in the
    tests there. Each queue is a FIFO of messages (\<open>message_pipe\<close>).
  \<^item> \<open>Oak_Console\<close>: \<^verbatim>\<open>oak_virtio/src/console\<close>. The polling reads (\<open>partial_reader\<close>); the console implements the
    byte streams.
  \<^item> \<open>Oak_Vsock\<close>, \<open>Oak_Socket\<close>: \<^verbatim>\<open>oak_virtio/src/vsock\<close>. Packets, the filter for stray ones, connections and
    their flow control: what is delivered, what credit allows, and where data are lost.
  \<^item> \<open>Oak_Fd\<close>: \<^verbatim>\<open>oak_restricted_kernel/src/syscall\<close>, \<^verbatim>\<open>oak_restricted_kernel_interface/src\<close>, and of
    \<^verbatim>\<open>oak_restricted_kernel_sdk/src\<close> the channel and the DICE data, and the hand-over of
    \<^verbatim>\<open>enclave_apps/oak_orchestrator\<close>. The kernel's channel is any implementation of the trait, with errors, panics
    and calls that do not return; only these reach a user program as such. The application's loops transfer
    streams in whatever pieces the calls do (\<open>piece_reader\<close>, \<open>piece_writer\<close>, \<open>kernel_channel\<close>). Secrets are
    read once.
  \<^item> \<open>Oak_Rpc\<close>: \<^verbatim>\<open>micro_rpc/src\<close>, the server that \<^verbatim>\<open>micro_rpc_build\<close> generates, the connector of
    \<^verbatim>\<open>oak_launcher_utils/src/channel.rs\<close>. Every request is answered with the service's result.
  \<^item> \<open>Oak_Noise\<close>, \<open>Oak_Hpke\<close>: \<^verbatim>\<open>oak_crypto/src\<close>. Handshakes agree, traffic is delivered, nonces do
    not repeat.
  \<^item> \<open>Oak_Wasm\<close>: \<^verbatim>\<open>oak_functions_abi/src\<close>, \<^verbatim>\<open>oak_functions_service/src/wasm\<close> and \<^verbatim>\<open>oak_functions_sdk/src\<close>. The API
    for Wasm modules, their runs over the memory of an engine, both sides of a call; a run over the lookup
    table agrees with one over a map.
  \<^item> \<open>Oak_Functions\<close>: \<^verbatim>\<open>oak_functions_service/src/instance.rs\<close>, \<^verbatim>\<open>oak_functions_enclave_service/src/lib.rs\<close> and
    \<^verbatim>\<open>oak_attestation/src/handler.rs\<close>. The service implements its specification through any sequence of calls,
    user requests among them.
  \<^item> \<open>Oak_Frames\<close>: \<^verbatim>\<open>oak_restricted_kernel/src/mm\<close>, the two frame allocators. Memory is never handed
    out twice.
  \<^item> This theory: the property that spans generation, verification and encryption.

  \<^bold>\<open>How code becomes definitions.\<close> A struct is a record, an enum a datatype, a function that
  mutates returns the new state. A result is a value, an error or a panic (index out of range,
  \<^verbatim>\<open>unwrap\<close>, overflow of an addition or subtraction, a failed assertion), so that a theorem that a
  function gives \<open>Ok\<close> also says that it does not panic. An \<^verbatim>\<open>anyhow\<close> error is the list of its
  messages from the outermost context on; values formatted into a message are left out. Fixed-width
  integers are words where the width matters; a \<^verbatim>\<open>usize\<close> is a natural number. Random values and the
  time are arguments. Strings are byte strings in the UTF-8 functions and character lists elsewhere.

  \<^bold>\<open>Crates.\<close> Code outside the repository is a parameter: a record of functions that the definitions
  take, extended along the theories, and a locale with the documented laws that a property needs
  (\<open>hex_ok\<close>, \<open>b64_ok\<close>, \<open>cose_ok\<close>, \<open>p256_ok\<close>, \<open>cbor_ok\<close>, \<open>private_ok\<close>, \<open>prost_ok\<close>, \<open>symmetric_ok\<close>,
  \<open>exchange_ok\<close>, \<open>hpke_ok\<close>, \<open>bits_ok\<close>, \<open>codec_pair\<close>, \<open>wasm_memory\<close>): round trips of codecs, signatures and
  ciphertexts that the right key verifies or opens, the operations of bit arrays, and the memory of a Wasm
  instance. No law says that a signature or
  ciphertext cannot be forged; the safety properties say which checks have passed. Each law is
  interpreted on a concrete instance, on which the witnesses run.

  \<^bold>\<open>Loops.\<close> Loops over data are recursive functions that are proved to end. The probing of the hash
  table, the reading and writing loops on file descriptors, the polling of a virtio device, the run of a Wasm
  module and the loading of entries are partial functions whose value is \<open>None\<close> when the loop does not
  end. That they end is proved: for the table always when it is well formed, for the loops on descriptors
  whenever each call transfers something (and for the derived key exactly when the buffer is no longer than what
  is left), for a polled device exactly when the bytes or the free buffers are there, for entries when
  decoding one consumes bytes. A module may run forever; the service then does not return, as its
  specification says. There is no fuel.

  \<^bold>\<open>Not modelled\<close>: the discovery and set-up of the virtio devices, the other drivers and the page tables of the
  kernel, the firmware outside its DICE data and the SEV and TDX guest libraries, which act on processor
  state and shared memory; the Wasm engine itself, which is a parameter, and the servers, clients and
  launchers on asynchronous frameworks; tools, tests and generated code. In modelled files: the CB messages
  below the root layer, which the verifier rejects; the entry of a system call in assembly and its check of
  pointers; the system calls for memory and processes; the search for the largest free run of frames;
  session keys as messages; the queue before the launcher's connector. Memory that is erased but no longer
  reachable is not observed. Timers and logging have no effect here.
\<close>

text \<open>C3. End to end: a client that verifies the evidence generated by stage 0 and the restricted
  kernel, and encrypts a request for the encryption key that the verifier reports, is understood by
  the holder of the application's private key, and understands every answer of it.\<close>
theorem verified_key_reaches_enclave:
  assumes "cose_ok cr" "p256_ok cr" "private_ok cr" "cbor_ok cr" "honest_reports cr att" "hpke_ok hc"
    and "stage0_generate_dice_data cr m att dk tk s0 s1 = Ok d" "tk = TeeAmdSevSnp \<or> tk = TeeNone"
    and "rk_generate_dice_data cr d app_digest drawn
      (kem_private, public_to_bytes hc (public_of_private hc sk)) = Ok rk"
    and "evidence_to_proto cr (rk_evidence rk) = Ok ev" "verify_dice_chain cr ev = Ok extracted"
    and "client_create hc (encryption_public_key extracted) random = Ok cl"
    and "client_encrypt hc cl nonce p a = Ok (req, cl')" "length nonce = 12"
  shows "\<exists>server. server_decrypt hc req sk = Ok (server, p, a) \<and>
    (\<forall>nonce' q b res. length nonce' = 12 \<longrightarrow> server_encrypt hc server nonce' q b = Ok res \<longrightarrow>
       client_decrypt hc cl' res = Ok (q, b))"
proof -
  have "encryption_public_key extracted = public_to_bytes hc (public_of_private hc sk)"
    using generated_evidence [OF assms(1-5,7-10)] assms(11) by auto
  with hpke_session [OF assms(6) _ assms(13,14)] assms(12) show ?thesis by metis
qed

theorem verified_key_reaches_enclave_witness:
  "\<exists>ev extracted req server. verify_dice_chain demo_gcr ev = Ok extracted \<and> encryption_public_key extracted = [4] \<and>
     server_decrypt demo_hpke_crates req [4] = Ok (server, [5], [6])"
proof -
  obtain d rk ev where g: "stage0_generate_dice_data demo_gcr demo_measurements mock_attestation_report
       mock_derived_key TeeNone ''r'' ''k'' = Ok d"
    "rk_generate_dice_data demo_gcr d [7] ''s'' ([8], [4]) = Ok rk" "evidence_to_proto demo_gcr (rk_evidence rk) = Ok ev"
    using demo_restricted_kernel by blast
  have rk: "rk_generate_dice_data demo_gcr d [7] ''s''
      ([8], public_to_bytes demo_hpke_crates (public_of_private demo_hpke_crates [4])) = Ok rk"
    using g(2) by (simp add: demo_hpke_crates_def)
  obtain extracted where v: "verify_dice_chain demo_gcr ev = Ok extracted" "encryption_public_key extracted = [4]"
    using generated_evidence [OF demo_generation_laws(1,2,4,3) mock_reports_honest g(1) _ g(2,3)] by auto
  obtain cl req cl' where c: "client_create demo_hpke_crates (encryption_public_key extracted) [3] = Ok cl"
    "client_encrypt demo_hpke_crates cl (replicate 12 0) [5] [6] = Ok (req, cl')"
    unfolding v(2)
    by (simp add: client_create_def setup_base_sender_def client_encrypt_def hpke_steps demo_hpke_crates_def)
  have "\<exists>server. server_decrypt demo_hpke_crates req [4] = Ok (server, [5], [6])"
    using verified_key_reaches_enclave [OF demo_generation_laws(1,2,4,3) mock_reports_honest
        demo_hpke.hpke_scheme_axioms g(1) _ rk g(3) v(1) c] by auto
  with v show ?thesis by blast
qed

end
